(* ===== verification/Prelude.thy ===== *)
theory Prelude
  imports Main "HOL-Library.Sublist" "HOL-Library.Signed_Division"
begin

text \<open>
  The shared vocabulary of the development: the collections its proofs draw on, Go's fixed-width
  integers and durations, results with errors, and the generic lemmas on lists that several
  components use. Nothing here is specific to one component.

  Conventions: a Go \<open>string\<close> is a byte sequence and is modelled as \<^typ>\<open>string\<close>, whose
  characters are bytes; an \<open>error\<close> result is a sum with the error on the left; an \<open>int64\<close> or
  \<open>int\<close> is an \<^typ>\<open>int\<close>, with \<open>wrap64\<close> written wherever an arithmetic result may leave the
  64-bit range; a \<open>time.Time\<close> is its instant in nanoseconds.
\<close>

named_theorems go_simps \<open>evaluation rules for the modelled parts of Go's standard library\<close>
named_theorems inv_intros \<open>preservation of component invariants\<close>

type_synonym ('e, 'a) result = "'e + 'a"
type_synonym instant = int  \<comment> \<open>nanoseconds\<close>
type_synonym duration = int \<comment> \<open>nanoseconds, an \<open>int64\<close> in Go\<close>

section \<open>Results\<close>

definition bind_result :: "('e, 'a) result \<Rightarrow> ('a \<Rightarrow> ('e, 'b) result) \<Rightarrow> ('e, 'b) result" where
  "bind_result r f = (case r of Inl e \<Rightarrow> Inl e | Inr x \<Rightarrow> f x)"

lemma bind_result_simps [simp]:
  "bind_result (Inl e) f = Inl e"
  "bind_result (Inr x) f = f x"
  by (simp_all add: bind_result_def)

lemma bind_result_eq_Inr [simp]:
  "bind_result r f = Inr y \<longleftrightarrow> (\<exists>x. r = Inr x \<and> f x = Inr y)"
  by (cases r) auto

lemma bind_result_eq_Inl: "bind_result r f = Inl e \<longleftrightarrow> r = Inl e \<or> (\<exists>x. r = Inr x \<and> f x = Inl e)"
  by (cases r) auto

fun map_result :: "('a \<Rightarrow> ('e, 'b) result) \<Rightarrow> 'a list \<Rightarrow> ('e, 'b list) result" where
  "map_result f [] = Inr []"
| "map_result f (x # xs) =
     bind_result (f x) (\<lambda>y. bind_result (map_result f xs) (\<lambda>ys. Inr (y # ys)))"

lemma map_result_Inr_iff:
  "map_result f xs = Inr ys \<longleftrightarrow> list_all2 (\<lambda>x y. f x = Inr y) xs ys"
  by (induction xs arbitrary: ys) (auto simp: list_all2_Cons1)

section \<open>Fixed-width integers and durations\<close>

definition max_int64 :: int where "max_int64 = 9223372036854775807"
definition min_int64 :: int where "min_int64 = -9223372036854775808"

text \<open>Two's complement wrap-around of an \<open>int64\<close> result.\<close>

definition wrap64 :: "int \<Rightarrow> int" where
  "wrap64 x = (x + 9223372036854775808) mod 18446744073709551616 - 9223372036854775808"

lemma wrap64_id [simp]: "min_int64 \<le> x \<Longrightarrow> x \<le> max_int64 \<Longrightarrow> wrap64 x = x"
  by (simp add: wrap64_def min_int64_def max_int64_def)

lemma wrap64_range: "min_int64 \<le> wrap64 x \<and> wrap64 x \<le> max_int64"
proof -
  have "0 \<le> (x + 9223372036854775808) mod 18446744073709551616" by simp
  moreover have "(x + 9223372036854775808) mod 18446744073709551616 < 18446744073709551616" by simp
  ultimately show ?thesis unfolding wrap64_def min_int64_def max_int64_def by linarith
qed

text \<open>\<open>Time.Sub\<close> saturates at the \<open>Duration\<close> range; Go's integer division truncates,
  which is \<open>sdiv\<close>.\<close>

definition time_sub :: "instant \<Rightarrow> instant \<Rightarrow> duration" where
  "time_sub a b = max min_int64 (min max_int64 (a - b))"

lemma time_sub_mono: "a \<le> a' \<Longrightarrow> time_sub a b \<le> time_sub a' b"
  by (simp add: time_sub_def)

abbreviation second :: duration where "second \<equiv> 1000000000"
abbreviation minute :: duration where "minute \<equiv> 60000000000"

section \<open>Lists\<close>

fun split_on :: "'a \<Rightarrow> 'a list \<Rightarrow> 'a list list" where
  "split_on c [] = [[]]"
| "split_on c (x # xs) =
     (if x = c then [] # split_on c xs
      else (case split_on c xs of [] \<Rightarrow> [[x]] | y # ys \<Rightarrow> (x # y) # ys))"

fun join_with :: "'a list \<Rightarrow> 'a list list \<Rightarrow> 'a list" where
  "join_with sep [] = []"
| "join_with sep [x] = x"
| "join_with sep (x # y # zs) = x @ sep @ join_with sep (y # zs)"

definition cut_on :: "'a \<Rightarrow> 'a list \<Rightarrow> ('a list \<times> 'a list) option" where
  "cut_on c xs = (if c \<in> set xs
     then Some (takeWhile (\<lambda>x. x \<noteq> c) xs, tl (dropWhile (\<lambda>x. x \<noteq> c) xs)) else None)"

lemma split_on_nonempty [simp]: "split_on c xs \<noteq> []"
  by (induction xs) (auto split: list.splits)

lemma split_on_absent [simp]: "c \<notin> set xs \<Longrightarrow> split_on c xs = [xs]"
  by (induction xs) auto

lemma split_on_append: "c \<notin> set xs \<Longrightarrow> split_on c (xs @ c # ys) = xs # split_on c ys"
  by (induction xs) auto

lemma split_on_join:
  assumes "xs \<noteq> []" and "\<forall>x\<in>set xs. c \<notin> set x"
  shows "split_on c (join_with [c] xs) = xs"
  using assms by (induction "[c]" xs rule: join_with.induct) (auto simp: split_on_append)

lemma split_on_no_sep: "p \<in> set (split_on c xs) \<Longrightarrow> c \<notin> set p"
proof (induction xs arbitrary: p)
  case (Cons x xs)
  then show ?case by (cases "split_on c xs") (auto split: if_splits)
qed simp

lemma cut_on_append [simp]: "c \<notin> set xs \<Longrightarrow> cut_on c (xs @ c # ys) = Some (xs, ys)"
  by (induction xs) (auto simp: cut_on_def)

lemma cut_on_Some: "cut_on c xs = Some (a, b) \<longleftrightarrow> xs = a @ c # b \<and> c \<notin> set a"
proof
  assume h: "cut_on c xs = Some (a, b)"
  then have "c \<in> set xs" by (simp add: cut_on_def split: if_splits)
  then obtain ys zs where "xs = ys @ c # zs" "c \<notin> set ys" by (meson split_list_first)
  with h show "xs = a @ c # b \<and> c \<notin> set a" by simp
qed simp

lemma cut_on_None [simp]: "c \<notin> set xs \<Longrightarrow> cut_on c xs = None"
  by (simp add: cut_on_def)

lemma nth_update_same: "f t = f (xs ! a) \<Longrightarrow> f (xs[a := t] ! b) = f (xs ! b)"
  by (cases "a = b"; cases "a < length xs") (auto simp: list_update_beyond)

lemma list_all2_in_set2:
  assumes "list_all2 P xs ys" and "y \<in> set ys"
  obtains x where "x \<in> set xs" and "P x y"
  using assms by (metis list_all2_conv_all_nth in_set_conv_nth)

lemma list_all2_same_length_map:
  "list_all2 (\<lambda>x y. y = f x) xs ys \<longleftrightarrow> ys = map f xs"
  by (induction xs arbitrary: ys) (auto simp: list_all2_Cons1)

section \<open>State machines driven by operation sequences\<close>

text \<open>
  The components with state share one contract: a step takes the state and an operation to a new
  state with outputs, a run is the sequence of steps, and an invariant holds throughout. The locales
  state the contract once; each component interprets them on its own step and run functions.
\<close>

locale machine =
  fixes step :: "'s \<Rightarrow> 'op \<Rightarrow> 's \<times> 'out list"
    and run :: "'s \<Rightarrow> 'op list \<Rightarrow> 's \<times> 'out list"
    and inv :: "'s \<Rightarrow> bool"
  assumes run_Nil: "run s [] = (s, [])"
    and run_Cons: "run s (x # xs) =
      (let (s1, o1) = step s x; (s2, o2) = run s1 xs in (s2, o1 @ o2))"
    and step_inv: "inv s \<Longrightarrow> inv (fst (step s x))"
begin

lemma fst_run_Cons: "fst (run s (x # xs)) = fst (run (fst (step s x)) xs)"
  by (simp add: run_Cons split: prod.splits)

lemma snd_run_Cons: "snd (run s (x # xs)) = snd (step s x) @ snd (run (fst (step s x)) xs)"
  by (simp add: run_Cons split: prod.splits)

lemma run_snoc: "run s (xs @ [x]) =
    (fst (step (fst (run s xs)) x), snd (run s xs) @ snd (step (fst (run s xs)) x))"
  by (induction xs arbitrary: s) (simp_all add: run_Nil run_Cons split: prod.splits)

lemma run_inv: "inv s \<Longrightarrow> inv (fst (run s xs))"
  by (induction xs arbitrary: s) (simp_all add: run_Nil fst_run_Cons step_inv)

end

text \<open>A relation every step respects relates the ends of a run.\<close>

locale monotone_machine = machine +
  fixes rel :: "'s \<Rightarrow> 's \<Rightarrow> bool"
  assumes rel_refl: "rel s s"
    and rel_trans: "rel s t \<Longrightarrow> rel t u \<Longrightarrow> rel s u"
    and step_rel: "inv s \<Longrightarrow> rel s (fst (step s x))"
begin

lemma run_rel: "inv s \<Longrightarrow> rel s (fst (run s xs))"
proof (induction xs arbitrary: s)
  case Nil
  then show ?case by (simp add: run_Nil rel_refl)
next
  case (Cons x xs)
  then show ?case
    using step_rel[of s x] step_inv[of s x] by (auto simp: fst_run_Cons intro: rel_trans)
qed

end

text \<open>A view of the state to which every step appends the operation's contribution.\<close>

locale ledger_machine = machine +
  fixes view :: "'s \<Rightarrow> 'x list"
    and contribution :: "'op \<Rightarrow> 'x list"
  assumes step_view: "inv s \<Longrightarrow> view (fst (step s x)) = view s @ contribution x"
begin

lemma run_view: "inv s \<Longrightarrow> view (fst (run s xs)) = view s @ concat (map contribution xs)"
  by (induction xs arbitrary: s) (simp_all add: run_Nil fst_run_Cons step_inv step_view)

end

text \<open>Outputs that can be produced only once: producing one spends its key, and a spent key stays
  spent.\<close>

locale once_machine = machine +
  fixes key :: "'out \<Rightarrow> 'k"
    and spent :: "'s \<Rightarrow> 'k \<Rightarrow> bool"
  assumes step_keys: "inv s \<Longrightarrow> distinct (map key (snd (step s x)))"
    and step_spends: "inv s \<Longrightarrow> y \<in> set (snd (step s x)) \<Longrightarrow>
      \<not> spent s (key y) \<and> spent (fst (step s x)) (key y)"
    and step_keeps: "inv s \<Longrightarrow> spent s k \<Longrightarrow> spent (fst (step s x)) k"
begin

lemma run_unspent: "inv s \<Longrightarrow> y \<in> set (snd (run s xs)) \<Longrightarrow> \<not> spent s (key y)"
proof (induction xs arbitrary: s)
  case (Cons x xs)
  then show ?case
    using step_spends[of s y x] step_keeps[of s "key y" x] step_inv[of s x] by (auto simp: snd_run_Cons)
qed (simp add: run_Nil)

lemma run_once: "inv s \<Longrightarrow> distinct (map key (snd (run s xs)))"
proof (induction xs arbitrary: s)
  case (Cons x xs)
  let ?s = "fst (step s x)"
  have inv: "inv ?s" using Cons.prems by (rule step_inv)
  have apart: "key y \<noteq> key z" if "y \<in> set (snd (step s x))" "z \<in> set (snd (run ?s xs))" for y z
    using run_unspent[OF inv that(2)] step_spends[OF Cons.prems that(1)] by metis
  have "key ` set (snd (step s x)) \<inter> key ` set (snd (run ?s xs)) = {}"
    using apart by (force simp: image_iff)
  then show ?case
    using Cons.IH[OF inv] step_keys[OF Cons.prems] by (auto simp: snd_run_Cons)
qed (simp add: run_Nil)

end

end
