(* ===== verification/GoStrings.thy ===== *)
theory GoStrings
  imports Prelude
begin

text \<open>
  The parts of Go's \<open>strings\<close> and \<open>strconv\<close> packages the components use, on byte strings.
  White space is trimmed at the byte level: a code point of Unicode's White_Space property is
  stripped exactly where its UTF-8 encoding is a prefix (or suffix), which is what decoding one rune
  and testing \<open>unicode.IsSpace\<close> does. Case mapping takes Go's ASCII fast path; on a string with a
  byte of 128 or more it consults the Unicode tables, a parameter of the model.
\<close>

section \<open>Bytes\<close>

abbreviation byte :: "char \<Rightarrow> nat" where "byte \<equiv> of_char"

definition is_ascii :: "string \<Rightarrow> bool" where
  "is_ascii s \<longleftrightarrow> list_all (\<lambda>c. byte c < 128) s"

definition is_digit :: "char \<Rightarrow> bool" where
  "is_digit c \<longleftrightarrow> 48 \<le> byte c \<and> byte c \<le> 57"

definition ascii_lower :: "char \<Rightarrow> char" where
  "ascii_lower c = (if 65 \<le> byte c \<and> byte c \<le> 90 then char_of (byte c + 32) else c)"

text \<open>The Unicode tables of the \<open>unicode\<close> package, for strings with a byte of 128 or more.\<close>

record unicode =
  u_lower :: "string \<Rightarrow> string"            \<comment> \<open>\<open>strings.ToLower\<close>\<close>
  u_equal_fold :: "string \<Rightarrow> string \<Rightarrow> bool"  \<comment> \<open>\<open>strings.EqualFold\<close>\<close>
  u_word_rune :: "nat \<Rightarrow> bool"             \<comment> \<open>\<open>unicode.IsLetter\<close> or \<open>unicode.IsDigit\<close>\<close>

definition to_lower :: "unicode \<Rightarrow> string \<Rightarrow> string" where
  "to_lower u s = (if is_ascii s then map ascii_lower s else u_lower u s)"

definition equal_fold :: "unicode \<Rightarrow> string \<Rightarrow> string \<Rightarrow> bool" where
  "equal_fold u s t = (if is_ascii s \<and> is_ascii t
     then map ascii_lower s = map ascii_lower t else u_equal_fold u s t)"

section \<open>White space\<close>

definition space_encodings :: "string list" where
  "space_encodings =
     map (\<lambda>n. [char_of n]) [9, 10, 11, 12, 13, 32::nat] @
     map (map char_of)
       ([[194, 133], [194, 160], [225, 154, 128],
         [226, 128, 168], [226, 128, 169], [226, 128, 175], [226, 129, 159],
         [227, 128, 128::nat]] @
        map (\<lambda>n. [226, 128, n]) [128 ..< 139])"

fun strip_prefix_of :: "string list \<Rightarrow> string \<Rightarrow> string option" where
  "strip_prefix_of [] s = None"
| "strip_prefix_of (p # ps) s =
     (if p \<noteq> [] \<and> prefix p s then Some (drop (length p) s) else strip_prefix_of ps s)"

lemma strip_prefix_of_shorter: "strip_prefix_of ps s = Some t \<Longrightarrow> length t < length s"
  by (induction ps s rule: strip_prefix_of.induct)
     (auto split: if_splits simp: prefix_def)

function trim_left_by :: "string list \<Rightarrow> string \<Rightarrow> string" where
  "trim_left_by ps s = (case strip_prefix_of ps s of None \<Rightarrow> s | Some t \<Rightarrow> trim_left_by ps t)"
  by pat_completeness auto
termination
  by (relation "measure (\<lambda>(ps, s). length s)") (auto dest: strip_prefix_of_shorter)

declare trim_left_by.simps [simp del]

definition trim_left :: "string \<Rightarrow> string" where
  "trim_left s = trim_left_by space_encodings s"

definition trim_right :: "string \<Rightarrow> string" where
  "trim_right s = rev (trim_left_by (map rev space_encodings) (rev s))"

definition trim_space :: "string \<Rightarrow> string" where
  "trim_space s = trim_right (trim_left s)"

section \<open>Searching, numbers\<close>

fun index_of :: "string \<Rightarrow> string \<Rightarrow> nat option" where
  "index_of pat [] = (if pat = [] then Some 0 else None)"
| "index_of pat (x # xs) =
     (if prefix pat (x # xs) then Some 0 else map_option Suc (index_of pat xs))"

abbreviation contains_str :: "string \<Rightarrow> string \<Rightarrow> bool" where
  "contains_str s pat \<equiv> sublist pat s"

definition two_digit_value :: "string \<Rightarrow> int" where
  "two_digit_value s = (case s of [a, b] \<Rightarrow> int (byte a - 48) * 10 + int (byte b - 48) | _ \<Rightarrow> 0)"

fun decimal_nat :: "nat \<Rightarrow> string" where
  "decimal_nat n = (if n < 10 then [char_of (48 + n)]
     else decimal_nat (n div 10) @ [char_of (48 + n mod 10)])"

declare decimal_nat.simps [simp del]

definition FormatInt :: "int \<Rightarrow> string" where
  "FormatInt i = (if i < 0 then ''-'' @ decimal_nat (nat (- i)) else decimal_nat (nat i))"

section \<open>UTF-8\<close>

text \<open>The number of bytes of the well-formed code point at the head of a string, 0 when there is none
  (\<open>utf8.DecodeRune\<close> then yields the replacement character with width 1).\<close>

definition cont :: "nat \<Rightarrow> nat \<Rightarrow> string \<Rightarrow> bool" where
  "cont lo hi s \<longleftrightarrow> (case s of [] \<Rightarrow> False | c # _ \<Rightarrow> lo \<le> byte c \<and> byte c \<le> hi)"

definition rune_width :: "string \<Rightarrow> nat" where
  "rune_width s = (case s of [] \<Rightarrow> 0
     | c # t \<Rightarrow>
        let b = byte c; tail1 = cont 128 191 (drop 1 t); tail2 = tail1 \<and> cont 128 191 (drop 2 t) in
        if b < 128 then 1
        else if 194 \<le> b \<and> b \<le> 223 then (if cont 128 191 t then 2 else 0)
        else if b = 224 then (if cont 160 191 t \<and> tail1 then 3 else 0)
        else if b = 237 then (if cont 128 159 t \<and> tail1 then 3 else 0)
        else if 225 \<le> b \<and> b \<le> 239 then (if cont 128 191 t \<and> tail1 then 3 else 0)
        else if b = 240 then (if cont 144 191 t \<and> tail2 then 4 else 0)
        else if 241 \<le> b \<and> b \<le> 243 then (if cont 128 191 t \<and> tail2 then 4 else 0)
        else if b = 244 then (if cont 128 143 t \<and> tail2 then 4 else 0)
        else 0)"

text \<open>\<open>strings.ToValidUTF8(s, "")\<close>.\<close>

function to_valid_utf8 :: "string \<Rightarrow> string" where
  "to_valid_utf8 s = (if s = [] then []
     else if rune_width s = 0 then to_valid_utf8 (tl s)
     else take (rune_width s) s @ to_valid_utf8 (drop (rune_width s) s))"
  by pat_completeness auto
termination by (relation "measure length") auto

declare to_valid_utf8.simps [simp del]

lemma length_to_valid_utf8: "length (to_valid_utf8 s) \<le> length s"
proof (induction s rule: to_valid_utf8.induct)
  case (1 s)
  consider "s = []" | "s \<noteq> []" "rune_width s = 0" | "s \<noteq> []" "rune_width s \<noteq> 0" by blast
  then show ?case
  proof cases
    case 2
    then show ?thesis using 1(1) by (subst to_valid_utf8.simps) simp
  next
    case 3
    then show ?thesis
      using 1(2) by (subst to_valid_utf8.simps) (cases "rune_width s \<le> length s"; simp)
  qed (simp add: to_valid_utf8.simps)
qed

section \<open>Laws\<close>

lemma ascii_lower_idem [simp]: "ascii_lower (ascii_lower c) = ascii_lower c"
  by (auto simp: ascii_lower_def)

lemma is_ascii_simps [simp]:
  "is_ascii []"
  "is_ascii (c # s) \<longleftrightarrow> byte c < 128 \<and> is_ascii s"
  "is_ascii (s @ t) \<longleftrightarrow> is_ascii s \<and> is_ascii t"
  by (auto simp: is_ascii_def)

lemma digit_ascii [simp]: "is_digit c \<Longrightarrow> byte c < 128"
  by (simp add: is_digit_def)

lemma digit_lower [simp]: "is_digit c \<Longrightarrow> ascii_lower c = c"
  by (simp add: is_digit_def ascii_lower_def)

lemma space_encodings_not_nil [simp]: "[] \<notin> set space_encodings"
  by (auto simp: space_encodings_def)

text \<open>The first (last) byte of the encoding of a white-space code point.\<close>

definition space_head :: "char \<Rightarrow> bool" where
  "space_head c \<longleftrightarrow> byte c \<in> {9, 10, 11, 12, 13, 32, 194, 225, 226, 227}"

definition space_last :: "char \<Rightarrow> bool" where
  "space_last c \<longleftrightarrow> byte c \<in> {9, 10, 11, 12, 13, 32} \<or> 128 \<le> byte c"

lemma space_encodings_heads: "p \<in> set space_encodings \<Longrightarrow> space_head (hd p) \<and> space_last (last p)"
  by (auto simp: space_encodings_def space_head_def space_last_def)

lemma strip_prefix_of_None:
  "(\<And>p. p \<in> set ps \<Longrightarrow> p \<noteq> [] \<Longrightarrow> hd p \<noteq> c) \<Longrightarrow> strip_prefix_of ps (c # s) = None"
  by (induction ps) (fastforce simp: prefix_Cons)+

lemma trim_left_by_id: "strip_prefix_of ps s = None \<Longrightarrow> trim_left_by ps s = s"
  by (simp add: trim_left_by.simps)

lemma strip_prefix_of_Nil [simp]: "strip_prefix_of ps [] = None"
  by (induction ps) auto

lemma trim_left_id: "s = [] \<or> \<not> space_head (hd s) \<Longrightarrow> trim_left s = s"
proof (cases s)
  case (Cons c t)
  assume "s = [] \<or> \<not> space_head (hd s)"
  with Cons show ?thesis
    using space_encodings_heads
    by (auto simp: trim_left_def intro!: trim_left_by_id strip_prefix_of_None)
qed (simp add: trim_left_def trim_left_by_id)

lemma trim_left_blank [simp]: "trim_left (CHR '' '' # s) = trim_left s"
proof -
  have "strip_prefix_of space_encodings (CHR '' '' # s) = Some s"
    by (simp add: space_encodings_def char_of_eq_iff prefix_Cons)
  then show ?thesis unfolding trim_left_def by (subst trim_left_by.simps) simp
qed

lemma trim_right_id: "s = [] \<or> \<not> space_last (last s) \<Longrightarrow> trim_right s = s"
proof (cases s rule: rev_cases)
  case (snoc t c)
  assume "s = [] \<or> \<not> space_last (last s)"
  with snoc have c: "\<not> space_last c" by simp
  have "strip_prefix_of (map rev space_encodings) (c # rev t) = None"
  proof (rule strip_prefix_of_None)
    fix p assume "p \<in> set (map rev space_encodings)" "p \<noteq> []"
    then obtain q where "q \<in> set space_encodings" "p = rev q" "q \<noteq> []" by auto
    then show "hd p \<noteq> c" using c space_encodings_heads by (auto simp: hd_rev)
  qed
  with snoc show ?thesis by (simp add: trim_right_def trim_left_by_id)
qed (simp add: trim_right_def trim_left_by_id)

lemma trim_space_id [go_simps]:
  "s \<noteq> [] \<Longrightarrow> \<not> space_head (hd s) \<Longrightarrow> \<not> space_last (last s) \<Longrightarrow> trim_space s = s"
  by (simp add: trim_space_def trim_left_id trim_right_id)

lemma trim_space_Nil [simp]: "trim_space [] = []"
  by (simp add: trim_space_def trim_left_id trim_right_id)

lemma digit_not_space [simp]: "is_digit c \<Longrightarrow> \<not> space_head c" "is_digit c \<Longrightarrow> \<not> space_last c"
  by (auto simp: is_digit_def space_head_def space_last_def)

subsection \<open>Decimal numbers\<close>

definition dec_value :: "string \<Rightarrow> nat" where
  "dec_value s = foldl (\<lambda>acc c. acc * 10 + (byte c - 48)) 0 s"

lemma dec_value_decimal [simp]: "dec_value (decimal_nat n) = n"
proof (induction n rule: decimal_nat.induct)
  case (1 n)
  then show ?case
    by (subst decimal_nat.simps) (simp add: dec_value_def)
qed

lemma decimal_nat_digits: "c \<in> set (decimal_nat n) \<Longrightarrow> is_digit c"
proof (induction n rule: decimal_nat.induct)
  case (1 n)
  then show ?case
    by (subst (asm) decimal_nat.simps) (auto simp: is_digit_def split: if_splits)
qed

lemma decimal_nat_nonempty [simp]: "decimal_nat n \<noteq> []"
  by (subst decimal_nat.simps) simp

lemma decimal_nat_inject [simp]: "decimal_nat m = decimal_nat n \<longleftrightarrow> m = n"
  by (metis dec_value_decimal)

lemma FormatInt_chars: "c \<in> set (FormatInt i) \<Longrightarrow> is_digit c \<or> c = CHR ''-''"
  by (auto simp: FormatInt_def dest: decimal_nat_digits split: if_splits)

lemma FormatInt_inject [simp]: "FormatInt i = FormatInt j \<longleftrightarrow> i = j"
proof -
  have minus: "\<not> is_digit CHR ''-''" by (simp add: is_digit_def)
  have neq: "CHR ''-'' # s \<noteq> decimal_nat n" for s n
    using decimal_nat_digits[of "CHR ''-''" n] minus by (metis list.set_intros(1))
  show ?thesis using neq neq[symmetric] by (auto simp: FormatInt_def)
qed

end
