(* ===== verification/Schedule.thy ===== *)
theory Schedule
  imports GoStrings
begin

text \<open>
  Working hours of an assistant install (\<open>internal/agent/schedule/schedule.go\<close>): parsing of window
  texts, the stored form, and the test whether an instant falls in a window. The embedded time zone
  database is not part of the repository: a lookup function \<open>load\<close> from zone names to locations is
  a parameter, and a location is its name with its UTC offset (in seconds) at every instant.
\<close>

section \<open>Data\<close>

datatype weekday = Sunday | Monday | Tuesday | Wednesday | Thursday | Friday | Saturday

fun day_index :: "weekday \<Rightarrow> int" where
  "day_index Sunday = 0" | "day_index Monday = 1" | "day_index Tuesday = 2"
| "day_index Wednesday = 3" | "day_index Thursday = 4" | "day_index Friday = 5"
| "day_index Saturday = 6"

definition weekday_of :: "int \<Rightarrow> weekday" where
  "weekday_of n = (let k = n mod 7 in
     if k = 0 then Sunday else if k = 1 then Monday else if k = 2 then Tuesday
     else if k = 3 then Wednesday else if k = 4 then Thursday else if k = 5 then Friday
     else Saturday)"

definition days_table :: "(string \<times> weekday) list" where
  "days_table = [(''sun'', Sunday), (''mon'', Monday), (''tue'', Tuesday), (''wed'', Wednesday),
     (''thu'', Thursday), (''fri'', Friday), (''sat'', Saturday)]"

record window =
  days :: "weekday \<Rightarrow> bool"
  start_min :: int
  end_min :: int
  spec :: string

record location =
  loc_name :: string
  loc_offset :: "int \<Rightarrow> int"

record hours =
  loc :: location
  windows :: "window list"

datatype sched_error =
    TimezoneRequired
  | TimezoneLocal
  | UnknownTimezone string
  | NoWindow
  | WindowShape string
  | UnknownDay string
  | TimesShape string
  | BadTime string string
  | EmptyWindow string

section \<open>Operations\<close>

definition two_digits :: "string \<Rightarrow> bool" where
  "two_digits s \<longleftrightarrow> length s = 2 \<and> is_digit (s ! 0) \<and> is_digit (s ! 1)"

text \<open>The error of \<open>clock\<close> carries the offending text only; \<open>parseWindow\<close> adds the window.\<close>

definition clock :: "string \<Rightarrow> bool \<Rightarrow> (string, int) result" where
  "clock s end =
     (case cut_on CHR '':'' s of
        None \<Rightarrow> Inl s
      | Some (hh, mm) \<Rightarrow>
          if \<not> two_digits hh \<or> \<not> two_digits mm then Inl s
          else
            let h = two_digit_value hh; m = two_digit_value mm in
            if m > 59 then Inl s
            else if h = 24 \<and> m = 0 \<and> end then Inr (24 * 60)
            else if h > 23 then Inl s
            else Inr (h * 60 + m))"

text \<open>The loop over the days of a range, which may wrap around the week.\<close>

function mark_days :: "weekday \<Rightarrow> weekday \<Rightarrow> (weekday \<Rightarrow> bool) \<Rightarrow> weekday \<Rightarrow> bool" where
  "mark_days d d1 ws =
     (let ws' = ws(d := True) in
      if d = d1 then ws' else mark_days (weekday_of (day_index d + 1)) d1 ws')"
  by pat_completeness auto
termination
proof (relation "measure (\<lambda>(d, d1, ws). nat ((day_index d1 - day_index d) mod 7))")
  fix d d1 :: weekday and ws x :: "weekday \<Rightarrow> bool"
  assume "d \<noteq> d1"
  then show "((weekday_of (day_index d + 1), d1, x), (d, d1, ws))
    \<in> measure (\<lambda>(d, d1, ws). nat ((day_index d1 - day_index d) mod 7))"
    by (cases d; cases d1; simp add: weekday_of_def)
qed simp

declare mark_days.simps [simp del]

definition parseWindow :: "unicode \<Rightarrow> string \<Rightarrow> (sched_error, window) result" where
  "parseWindow u raw =
     (case cut_on CHR '' '' (to_lower u (trim_space raw)) of
        None \<Rightarrow> Inl (WindowShape raw)
      | Some (dayPart, timePart) \<Rightarrow>
          let (first, last) = (case cut_on CHR ''-'' dayPart of
                 None \<Rightarrow> (dayPart, dayPart) | Some fl \<Rightarrow> fl) in
          (case (map_of days_table first, map_of days_table last) of
             (Some d0, Some d1) \<Rightarrow>
               (case cut_on CHR ''-'' (trim_space timePart) of
                  None \<Rightarrow> Inl (TimesShape raw)
                | Some (from, to) \<Rightarrow>
                    (case clock from False of
                       Inl s \<Rightarrow> Inl (BadTime raw s)
                     | Inr st \<Rightarrow>
                         (case clock to True of
                            Inl s \<Rightarrow> Inl (BadTime raw s)
                          | Inr en \<Rightarrow>
                              if st = en then Inl (EmptyWindow raw)
                              else Inr \<lparr>days = mark_days d0 d1 (\<lambda>_. False),
                                        start_min = st, end_min = en,
                                        spec = dayPart @ '' '' @ from @ ''-'' @ to\<rparr>)))
           | _ \<Rightarrow> Inl (UnknownDay raw)))"

definition Parse :: "unicode \<Rightarrow> (string \<rightharpoonup> location) \<Rightarrow> string \<Rightarrow> string list \<Rightarrow> (sched_error, hours) result" where
  "Parse u load timezone hs =
     (if trim_space timezone = [] then Inl TimezoneRequired
      else if timezone = ''Local'' then Inl TimezoneLocal
      else (case load timezone of
              None \<Rightarrow> Inl (UnknownTimezone timezone)
            | Some l \<Rightarrow>
                if hs = [] then Inl NoWindow
                else bind_result (map_result (parseWindow u) hs)
                       (\<lambda>ws. Inr \<lparr>loc = l, windows = ws\<rparr>)))"

text \<open>The wall clock of an instant in a location: weekday and minute of the day.\<close>

definition local_seconds :: "location \<Rightarrow> instant \<Rightarrow> int" where
  "local_seconds l t = t div second + loc_offset l (t div second)"

definition local_weekday :: "location \<Rightarrow> instant \<Rightarrow> weekday" where
  "local_weekday l t = weekday_of (local_seconds l t div 86400 + 4)"

definition local_minute :: "location \<Rightarrow> instant \<Rightarrow> int" where
  "local_minute l t = (local_seconds l t mod 86400) div 60"

definition window_contains :: "weekday \<Rightarrow> int \<Rightarrow> window \<Rightarrow> bool" where
  "window_contains day m w =
     (if start_min w < end_min w
      then days w day \<and> m \<ge> start_min w \<and> m < end_min w
      else (days w day \<and> m \<ge> start_min w) \<or>
           (days w (weekday_of (day_index day + 6)) \<and> m < end_min w))"

definition Contains :: "hours \<Rightarrow> instant \<Rightarrow> bool" where
  "Contains h t =
     list_ex (window_contains (local_weekday (loc h) t) (local_minute (loc h) t)) (windows h)"

definition hours_String :: "hours \<Rightarrow> string" where
  "hours_String h = join_with '';'' (loc_name (loc h) # map spec (windows h))"

definition ParseStored :: "unicode \<Rightarrow> (string \<rightharpoonup> location) \<Rightarrow> string \<Rightarrow> (sched_error, hours) result" where
  "ParseStored u load s =
     (let parts = split_on CHR '';'' s in Parse u load (hd parts) (tl parts))"

section \<open>What a window means\<close>

definition wf_window :: "window \<Rightarrow> bool" where
  "wf_window w \<longleftrightarrow> 0 \<le> start_min w \<and> start_min w < 1440 \<and> 0 \<le> end_min w \<and> end_min w \<le> 1440
     \<and> start_min w \<noteq> end_min w \<and> (\<exists>d. days w d)"

definition window_length :: "window \<Rightarrow> int" where
  "window_length w = (if start_min w < end_min w then end_min w - start_min w
     else 1440 - start_min w + end_min w)"

text \<open>A window as circular intervals of the week's 10080 minutes, one per start day.\<close>

definition covers :: "window \<Rightarrow> int \<Rightarrow> bool" where
  "covers w mow \<longleftrightarrow> (\<exists>d. days w d \<and>
     (mow - (day_index d * 1440 + start_min w)) mod 10080 < window_length w)"

definition minute_of_week :: "location \<Rightarrow> instant \<Rightarrow> int" where
  "minute_of_week l t = day_index (local_weekday l t) * 1440 + local_minute l t"

text \<open>The documented behaviour of a time zone lookup: the location keeps the name it was looked up
  by, and no zone name holds the stored form's separator.\<close>

definition zone_db :: "(string \<rightharpoonup> location) \<Rightarrow> bool" where
  "zone_db load \<longleftrightarrow> (\<forall>n l. n \<noteq> [] \<longrightarrow> load n = Some l \<longrightarrow> loc_name l = n \<and> CHR '';'' \<notin> set n)"

section \<open>Lemmas\<close>

lemma day_index_range: "0 \<le> day_index d \<and> day_index d \<le> 6"
  by (cases d) auto

lemma weekday_of_index [simp]: "weekday_of (day_index d) = d"
  by (cases d) (auto simp: weekday_of_def)

lemma day_index_weekday_of [simp]: "day_index (weekday_of n) = n mod 7"
proof -
  have "n mod 7 \<in> {0, 1, 2, 3, 4, 5, 6}" by auto
  then show ?thesis by (auto simp: weekday_of_def Let_def)
qed

text \<open>The loop marks exactly the cyclic range from the first to the last day.\<close>

lemma mark_days_range:
  "mark_days d0 d1 (\<lambda>_. False) x \<longleftrightarrow>
     (day_index x - day_index d0) mod 7 \<le> (day_index d1 - day_index d0) mod 7"
  by (cases d0; cases d1; cases x; simp add: mark_days.simps weekday_of_def)

lemma mark_days_first: "mark_days d d1 (\<lambda>_. False) d"
  by (simp add: mark_days_range)

lemma day_name:
  assumes "map_of days_table s = Some d"
  shows "s \<noteq> []" "CHR '' '' \<notin> set s" "CHR ''-'' \<notin> set s" "CHR '';'' \<notin> set s"
    "is_ascii s" "map ascii_lower s = s" "\<not> space_head (hd s)"
  using assms
  by (auto simp: days_table_def ascii_lower_def space_head_def split: if_splits)

lemma two_digits_conv: "two_digits s \<longleftrightarrow> (\<exists>a b. s = [a, b] \<and> is_digit a \<and> is_digit b)"
  by (auto simp: two_digits_def length_Suc_conv numeral_2_eq_2)

lemma two_digit_value_range: "two_digits s \<Longrightarrow> 0 \<le> two_digit_value s \<and> two_digit_value s \<le> 99"
  by (auto simp: two_digits_conv two_digit_value_def is_digit_def)

lemma clock_Inr:
  assumes "clock s e = Inr m"
  shows "\<exists>a b c d. s = [a, b, CHR '':'', c, d] \<and> is_digit a \<and> is_digit b \<and> is_digit c \<and> is_digit d"
    and "0 \<le> m" and "m \<le> 1440" and "\<not> e \<Longrightarrow> m < 1440"
  using assms two_digit_value_range
  by (auto simp: clock_def cut_on_Some two_digits_conv Let_def split: option.splits if_splits)

text \<open>What an accepted window text looks like, and that its canonical text parses to itself.\<close>

lemma parseWindow_cases:
  assumes "parseWindow u raw = Inr w"
  obtains dayPart fday lday d0 d1 t1 t2 st en where
    "fday = dayPart \<and> lday = dayPart \<and> CHR ''-'' \<notin> set dayPart \<or> cut_on CHR ''-'' dayPart = Some (fday, lday)"
    "map_of days_table fday = Some d0" "map_of days_table lday = Some d1"
    "clock t1 False = Inr st" "clock t2 True = Inr en" "st \<noteq> en"
    "w = \<lparr>days = mark_days d0 d1 (\<lambda>_. False), start_min = st, end_min = en,
          spec = dayPart @ '' '' @ t1 @ ''-'' @ t2\<rparr>"
proof -
  obtain dp tp where dp: "cut_on CHR '' '' (to_lower u (trim_space raw)) = Some (dp, tp)"
    using assms by (auto simp: parseWindow_def split: option.splits)
  obtain f l where fl: "(case cut_on CHR ''-'' dp of None \<Rightarrow> (dp, dp) | Some fl \<Rightarrow> fl) = (f, l)"
    by (meson surj_pair)
  then have day: "f = dp \<and> l = dp \<and> CHR ''-'' \<notin> set dp \<or> cut_on CHR ''-'' dp = Some (f, l)"
    by (auto simp: cut_on_def split: option.splits if_splits)
  obtain d0 d1 where d: "map_of days_table f = Some d0" "map_of days_table l = Some d1"
    using assms dp fl by (auto simp: parseWindow_def split: option.splits)
  obtain t1 t2 where t: "cut_on CHR ''-'' (trim_space tp) = Some (t1, t2)"
    using assms dp fl d by (auto simp: parseWindow_def split: option.splits)
  obtain st en where c: "clock t1 False = Inr st" "clock t2 True = Inr en"
    using assms dp fl d t by (auto simp: parseWindow_def split: sum.splits)
  show thesis
    using assms dp fl d t c by (intro that[OF day d c]) (auto simp: parseWindow_def split: if_splits)
qed

lemma parseWindow_wf: "parseWindow u raw = Inr w \<Longrightarrow> wf_window w"
  by (erule parseWindow_cases) (auto simp: wf_window_def intro: clock_Inr mark_days_first)

lemma day_part:
  assumes "fday = dp \<and> lday = dp \<and> CHR ''-'' \<notin> set dp \<or> cut_on CHR ''-'' dp = Some (fday, lday)"
    and "map_of days_table fday = Some d0" and "map_of days_table lday = Some d1"
  shows "CHR '' '' \<notin> set dp" "CHR '';'' \<notin> set dp" "is_ascii dp" "map ascii_lower dp = dp"
    "dp \<noteq> []" "\<not> space_head (hd dp)"
  using assms day_name[OF assms(2)] day_name[OF assms(3)]
  by (auto simp: cut_on_Some ascii_lower_def hd_append)

lemma clock_text:
  assumes "clock s e = Inr m"
  shows "CHR ''-'' \<notin> set s" "CHR '' '' \<notin> set s" "CHR '';'' \<notin> set s" "is_ascii s"
    "map ascii_lower s = s" "s \<noteq> []" "\<not> space_head (hd s)" "\<not> space_last (last s)"
  using clock_Inr(1)[OF assms]
  by (auto simp: ascii_lower_def is_digit_def space_head_def space_last_def)

lemma parseWindow_spec:
  assumes "parseWindow u raw = Inr w"
  shows "parseWindow u (spec w) = Inr w \<and> CHR '';'' \<notin> set (spec w)"
  using assms
proof (rule parseWindow_cases)
  fix dp fday lday d0 d1 t1 t2 st en
  assume h: "fday = dp \<and> lday = dp \<and> CHR ''-'' \<notin> set dp \<or> cut_on CHR ''-'' dp = Some (fday, lday)"
    "map_of days_table fday = Some d0" "map_of days_table lday = Some d1"
    "clock t1 False = Inr st" "clock t2 True = Inr en" "st \<noteq> en"
    and w: "w = \<lparr>days = mark_days d0 d1 (\<lambda>_. False), start_min = st, end_min = en,
      spec = dp @ '' '' @ t1 @ ''-'' @ t2\<rparr>"
  note dp = day_part[OF h(1-3)] and fr = clock_text[OF h(4)] and tt = clock_text[OF h(5)]
  have tp: "trim_space (t1 @ ''-'' @ t2) = t1 @ ''-'' @ t2"
    using fr tt by (intro trim_space_id) auto
  have "trim_space (spec w) = spec w"
    using dp fr tt w by (intro trim_space_id) (auto simp: hd_append)
  moreover have "to_lower u (spec w) = spec w"
    using dp fr tt w by (simp add: to_lower_def ascii_lower_def)
  moreover have "cut_on CHR '' '' (spec w) = Some (dp, t1 @ ''-'' @ t2)"
    using dp w by (simp add: cut_on_Some)
  moreover have "(case cut_on CHR ''-'' dp of None \<Rightarrow> (dp, dp) | Some fl \<Rightarrow> fl) = (fday, lday)"
    using h(1) by auto
  moreover have "cut_on CHR ''-'' (t1 @ ''-'' @ t2) = Some (t1, t2)"
    using fr by (simp add: cut_on_Some)
  ultimately have "parseWindow u (spec w) = Inr w"
    using h w by (simp add: parseWindow_def tp[simplified])
  then show ?thesis using dp fr tt w by simp
qed

lemma Parse_Inr:
  assumes "Parse u load tz hs = Inr h"
  shows "trim_space tz \<noteq> []" "tz \<noteq> ''Local''" "load tz = Some (loc h)" "hs \<noteq> []"
    "list_all2 (\<lambda>raw w. parseWindow u raw = Inr w) hs (windows h)"
  using assms by (auto simp: Parse_def map_result_Inr_iff split: if_splits option.splits)

section \<open>Properties\<close>

text \<open>Claim C36. The stored form of working hours reads back: whatever \<open>Parse\<close> accepts,
  \<open>ParseStored\<close> of its \<open>String\<close> is the same zone with the same windows.\<close>

theorem parse_stored_roundtrip:
  assumes db: "zone_db load" and p: "Parse u load tz hs = Inr h"
  shows "ParseStored u load (hours_String h) = Inr h"
proof -
  note ps = Parse_Inr[OF p]
  have "tz \<noteq> []" using ps(1) by auto
  with db ps(3) have nm: "loc_name (loc h) = tz" and semi: "CHR '';'' \<notin> set tz"
    by (auto simp: zone_db_def)
  have ws: "\<forall>w\<in>set (windows h). parseWindow u (spec w) = Inr w \<and> CHR '';'' \<notin> set (spec w)"
    using list_all2_in_set2[OF ps(5)] parseWindow_spec by metis
  have "split_on CHR '';'' (hours_String h) = tz # map spec (windows h)"
    unfolding hours_String_def nm using semi ws by (intro split_on_join) auto
  moreover have "map_result (parseWindow u) (map spec (windows h)) = Inr (windows h)"
    using ws by (auto simp: map_result_Inr_iff list_all2_conv_all_nth)
  moreover have "windows h \<noteq> []" using ps(4,5) by auto
  ultimately show ?thesis using ps by (simp add: ParseStored_def Parse_def)
qed

text \<open>Claim C38. Every accepted schedule has at least one window, and every window starts within the
  day, ends at 24:00 at the latest, is not empty and applies on some day of the week.\<close>

theorem parse_well_formed:
  assumes "Parse u load tz hs = Inr h"
  shows "windows h \<noteq> [] \<and> length (windows h) = length hs \<and> list_all wf_window (windows h)"
  using Parse_Inr[OF assms] parseWindow_wf
  by (auto simp: list_all2_conv_all_nth list_all_length)

lemma covers_one_day:
  fixes m s l k :: int
  assumes "0 \<le> m" "m < 1440" "0 \<le> s" "s < 1440" "0 < l" "l \<le> 1440" "-6 \<le> k" "k \<le> 6"
  shows "(k * 1440 + m - s) mod 10080 < l \<longleftrightarrow>
    k = 0 \<and> s \<le> m \<and> m - s < l \<or> (k = 1 \<or> k = -6) \<and> 1440 + m - s < l"
proof (cases "0 \<le> k * 1440 + m - s")
  case True
  then have "(k * 1440 + m - s) mod 10080 = k * 1440 + m - s"
    using assms by simp
  then show ?thesis using True assms by (cases "k = 0"; cases "k = 1"; auto)
next
  case False
  then have "(k * 1440 + m - s) mod 10080 = (k * 1440 + m - s + 10080) mod 10080" by simp
  also have "\<dots> = k * 1440 + m - s + 10080" using False assms by (intro mod_pos_pos_trivial) auto
  finally show ?thesis using False assms by (cases "k = -6"; auto)
qed

lemma minute_range: "0 \<le> local_minute l t \<and> local_minute l t < 1440"
proof -
  have "0 \<le> local_seconds l t mod 86400" and "local_seconds l t mod 86400 < 86400" by simp_all
  then show ?thesis unfolding local_minute_def by linarith
qed

lemma window_contains_covers:
  assumes wf: "wf_window w" and m: "0 \<le> m" "m < 1440"
  shows "window_contains day m w \<longleftrightarrow> covers w (day_index day * 1440 + m)"
proof -
  have prev: "day_index (weekday_of (day_index day + 6)) = (day_index day + 6) mod 7" by simp
  have one: "(day_index day * 1440 + m - (day_index d * 1440 + start_min w)) mod 10080 < window_length w
    \<longleftrightarrow> d = day \<and> start_min w \<le> m \<and> m - start_min w < window_length w
      \<or> d = weekday_of (day_index day + 6) \<and> 1440 + m - start_min w < window_length w" for d
  proof -
    have k: "-6 \<le> day_index day - day_index d" "day_index day - day_index d \<le> 6"
      using day_index_range[of day] day_index_range[of d] by auto
    have s: "0 \<le> start_min w" "start_min w < 1440" and l: "0 < window_length w" "window_length w \<le> 1440"
      using wf by (auto simp: wf_window_def window_length_def)
    have "(day_index day - day_index d) * 1440 + m - start_min w
        = day_index day * 1440 + m - (day_index d * 1440 + start_min w)" by simp
    moreover have "day_index day - day_index d = 0 \<longleftrightarrow> d = day"
      by (cases d; cases day; simp)
    moreover have "(day_index day - day_index d = 1 \<or> day_index day - day_index d = -6) \<longleftrightarrow>
        d = weekday_of (day_index day + 6)"
      by (cases d; cases day; simp add: weekday_of_def)
    ultimately show ?thesis using covers_one_day[OF m s l k] by metis
  qed
  have "covers w (day_index day * 1440 + m) \<longleftrightarrow>
      days w day \<and> start_min w \<le> m \<and> m - start_min w < window_length w
      \<or> days w (weekday_of (day_index day + 6)) \<and> 1440 + m - start_min w < window_length w"
    unfolding covers_def one by blast
  then show ?thesis
    using wf m by (auto simp: window_contains_def window_length_def wf_window_def)
qed

text \<open>Claim C37. \<open>Contains\<close> is membership in a set of circular intervals of the week: an instant is in
  working hours exactly when its local minute of the week lies within the length of some window
  counted from one of its start days, past midnight and past the end of the week included.\<close>

theorem contains_circular:
  assumes "Parse u load tz hs = Inr h"
  shows "Contains h t \<longleftrightarrow> (\<exists>w\<in>set (windows h). covers w (minute_of_week (loc h) t))"
proof -
  have "\<forall>w\<in>set (windows h). wf_window w"
    using list_all2_in_set2[OF Parse_Inr(5)[OF assms]] parseWindow_wf by metis
  then show ?thesis
    using minute_range[of "loc h" t]
    by (auto simp: Contains_def list_ex_iff minute_of_week_def window_contains_covers)
qed

section \<open>A concrete schedule\<close>

text \<open>A zone table with one zone two hours east of Greenwich, and two windows, one past midnight.\<close>

definition no_unicode :: unicode where
  "no_unicode = \<lparr>u_lower = (\<lambda>s. s), u_equal_fold = (\<lambda>s t. s = t), u_word_rune = (\<lambda>_. False)\<rparr>"

definition demo_zones :: "string \<rightharpoonup> location" where
  "demo_zones = [''Europe/Kyiv'' \<mapsto> \<lparr>loc_name = ''Europe/Kyiv'', loc_offset = (\<lambda>_. 7200)\<rparr>]"

definition demo_hours :: "string list" where
  "demo_hours = ['' Mon-Fri 09:00-18:00'', ''sat 22:00-02:00'']"

definition demo_schedule :: hours where
  "demo_schedule = \<lparr>loc = \<lparr>loc_name = ''Europe/Kyiv'', loc_offset = (\<lambda>_. 7200)\<rparr>,
     windows = [\<lparr>days = mark_days Monday Friday (\<lambda>_. False), start_min = 540, end_min = 1080,
                 spec = ''mon-fri 09:00-18:00''\<rparr>,
                \<lparr>days = mark_days Saturday Saturday (\<lambda>_. False), start_min = 1320, end_min = 120,
                 spec = ''sat 22:00-02:00''\<rparr>]\<rparr>"

lemma demo_zone_db: "zone_db demo_zones"
  by (auto simp: zone_db_def demo_zones_def split: if_splits)

lemma demo_trim:
  "trim_space '' Mon-Fri 09:00-18:00'' = ''Mon-Fri 09:00-18:00''"
  "trim_space ''09:00-18:00'' = ''09:00-18:00''"
  "trim_space ''sat 22:00-02:00'' = ''sat 22:00-02:00''"
  "trim_space ''22:00-02:00'' = ''22:00-02:00''"
  "trim_space ''Europe/Kyiv'' = ''Europe/Kyiv''"
  by (simp_all add: trim_space_def trim_left_id trim_right_id space_head_def space_last_def)

lemma demo_parse: "Parse no_unicode demo_zones ''Europe/Kyiv'' demo_hours = Inr demo_schedule"
  by (simp add: Parse_def parseWindow_def demo_trim demo_zones_def demo_hours_def demo_schedule_def
      to_lower_def ascii_lower_def cut_on_def days_table_def clock_def two_digits_def
      two_digit_value_def is_digit_def char_of_eq_iff)

theorem parse_stored_roundtrip_witness:
  "ParseStored no_unicode demo_zones (hours_String demo_schedule) = Inr demo_schedule"
  by (rule parse_stored_roundtrip[OF demo_zone_db demo_parse])

theorem parse_well_formed_witness:
  "windows demo_schedule \<noteq> [] \<and> length (windows demo_schedule) = length demo_hours
   \<and> list_all wf_window (windows demo_schedule)"
  by (rule parse_well_formed[OF demo_parse])

text \<open>Sunday 00:30 in the zone is in the window that began on Saturday evening.\<close>

theorem contains_circular_witness:
  "Contains demo_schedule (1704580200 * second) \<and>
   (\<exists>w\<in>set (windows demo_schedule). covers w (minute_of_week (loc demo_schedule) (1704580200 * second)))"
proof -
  have "Contains demo_schedule (1704580200 * second)"
    by (simp add: Contains_def demo_schedule_def window_contains_def local_weekday_def local_minute_def
        local_seconds_def weekday_of_def mark_days_range)
  then show ?thesis using contains_circular[OF demo_parse] by simp
qed

end
