(* ===== verification/Turn.thy ===== *)
theory Turn
  imports GoStrings "HOL-Library.List_Lexorder" "HOL-Library.Char_ord"
    "HOL-Library.Product_Lexorder" "HOL-Library.Multiset"
begin

text \<open>
  The conversation-turn coalescer (\<open>internal/agent/turn/turn.go\<close>), a state machine that groups a
  burst of message events of one session into a turn. Go keeps one \<open>Turn\<close> object behind two maps
  (\<open>open\<close> by session key and \<open>turns\<close> by turn id), so the model has an explicit heap: addresses are
  the positions of a list that only grows, and both maps hold addresses. The order in which \<open>Tick\<close>
  ranges over \<open>open\<close> is unspecified in Go; here it is the order of the association list, and a
  lemma shows that the result does not depend on it. SHA-256 in hexadecimal is the parameter \<open>hex\<close>.
\<close>

section \<open>Data\<close>

datatype turn_state = Collecting | Ready | Claimed | Done

record config =
  QuietMS :: int
  MaxWaitMS :: int
  MaxMsgs :: int
  MaxBytes :: int

record event =
  ev_id :: string
  ev_session :: string
  ev_at :: instant
  ev_bytes :: int

record turn =
  turn_id :: string
  session_key :: string
  source_ids :: "string list"
  opened_at :: instant
  last_at :: instant
  limits :: config
  turn_bytes :: int
  turn_state :: turn_state

record coalescer =
  cfg :: config
  heap :: "turn list"
  open_turns :: "(string \<times> nat) list"
  turns :: "string \<rightharpoonup> nat"

section \<open>Operations\<close>

definition SessionKey :: "int \<Rightarrow> int \<Rightarrow> string" where
  "SessionKey userID peerTGID = ''telegram:'' @ FormatInt userID @ '':'' @ FormatInt peerTGID"

definition New :: "config \<Rightarrow> coalescer option" where
  "New cf = (if QuietMS cf \<le> 0 \<or> MaxWaitMS cf \<le> 0 \<or> MaxMsgs cf \<le> 0 \<or> MaxBytes cf \<le> 0 then None
     else Some \<lparr>cfg = cf, heap = [], open_turns = [], turns = Map.empty\<rparr>)"

definition turnID :: "(string \<Rightarrow> string) \<Rightarrow> string \<Rightarrow> string \<Rightarrow> string" where
  "turnID hex sessionKey firstEventID = ''turn:v1:'' @ take 24 (hex (sessionKey @ firstEventID))"

definition ms :: "duration \<Rightarrow> int" where
  "ms d = d sdiv 1000000"

definition ready :: "coalescer \<Rightarrow> nat \<Rightarrow> coalescer \<times> turn" where
  "ready c a = (let t = (heap c ! a)\<lparr>turn_state := Ready\<rparr> in
     (c\<lparr>heap := (heap c)[a := t],
        open_turns := filter (\<lambda>(k, _). k \<noteq> session_key t) (open_turns c)\<rparr>, t))"

definition joins :: "turn \<Rightarrow> event \<Rightarrow> bool" where
  "joins cur ev \<longleftrightarrow>
     ms (time_sub (ev_at ev) (last_at cur)) \<le> QuietMS (limits cur) \<and>
     ms (time_sub (ev_at ev) (opened_at cur)) \<le> MaxWaitMS (limits cur) \<and>
     int (length (source_ids cur)) + 1 \<le> MaxMsgs (limits cur) \<and>
     wrap64 (turn_bytes cur + ev_bytes ev) \<le> MaxBytes (limits cur)"

text \<open>The branch of \<open>Offer\<close> where the event joins the open turn at address \<open>a\<close>.\<close>

definition joined :: "turn \<Rightarrow> event \<Rightarrow> turn" where
  "joined t ev = t\<lparr>source_ids := source_ids t @ [ev_id ev],
     turn_bytes := wrap64 (turn_bytes t + ev_bytes ev), last_at := ev_at ev\<rparr>"

definition offer_join :: "coalescer \<Rightarrow> nat \<Rightarrow> event \<Rightarrow> coalescer \<times> turn list" where
  "offer_join c a ev =
     (let t = joined (heap c ! a) ev;
          c' = c\<lparr>heap := (heap c)[a := t]\<rparr> in
      if int (length (source_ids t)) \<ge> MaxMsgs (limits t)
      then (let (c'', s) = ready c' a in (c'', [s])) else (c', []))"

text \<open>The rest of \<open>Offer\<close>: a new turn with the event as its first.\<close>

definition offer_new :: "(string \<Rightarrow> string) \<Rightarrow> coalescer \<Rightarrow> event \<Rightarrow> coalescer \<times> turn list" where
  "offer_new hex c ev =
     (let t = \<lparr>turn_id = turnID hex (ev_session ev) (ev_id ev), session_key = ev_session ev,
               source_ids = [ev_id ev], opened_at = ev_at ev, last_at = ev_at ev,
               limits = cfg c, turn_bytes = ev_bytes ev, turn_state = Collecting\<rparr>;
          a = length (heap c);
          c' = c\<lparr>heap := heap c @ [t],
                 turns := (turns c)(turn_id t \<mapsto> a),
                 open_turns := (session_key t, a) # filter (\<lambda>(k, _). k \<noteq> session_key t) (open_turns c)\<rparr> in
      if turn_bytes t \<ge> MaxBytes (limits t) \<or> int (length (source_ids t)) \<ge> MaxMsgs (limits t)
      then (let (c'', s) = ready c' a in (c'', [s])) else (c', []))"

definition Offer :: "(string \<Rightarrow> string) \<Rightarrow> coalescer \<Rightarrow> event \<Rightarrow> coalescer \<times> turn list" where
  "Offer hex c ev =
     (case map_of (open_turns c) (ev_session ev) of
        Some a \<Rightarrow>
          if joins (heap c ! a) ev then offer_join c a ev
          else (let (c1, s) = ready c a; (c2, closed) = offer_new hex c1 ev in (c2, s # closed))
      | None \<Rightarrow> offer_new hex c ev)"

definition turn_less :: "turn \<Rightarrow> turn \<Rightarrow> bool" where
  "turn_less a b = (if opened_at a \<noteq> opened_at b then opened_at a < opened_at b
     else turn_id a < turn_id b)"

text \<open>One round of the insertion sort: the new last element moves left past larger ones. The sorted
  prefix is kept reversed, so that moving left is recursion on the list.\<close>

fun insert_back :: "turn \<Rightarrow> turn list \<Rightarrow> turn list" where
  "insert_back x [] = [x]"
| "insert_back x (y # ys) = (if turn_less x y then y # insert_back x ys else x # y # ys)"

definition sortTurns :: "turn list \<Rightarrow> turn list" where
  "sortTurns ts = rev (fold insert_back ts [])"

definition expired :: "instant \<Rightarrow> turn \<Rightarrow> bool" where
  "expired now t \<longleftrightarrow> ms (time_sub now (last_at t)) > QuietMS (limits t) \<or>
     ms (time_sub now (opened_at t)) > MaxWaitMS (limits t)"

fun tick_loop :: "instant \<Rightarrow> (string \<times> nat) list \<Rightarrow> coalescer \<Rightarrow> coalescer \<times> turn list" where
  "tick_loop now [] c = (c, [])"
| "tick_loop now ((k, a) # es) c =
     (if expired now (heap c ! a)
      then (let (c1, s) = ready c a; (c2, ss) = tick_loop now es c1 in (c2, s # ss))
      else tick_loop now es c)"

definition Tick :: "coalescer \<Rightarrow> instant \<Rightarrow> coalescer \<times> turn list" where
  "Tick c now = (let (c', closed) = tick_loop now (open_turns c) c in (c', sortTurns closed))"

definition transition :: "coalescer \<Rightarrow> string \<Rightarrow> turn_state \<Rightarrow> turn_state \<Rightarrow> coalescer option" where
  "transition c tid from_st to_st =
     (case turns c tid of
        None \<Rightarrow> None
      | Some a \<Rightarrow> if turn_state (heap c ! a) \<noteq> from_st then None
          else Some (c\<lparr>heap := (heap c)[a := (heap c ! a)\<lparr>turn_state := to_st\<rparr>]\<rparr>))"

definition Claim :: "coalescer \<Rightarrow> string \<Rightarrow> coalescer option" where
  "Claim c tid = transition c tid Ready Claimed"

definition turn_Done :: "coalescer \<Rightarrow> string \<Rightarrow> coalescer option" where
  "turn_Done c tid = transition c tid Claimed Done"

text \<open>A caller's sequence of operations; a refused transition leaves the coalescer as it is.\<close>

datatype turn_op = OpOffer event | OpTick instant | OpClaim string | OpDone string

fun turn_step :: "(string \<Rightarrow> string) \<Rightarrow> coalescer \<Rightarrow> turn_op \<Rightarrow> coalescer \<times> turn list" where
  "turn_step hex c (OpOffer ev) = Offer hex c ev"
| "turn_step hex c (OpTick now) = Tick c now"
| "turn_step hex c (OpClaim tid) = (case Claim c tid of Some c' \<Rightarrow> (c', []) | None \<Rightarrow> (c, []))"
| "turn_step hex c (OpDone tid) = (case turn_Done c tid of Some c' \<Rightarrow> (c', []) | None \<Rightarrow> (c, []))"

fun turn_run :: "(string \<Rightarrow> string) \<Rightarrow> coalescer \<Rightarrow> turn_op list \<Rightarrow> coalescer \<times> turn list" where
  "turn_run hex c [] = (c, [])"
| "turn_run hex c (x # xs) =
     (let (c1, out1) = turn_step hex c x; (c2, out2) = turn_run hex c1 xs in (c2, out1 @ out2))"

section \<open>Invariant\<close>

text \<open>What the code keeps true of every turn.\<close>

definition turn_ok :: "config \<Rightarrow> turn \<Rightarrow> bool" where
  "turn_ok cf t \<longleftrightarrow> limits t = cf \<and> source_ids t \<noteq> []
     \<and> int (length (source_ids t)) \<le> MaxMsgs cf
     \<and> (1 < length (source_ids t) \<longrightarrow>
          turn_bytes t \<le> MaxBytes cf \<and> ms (time_sub (last_at t) (opened_at t)) \<le> MaxWaitMS cf)"

definition open_ok :: "coalescer \<Rightarrow> bool" where
  "open_ok c \<longleftrightarrow> distinct (map fst (open_turns c))
     \<and> (\<forall>k a. (k, a) \<in> set (open_turns c) \<longleftrightarrow>
          a < length (heap c) \<and> session_key (heap c ! a) = k \<and> turn_state (heap c ! a) = Collecting)"

text \<open>A session's collecting turn is its newest.\<close>

definition newest_ok :: "coalescer \<Rightarrow> bool" where
  "newest_ok c \<longleftrightarrow> (\<forall>a b. a < b \<longrightarrow> b < length (heap c) \<longrightarrow>
     session_key (heap c ! a) = session_key (heap c ! b) \<longrightarrow> turn_state (heap c ! a) \<noteq> Collecting)"

definition coal_inv :: "coalescer \<Rightarrow> bool" where
  "coal_inv c \<longleftrightarrow> 0 < MaxMsgs (cfg c) \<and> open_ok c \<and> newest_ok c
     \<and> (\<forall>a<length (heap c). turn_ok (cfg c) (heap c ! a))
     \<and> (\<forall>tid a. turns c tid = Some a \<longrightarrow> a < length (heap c) \<and> turn_id (heap c ! a) = tid)"

definition session_turns :: "coalescer \<Rightarrow> string \<Rightarrow> turn list" where
  "session_turns c k = filter (\<lambda>t. session_key t = k) (heap c)"

definition session_ids :: "coalescer \<Rightarrow> string \<Rightarrow> string list" where
  "session_ids c k = concat (map source_ids (session_turns c k))"

text \<open>The turns handed out so far, as a multiset of closed snapshots.\<close>

definition handed_out :: "coalescer \<Rightarrow> turn multiset" where
  "handed_out c = mset (map (\<lambda>t. t\<lparr>turn_state := Ready\<rparr>)
     (filter (\<lambda>t. turn_state t \<noteq> Collecting) (heap c)))"

section \<open>Lemmas\<close>

lemma open_lookup:
  assumes "open_ok c"
  shows "map_of (open_turns c) k = Some a \<longleftrightarrow> (k, a) \<in> set (open_turns c)"
  using assms by (auto simp: open_ok_def dest: map_of_SomeD intro: map_of_is_SomeI)

lemma open_unique:
  assumes "open_ok c" and "(k, a) \<in> set (open_turns c)" and "(k, b) \<in> set (open_turns c)"
  shows "a = b"
  using assms by (auto simp: open_ok_def dest: eq_key_imp_eq_value)

lemma distinct_fst_filter: "distinct (map fst xs) \<Longrightarrow> distinct (map fst (filter P xs))"
  by (induction xs) auto

lemma ready_simps [simp]:
  "cfg (fst (ready c a)) = cfg c" "turns (fst (ready c a)) = turns c"
  "heap (fst (ready c a)) = (heap c)[a := (heap c ! a)\<lparr>turn_state := Ready\<rparr>]"
  "open_turns (fst (ready c a)) = filter (\<lambda>(k, _). k \<noteq> session_key (heap c ! a)) (open_turns c)"
  "snd (ready c a) = (heap c ! a)\<lparr>turn_state := Ready\<rparr>"
  by (simp_all add: ready_def Let_def)

lemma open_ok_ready:
  assumes c: "open_ok c" and a: "(k, a) \<in> set (open_turns c)"
  shows "open_ok (fst (ready c a))"
proof -
  have len: "a < length (heap c)" and k: "session_key (heap c ! a) = k"
    using c a by (auto simp: open_ok_def)
  have "(k', b) \<in> set (open_turns c) \<and> k' \<noteq> k \<longleftrightarrow>
      b < length (heap c) \<and> b \<noteq> a \<and> session_key (heap c ! b) = k' \<and> turn_state (heap c ! b) = Collecting"
    for k' b
    using c a k open_unique[OF c a] by (auto simp: open_ok_def)
  then show ?thesis
    using c len k by (auto simp: open_ok_def nth_list_update distinct_fst_filter)
qed

lemma still_collecting:
  "turn_state ((heap c)[a := (heap c ! a)\<lparr>turn_state := Ready\<rparr>] ! b) = Collecting \<Longrightarrow>
     turn_state (heap c ! b) = Collecting"
  by (cases "a = b"; cases "a < length (heap c)") (auto simp: list_update_beyond)

lemma turn_ok_state [simp]: "turn_ok cf (t\<lparr>turn_state := st\<rparr>) = turn_ok cf t"
  by (simp add: turn_ok_def)

lemma coal_inv_ready [inv_intros]:
  assumes c: "coal_inv c" and a: "(k, a) \<in> set (open_turns c)"
  shows "coal_inv (fst (ready c a))"
proof -
  have "open_ok (fst (ready c a))" using c a by (auto simp: coal_inv_def intro: open_ok_ready)
  moreover have "newest_ok (fst (ready c a))"
    using c still_collecting
    by (simp add: coal_inv_def newest_ok_def nth_update_same[where f = session_key]) blast
  ultimately show ?thesis
    using c by (auto simp: coal_inv_def nth_update_same[where f = "turn_ok (cfg c)"]
        nth_update_same[where f = turn_id])
qed

text \<open>Replacing a turn by one of the same session that collects exactly when the old one does.\<close>

lemma coal_inv_update:
  assumes c: "coal_inv c" and "a < length (heap c)"
    and "session_key t = session_key (heap c ! a)"
    "(turn_state t = Collecting) = (turn_state (heap c ! a) = Collecting)"
    "turn_id t = turn_id (heap c ! a)" "turn_ok (cfg c) t"
  shows "coal_inv (c\<lparr>heap := (heap c)[a := t]\<rparr>)"
proof -
  have "open_ok (c\<lparr>heap := (heap c)[a := t]\<rparr>)"
    using assms by (auto simp: coal_inv_def open_ok_def nth_list_update)
  moreover have "newest_ok (c\<lparr>heap := (heap c)[a := t]\<rparr>)"
    using assms by (auto simp: coal_inv_def newest_ok_def nth_list_update)
  ultimately show ?thesis
    using assms by (auto simp: coal_inv_def nth_list_update)
qed

lemma joined_simps [simp]:
  "session_key (joined t ev) = session_key t" "turn_state (joined t ev) = turn_state t"
  "turn_id (joined t ev) = turn_id t" "limits (joined t ev) = limits t"
  "source_ids (joined t ev) = source_ids t @ [ev_id ev]"
  by (simp_all add: joined_def)

lemma offer_join_eq:
  "offer_join c a ev = (let c' = c\<lparr>heap := (heap c)[a := joined (heap c ! a) ev]\<rparr> in
     if int (length (source_ids (heap c ! a))) + 1 \<ge> MaxMsgs (limits (heap c ! a))
     then (fst (ready c' a), [snd (ready c' a)]) else (c', []))"
  by (simp add: offer_join_def Let_def split_beta)

lemma turn_ok_join:
  assumes "turn_ok cf t" and "joins t ev"
  shows "turn_ok cf (joined t ev)"
  using assms by (auto simp: turn_ok_def joins_def joined_def)

lemma coal_inv_offer_join [inv_intros]:
  assumes c: "coal_inv c" and a: "(k, a) \<in> set (open_turns c)" and j: "joins (heap c ! a) ev"
  shows "coal_inv (fst (offer_join c a ev))"
proof -
  let ?c = "c\<lparr>heap := (heap c)[a := joined (heap c ! a) ev]\<rparr>"
  have len: "a < length (heap c)" using c a by (auto simp: coal_inv_def open_ok_def)
  then have "turn_ok (cfg c) (joined (heap c ! a) ev)"
    using c j by (intro turn_ok_join) (auto simp: coal_inv_def)
  then have inv: "coal_inv ?c" using c len by (intro coal_inv_update) auto
  moreover have "coal_inv (fst (ready ?c a))"
    using inv a by (intro coal_inv_ready[where k = k]) auto
  ultimately show ?thesis by (simp add: offer_join_eq Let_def)
qed

text \<open>Allocating a collecting turn for a session that has none.\<close>

definition alloc :: "coalescer \<Rightarrow> turn \<Rightarrow> coalescer" where
  "alloc c t = c\<lparr>heap := heap c @ [t], turns := (turns c)(turn_id t \<mapsto> length (heap c)),
     open_turns := (session_key t, length (heap c)) # filter (\<lambda>(k, _). k \<noteq> session_key t) (open_turns c)\<rparr>"

lemma alloc_simps [simp]:
  "heap (alloc c t) = heap c @ [t]" "cfg (alloc c t) = cfg c"
  "turns (alloc c t) = (turns c)(turn_id t \<mapsto> length (heap c))"
  by (simp_all add: alloc_def)

lemma open_alloc:
  "session_key t \<notin> fst ` set (open_turns c) \<Longrightarrow>
     open_turns (alloc c t) = (session_key t, length (heap c)) # open_turns c"
  by (force simp: alloc_def filter_id_conv)

lemma open_ok_alloc:
  assumes c: "open_ok c" and no: "session_key t \<notin> fst ` set (open_turns c)"
    and t: "turn_state t = Collecting"
  shows "open_ok (alloc c t)"
proof -
  have "(k, a) \<in> set (open_turns (alloc c t)) \<longleftrightarrow> a < length (heap c) + 1
      \<and> session_key ((heap c @ [t]) ! a) = k \<and> turn_state ((heap c @ [t]) ! a) = Collecting" for k a
  proof (cases "a < length (heap c)")
    case True
    then show ?thesis using c no by (auto simp: open_ok_def open_alloc nth_append)
  next
    case False
    then have "(k, a) \<notin> set (open_turns c)" using c by (auto simp: open_ok_def)
    with False no t show ?thesis by (cases "a = length (heap c)") (auto simp: open_alloc)
  qed
  then show ?thesis using c no by (simp add: open_ok_def open_alloc)
qed

lemma coal_inv_alloc:
  assumes c: "coal_inv c" and no: "session_key t \<notin> fst ` set (open_turns c)"
    and t: "turn_state t = Collecting" "turn_ok (cfg c) t"
  shows "coal_inv (alloc c t)"
proof -
  have "turn_state (heap c ! a) \<noteq> Collecting"
    if "a < length (heap c)" "session_key (heap c ! a) = session_key t" for a
  proof
    assume "turn_state (heap c ! a) = Collecting"
    with that c have "(session_key t, a) \<in> set (open_turns c)"
      by (simp add: coal_inv_def open_ok_def)
    with no show False by force
  qed
  then have "newest_ok (alloc c t)"
    using c by (simp add: coal_inv_def newest_ok_def nth_append less_Suc_eq)
  then show ?thesis
    using c no t by (auto simp: coal_inv_def open_ok_alloc nth_append less_Suc_eq)
qed

definition first_turn :: "(string \<Rightarrow> string) \<Rightarrow> config \<Rightarrow> event \<Rightarrow> turn" where
  "first_turn hex cf ev = \<lparr>turn_id = turnID hex (ev_session ev) (ev_id ev), session_key = ev_session ev,
     source_ids = [ev_id ev], opened_at = ev_at ev, last_at = ev_at ev,
     limits = cf, turn_bytes = ev_bytes ev, turn_state = Collecting\<rparr>"

lemma offer_new_alloc:
  "offer_new hex c ev = (let t = first_turn hex (cfg c) ev in
     if ev_bytes ev \<ge> MaxBytes (cfg c) \<or> 1 \<ge> MaxMsgs (cfg c)
     then (fst (ready (alloc c t) (length (heap c))), [t\<lparr>turn_state := Ready\<rparr>])
     else (alloc c t, []))"
  by (simp add: offer_new_def alloc_def first_turn_def Let_def split_beta)

lemma coal_inv_offer_new [inv_intros]:
  assumes c: "coal_inv c" and no: "ev_session ev \<notin> fst ` set (open_turns c)"
  shows "coal_inv (fst (offer_new hex c ev))"
proof -
  have "coal_inv (alloc c (first_turn hex (cfg c) ev))"
    using c no by (intro coal_inv_alloc) (auto simp: first_turn_def turn_ok_def coal_inv_def)
  moreover from this have "coal_inv (fst (ready (alloc c (first_turn hex (cfg c) ev)) (length (heap c))))"
    using no by (intro coal_inv_ready[where k = "ev_session ev"]) (auto simp: open_alloc first_turn_def)
  ultimately show ?thesis by (simp add: offer_new_alloc Let_def)
qed

lemma ready_closes_session:
  assumes "open_ok c" and "(k, a) \<in> set (open_turns c)"
  shows "k \<notin> fst ` set (open_turns (fst (ready c a)))"
  using assms by (auto simp: open_ok_def)

lemma coal_inv_Offer [inv_intros]:
  assumes c: "coal_inv c"
  shows "coal_inv (fst (Offer hex c ev))"
proof (cases "map_of (open_turns c) (ev_session ev)")
  case None
  then have "ev_session ev \<notin> fst ` set (open_turns c)" using map_of_eq_None_iff by metis
  then show ?thesis using c None by (simp add: Offer_def coal_inv_offer_new)
next
  case (Some a)
  have ok: "open_ok c" using c by (simp add: coal_inv_def)
  from Some ok have a: "(ev_session ev, a) \<in> set (open_turns c)" by (simp add: open_lookup)
  have "coal_inv (fst (offer_new hex (fst (ready c a)) ev))"
    using c a ok by (intro inv_intros ready_closes_session)
  then show ?thesis
    using Some c a by (simp add: Offer_def split_beta coal_inv_offer_join)
qed

lemma tick_loop_Cons:
  "fst (tick_loop now ((k, a) # es) c) =
     fst (tick_loop now es (if expired now (heap c ! a) then fst (ready c a) else c))"
  "snd (tick_loop now ((k, a) # es) c) =
     (if expired now (heap c ! a)
      then (heap c ! a)\<lparr>turn_state := Ready\<rparr> # snd (tick_loop now es (fst (ready c a)))
      else snd (tick_loop now es c))"
  by (auto simp: split_beta)

lemma open_rest_ready:
  assumes "open_ok c" and "set ((k, a) # es) \<subseteq> set (open_turns c)" and "distinct (map fst ((k, a) # es))"
  shows "set es \<subseteq> set (open_turns (fst (ready c a)))"
proof -
  have "session_key (heap c ! a) = k" using assms by (simp add: open_ok_def)
  then show ?thesis using assms(2,3) by (force simp: rev_image_eqI)
qed

lemma coal_inv_tick_loop:
  assumes "coal_inv c" and "set es \<subseteq> set (open_turns c)" and "distinct (map fst es)"
  shows "coal_inv (fst (tick_loop now es c))"
  using assms
proof (induction es arbitrary: c)
  case (Cons e es)
  obtain k a where e: "e = (k, a)" by (cases e)
  have "open_ok c" using Cons.prems by (simp add: coal_inv_def)
  then have "set es \<subseteq> set (open_turns (fst (ready c a)))"
    using Cons.prems unfolding e by (intro open_rest_ready)
  moreover have "coal_inv (fst (ready c a))"
    using Cons.prems e by (intro coal_inv_ready[where k = k]) auto
  ultimately show ?case
    using Cons e by (simp add: tick_loop_Cons del: tick_loop.simps ready_simps)
qed simp

lemma coal_inv_Tick [inv_intros]: "coal_inv c \<Longrightarrow> coal_inv (fst (Tick c now))"
  using coal_inv_tick_loop[of c "open_turns c" now]
  by (simp add: Tick_def split_beta coal_inv_def open_ok_def)

lemma coal_inv_transition [inv_intros]:
  assumes "coal_inv c" and "transition c tid st st' = Some c'" and "st \<noteq> Collecting" "st' \<noteq> Collecting"
  shows "coal_inv c'"
proof -
  obtain a where a: "turns c tid = Some a" "turn_state (heap c ! a) = st"
      "c' = c\<lparr>heap := (heap c)[a := (heap c ! a)\<lparr>turn_state := st'\<rparr>]\<rparr>"
    using assms(2) by (auto simp: transition_def split: option.splits if_splits)
  show ?thesis unfolding a(3)
    using assms a by (intro coal_inv_update) (auto simp: coal_inv_def)
qed

lemma coal_inv_step: "coal_inv c \<Longrightarrow> coal_inv (fst (turn_step hex c x))"
  by (cases x) (auto simp: Claim_def turn_Done_def split: option.splits intro: inv_intros)

interpretation turn_machine: machine "turn_step hex" "turn_run hex" coal_inv for hex
  by unfold_locales (auto simp: split_beta Let_def intro: coal_inv_step)

lemma coal_inv_New: "New cf = Some c \<Longrightarrow> coal_inv c"
  by (auto simp: New_def coal_inv_def open_ok_def newest_ok_def split: if_splits)

lemma coal_inv_reachable: "New cf = Some c \<Longrightarrow> coal_inv (fst (turn_run hex c ops))"
  using turn_machine.run_inv coal_inv_New by blast

subsection \<open>Events are kept in order\<close>

abbreviation sess_ids :: "turn list \<Rightarrow> (string \<times> string list) list" where
  "sess_ids h \<equiv> map (\<lambda>t. (session_key t, source_ids t)) h"

lemma session_ids_sess:
  "session_ids c k = concat (map snd (filter (\<lambda>p. fst p = k) (sess_ids (heap c))))"
  by (simp add: session_ids_def session_turns_def filter_map comp_def)

lemma sess_ids_update:
  "(session_key t, source_ids t) = (session_key (h ! a), source_ids (h ! a)) \<Longrightarrow> sess_ids (h[a := t]) = sess_ids h"
  by (cases "a < length h") (auto simp: map_update list_update_beyond list_update_same_conv)

lemma session_ids_ready [simp]: "session_ids (fst (ready c a)) k = session_ids c k"
  by (simp add: session_ids_sess sess_ids_update)

lemma session_ids_alloc [simp]:
  "session_ids (alloc c t) k = session_ids c k @ (if session_key t = k then source_ids t else [])"
  by (simp add: session_ids_sess)

lemma session_ids_offer_new:
  "session_ids (fst (offer_new hex c ev)) k = session_ids c k @ (if ev_session ev = k then [ev_id ev] else [])"
  by (simp add: offer_new_alloc Let_def first_turn_def)

lemma session_ids_extend:
  assumes c: "coal_inv c" and a: "(sk, a) \<in> set (open_turns c)"
    and t: "session_key t = sk" "source_ids t = source_ids (heap c ! a) @ [i]"
  shows "session_ids (c\<lparr>heap := (heap c)[a := t]\<rparr>) k = session_ids c k @ (if sk = k then [i] else [])"
proof -
  have len: "a < length (heap c)" and sk: "session_key (heap c ! a) = sk"
    and col: "turn_state (heap c ! a) = Collecting"
    using c a by (auto simp: coal_inv_def open_ok_def)
  let ?pre = "take a (heap c)" and ?post = "drop (Suc a) (heap c)"
  have "session_key u \<noteq> sk" if "u \<in> set ?post" for u
  proof -
    from that obtain j where "j < length ?post" "u = ?post ! j" by (auto simp: in_set_conv_nth)
    then have "a < Suc a + j" "Suc a + j < length (heap c)" "u = heap c ! (Suc a + j)" by auto
    then show ?thesis using c col sk unfolding coal_inv_def newest_ok_def by metis
  qed
  then have post: "filter (\<lambda>p. fst p = sk) (sess_ids ?post) = []" by (auto simp: filter_empty_conv)
  have "heap c = ?pre @ heap c ! a # ?post" using len by (rule id_take_nth_drop)
  then have 1: "session_ids c k = concat (map snd (filter (\<lambda>p. fst p = k) (sess_ids (?pre @ heap c ! a # ?post))))"
    by (simp only: session_ids_sess)
  have 2: "session_ids (c\<lparr>heap := (heap c)[a := t]\<rparr>) k
      = concat (map snd (filter (\<lambda>p. fst p = k) (sess_ids (?pre @ t # ?post))))"
    using len by (simp add: session_ids_sess upd_conv_take_nth_drop)
  show ?thesis unfolding 1 2 using post t sk by auto
qed

lemma session_ids_offer_join:
  assumes "coal_inv c" and "(ev_session ev, a) \<in> set (open_turns c)"
  shows "session_ids (fst (offer_join c a ev)) k = session_ids c k @ (if ev_session ev = k then [ev_id ev] else [])"
proof -
  have "session_key (heap c ! a) = ev_session ev" using assms by (auto simp: coal_inv_def open_ok_def)
  then show ?thesis
    using assms by (simp add: offer_join_eq Let_def session_ids_extend)
qed

lemma session_ids_Offer:
  assumes "coal_inv c"
  shows "session_ids (fst (Offer hex c ev)) k = session_ids c k @ (if ev_session ev = k then [ev_id ev] else [])"
  using assms by (auto simp: Offer_def split_beta session_ids_offer_join session_ids_offer_new
      open_lookup coal_inv_def split: option.splits)

lemma session_ids_tick_loop: "session_ids (fst (tick_loop now es c)) k = session_ids c k"
proof (induction es arbitrary: c)
  case (Cons e es)
  then show ?case by (cases e) (simp add: tick_loop_Cons del: tick_loop.simps)
qed simp

lemma session_ids_transition:
  "transition c tid st st' = Some c' \<Longrightarrow> session_ids c' k = session_ids c k"
  by (auto simp: transition_def session_ids_sess sess_ids_update split: option.splits if_splits)

fun op_ids :: "string \<Rightarrow> turn_op \<Rightarrow> string list" where
  "op_ids k (OpOffer ev) = (if ev_session ev = k then [ev_id ev] else [])"
| "op_ids k _ = []"

interpretation turn_ledger: ledger_machine "turn_step hex" "turn_run hex" coal_inv
    "\<lambda>c. session_ids c k" "op_ids k" for hex k
proof unfold_locales
  fix c x
  assume "coal_inv c"
  then show "session_ids (fst (turn_step hex c x)) k = session_ids c k @ op_ids k x"
    by (cases x) (auto simp: session_ids_Offer session_ids_tick_loop session_ids_transition Tick_def
        Claim_def turn_Done_def split_beta split: option.splits)
qed

subsection \<open>Every closed turn is handed out once\<close>

lemma handed_out_mset:
  "handed_out c = image_mset (\<lambda>t. t\<lparr>turn_state := Ready\<rparr>) (filter_mset (\<lambda>t. turn_state t \<noteq> Collecting) (mset (heap c)))"
  by (simp add: handed_out_def)

text \<open>Replacing a turn exchanges its closed snapshot for the new one's.\<close>

definition closed_part :: "turn \<Rightarrow> turn multiset" where
  "closed_part t = (if turn_state t = Collecting then {#} else {# t\<lparr>turn_state := Ready\<rparr> #})"

lemma handed_out_update:
  assumes "a < length (heap c)"
  shows "handed_out (c\<lparr>heap := (heap c)[a := t]\<rparr>) + closed_part (heap c ! a) = handed_out c + closed_part t"
proof -
  obtain m where m: "mset (heap c) = add_mset (heap c ! a) m"
    using assms by (metis mset_add nth_mem_mset)
  moreover have "mset ((heap c)[a := t]) = add_mset t m" using assms m by (simp add: mset_update)
  ultimately show ?thesis by (simp add: handed_out_mset closed_part_def)
qed

lemma handed_out_heap: "heap c' = heap c \<Longrightarrow> handed_out c' = handed_out c"
  by (simp add: handed_out_mset)

lemma handed_out_ready:
  assumes "a < length (heap c)" and "turn_state (heap c ! a) = Collecting"
  shows "handed_out (fst (ready c a)) = handed_out c + {# snd (ready c a) #}"
proof -
  let ?t = "(heap c ! a)\<lparr>turn_state := Ready\<rparr>"
  have "handed_out (fst (ready c a)) = handed_out (c\<lparr>heap := (heap c)[a := ?t]\<rparr>)"
    by (rule handed_out_heap) simp
  then show ?thesis
    using handed_out_update[OF assms(1), of ?t] assms(2) by (simp add: closed_part_def)
qed

lemma handed_out_alloc: "turn_state t = Collecting \<Longrightarrow> handed_out (alloc c t) = handed_out c"
  by (simp add: handed_out_mset)

lemma handed_out_offer_new:
  "handed_out (fst (offer_new hex c ev)) = handed_out c + mset (snd (offer_new hex c ev))"
  using handed_out_ready[of "length (heap c)" "alloc c (first_turn hex (cfg c) ev)"]
  by (simp add: offer_new_alloc Let_def handed_out_alloc first_turn_def del: ready_simps(1-4))

lemma handed_out_offer_join:
  assumes "a < length (heap c)" and "turn_state (heap c ! a) = Collecting"
  shows "handed_out (fst (offer_join c a ev)) = handed_out c + mset (snd (offer_join c a ev))"
proof -
  let ?c = "c\<lparr>heap := (heap c)[a := joined (heap c ! a) ev]\<rparr>"
  have keep: "handed_out ?c = handed_out c"
    using handed_out_update[OF assms(1), of "joined (heap c ! a) ev"] assms(2)
    by (simp add: closed_part_def)
  moreover have "handed_out (fst (ready ?c a)) = handed_out ?c + {# snd (ready ?c a) #}"
    using assms by (intro handed_out_ready) simp_all
  ultimately show ?thesis by (simp add: offer_join_eq Let_def del: ready_simps)
qed

lemma handed_out_Offer:
  assumes "coal_inv c"
  shows "handed_out (fst (Offer hex c ev)) = handed_out c + mset (snd (Offer hex c ev))"
proof (cases "map_of (open_turns c) (ev_session ev)")
  case (Some a)
  then have a: "a < length (heap c)" "turn_state (heap c ! a) = Collecting"
    using assms by (auto simp: open_lookup coal_inv_def open_ok_def)
  then show ?thesis using Some handed_out_ready[OF a]
    by (simp add: Offer_def split_beta handed_out_offer_join handed_out_offer_new del: ready_simps)
qed (simp add: Offer_def handed_out_offer_new)

lemma handed_out_tick_loop:
  assumes "coal_inv c" and "set es \<subseteq> set (open_turns c)" and "distinct (map fst es)"
  shows "handed_out (fst (tick_loop now es c)) = handed_out c + mset (snd (tick_loop now es c))"
  using assms
proof (induction es arbitrary: c)
  case (Cons e es)
  obtain k a where e: "e = (k, a)" by (cases e)
  have ok: "open_ok c" using Cons.prems by (simp add: coal_inv_def)
  then have a: "a < length (heap c)" "turn_state (heap c ! a) = Collecting"
    using Cons.prems e by (auto simp: open_ok_def)
  have "set es \<subseteq> set (open_turns (fst (ready c a)))"
    using Cons.prems ok unfolding e by (intro open_rest_ready)
  moreover have "coal_inv (fst (ready c a))"
    using Cons.prems e by (intro coal_inv_ready[where k = k]) auto
  ultimately show ?case
    using Cons e handed_out_ready[OF a]
    by (simp add: tick_loop_Cons del: tick_loop.simps ready_simps(1-4))
qed simp

lemma mset_insert_back [simp]: "mset (insert_back x ys) = add_mset x (mset ys)"
  by (induction ys) auto

lemma mset_sortTurns [simp]: "mset (sortTurns ts) = mset ts"
proof -
  have "mset (fold insert_back ts ys) = mset ts + mset ys" for ys
    by (induction ts arbitrary: ys) simp_all
  from this[of "[]"] show ?thesis by (simp add: sortTurns_def)
qed

lemma handed_out_transition:
  assumes "coal_inv c" and "transition c tid st st' = Some c'" and "st \<noteq> Collecting" "st' \<noteq> Collecting"
  shows "handed_out c' = handed_out c"
proof -
  obtain a where a: "turns c tid = Some a" "turn_state (heap c ! a) = st"
      "c' = c\<lparr>heap := (heap c)[a := (heap c ! a)\<lparr>turn_state := st'\<rparr>]\<rparr>"
    using assms(2) by (auto simp: transition_def split: option.splits if_splits)
  moreover have "a < length (heap c)" using assms(1) a(1) by (auto simp: coal_inv_def)
  ultimately show ?thesis
    using handed_out_update[of a c "(heap c ! a)\<lparr>turn_state := st'\<rparr>"] assms(3,4)
    by (simp add: closed_part_def)
qed

lemma handed_out_step:
  assumes "coal_inv c"
  shows "handed_out (fst (turn_step hex c x)) = handed_out c + mset (snd (turn_step hex c x))"
proof (cases x)
  case (OpTick now)
  have "handed_out (fst (tick_loop now (open_turns c) c))
      = handed_out c + mset (snd (tick_loop now (open_turns c) c))"
    using assms by (intro handed_out_tick_loop) (auto simp: coal_inv_def open_ok_def)
  then show ?thesis using OpTick by (simp add: Tick_def split_beta)
qed (use assms in \<open>auto simp: handed_out_Offer Claim_def turn_Done_def
      split: option.splits dest: handed_out_transition\<close>)

lemma handed_out_run:
  "coal_inv c \<Longrightarrow> handed_out (fst (turn_run hex c ops)) = handed_out c + mset (snd (turn_run hex c ops))"
proof (induction ops arbitrary: c)
  case (Cons x xs)
  then show ?case
    using handed_out_step[of c hex x] turn_machine.step_inv[of c hex x]
    by (simp add: turn_machine.fst_run_Cons turn_machine.snd_run_Cons del: turn_run.simps)
qed simp

subsection \<open>What a tick closes\<close>

lemma ready_elsewhere: "b \<noteq> a \<Longrightarrow> heap (fst (ready c a)) ! b = heap c ! b"
  by simp

lemma tick_loop_out:
  assumes "coal_inv c" and "set es \<subseteq> set (open_turns c)" and "distinct (map fst es)"
  shows "snd (tick_loop now es c) =
    map (\<lambda>(k, a). (heap c ! a)\<lparr>turn_state := Ready\<rparr>) (filter (\<lambda>(k, a). expired now (heap c ! a)) es)"
  using assms
proof (induction es arbitrary: c)
  case (Cons e es)
  obtain k a where e: "e = (k, a)" by (cases e)
  let ?d = "fst (ready c a)"
  have ok: "open_ok c" using Cons.prems by (simp add: coal_inv_def)
  have "set es \<subseteq> set (open_turns ?d)" using Cons.prems ok unfolding e by (intro open_rest_ready)
  moreover have "coal_inv ?d" using Cons.prems e by (intro coal_inv_ready[where k = k]) auto
  ultimately have IH: "snd (tick_loop now es ?d) =
    map (\<lambda>(k, a). (heap ?d ! a)\<lparr>turn_state := Ready\<rparr>) (filter (\<lambda>(k, a). expired now (heap ?d ! a)) es)"
    using Cons by simp
  have "b \<noteq> a" if "(k', b) \<in> set es" for k' b
  proof
    assume "b = a"
    with that Cons.prems ok e have "k' = k" by (auto simp: open_ok_def)
    with that Cons.prems e show False by force
  qed
  then have same: "heap ?d ! b = heap c ! b" if "(k', b) \<in> set es" for k' b
    using that ready_elsewhere by metis
  have "filter (\<lambda>(k, a). expired now (heap ?d ! a)) es = filter (\<lambda>(k, a). expired now (heap c ! a)) es"
    by (rule filter_cong) (auto simp: same simp del: ready_simps)
  then have "snd (tick_loop now es ?d) =
    map (\<lambda>(k, a). (heap c ! a)\<lparr>turn_state := Ready\<rparr>) (filter (\<lambda>(k, a). expired now (heap c ! a)) es)"
    unfolding IH by (auto simp: same simp del: ready_simps)
  then show ?case using Cons e by (simp add: tick_loop_Cons del: tick_loop.simps ready_simps)
qed simp

lemma tick_loop_rest:
  assumes "coal_inv c" and "set es \<subseteq> set (open_turns c)" and "distinct (map fst es)"
    and "(k, b) \<in> set (open_turns (fst (tick_loop now es c)))"
  shows "(k, b) \<in> set (open_turns c) \<and> heap (fst (tick_loop now es c)) ! b = heap c ! b
    \<and> ((k, b) \<in> set es \<longrightarrow> \<not> expired now (heap c ! b))"
  using assms
proof (induction es arbitrary: c)
  case (Cons e es)
  obtain k0 a where e: "e = (k0, a)" by (cases e)
  have ok: "open_ok c" using Cons.prems by (simp add: coal_inv_def)
  show ?case
  proof (cases "expired now (heap c ! a)")
    case False
    then show ?thesis using Cons e by (auto simp: tick_loop_Cons simp del: tick_loop.simps)
  next
    case True
    let ?d = "fst (ready c a)"
    have step: "fst (tick_loop now (e # es) c) = fst (tick_loop now es ?d)"
      using True e by (simp add: tick_loop_Cons del: tick_loop.simps ready_simps)
    have "set es \<subseteq> set (open_turns ?d)" using Cons.prems ok unfolding e by (intro open_rest_ready)
    moreover have "coal_inv ?d" using Cons.prems e by (intro coal_inv_ready[where k = k0]) auto
    ultimately have IH: "(k, b) \<in> set (open_turns ?d)" "heap (fst (tick_loop now es ?d)) ! b = heap ?d ! b"
        "(k, b) \<in> set es \<longrightarrow> \<not> expired now (heap ?d ! b)"
      using Cons.IH[of ?d] Cons.prems step by simp_all
    have "session_key (heap c ! a) = k0" using Cons.prems ok e by (auto simp: open_ok_def)
    with IH(1) have kb: "(k, b) \<in> set (open_turns c)" "k \<noteq> k0" by auto
    then have "b \<noteq> a" using Cons.prems ok e by (auto simp: open_ok_def)
    then show ?thesis using IH kb step e by (simp del: ready_simps add: ready_elsewhere)
  qed
qed simp

abbreviation turn_key :: "turn \<Rightarrow> int \<times> string" where
  "turn_key t \<equiv> (opened_at t, turn_id t)"

lemma turn_less_key: "turn_less a b \<longleftrightarrow> turn_key a < turn_key b"
  by (auto simp: turn_less_def)

lemma insert_back_sorted:
  "sorted_wrt (\<ge>) (map turn_key ys) \<Longrightarrow> sorted_wrt (\<ge>) (map turn_key (insert_back x ys))"
proof (induction ys)
  case (Cons y ys)
  have "set (insert_back x ys) = insert x (set ys)"
    by (metis mset_insert_back set_mset_add_mset_insert set_mset_mset)
  with Cons show ?case by (auto simp: turn_less_key not_less)
qed simp

lemma sortTurns_sorted: "sorted (map turn_key (sortTurns ts))"
proof -
  have "sorted_wrt (\<ge>) (map turn_key ys) \<Longrightarrow> sorted_wrt (\<ge>) (map turn_key (fold insert_back ts ys))" for ys
    by (induction ts arbitrary: ys) (simp_all add: insert_back_sorted)
  from this[of "[]"] have "sorted_wrt (\<ge>) (map turn_key (fold insert_back ts []))" by simp
  then show ?thesis by (simp add: sortTurns_def sorted_wrt_rev flip: rev_map)
qed

lemma set_sortTurns [simp]: "set (sortTurns zs) = set zs"
  by (metis mset_sortTurns set_mset_mset)

lemma distinct_sortTurns: "distinct (map turn_key zs) \<Longrightarrow> distinct (map turn_key (sortTurns zs))"
proof -
  have "mset (map turn_key (sortTurns zs)) = mset (map turn_key zs)" by simp
  then show "distinct (map turn_key zs) \<Longrightarrow> distinct (map turn_key (sortTurns zs))"
    using mset_eq_imp_distinct_iff by blast
qed

lemma sortTurns_unique:
  assumes "mset xs = mset ys" and "distinct (map turn_key xs)"
  shows "sortTurns xs = sortTurns ys"
proof -
  have s: "set xs = set ys" using assms(1) by (rule mset_eq_setD)
  have "mset (map turn_key xs) = mset (map turn_key ys)" using assms(1) by simp
  then have d: "distinct (map turn_key ys)" using assms(2) mset_eq_imp_distinct_iff by blast
  have "inj_on turn_key (set (sortTurns xs) \<union> set (sortTurns ys))"
    using s assms(2) by (simp add: distinct_map)
  then show ?thesis
    using sortTurns_sorted sortTurns_sorted distinct_sortTurns[OF assms(2)] distinct_sortTurns[OF d] s
    by (intro map_sorted_distinct_set_unique[where f = turn_key]) simp_all
qed

subsection \<open>States only move forward\<close>

fun state_rank :: "turn_state \<Rightarrow> nat" where
  "state_rank Collecting = 0" | "state_rank Ready = 1" | "state_rank Claimed = 2" | "state_rank Done = 3"

definition turn_le :: "turn \<Rightarrow> turn \<Rightarrow> bool" where
  "turn_le t t' \<longleftrightarrow> turn_id t' = turn_id t \<and> session_key t' = session_key t
     \<and> state_rank (turn_state t) \<le> state_rank (turn_state t')
     \<and> prefix (source_ids t) (source_ids t')
     \<and> (turn_state t \<noteq> Collecting \<longrightarrow> source_ids t' = source_ids t)"

definition coal_le :: "coalescer \<Rightarrow> coalescer \<Rightarrow> bool" where
  "coal_le c c' \<longleftrightarrow> length (heap c) \<le> length (heap c')
     \<and> (\<forall>a<length (heap c). turn_le (heap c ! a) (heap c' ! a))"

lemma turn_le_refl [simp]: "turn_le t t"
  by (simp add: turn_le_def)

lemma turn_le_trans:
  assumes "turn_le s t" and "turn_le t u"
  shows "turn_le s u"
  using assms
  by (cases "turn_state s"; cases "turn_state t") (auto simp: turn_le_def intro: prefix_order.trans)

lemma coal_le_refl [simp]: "coal_le c c"
  by (simp add: coal_le_def)

lemma coal_le_trans: "coal_le c d \<Longrightarrow> coal_le d e \<Longrightarrow> coal_le c e"
  by (meson coal_le_def order.strict_trans2 order_trans turn_le_trans)

lemma coal_le_update:
  assumes "turn_le (heap c ! a) t" and "heap c' = (heap c)[a := t]"
  shows "coal_le c c'"
proof -
  have "turn_le (heap c ! b) ((heap c)[a := t] ! b)" for b
    using assms(1) by (cases "a = b"; cases "a < length (heap c)") (auto simp: list_update_beyond)
  with assms(2) show ?thesis by (simp add: coal_le_def)
qed

lemma coal_le_ready: "turn_state (heap c ! a) = Collecting \<Longrightarrow> coal_le c (fst (ready c a))"
  by (rule coal_le_update[where a = a]) (auto simp: turn_le_def)

lemma coal_le_offer_new: "coal_le c (fst (offer_new hex c ev))"
proof -
  have 1: "coal_le c (alloc c t)" for t by (auto simp: coal_le_def nth_append)
  have 2: "coal_le (alloc c (first_turn hex (cfg c) ev))
      (fst (ready (alloc c (first_turn hex (cfg c) ev)) (length (heap c))))"
    by (rule coal_le_ready) (simp add: first_turn_def)
  show ?thesis using 1 coal_le_trans[OF 1 2] by (simp add: offer_new_alloc Let_def)
qed

lemma coal_le_offer_join:
  assumes "turn_state (heap c ! a) = Collecting" "a < length (heap c)"
  shows "coal_le c (fst (offer_join c a ev))"
proof -
  let ?c = "c\<lparr>heap := (heap c)[a := joined (heap c ! a) ev]\<rparr>"
  have 1: "coal_le c ?c" by (rule coal_le_update[where a = a]) (auto simp: turn_le_def assms)
  have 2: "coal_le ?c (fst (ready ?c a))" by (rule coal_le_ready) (simp add: assms)
  show ?thesis using 1 coal_le_trans[OF 1 2] by (simp add: offer_join_eq Let_def)
qed

lemma coal_le_Offer:
  assumes "coal_inv c"
  shows "coal_le c (fst (Offer hex c ev))"
proof (cases "map_of (open_turns c) (ev_session ev)")
  case (Some a)
  then have a: "a < length (heap c)" "turn_state (heap c ! a) = Collecting"
    using assms by (auto simp: open_lookup coal_inv_def open_ok_def)
  have "coal_le c (fst (offer_new hex (fst (ready c a)) ev))"
    using coal_le_trans[OF coal_le_ready coal_le_offer_new] a by blast
  then show ?thesis using Some a by (simp add: Offer_def split_beta coal_le_offer_join)
qed (simp add: Offer_def coal_le_offer_new)

lemma coal_le_tick_loop:
  assumes "coal_inv c" and "set es \<subseteq> set (open_turns c)" and "distinct (map fst es)"
  shows "coal_le c (fst (tick_loop now es c))"
  using assms
proof (induction es arbitrary: c)
  case Nil
  then show ?case by simp
next
  case (Cons e es)
  obtain k a where e: "e = (k, a)" by (cases e)
  have ok: "open_ok c" using Cons.prems by (simp add: coal_inv_def)
  have a: "turn_state (heap c ! a) = Collecting" using Cons.prems ok e by (auto simp: open_ok_def)
  have "set es \<subseteq> set (open_turns (fst (ready c a)))"
    using Cons.prems ok unfolding e by (intro open_rest_ready)
  moreover have "coal_inv (fst (ready c a))"
    using Cons.prems e by (intro coal_inv_ready[where k = k]) auto
  ultimately have "coal_le (fst (ready c a)) (fst (tick_loop now es (fst (ready c a))))"
    using Cons by simp
  then have "coal_le c (fst (tick_loop now es (fst (ready c a))))"
    using coal_le_ready[of c a] a coal_le_trans by blast
  then show ?case using Cons e by (simp add: tick_loop_Cons del: tick_loop.simps ready_simps)
qed

lemma coal_le_transition:
  assumes "transition c tid st st' = Some c'" and "state_rank st < state_rank st'"
  shows "coal_le c c'"
proof -
  obtain a where a: "turn_state (heap c ! a) = st"
      "c' = c\<lparr>heap := (heap c)[a := (heap c ! a)\<lparr>turn_state := st'\<rparr>]\<rparr>"
    using assms(1) by (auto simp: transition_def split: option.splits if_splits)
  then show ?thesis
    using assms(2) by (intro coal_le_update[where a = a]) (auto simp: turn_le_def)
qed

lemma coal_le_step:
  assumes "coal_inv c"
  shows "coal_le c (fst (turn_step hex c x))"
proof (cases x)
  case (OpTick now)
  have "coal_le c (fst (tick_loop now (open_turns c) c))"
    using assms by (intro coal_le_tick_loop) (auto simp: coal_inv_def open_ok_def)
  then show ?thesis using OpTick by (simp add: Tick_def split_beta)
qed (use assms in \<open>auto simp: coal_le_Offer Claim_def turn_Done_def
      split: option.splits dest: coal_le_transition\<close>)

interpretation turn_forward: monotone_machine "turn_step hex" "turn_run hex" coal_inv coal_le for hex
  by unfold_locales (auto intro: coal_le_trans coal_le_step)

section \<open>Properties\<close>

text \<open>Claim C33. No event is lost, duplicated or reordered: after any sequence of operations, the
  source events of a session's turns, taken in the order the turns were opened, are exactly the
  events offered to that session, in the order they were offered.\<close>

theorem turn_events_in_order:
  assumes "New cf = Some c"
  shows "session_ids (fst (turn_run hex c ops)) k = concat (map (op_ids k) ops)"
proof -
  have "session_ids c k = []"
    using assms by (auto simp: New_def session_ids_sess split: if_splits)
  then show ?thesis using turn_ledger.run_view[OF coal_inv_New[OF assms]] by simp
qed

text \<open>Claim C35. Every turn respects the limits it was opened under: it has at least one and at most
  \<open>MaxMsgs\<close> events, and one that grew past its first event stays within \<open>MaxBytes\<close> and \<open>MaxWaitMS\<close>;
  and a session never has two collecting turns.\<close>

theorem turn_limits:
  assumes "New cf = Some c" and "c' = fst (turn_run hex c ops)"
  shows "list_all (turn_ok (cfg c')) (heap c') \<and>
    (\<forall>a<length (heap c'). \<forall>b<length (heap c').
       turn_state (heap c' ! a) = Collecting \<and> turn_state (heap c' ! b) = Collecting \<and>
       session_key (heap c' ! a) = session_key (heap c' ! b) \<longrightarrow> a = b)"
proof -
  have inv: "coal_inv c'" using coal_inv_reachable[OF assms(1)] assms(2) by simp
  then have "a = b" if "a < length (heap c')" "b < length (heap c')"
      "turn_state (heap c' ! a) = Collecting" "turn_state (heap c' ! b) = Collecting"
      "session_key (heap c' ! a) = session_key (heap c' ! b)" for a b
    using that open_unique[of c' "session_key (heap c' ! b)" a b]
    by (simp add: coal_inv_def open_ok_def)
  then show ?thesis using inv by (auto simp: coal_inv_def list_all_length)
qed

text \<open>Claim C34. Closed turns are handed out exactly once: the turns the operations returned are, as a
  multiset, the turns that no longer collect, each as it was when it became ready.\<close>

theorem turn_handed_out_once:
  assumes "New cf = Some c"
  shows "mset (snd (turn_run hex c ops)) = handed_out (fst (turn_run hex c ops))"
proof -
  have "handed_out c = {#}" using assms by (auto simp: New_def handed_out_def split: if_splits)
  then show ?thesis using handed_out_run[OF coal_inv_New[OF assms]] by simp
qed

text \<open>A turn only moves forward through COLLECTING, READY, CLAIMED and DONE, keeps its id and
  session, and never gains an event once it has stopped collecting.\<close>

theorem turn_moves_forward:
  assumes "New cf = Some c"
  shows "coal_le (fst (turn_run hex c ops)) (fst (turn_run hex (fst (turn_run hex c ops)) later))"
  using turn_forward.run_rel coal_inv_reachable[OF assms] by blast

lemma Tick_order:
  assumes inv: "coal_inv c" and es: "mset es = mset (open_turns c)"
    and keys: "distinct (map (\<lambda>(k, a). turn_key (heap c ! a)) (open_turns c))"
  shows "snd (Tick (c\<lparr>open_turns := es\<rparr>) now) = snd (Tick c now)"
proof -
  let ?c = "c\<lparr>open_turns := es\<rparr>"
  let ?snap = "\<lambda>(k, a). (heap c ! a)\<lparr>turn_state := Ready\<rparr>" and ?due = "\<lambda>(k::string, a). expired now (heap c ! a)"
  have dist: "distinct (map fst (open_turns c))" using inv by (simp add: coal_inv_def open_ok_def)
  have set: "set es = set (open_turns c)" using es by (rule mset_eq_setD)
  have "mset (map fst es) = mset (map fst (open_turns c))" using es by simp
  then have dist': "distinct (map fst es)" using dist mset_eq_imp_distinct_iff by blast
  have inv': "coal_inv ?c"
    using inv set dist' by (simp add: coal_inv_def open_ok_def newest_ok_def)
  have out: "snd (tick_loop now (open_turns c) c) = map ?snap (filter ?due (open_turns c))"
    by (rule tick_loop_out[OF inv order_refl dist])
  have out': "snd (tick_loop now es ?c) = map ?snap (filter ?due es)"
    using tick_loop_out[OF inv' _ dist', of now] by simp
  have key: "map turn_key (map ?snap xs) = map (\<lambda>(k, a). turn_key (heap c ! a)) xs" for xs :: "(string \<times> nat) list"
    by (induction xs) auto
  have "distinct (map turn_key (map ?snap (filter ?due (open_turns c))))"
    unfolding key by (rule distinct_map_filter[OF keys])
  moreover have "mset (map ?snap (filter ?due (open_turns c))) = mset (map ?snap (filter ?due es))"
    using es by simp
  ultimately have "sortTurns (map ?snap (filter ?due (open_turns c))) = sortTurns (map ?snap (filter ?due es))"
    by (intro sortTurns_unique)
  then show ?thesis using out out' by (simp add: Tick_def split_beta)
qed

lemma Tick_out:
  assumes "coal_inv c"
  shows "set (snd (Tick c now)) =
    {(heap c ! a)\<lparr>turn_state := Ready\<rparr> | k a. (k, a) \<in> set (open_turns c) \<and> expired now (heap c ! a)}"
proof -
  have "distinct (map fst (open_turns c))" using assms by (simp add: coal_inv_def open_ok_def)
  from tick_loop_out[OF assms order_refl this] show ?thesis by (force simp: Tick_def split_beta)
qed

lemma Tick_rest:
  assumes "coal_inv c" and "(k, a) \<in> set (open_turns (fst (Tick c now)))"
  shows "\<not> expired now (heap (fst (Tick c now)) ! a)"
proof -
  have "distinct (map fst (open_turns c))" using assms by (simp add: coal_inv_def open_ok_def)
  from tick_loop_rest[OF assms(1) order_refl this] assms(2) show ?thesis
    by (auto simp: Tick_def split_beta)
qed

text \<open>\<open>Tick\<close> closes every overdue turn and only those, none overdue is left open, and what it
  returns does not depend on the order in which Go visits the map, as long as no two open turns
  share opening time and id.\<close>

theorem turn_tick_closes:
  assumes "New cf = Some c0" and "c = fst (turn_run hex c0 ops)"
    and "mset es = mset (open_turns c)"
    and "distinct (map (\<lambda>(k, a). turn_key (heap c ! a)) (open_turns c))"
  shows "snd (Tick (c\<lparr>open_turns := es\<rparr>) now) = snd (Tick c now)
    \<and> set (snd (Tick c now)) =
      {(heap c ! a)\<lparr>turn_state := Ready\<rparr> | k a. (k, a) \<in> set (open_turns c) \<and> expired now (heap c ! a)}
    \<and> (\<forall>(k, a)\<in>set (open_turns (fst (Tick c now))). \<not> expired now (heap (fst (Tick c now)) ! a))"
proof -
  have inv: "coal_inv c" using coal_inv_reachable[OF assms(1)] assms(2) by simp
  show ?thesis using Tick_order[OF inv assms(3,4)] Tick_out[OF inv] Tick_rest[OF inv] by auto
qed

lemma SessionKey_inject:
  assumes "SessionKey u p @ CHR ''e'' # x = SessionKey u' p' @ CHR ''e'' # x'"
  shows "u = u' \<and> p = p' \<and> x = x'"
proof -
  have no: "CHR ''e'' \<notin> set (FormatInt i)" "CHR '':'' \<notin> set (FormatInt i)" for i
    using FormatInt_chars[of "CHR ''e''" i] FormatInt_chars[of "CHR '':''" i] by (auto simp: is_digit_def)
  have "FormatInt u @ CHR '':'' # (FormatInt p @ CHR ''e'' # x) = FormatInt u' @ CHR '':'' # (FormatInt p' @ CHR ''e'' # x')"
    using assms by (simp add: SessionKey_def)
  then have u: "FormatInt u = FormatInt u'" "FormatInt p @ CHR ''e'' # x = FormatInt p' @ CHR ''e'' # x'"
    using no(2) cut_on_append by (metis option.inject prod.inject)+
  then have "FormatInt p = FormatInt p'" "x = x'"
    using no(1) cut_on_append by (metis option.inject prod.inject)+
  with u show ?thesis by simp
qed

text \<open>The text hashed into a turn id determines its conversation and first event, for session
  keys as \<open>SessionKey\<close> builds them and event ids of the listener's form \<open>evt:v1:...\<close>: although the two
  are joined without a separator, turns of different conversations never share a hash input.\<close>

theorem turn_id_preimage:
  assumes "SessionKey u p @ ''evt:v1:'' @ x = SessionKey u' p' @ ''evt:v1:'' @ x'"
  shows "u = u' \<and> p = p' \<and> x = x'"
  using SessionKey_inject[of u p "''vt:v1:'' @ x" u' p' "''vt:v1:'' @ x'"] assms by simp

section \<open>A concrete run\<close>

definition demo_cfg :: config where
  "demo_cfg = \<lparr>QuietMS = 1000, MaxWaitMS = 5000, MaxMsgs = 3, MaxBytes = 100\<rparr>"

definition demo_coalescer :: coalescer where
  "demo_coalescer = \<lparr>cfg = demo_cfg, heap = [], open_turns = [], turns = Map.empty\<rparr>"

definition demo_event :: "string \<Rightarrow> string \<Rightarrow> int \<Rightarrow> event" where
  "demo_event sess i millis = \<lparr>ev_id = i, ev_session = sess, ev_at = millis * 1000000, ev_bytes = 10\<rparr>"

definition demo_ops :: "turn_op list" where
  "demo_ops = [OpOffer (demo_event ''A'' ''a1'' 0), OpOffer (demo_event ''B'' ''b1'' 10),
     OpOffer (demo_event ''A'' ''a2'' 20)]"

definition demo_end :: coalescer where
  "demo_end = \<lparr>cfg = demo_cfg,
     heap = [\<lparr>turn_id = ''turn:v1:Aa1'', session_key = ''A'', source_ids = [''a1'', ''a2''],
              opened_at = 0, last_at = 20000000, limits = demo_cfg, turn_bytes = 20, turn_state = Collecting\<rparr>,
             \<lparr>turn_id = ''turn:v1:Bb1'', session_key = ''B'', source_ids = [''b1''],
              opened_at = 10000000, last_at = 10000000, limits = demo_cfg, turn_bytes = 10, turn_state = Collecting\<rparr>],
     open_turns = [(''B'', 1), (''A'', 0)],
     turns = [''turn:v1:Aa1'' \<mapsto> 0, ''turn:v1:Bb1'' \<mapsto> 1]\<rparr>"

lemma demo_New: "New demo_cfg = Some demo_coalescer"
  by (simp add: New_def demo_cfg_def demo_coalescer_def)

lemma demo_run: "turn_run (\<lambda>s. s) demo_coalescer demo_ops = (demo_end, [])"
  by (simp add: demo_ops_def demo_event_def demo_coalescer_def demo_end_def demo_cfg_def Offer_def offer_new_def
      offer_join_def joined_def joins_def ms_def time_sub_def wrap64_def turnID_def max_int64_def min_int64_def)

theorem turn_events_in_order_witness: "session_ids demo_end ''A'' = [''a1'', ''a2'']"
  using turn_events_in_order[OF demo_New, of "\<lambda>s. s" demo_ops "''A''"]
  by (simp add: demo_run) (simp add: demo_ops_def demo_event_def)

theorem turn_limits_witness: "list_all (turn_ok demo_cfg) (heap demo_end)"
proof -
  have "demo_end = fst (turn_run (\<lambda>s. s) demo_coalescer demo_ops)" by (simp add: demo_run)
  moreover have "cfg demo_end = demo_cfg" by (simp add: demo_end_def)
  ultimately show ?thesis using turn_limits[OF demo_New, of demo_end "\<lambda>s. s" demo_ops] by simp
qed

theorem turn_handed_out_once_witness:
  "mset (snd (turn_run (\<lambda>s. s) demo_coalescer (demo_ops @ [OpTick 3000000000])))
     = handed_out (fst (turn_run (\<lambda>s. s) demo_coalescer (demo_ops @ [OpTick 3000000000])))"
  by (rule turn_handed_out_once[OF demo_New])

theorem turn_moves_forward_witness:
  "coal_le demo_end (fst (turn_run (\<lambda>s. s) demo_end [OpTick 3000000000, OpClaim ''turn:v1:Aa1'']))"
  using turn_moves_forward[OF demo_New, of "\<lambda>s. s" demo_ops "[OpTick 3000000000, OpClaim ''turn:v1:Aa1'']"]
  by (simp only: demo_run fst_conv)

theorem turn_tick_closes_witness:
  "snd (Tick (demo_end\<lparr>open_turns := [(''A'', 0), (''B'', 1)]\<rparr>) 3000000000) = snd (Tick demo_end 3000000000)"
proof -
  have "demo_end = fst (turn_run (\<lambda>s. s) demo_coalescer demo_ops)" by (simp add: demo_run)
  moreover have "mset [(''A'', 0), (''B'', 1)] = mset (open_turns demo_end)" by (simp add: demo_end_def)
  moreover have "distinct (map (\<lambda>(k, a). turn_key (heap demo_end ! a)) (open_turns demo_end))"
    by (simp add: demo_end_def)
  ultimately show ?thesis using turn_tick_closes[OF demo_New] by blast
qed

theorem turn_id_preimage_witness:
  "SessionKey 1 2 @ ''evt:v1:'' @ ''77'' = SessionKey 1 2 @ ''evt:v1:'' @ ''77''
   \<and> SessionKey 1 2 @ ''evt:v1:'' @ ''77'' \<noteq> SessionKey 1 27 @ ''evt:v1:'' @ ''7''"
  using turn_id_preimage[of 1 2 "''77''" 1 27 "''7''"] by auto

end
