(* ===== verification/Tables.thy ===== *)
theory Tables
  imports Prelude "HOL-Library.Product_Lexorder"
begin

text \<open>
  A relational table as the list of its rows in insertion order, and the three statements the store
  uses on it: \<open>UPDATE ... WHERE\<close>, \<open>DELETE ... WHERE\<close> and counting. The lemmas say what such a
  statement keeps: a column it does not assign, a property every row has, and the rows it misses.
\<close>

section \<open>Statements\<close>

definition update_where :: "('r \<Rightarrow> bool) \<Rightarrow> ('r \<Rightarrow> 'r) \<Rightarrow> 'r list \<Rightarrow> 'r list" where
  "update_where P f rows = map (\<lambda>r. if P r then f r else r) rows"

definition delete_where :: "('r \<Rightarrow> bool) \<Rightarrow> 'r list \<Rightarrow> 'r list" where
  "delete_where P rows = filter (\<lambda>r. \<not> P r) rows"

definition count_where :: "('r \<Rightarrow> bool) \<Rightarrow> 'r list \<Rightarrow> int" where
  "count_where P rows = int (length (filter P rows))"

text \<open>\<open>SELECT ... ORDER BY key LIMIT 1\<close>.\<close>

definition first_by :: "('r \<Rightarrow> 'k::linorder) \<Rightarrow> 'r list \<Rightarrow> 'r option" where
  "first_by key rows = (case sort_key key rows of [] \<Rightarrow> None | r # _ \<Rightarrow> Some r)"

lemma first_by_None [simp]: "first_by key rows = None \<longleftrightarrow> rows = []"
  by (cases "sort_key key rows") (auto simp: first_by_def dest: arg_cong[where f = set])

lemma first_by_Some:
  assumes "first_by key rows = Some r"
  shows "r \<in> set rows \<and> (\<forall>x\<in>set rows. key r \<le> key x)"
proof -
  obtain rs where s: "sort_key key rows = r # rs"
    using assms by (auto simp: first_by_def split: list.splits)
  have "sorted (map key (sort_key key rows))" by simp
  then show ?thesis using s set_sort[of key rows] by auto
qed

section \<open>Frame lemmas\<close>

lemma update_where_Nil [simp]: "update_where P f [] = []"
  by (simp add: update_where_def)

lemma update_where_Cons [simp]:
  "update_where P f (r # rows) = (if P r then f r else r) # update_where P f rows"
  by (simp add: update_where_def)

lemma update_where_append [simp]:
  "update_where P f (rows @ rows') = update_where P f rows @ update_where P f rows'"
  by (simp add: update_where_def)

lemma length_update_where [simp]: "length (update_where P f rows) = length rows"
  by (simp add: update_where_def)

lemma in_update_where:
  "r \<in> set (update_where P f rows) \<longleftrightarrow> (\<exists>x\<in>set rows. r = (if P x then f x else x))"
  by (auto simp: update_where_def)

lemma map_update_where:
  "(\<And>r. key (f r) = key r) \<Longrightarrow> map key (update_where P f rows) = map key rows"
  by (simp add: update_where_def)

lemma list_all2_update_where:
  assumes "\<And>r. r \<in> set rows \<Longrightarrow> P r \<Longrightarrow> R r (f r)" and "\<And>r. R r r"
  shows "list_all2 R rows (update_where P f rows)"
  using assms by (induction rows) auto

lemma update_where_none: "(\<And>r. r \<in> set rows \<Longrightarrow> \<not> P r) \<Longrightarrow> update_where P f rows = rows"
  by (induction rows) auto

lemma list_all_update_where:
  assumes "list_all Q rows" and "\<And>r. Q r \<Longrightarrow> P r \<Longrightarrow> Q (f r)"
  shows "list_all Q (update_where P f rows)"
  using assms by (induction rows) auto

lemma in_delete_where [simp]: "r \<in> set (delete_where P rows) \<longleftrightarrow> r \<in> set rows \<and> \<not> P r"
  by (auto simp: delete_where_def)

lemma distinct_map_delete: "distinct (map key rows) \<Longrightarrow> distinct (map key (delete_where P rows))"
  by (simp add: delete_where_def distinct_map_filter)

text \<open>A second statement that no row the first one changed satisfies.\<close>

lemma filter_update_gone:
  "(\<And>r. P r \<Longrightarrow> \<not> Q (f r)) \<Longrightarrow> filter Q (update_where P f rows) = filter (\<lambda>r. \<not> P r \<and> Q r) rows"
  by (induction rows) auto

lemma update_update_gone:
  "(\<And>r. P r \<Longrightarrow> \<not> Q (f r)) \<Longrightarrow> update_where Q g (update_where P f rows) =
     update_where (\<lambda>r. P r \<or> Q r) (\<lambda>r. if P r then f r else g r) rows"
  by (induction rows) auto

lemma count_where_pos: "count_where P rows \<noteq> 0 \<longleftrightarrow> (\<exists>r\<in>set rows. P r)"
  by (auto simp: count_where_def filter_empty_conv)

lemma find_SomeD: "List.find P rows = Some r \<Longrightarrow> r \<in> set rows \<and> P r"
  by (auto simp: find_Some_iff)

lemma count_where_ex: "count_where P rows \<noteq> 0 \<Longrightarrow> \<exists>r\<in>set rows. P r"
  using count_where_pos by blast

lemma find_update_where:
  assumes "\<And>r. P (f r) = P r"
  shows "List.find P (update_where Q f rows) = map_option (\<lambda>r. if Q r then f r else r) (List.find P rows)"
  by (induction rows) (auto simp: assms)

lemma find_append: "List.find P (xs @ ys) = (case List.find P xs of None \<Rightarrow> List.find P ys | Some x \<Rightarrow> Some x)"
  by (induction xs) auto

section \<open>Keys\<close>

text \<open>A table with an \<open>AUTOINCREMENT\<close> key: keys are distinct, positive and at most the sequence.\<close>

definition keyed :: "('r \<Rightarrow> int) \<Rightarrow> int \<Rightarrow> 'r list \<Rightarrow> bool" where
  "keyed key sq rows \<longleftrightarrow> 0 \<le> sq \<and> distinct (map key rows) \<and> (\<forall>r\<in>set rows. 0 < key r \<and> key r \<le> sq)"

lemma keyed_insert:
  "keyed key sq rows \<Longrightarrow> key r = sq + 1 \<Longrightarrow> keyed key (sq + 1) (rows @ [r])"
  by (fastforce simp: keyed_def)

lemma keyed_update:
  assumes "keyed key sq rows" and "\<And>r. key (f r) = key r"
  shows "keyed key sq (update_where P f rows)"
  using assms by (auto simp: keyed_def map_update_where in_update_where)

lemma keyed_cong:
  assumes "map key rows' = map key rows"
  shows "keyed key sq rows' = keyed key sq rows"
proof -
  have "key ` set rows' = key ` set rows" using arg_cong[OF assms, of set] by simp
  then have "(\<forall>r\<in>set rows'. 0 < key r \<and> key r \<le> sq) = (\<forall>r\<in>set rows. 0 < key r \<and> key r \<le> sq)"
    using ball_simps(9)[of key "set rows'" "\<lambda>k. 0 < k \<and> k \<le> sq"] ball_simps(9)[of key "set rows" "\<lambda>k. 0 < k \<and> k \<le> sq"] by simp
  then show ?thesis by (simp add: keyed_def assms)
qed

lemma keyed_delete: "keyed key sq rows \<Longrightarrow> keyed key sq (delete_where P rows)"
  by (auto simp: keyed_def distinct_map_delete)

lemma filter_key_unique:
  "distinct (map key rows) \<Longrightarrow> r \<in> set rows \<Longrightarrow> filter (\<lambda>x. key x = key r) rows = [r]"
  by (induction rows) (auto simp: filter_empty_conv, metis imageI)

lemma filter_key_absent: "k \<notin> key ` set rows \<Longrightarrow> filter (\<lambda>x. key x = k) rows = []"
  by (auto simp: filter_empty_conv)

lemma length_filter_ids:
  assumes "distinct (map key rows)" and "\<And>r. r \<in> set rows \<Longrightarrow> P r \<Longrightarrow> key r \<in> K" and "finite K"
  shows "length (filter P rows) \<le> card K"
proof -
  have "length (filter P rows) = card (set (map key (filter P rows)))"
    using distinct_card[OF distinct_map_filter[OF assms(1)]] by (metis length_map)
  also have "\<dots> \<le> card K" by (rule card_mono) (use assms in auto)
  finally show ?thesis .
qed

lemma keyed_unique:
  "keyed key sq rows \<Longrightarrow> r \<in> set rows \<Longrightarrow> r' \<in> set rows \<Longrightarrow> key r = key r' \<Longrightarrow> r = r'"
  by (auto simp: keyed_def distinct_map inj_on_def)

end
