(* ===== verification/AgentDb.thy ===== *)
theory AgentDb
  imports Complex_Main Tables Turn
begin

text \<open>
  The tables of the agent store (\<open>internal/db\<close>, schema in \<open>agent_schema.go\<close>) and the configuration a
  \<open>Store\<close> carries. A nullable column is an option. Status columns whose values are a closed set of
  constants are datatypes; free text stays \<^typ>\<open>string\<close>. Sums of money, \<open>float64\<close> in Go and \<open>REAL\<close>
  in SQL, are exact rationals here. A table's \<open>AUTOINCREMENT\<close> counter is its \<open>seq\<close> field.

  A store method is one transaction: a function from the database to an error, which stands for a
  rollback, or to its result and the new database. The clock readings a method takes are arguments
  (\<open>now\<close> for the application's clock, \<open>db_now\<close> for the column default \<open>CURRENT_TIMESTAMP\<close>). Failures of
  the SQL driver itself are not modelled.
\<close>

section \<open>Rows\<close>

datatype job_status = JobPending | JobProcessing | JobCompleted | JobFailed | JobDeadLetter
  | JobIgnored | JobCoalesced | JobRouted

record job =
  j_id :: int
  j_event_id :: string
  j_user_id :: int
  j_conversation_id :: "int option"
  j_status :: job_status
  j_attempts :: int
  j_max_attempts :: int
  j_next_run_at :: instant
  j_claimed_by :: "string option"
  j_claimed_at :: "instant option"
  j_last_error :: "string option"
  j_result_action_id :: "int option"
  j_result_lead_id :: "int option"
  j_cost_usd :: "rat option"
  j_created_at :: instant
  j_updated_at :: instant
  j_turn_id :: "string option"
  j_coalesced_into :: "int option"
  j_install_revision :: int
  j_runtime :: "string option"
  j_body_bytes :: "int option"
  j_turn_context :: "string list option"

text \<open>What \<open>ClaimAgentJobs\<close> and \<open>GetAgentJob\<close> return: the row and the events of its turn.\<close>

record agent_job =
  job_row :: job
  SourceEventIDs :: "string list"

datatype attempt_status = AttemptRunning | AttemptEnded job_status

record attempt_row =
  t_id :: int
  t_job_id :: int
  t_attempt :: int
  t_started_at :: instant
  t_finished_at :: "instant option"
  t_status :: attempt_status
  t_error :: "string option"

datatype usage_status = UsageReserved | UsageHeld | UsageSettled

record usage_row =
  us_id :: int
  us_job_id :: int
  us_attempt :: int
  us_user_id :: int
  us_runtime :: string
  us_runner :: string
  us_model :: string
  us_input_tokens :: int
  us_output_tokens :: int
  us_reserved_usd :: rat
  us_cost_usd :: "rat option"
  us_status :: usage_status
  us_created_at :: instant
  us_updated_at :: instant
  us_settled_at :: "instant option"

record event_row =
  e_id :: int
  e_event_id :: string
  e_user_id :: int
  e_kind :: string
  e_chat_tg_id :: int
  e_sender_tg_id :: int
  e_message_id :: int
  e_body :: "string option"
  e_meta :: string
  e_created_at :: instant

text \<open>\<open>IncomingEvent\<close> as a caller passes it, with the plaintext body.\<close>

record incoming_event =
  ie_event_id :: string
  ie_user_id :: int
  ie_kind :: string
  ie_chat_tg_id :: int
  ie_sender_tg_id :: int
  ie_message_id :: int
  ie_body :: string
  ie_meta :: string

record profile =
  p_user_id :: int
  p_mode :: string
  p_autopilot_paused :: bool
  p_listener_enabled :: bool
  p_disclosure_text :: string
  p_disclosure_disabled :: bool
  p_max_autonomous_turns :: int
  p_max_msgs_per_minute :: int
  p_max_reply_chars :: int
  p_intent_allowlist :: string
  p_intent_denylist :: string
  p_working_hours :: string
  p_audience_excludes :: string
  p_installed_at :: "instant option"
  p_install_revision :: int
  p_definition_digest :: string
  p_assistant_name :: string
  p_assistant_version :: string
  p_install :: "string option"
  p_owner_profile :: "string option"
  p_owner_profile_imported_at :: "instant option"
  p_blocked_senders :: string
  p_sender_allowlist :: string
  p_runtime :: string
  p_consent_version :: string
  p_consent_at :: "instant option"
  p_paused_until :: "instant option"
  p_budget_day :: "rat option"
  p_budget_month :: "rat option"
  p_created_at :: instant
  p_updated_at :: instant

record conversation =
  c_id :: int
  c_user_id :: int
  c_peer_tg_id :: int
  c_peer_username :: "string option"
  c_peer_display_name :: "string option"
  c_peer_access_hash :: int
  c_state :: string
  c_autonomous_turns :: int
  c_last_incoming_at :: "instant option"
  c_last_agent_reply_at :: "instant option"
  c_owner_engaged_at :: "instant option"
  c_peer_contact :: string
  c_created_at :: instant
  c_updated_at :: instant

record message =
  m_id :: int
  m_conversation_id :: int
  m_direction :: string
  m_tg_message_id :: "int option"
  m_event_id :: "string option"
  m_body :: "string option"
  m_created_at :: instant

datatype action_status = ActionProposed | ActionPendingApproval | ActionApproved | ActionExecuting
  | ActionExecuted | ActionRejected | ActionExpired | ActionDenied | ActionDeliveryUnknown

record action =
  ac_id :: int
  ac_approval_code :: "string option"
  ac_code_hash :: "string option"
  ac_code_encrypted :: "string option"
  ac_job_id :: "int option"
  ac_conversation_id :: "int option"
  ac_user_id :: int
  ac_type :: string
  ac_intent :: string
  ac_payload :: "string option"
  ac_decision :: string
  ac_reasons :: string
  ac_status :: action_status
  ac_executed_msg :: "int option"
  ac_random_id :: "int option"
  ac_send_body :: "string option"
  ac_send_attempts :: int
  ac_retry_not_before :: "instant option"
  ac_install_revision :: int
  ac_created_at :: instant
  ac_updated_at :: instant

datatype notification_status = NotificationPending | NotificationSent | NotificationFailed

record notification =
  n_id :: int
  n_user_id :: int
  n_kind :: string
  n_action_id :: "int option"
  n_body :: "string option"
  n_status :: notification_status
  n_tg_message_id :: "int option"
  n_sent_at :: "instant option"
  n_claimed_until :: "instant option"
  n_random_id :: "int option"
  n_created_at :: instant

record outbox_row =
  o_id :: int
  o_event_id :: string
  o_user_id :: int
  o_stream :: string
  o_envelope :: string
  o_attempts :: int
  o_last_error :: string
  o_created_at :: instant
  o_published_at :: "instant option"

text \<open>The part of an \<open>OutboxRow\<close> a builder fills in.\<close>

record envelope =
  env_event_id :: string
  env_stream :: string
  env_envelope :: string

record pending_delete =
  pd_user_id :: int
  pd_message_id :: int
  pd_self_tg_id :: int
  pd_created_at :: instant

record lead_result =
  lr_job_id :: int
  lr_user_id :: int
  lr_lead_id :: int

record job_lead =
  l_id :: int
  l_user_id :: int

record lease =
  lease_holder :: string
  lease_expires_at :: instant

section \<open>The database and the store\<close>

record agent_db =
  db_jobs :: "job list"
  db_job_seq :: int
  db_attempts :: "attempt_row list"
  db_attempt_seq :: int
  db_usage :: "usage_row list"
  db_usage_seq :: int
  db_events :: "event_row list"
  db_event_seq :: int
  db_profiles :: "profile list"
  db_conversations :: "conversation list"
  db_conversation_seq :: int
  db_messages :: "message list"
  db_message_seq :: int
  db_actions :: "action list"
  db_action_seq :: int
  db_notifications :: "notification list"
  db_notification_seq :: int
  db_outbox :: "outbox_row list"
  db_outbox_seq :: int
  db_lease :: "lease option"
  db_pending_deletes :: "pending_delete list"
  db_lead_results :: "lead_result list"
  db_leads :: "job_lead list"
  db_import_tombstones :: "int list"

datatype db_error = EventIdRequired | UserIdRequired | EventKindRequired | ConversationIdRequired
  | MessageIdRequired | ActionTypeRequired | PolicyDecisionRequired | RandomIdRequired
  | ActionIdsRequired | NotificationKindRequired | JobIdForbidden | ApprovalRequired
  | ErrConversationNotFound | ErrIncomingEventNotFound | ErrAgentJobNotFound | ErrAgentActionNotFound
  | ErrOwnerNotificationNotFound
  | ErrAgentJobResultRequired | ErrAgentJobResultInvalid | InvalidTerminalStatus | InvalidRuntime
  | MaxInflightInvalid | ErrUsageConflict | ErrUsageCredential | UniqueViolation
  | MemberMovedConcurrently | TurnConfigInvalid | SealFailed string | EnvelopeFailed string
  | ErrInvalidActionTransition | ErrAgentSendBudgetExhausted | SourceSuperseded string
  | LeaseInvalid | LimitInvalid | OpenFailed | PeerIdRequired | PeerContactInvalid | DirectionRequired
  | ErrAgentProfileNotFound | ErrManagedQuota | InstallRevisionConflict int | OwnerProfileRequired | OwnerProfileNotFound

text \<open>\<open>Crypt\<close>: sealing under the user's derived key, opening, and the keyed blind index
  (\<open>internal/crypto\<close>); the hexadecimal SHA-256 that names turns.\<close>

record crypt =
  SealForUser :: "string \<Rightarrow> int \<Rightarrow> (string, string) result"
  OpenForUser :: "string \<Rightarrow> int \<Rightarrow> (string, string) result"
  BlindIndexForUser :: "string \<Rightarrow> string \<Rightarrow> int \<Rightarrow> (string, string) result"
  sha256_hex :: "string \<Rightarrow> string"

record managed_budget =
  PerJobUSD :: rat
  AccountDayUSD :: rat
  AccountMonthUSD :: rat
  GlobalDayUSD :: rat
  ClaimNotAfter :: "instant option"

type_synonym outbox_builder = "incoming_event \<Rightarrow> instant \<Rightarrow> string \<Rightarrow> (string, envelope option) result"

record store =
  st_crypt :: crypt
  st_turn_cfg :: "config option"
  st_budget :: "managed_budget option"
  st_operator_routing :: bool
  st_outbox :: "outbox_builder option"

definition WithTurnCoalescing :: "store \<Rightarrow> config option \<Rightarrow> store" where
  "WithTurnCoalescing st c = (case c of
       None \<Rightarrow> st\<lparr>st_turn_cfg := None\<rparr>
     | Some cf \<Rightarrow> if QuietMS cf \<le> 0 then st\<lparr>st_turn_cfg := None\<rparr> else st\<lparr>st_turn_cfg := Some cf\<rparr>)"

definition WithManagedBudget :: "store \<Rightarrow> managed_budget \<Rightarrow> store" where
  "WithManagedBudget st b = (if PerJobUSD b \<le> 0 then st\<lparr>st_budget := None\<rparr> else st\<lparr>st_budget := Some b\<rparr>)"

definition WithOperatorRouting :: "store \<Rightarrow> bool \<Rightarrow> store" where
  "WithOperatorRouting st on = st\<lparr>st_operator_routing := on\<rparr>"

definition WithEventOutbox :: "store \<Rightarrow> outbox_builder \<Rightarrow> store" where
  "WithEventOutbox st b = st\<lparr>st_outbox := Some b\<rparr>"

section \<open>Lookups\<close>

definition RuntimeOwn :: string where "RuntimeOwn = ''own''"
definition RuntimeManaged :: string where "RuntimeManaged = ''managed''"

definition ConversationActive :: string where "ConversationActive = ''active''"

definition EventKindPrivateMessage :: string where "EventKindPrivateMessage = ''private_message''"
definition EventKindMessageEdit :: string where "EventKindMessageEdit = ''message_edit''"
definition EventKindMessageDelete :: string where "EventKindMessageDelete = ''message_delete''"

lemmas event_kind_defs = EventKindPrivateMessage_def EventKindMessageEdit_def EventKindMessageDelete_def

definition profile_of :: "agent_db \<Rightarrow> int \<Rightarrow> profile option" where
  "profile_of db uid = List.find (\<lambda>p. p_user_id p = uid) (db_profiles db)"

text \<open>\<open>COALESCE((SELECT runtime FROM agent_profiles ...), 'own')\<close> and the same for the revision.\<close>

definition account_runtime :: "agent_db \<Rightarrow> int \<Rightarrow> string" where
  "account_runtime db uid = (case profile_of db uid of None \<Rightarrow> RuntimeOwn | Some p \<Rightarrow> p_runtime p)"

definition account_revision :: "agent_db \<Rightarrow> int \<Rightarrow> int" where
  "account_revision db uid = (case profile_of db uid of None \<Rightarrow> 1 | Some p \<Rightarrow> p_install_revision p)"

definition GetConversation :: "agent_db \<Rightarrow> int \<Rightarrow> int \<Rightarrow> (db_error, conversation) result" where
  "GetConversation db uid cid =
     (case List.find (\<lambda>c. c_id c = cid \<and> c_user_id c = uid) (db_conversations db) of
        None \<Rightarrow> Inl ErrConversationNotFound | Some c \<Rightarrow> Inr c)"

definition GetConversationByPeer :: "agent_db \<Rightarrow> int \<Rightarrow> int \<Rightarrow> (db_error, conversation) result" where
  "GetConversationByPeer db uid peer =
     (case List.find (\<lambda>c. c_user_id c = uid \<and> c_peer_tg_id c = peer) (db_conversations db) of
        None \<Rightarrow> Inl ErrConversationNotFound | Some c \<Rightarrow> Inr c)"

definition nullable :: "string \<Rightarrow> string option" where
  "nullable s = (if s = [] then None else Some s)"

definition nullableInt :: "int \<Rightarrow> int option" where
  "nullableInt v = (if v = 0 then None else Some v)"

definition seal_body :: "store \<Rightarrow> string \<Rightarrow> int \<Rightarrow> (db_error, string option) result" where
  "seal_body st body uid = (if body = [] then Inr None
     else case SealForUser (st_crypt st) body uid of Inl m \<Rightarrow> Inl (SealFailed m) | Inr b \<Rightarrow> Inr (Some b))"

section \<open>Inserts\<close>

definition new_job :: "agent_db \<Rightarrow> string \<Rightarrow> int \<Rightarrow> int option \<Rightarrow> int option \<Rightarrow> instant \<Rightarrow> job" where
  "new_job db eid uid conv bytes db_now =
     \<lparr>j_id = db_job_seq db + 1, j_event_id = eid, j_user_id = uid, j_conversation_id = conv,
      j_status = JobPending, j_attempts = 0, j_max_attempts = 5, j_next_run_at = db_now,
      j_claimed_by = None, j_claimed_at = None, j_last_error = None,
      j_result_action_id = None, j_result_lead_id = None, j_cost_usd = None,
      j_created_at = db_now, j_updated_at = db_now, j_turn_id = None, j_coalesced_into = None,
      j_install_revision = 1, j_runtime = None, j_body_bytes = bytes, j_turn_context = None\<rparr>"

text \<open>\<open>INSERT INTO agent_jobs ... ON CONFLICT (event_id) DO NOTHING RETURNING id\<close>.\<close>

definition insert_job ::
  "string \<Rightarrow> int \<Rightarrow> int option \<Rightarrow> int option \<Rightarrow> instant \<Rightarrow> agent_db \<Rightarrow> int option \<times> agent_db" where
  "insert_job eid uid conv bytes db_now db =
     (if eid \<in> j_event_id ` set (db_jobs db) then (None, db)
      else (Some (db_job_seq db + 1),
            db\<lparr>db_jobs := db_jobs db @ [new_job db eid uid conv bytes db_now],
               db_job_seq := db_job_seq db + 1\<rparr>))"

definition event_of :: "agent_db \<Rightarrow> incoming_event \<Rightarrow> string option \<Rightarrow> instant \<Rightarrow> event_row" where
  "event_of db ev body db_now =
     \<lparr>e_id = db_event_seq db + 1, e_event_id = ie_event_id ev, e_user_id = ie_user_id ev,
      e_kind = ie_kind ev, e_chat_tg_id = ie_chat_tg_id ev, e_sender_tg_id = ie_sender_tg_id ev,
      e_message_id = ie_message_id ev, e_body = body,
      e_meta = (if ie_meta ev = [] then ''{}'' else ie_meta ev), e_created_at = db_now\<rparr>"

text \<open>\<open>INSERT INTO incoming_events ... ON CONFLICT (event_id) DO NOTHING RETURNING id\<close>.\<close>

definition insert_event ::
  "incoming_event \<Rightarrow> string option \<Rightarrow> instant \<Rightarrow> agent_db \<Rightarrow> int option \<times> agent_db" where
  "insert_event ev body db_now db =
     (if ie_event_id ev \<in> e_event_id ` set (db_events db) then (None, db)
      else (Some (db_event_seq db + 1),
            db\<lparr>db_events := db_events db @ [event_of db ev body db_now],
               db_event_seq := db_event_seq db + 1\<rparr>))"

definition insert_attempt :: "int \<Rightarrow> int \<Rightarrow> instant \<Rightarrow> agent_db \<Rightarrow> agent_db" where
  "insert_attempt jid n now db =
     db\<lparr>db_attempts := db_attempts db @ [\<lparr>t_id = db_attempt_seq db + 1, t_job_id = jid, t_attempt = n,
          t_started_at = now, t_finished_at = None, t_status = AttemptRunning, t_error = None\<rparr>],
        db_attempt_seq := db_attempt_seq db + 1\<rparr>"

definition insert_notification :: "int \<Rightarrow> string \<Rightarrow> int option \<Rightarrow> string option \<Rightarrow> instant \<Rightarrow> agent_db \<Rightarrow> agent_db" where
  "insert_notification uid kind aid body db_now db =
     db\<lparr>db_notifications := db_notifications db @ [\<lparr>n_id = db_notification_seq db + 1, n_user_id = uid,
          n_kind = kind, n_action_id = aid, n_body = body, n_status = NotificationPending,
          n_tg_message_id = None, n_sent_at = None, n_claimed_until = None, n_random_id = None,
          n_created_at = db_now\<rparr>],
        db_notification_seq := db_notification_seq db + 1\<rparr>"

definition insert_message ::
  "int \<Rightarrow> string \<Rightarrow> int option \<Rightarrow> string option \<Rightarrow> string option \<Rightarrow> instant \<Rightarrow> agent_db \<Rightarrow> agent_db" where
  "insert_message cid dir msg eid body db_now db =
     db\<lparr>db_messages := db_messages db @ [\<lparr>m_id = db_message_seq db + 1, m_conversation_id = cid, m_direction = dir,
          m_tg_message_id = msg, m_event_id = eid, m_body = body, m_created_at = db_now\<rparr>],
        db_message_seq := db_message_seq db + 1\<rparr>"

definition update_jobs :: "(job \<Rightarrow> bool) \<Rightarrow> (job \<Rightarrow> job) \<Rightarrow> agent_db \<Rightarrow> agent_db" where
  "update_jobs P f db = db\<lparr>db_jobs := update_where P f (db_jobs db)\<rparr>"

lemma update_jobs_simps [simp]:
  "db_jobs (update_jobs P f db) = update_where P f (db_jobs db)"
  "db_job_seq (update_jobs P f db) = db_job_seq db"
  "db_attempts (update_jobs P f db) = db_attempts db"
  "db_attempt_seq (update_jobs P f db) = db_attempt_seq db"
  "db_usage (update_jobs P f db) = db_usage db"
  "db_usage_seq (update_jobs P f db) = db_usage_seq db"
  "db_events (update_jobs P f db) = db_events db"
  "db_profiles (update_jobs P f db) = db_profiles db"
  "db_conversations (update_jobs P f db) = db_conversations db"
  "db_actions (update_jobs P f db) = db_actions db"
  "db_outbox (update_jobs P f db) = db_outbox db"
  by (simp_all add: update_jobs_def)

end
