(* ===== verification/Usage.thy ===== *)
theory Usage
  imports AgentDb
begin

text \<open>
  The usage ledger and the budget of the managed runtime (\<open>agent_usage.go\<close>). A claim reserves an
  amount per job, a cost report settles the row of one attempt, and the sweeper turns reservations of
  ended attempts into held ones. \<open>reserveBudget\<close> decides how many jobs a claim may take under three
  windows. UTC calendar arithmetic is written out on nanoseconds since the Unix epoch.
\<close>

section \<open>Calendar\<close>

abbreviation day_ns :: int where "day_ns \<equiv> 86400000000000"

definition day_start :: "instant \<Rightarrow> instant" where
  "day_start now = now - now mod day_ns"

text \<open>Proleptic Gregorian date of a day number (days since 1970-01-01): year, month, day. The year is
  counted from March, so that the leap day comes last.\<close>

definition civil :: "int \<Rightarrow> int \<times> int \<times> int" where
  "civil z =
     (let doe = (z + 719468) mod 146097;
          yoe = (doe - doe div 1460 + doe div 36524 - doe div 146096) div 365;
          doy = doe - (365 * yoe + yoe div 4 - yoe div 100);
          mp = (5 * doy + 2) div 153;
          m = (if mp < 10 then mp + 3 else mp - 9) in
      (yoe + ((z + 719468) div 146097) * 400 + (if m \<le> 2 then 1 else 0), m,
       doy - (153 * mp + 2) div 5 + 1))"

definition leap_year :: "int \<Rightarrow> bool" where
  "leap_year y \<longleftrightarrow> y mod 4 = 0 \<and> (y mod 100 \<noteq> 0 \<or> y mod 400 = 0)"

definition days_in_month :: "int \<Rightarrow> int \<Rightarrow> int" where
  "days_in_month y m = (if m = 2 then (if leap_year y then 29 else 28)
     else if m \<in> {4, 6, 9, 11} then 30 else 31)"

definition month_start :: "instant \<Rightarrow> instant" where
  "month_start now = (let (y, m, d) = civil (now div day_ns) in day_start now - (d - 1) * day_ns)"

definition month_end :: "instant \<Rightarrow> instant" where
  "month_end now = (let (y, m, d) = civil (now div day_ns) in
     month_start now + days_in_month y m * day_ns)"

text \<open>\<open>Format("2006-01-02 15:04")\<close>.\<close>

definition pad :: "nat \<Rightarrow> int \<Rightarrow> string" where
  "pad n i = replicate (n - length (FormatInt i)) (CHR ''0'') @ FormatInt i"

definition format_minute :: "instant \<Rightarrow> string" where
  "format_minute inst = (let (y, m, d) = civil (inst div day_ns); s = inst mod day_ns in
     pad 4 y @ ''-'' @ pad 2 m @ ''-'' @ pad 2 d @ '' '' @ pad 2 (s div 3600000000000) @ '':'' @
     pad 2 (s mod 3600000000000 div 60000000000))"

section \<open>Budget windows\<close>

definition BudgetScopeAccountDay :: string where "BudgetScopeAccountDay = ''account_day''"
definition BudgetScopeAccountMonth :: string where "BudgetScopeAccountMonth = ''account_month''"
definition BudgetScopeGlobalDay :: string where "BudgetScopeGlobalDay = ''global_day''"

record budget_window =
  w_scope :: string
  w_cap :: rat
  w_durable :: rat
  w_inflight :: rat
  w_end :: instant

record budget_event =
  be_exhausted :: bool
  be_scope :: string

definition budgeted :: "store \<Rightarrow> string \<Rightarrow> int \<Rightarrow> bool" where
  "budgeted st runtime maxInflight \<longleftrightarrow>
     st_budget st \<noteq> None \<and> runtime = RuntimeManaged \<and> maxInflight > 0"

definition slots :: "budget_window \<Rightarrow> rat \<Rightarrow> bool \<Rightarrow> int" where
  "slots w perJob withInflight =
     (let used = w_durable w + (if withInflight then w_inflight w else 0);
          n = \<lfloor>(w_cap w - used) / perJob + 1 / 1000000000\<rfloor> in
      if n < 0 then 0 else n)"

definition in_window :: "instant \<Rightarrow> int \<Rightarrow> usage_row \<Rightarrow> bool" where
  "in_window since uid u \<longleftrightarrow> us_runtime u = RuntimeManaged \<and> us_created_at u \<ge> since \<and>
     (uid > 0 \<longrightarrow> us_user_id u = uid)"

definition durable_usd :: "usage_row \<Rightarrow> rat" where
  "durable_usd u = (case us_status u of
       UsageSettled \<Rightarrow> (case us_cost_usd u of None \<Rightarrow> 0 | Some c \<Rightarrow> c)
     | UsageHeld \<Rightarrow> us_reserved_usd u
     | UsageReserved \<Rightarrow> 0)"

definition inflight_usd :: "usage_row \<Rightarrow> rat" where
  "inflight_usd u = (if us_status u = UsageReserved then us_reserved_usd u else 0)"

definition usageSums :: "agent_db \<Rightarrow> instant \<Rightarrow> int \<Rightarrow> rat \<times> rat" where
  "usageSums db since uid =
     (let rows = filter (in_window since uid) (db_usage db) in
      (sum_list (map durable_usd rows), sum_list (map inflight_usd rows)))"

definition budget_caps :: "managed_budget \<Rightarrow> agent_db \<Rightarrow> int \<Rightarrow> rat \<times> rat" where
  "budget_caps b db uid = (case profile_of db uid of
       None \<Rightarrow> (AccountDayUSD b, AccountMonthUSD b)
     | Some p \<Rightarrow> (case p_budget_day p of None \<Rightarrow> AccountDayUSD b | Some c \<Rightarrow> c,
                 case p_budget_month p of None \<Rightarrow> AccountMonthUSD b | Some c \<Rightarrow> c))"

text \<open>The three windows in the order the pause decision needs: global day, account month, account day.\<close>

definition budget_windows :: "managed_budget \<Rightarrow> agent_db \<Rightarrow> int \<Rightarrow> instant \<Rightarrow> budget_window list" where
  "budget_windows b db uid now =
     (let (dayCap, monthCap) = budget_caps b db uid;
          g = usageSums db (day_start now) 0;
          am = usageSums db (month_start now) uid;
          ad = usageSums db (day_start now) uid in
      [\<lparr>w_scope = BudgetScopeGlobalDay, w_cap = GlobalDayUSD b, w_durable = fst g, w_inflight = snd g,
        w_end = day_start now + day_ns\<rparr>,
       \<lparr>w_scope = BudgetScopeAccountMonth, w_cap = monthCap, w_durable = fst am, w_inflight = snd am,
        w_end = month_end now\<rparr>,
       \<lparr>w_scope = BudgetScopeAccountDay, w_cap = dayCap, w_durable = fst ad, w_inflight = snd ad,
        w_end = day_start now + day_ns\<rparr>])"

definition NotificationBudget :: string where "NotificationBudget = ''budget''"

definition budgetScopeLabel :: "string \<Rightarrow> string" where
  "budgetScopeLabel scope = (if scope = BudgetScopeAccountMonth then ''monthly''
     else if scope = BudgetScopeGlobalDay then ''daily platform'' else ''daily'')"

definition budget_message :: "string \<Rightarrow> instant \<Rightarrow> string" where
  "budget_message scope at_end = ''Your assistant paused: the managed '' @ budgetScopeLabel scope @
     '' budget is used up. Messages stay queued and it resumes at '' @ format_minute at_end @ '' UTC.''"

definition pauses :: "agent_db \<Rightarrow> int \<Rightarrow> string \<Rightarrow> instant \<Rightarrow> profile \<Rightarrow> bool" where
  "pauses db uid scope at_end p \<longleftrightarrow>
     (case p_paused_until p of None \<Rightarrow> True | Some t \<Rightarrow> t < at_end) \<and>
     (if scope = BudgetScopeGlobalDay
      then p_runtime p = RuntimeManaged \<and>
           (\<exists>j\<in>set (db_jobs db). j_user_id j = p_user_id p \<and> j_status j = JobPending)
      else p_user_id p = uid)"

text \<open>One sealed notification per account whose pause moved forward.\<close>

fun queue_budget_notifications ::
  "store \<Rightarrow> string \<Rightarrow> instant \<Rightarrow> instant \<Rightarrow> int list \<Rightarrow> agent_db \<Rightarrow> (db_error, agent_db) result" where
  "queue_budget_notifications st msg at_end db_now [] db = Inr db"
| "queue_budget_notifications st msg at_end db_now (uid # uids) db =
     (case SealForUser (st_crypt st) msg uid of
        Inl m \<Rightarrow> Inl (SealFailed m)
      | Inr body \<Rightarrow> queue_budget_notifications st msg at_end db_now uids
          (insert_notification uid NotificationBudget None (Some body) db_now db))"

definition pauseForBudget ::
  "store \<Rightarrow> int \<Rightarrow> string \<Rightarrow> instant \<Rightarrow> instant \<Rightarrow> agent_db \<Rightarrow> (db_error, agent_db) result" where
  "pauseForBudget st uid scope at_end db_now db =
     (let P = pauses db uid scope at_end;
          ids = map p_user_id (filter P (db_profiles db)) in
      queue_budget_notifications st (budget_message scope at_end) at_end db_now ids
        (db\<lparr>db_profiles := update_where P (\<lambda>p. p\<lparr>p_paused_until := Some at_end\<rparr>) (db_profiles db)\<rparr>))"

definition reserveBudget ::
  "store \<Rightarrow> managed_budget \<Rightarrow> int \<Rightarrow> int \<Rightarrow> instant \<Rightarrow> agent_db
     \<Rightarrow> (db_error, int \<times> budget_event option \<times> agent_db) result" where
  "reserveBudget st b uid limit now db =
     (if (case ClaimNotAfter b of None \<Rightarrow> False | Some t \<Rightarrow> \<not> now < t) then Inr (0, None, db)
      else let ws = budget_windows b db uid now;
               room = fold (\<lambda>w r. min r (slots w (PerJobUSD b) True)) ws limit in
        if room > 0 then Inr (room, None, db)
        else case List.find (\<lambda>w. slots w (PerJobUSD b) False < 1) ws of
            Some w \<Rightarrow> map_sum id (\<lambda>db'. (0, Some \<lparr>be_exhausted = True, be_scope = w_scope w\<rparr>, db'))
                        (pauseForBudget st uid (w_scope w) (w_end w) now db)
          | None \<Rightarrow>
             (case List.find (\<lambda>w. slots w (PerJobUSD b) True < 1) ws of
                Some w \<Rightarrow> Inr (0, Some \<lparr>be_exhausted = False, be_scope = w_scope w\<rparr>, db)
              | None \<Rightarrow> Inr (0, None, db)))"

section \<open>Ledger rows\<close>

definition has_usage :: "agent_db \<Rightarrow> int \<Rightarrow> int \<Rightarrow> bool" where
  "has_usage db jid n \<longleftrightarrow> (\<exists>u\<in>set (db_usage db). us_job_id u = jid \<and> us_attempt u = n)"

definition insert_usage :: "usage_row \<Rightarrow> agent_db \<Rightarrow> agent_db" where
  "insert_usage u db = db\<lparr>db_usage := db_usage db @ [u\<lparr>us_id := db_usage_seq db + 1\<rparr>],
     db_usage_seq := db_usage_seq db + 1\<rparr>"

text \<open>The unique index on (job, attempt) rejects a second reservation of an attempt.\<close>

definition insertReservation :: "managed_budget \<Rightarrow> job \<Rightarrow> instant \<Rightarrow> agent_db \<Rightarrow> (db_error, agent_db) result" where
  "insertReservation b j now db =
     (if has_usage db (j_id j) (j_attempts j) then Inl UniqueViolation
      else Inr (insert_usage
        \<lparr>us_id = 0, us_job_id = j_id j, us_attempt = j_attempts j, us_user_id = j_user_id j,
         us_runtime = RuntimeManaged, us_runner = [], us_model = [], us_input_tokens = 0,
         us_output_tokens = 0, us_reserved_usd = PerJobUSD b, us_cost_usd = None,
         us_status = UsageReserved, us_created_at = now, us_updated_at = now, us_settled_at = None\<rparr> db))"

record usage_report =
  CostUSD :: rat
  Model :: string
  Runner :: string
  InputTokens :: int
  OutputTokens :: int
  JobScoped :: bool

datatype usage_outcome = UsageRecorded | UsageUnchanged

definition same_figures :: "usage_row \<Rightarrow> usage_report \<Rightarrow> bool" where
  "same_figures r u \<longleftrightarrow> us_cost_usd r = Some (CostUSD u) \<and> us_model r = Model u \<and>
     us_runner r = Runner u \<and> us_input_tokens r = InputTokens u \<and> us_output_tokens r = OutputTokens u"

definition settle :: "usage_report \<Rightarrow> instant \<Rightarrow> usage_row \<Rightarrow> usage_row" where
  "settle u now r = r\<lparr>us_status := UsageSettled, us_cost_usd := Some (CostUSD u), us_runner := Runner u,
     us_model := Model u, us_input_tokens := InputTokens u, us_output_tokens := OutputTokens u,
     us_updated_at := now, us_settled_at := Some now\<rparr>"

definition record_cost :: "int \<Rightarrow> usage_report \<Rightarrow> instant \<Rightarrow> agent_db \<Rightarrow> agent_db" where
  "record_cost jid u now = update_jobs (\<lambda>j. j_id j = jid)
     (\<lambda>j. j\<lparr>j_cost_usd := Some (CostUSD u), j_updated_at := now\<rparr>)"

definition RecordAgentJobUsage ::
  "int \<Rightarrow> int \<Rightarrow> int \<Rightarrow> usage_report \<Rightarrow> instant \<Rightarrow> agent_db
     \<Rightarrow> (db_error, usage_outcome \<times> agent_db) result" where
  "RecordAgentJobUsage uid jid attempt u now db =
     (if uid \<le> 0 then Inl UserIdRequired
      else case List.find (\<lambda>j. j_id j = jid \<and> j_user_id j = uid \<and> j_attempts j = attempt) (db_jobs db) of
        None \<Rightarrow> Inl ErrAgentJobNotFound
      | Some j \<Rightarrow>
         (let runtime = (if j_runtime j = Some RuntimeManaged then RuntimeManaged else RuntimeOwn) in
          if runtime = RuntimeManaged \<and> \<not> JobScoped u then Inl ErrUsageCredential
          else case List.find (\<lambda>r. us_job_id r = jid \<and> us_attempt r = attempt) (db_usage db) of
            None \<Rightarrow> Inr (UsageRecorded, insert_usage
              \<lparr>us_id = 0, us_job_id = jid, us_attempt = attempt, us_user_id = uid, us_runtime = runtime,
               us_runner = Runner u, us_model = Model u, us_input_tokens = InputTokens u,
               us_output_tokens = OutputTokens u, us_reserved_usd = 0, us_cost_usd = Some (CostUSD u),
               us_status = UsageSettled, us_created_at = now, us_updated_at = now,
               us_settled_at = Some now\<rparr> (record_cost jid u now db))
          | Some r \<Rightarrow>
              if us_status r = UsageSettled
              then (if same_figures r u then Inr (UsageUnchanged, db) else Inl ErrUsageConflict)
              else Inr (UsageRecorded, (record_cost jid u now db)\<lparr>db_usage :=
                     update_where (\<lambda>x. us_id x = us_id r) (settle u now) (db_usage db)\<rparr>)))"

definition RecordAgentJobCost ::
  "int \<Rightarrow> int \<Rightarrow> int \<Rightarrow> rat \<Rightarrow> instant \<Rightarrow> agent_db \<Rightarrow> (db_error, agent_db) result" where
  "RecordAgentJobCost uid jid attempt cost now db =
     map_sum id snd (RecordAgentJobUsage uid jid attempt
       \<lparr>CostUSD = cost, Model = [], Runner = [], InputTokens = 0, OutputTokens = 0, JobScoped = False\<rparr> now db)"

definition hold :: "instant \<Rightarrow> usage_row \<Rightarrow> usage_row" where
  "hold now r = r\<lparr>us_status := UsageHeld, us_updated_at := now\<rparr>"

definition holdReservations :: "int list \<Rightarrow> instant \<Rightarrow> agent_db \<Rightarrow> agent_db" where
  "holdReservations ids now db = fold (\<lambda>i db. db\<lparr>db_usage :=
     update_where (\<lambda>r. us_job_id r = i \<and> us_status r = UsageReserved) (hold now) (db_usage db)\<rparr>) ids db"

definition reservationEndGrace :: duration where "reservationEndGrace = 2 * minute"

definition holdEndedReservations :: "instant \<Rightarrow> agent_db \<Rightarrow> agent_db" where
  "holdEndedReservations now db = db\<lparr>db_usage := update_where
     (\<lambda>r. us_status r = UsageReserved \<and> us_runtime r = RuntimeManaged \<and>
        (\<exists>j\<in>set (db_jobs db). j_id j = us_job_id r \<and>
           (j_status j \<noteq> JobProcessing \<or> j_attempts j \<noteq> us_attempt r) \<and>
           j_updated_at j < now - reservationEndGrace))
     (hold now) (db_usage db)\<rparr>"

definition HeldUsage :: "instant \<Rightarrow> agent_db \<Rightarrow> rat \<times> int" where
  "HeldUsage now db =
     (let rows = filter (\<lambda>r. us_status r = UsageHeld \<and> us_runtime r = RuntimeManaged \<and>
                             us_created_at r \<ge> day_start now) (db_usage db) in
      (sum_list (map us_reserved_usd rows), int (length rows)))"

text \<open>\<open>SUM(COALESCE(cost_usd, reserved_usd))\<close> over today's managed rows: the figure the candidate list
  and the unclaimed sweep compare with the global cap.\<close>

definition global_day_usage :: "instant \<Rightarrow> agent_db \<Rightarrow> rat" where
  "global_day_usage now db = sum_list (map (\<lambda>r. case us_cost_usd r of Some c \<Rightarrow> c | None \<Rightarrow> us_reserved_usd r)
     (filter (in_window (day_start now) 0) (db_usage db)))"

definition budgetCandidateFilter :: "store \<Rightarrow> instant \<Rightarrow> agent_db \<Rightarrow> profile \<Rightarrow> bool" where
  "budgetCandidateFilter st now db p = (case st_budget st of None \<Rightarrow> True
     | Some b \<Rightarrow> (case p_paused_until p of None \<Rightarrow> True | Some t \<Rightarrow> t \<le> now) \<and>
         global_day_usage now db + PerJobUSD b \<le> GlobalDayUSD b + 1 / 1000000000)"

end
