(* ===== verification/TurnContext.thy ===== *)
theory TurnContext
  imports Usage
begin

text \<open>
  The events a claimed job is shown (\<open>agent_turn_context.go\<close>) and the check that they are still
  current when a reply is about to be sent (\<open>agent_source_supersession.go\<close>). An edit job of a message
  whose turn was never answered also sees the rest of that turn, each message at its latest version;
  the list is stored with the job. The JSON column \<open>turn_context\<close> is the list it encodes.
\<close>

section \<open>Lookups\<close>

type_synonym message_key = "int \<times> int"

definition message_key :: "event_row \<Rightarrow> message_key" where
  "message_key e = (e_chat_tg_id e, e_message_id e)"

definition loadEventRef :: "agent_db \<Rightarrow> int \<Rightarrow> string \<Rightarrow> event_row option" where
  "loadEventRef db uid eid = List.find (\<lambda>e. e_user_id e = uid \<and> e_event_id e = eid) (db_events db)"

definition originalMessage :: "agent_db \<Rightarrow> int \<Rightarrow> int \<Rightarrow> int \<Rightarrow> event_row option" where
  "originalMessage db uid chat msg = first_by e_id
     (filter (\<lambda>e. e_user_id e = uid \<and> e_chat_tg_id e = chat \<and> e_message_id e = msg \<and>
                  e_kind e = EventKindPrivateMessage) (db_events db))"

text \<open>An edit or delete of \<open>src\<close>'s message recorded after it.\<close>

definition later_version :: "event_row \<Rightarrow> event_row \<Rightarrow> bool" where
  "later_version src e \<longleftrightarrow> e_user_id e = e_user_id src \<and> message_key e = message_key src \<and>
     e_id e > e_id src \<and> e_kind e \<in> {EventKindMessageEdit, EventKindMessageDelete}"

definition latestVersion :: "agent_db \<Rightarrow> event_row \<Rightarrow> string \<times> bool" where
  "latestVersion db src =
     (case first_by (\<lambda>e. (if e_kind e = EventKindMessageDelete then 0 else 1 :: int, - e_id e))
             (filter (later_version src) (db_events db)) of
        None \<Rightarrow> (e_event_id src, False)
      | Some e \<Rightarrow> (e_event_id e, e_kind e = EventKindMessageDelete))"

definition ActionTypeReply :: string where "ActionTypeReply = ''propose_reply''"

definition reply_sent :: "agent_db \<Rightarrow> int \<Rightarrow> int \<Rightarrow> bool" where
  "reply_sent db uid jid \<longleftrightarrow> (\<exists>a\<in>set (db_actions db). ac_user_id a = uid \<and> ac_job_id a = Some jid \<and>
     ac_type a = ActionTypeReply \<and> ac_status a \<in> {ActionExecuting, ActionExecuted, ActionDeliveryUnknown})"

text \<open>The jobs of a turn: its head and the members coalesced into it; and their events.\<close>

definition of_turn :: "int \<Rightarrow> int \<Rightarrow> job \<Rightarrow> bool" where
  "of_turn uid head j \<longleftrightarrow> j_user_id j = uid \<and> (j_id j = head \<or> j_coalesced_into j = Some head)"

definition job_events :: "agent_db \<Rightarrow> job \<Rightarrow> event_row list" where
  "job_events db j = filter (\<lambda>e. e_event_id e = j_event_id j \<and> e_user_id e = j_user_id j) (db_events db)"

definition turn_sources :: "agent_db \<Rightarrow> int \<Rightarrow> int \<Rightarrow> event_row list" where
  "turn_sources db uid head =
     sort_key e_id (concat (map (job_events db) (filter (of_turn uid head) (db_jobs db))))"

definition answeredThroughContext :: "agent_db \<Rightarrow> int \<Rightarrow> int \<Rightarrow> int \<Rightarrow> event_row list \<Rightarrow> bool" where
  "answeredThroughContext db uid convID head sources \<longleftrightarrow> convID \<noteq> 0 \<and>
     (\<exists>j\<in>set (db_jobs db). j_user_id j = uid \<and> j_conversation_id j = Some convID \<and> j_id j > head \<and>
        reply_sent db uid (j_id j) \<and>
        (case j_turn_context j of None \<Rightarrow> False
         | Some ids \<Rightarrow> (\<exists>i\<in>set ids. case loadEventRef db uid i of None \<Rightarrow> False
                          | Some r \<Rightarrow> message_key r \<in> message_key ` set sources)))"

definition head_of :: "job \<Rightarrow> int" where
  "head_of j = (case j_coalesced_into j of Some h \<Rightarrow> if h \<noteq> 0 then h else j_id j | None \<Rightarrow> j_id j)"

definition unsentTurnSources :: "agent_db \<Rightarrow> int \<Rightarrow> event_row \<Rightarrow> event_row list" where
  "unsentTurnSources db uid original =
     (case List.find (\<lambda>j. j_user_id j = uid \<and> j_event_id j = e_event_id original) (db_jobs db) of
        None \<Rightarrow> []
      | Some j \<Rightarrow>
          (let head = head_of j; out = turn_sources db uid head in
           if reply_sent db uid head then []
           else if answeredThroughContext db uid
                     (case j_conversation_id j of None \<Rightarrow> 0 | Some c \<Rightarrow> c) head out then []
           else out))"

section \<open>Building and storing the context\<close>

text \<open>An entry of the context: event id, and the row id of the message's first event.\<close>

type_synonym context_item = "string \<times> int"

definition own_item :: "agent_db \<Rightarrow> int \<Rightarrow> string \<Rightarrow> context_item" where
  "own_item db uid eid =
     (case loadEventRef db uid eid of
        None \<Rightarrow> (eid, 0)
      | Some r \<Rightarrow>
          (eid, if e_kind r = EventKindMessageEdit
                then (case originalMessage db uid (e_chat_tg_id r) (e_message_id r) of
                        Some orig \<Rightarrow> e_id orig | None \<Rightarrow> e_id r)
                else e_id r))"

fun add_sources ::
  "agent_db \<Rightarrow> event_row list \<Rightarrow> message_key list \<times> context_item list \<Rightarrow> message_key list \<times> context_item list" where
  "add_sources db [] acc = acc"
| "add_sources db (src # srcs) (have, extra) =
     (if message_key src \<in> set have then add_sources db srcs (have, extra)
      else let (version, deleted) = latestVersion db src in
        if deleted then add_sources db srcs (message_key src # have, extra)
        else add_sources db srcs (message_key src # have, extra @ [(version, e_id src)]))"

fun add_edits ::
  "agent_db \<Rightarrow> int \<Rightarrow> event_row list \<Rightarrow> message_key list \<times> context_item list \<Rightarrow> message_key list \<times> context_item list" where
  "add_edits db uid [] acc = acc"
| "add_edits db uid (e # es) acc =
     (case originalMessage db uid (e_chat_tg_id e) (e_message_id e) of
        None \<Rightarrow> add_edits db uid es acc
      | Some orig \<Rightarrow> add_edits db uid es (add_sources db (unsentTurnSources db uid orig) acc))"

definition buildTurnContext :: "agent_db \<Rightarrow> int \<Rightarrow> string list \<Rightarrow> string list option" where
  "buildTurnContext db uid own =
     (let refs = List.map_filter (loadEventRef db uid) own;
          edits = filter (\<lambda>r. e_kind r = EventKindMessageEdit) refs;
          (have, extra) = add_edits db uid edits (map message_key refs, []) in
      if extra = [] then None
      else Some (map fst (sort_key snd (map (own_item db uid) own @ extra))))"

definition storeTurnContext :: "agent_job \<Rightarrow> agent_db \<Rightarrow> agent_job \<times> agent_db" where
  "storeTurnContext aj db =
     (let j = job_row aj; full = buildTurnContext db (j_user_id j) (SourceEventIDs aj) in
      (case full of None \<Rightarrow> aj | Some ids \<Rightarrow> aj\<lparr>SourceEventIDs := ids\<rparr>,
       update_jobs (\<lambda>x. j_id x = j_id j \<and> j_user_id x = j_user_id j) (\<lambda>x. x\<lparr>j_turn_context := full\<rparr>) db))"

definition loadTurnContext :: "agent_db \<Rightarrow> int \<Rightarrow> int \<Rightarrow> string list option" where
  "loadTurnContext db uid jid =
     (case List.find (\<lambda>j. j_id j = jid \<and> j_user_id j = uid) (db_jobs db) of
        None \<Rightarrow> None | Some j \<Rightarrow> j_turn_context j)"

section \<open>Supersession\<close>

definition SourceEdited :: string where "SourceEdited = ''edited''"
definition SourceDeleted :: string where "SourceDeleted = ''deleted''"

definition SourceSupersededReason :: "string \<Rightarrow> string" where
  "SourceSupersededReason kind = (if kind = SourceDeleted then ''source message deleted'' else ''source message edited'')"

text \<open>The kind a query over later versions of some events returns: a delete outranks an edit.\<close>

definition superseded_kind :: "agent_db \<Rightarrow> event_row list \<Rightarrow> string" where
  "superseded_kind db vs =
     (let laters = concat (map (\<lambda>v. filter (later_version v) (db_events db)) vs) in
      if \<exists>e\<in>set laters. e_kind e = EventKindMessageDelete then SourceDeleted
      else if laters \<noteq> [] then SourceEdited else [])"

definition turnContextSuperseded :: "agent_db \<Rightarrow> int \<Rightarrow> int \<Rightarrow> string" where
  "turnContextSuperseded db uid jid =
     (case loadTurnContext db uid jid of None \<Rightarrow> []
      | Some ids \<Rightarrow> superseded_kind db (filter (\<lambda>v. e_user_id v = uid \<and> e_event_id v \<in> set ids) (db_events db)))"

definition jobSourceSuperseded :: "agent_db \<Rightarrow> int \<Rightarrow> int \<Rightarrow> string" where
  "jobSourceSuperseded db uid jid =
     (if jid = 0 then []
      else let kind = superseded_kind db (concat (map (job_events db) (filter (of_turn uid jid) (db_jobs db))));
               ctxKind = turnContextSuperseded db uid jid in
        if kind = SourceDeleted then SourceDeleted
        else if ctxKind \<noteq> [] then ctxKind
        else if kind \<noteq> [] then SourceEdited else [])"

end
