(* ===== verification/Outbox.thy ===== *)
theory Outbox
  imports TurnContext
begin

text \<open>
  The event outbox (\<open>event_outbox.go\<close>) and the envelope it carries (\<open>internal/events/envelope.go\<close>).
  An outbox row is written in the transaction that records an event or decides a job's fate; a relay
  that holds a lease publishes pending rows. The envelope builder reads identifiers only. Waking the
  relay after a commit (\<open>notifyOutbox\<close>) is a result of the operation here: whether a row was written.
\<close>

section \<open>Envelopes\<close>

definition RoutePolicyDeny :: string where "RoutePolicyDeny = ''policy_deny''"
definition RoutePolicyRequireApproval :: string where "RoutePolicyRequireApproval = ''policy_require_approval''"
definition RouteWorkerFailure :: string where "RouteWorkerFailure = ''worker_failure''"
definition RouteWorkerUnclaimed :: string where "RouteWorkerUnclaimed = ''worker_unclaimed''"

lemmas route_defs = RoutePolicyDeny_def RoutePolicyRequireApproval_def RouteWorkerFailure_def RouteWorkerUnclaimed_def

definition eventTypes :: "string \<rightharpoonup> string" where
  "eventTypes = [EventKindPrivateMessage \<mapsto> ''telegram.message.created'',
                 EventKindMessageEdit \<mapsto> ''telegram.message.edited'']"

definition Publishable :: "string \<Rightarrow> bool" where
  "Publishable kind \<longleftrightarrow> eventTypes kind \<noteq> None"

record event_envelope =
  ee_id :: string
  ee_type :: string
  ee_occurred_at :: string
  ee_subject :: "(string \<times> string) list"

text \<open>\<open>listenerEventID\<close>: \<open>^evt:v1:([0-9]+):-?[0-9]+:[0-9]+(?::e[0-9]+:[0-9a-f]{12})?$\<close>. The parts between
  colons determine the match, since no part of the pattern matches a colon.\<close>

definition all_digits :: "string \<Rightarrow> bool" where
  "all_digits s \<longleftrightarrow> s \<noteq> [] \<and> list_all is_digit s"

definition is_hex :: "char \<Rightarrow> bool" where
  "is_hex c \<longleftrightarrow> is_digit c \<or> 97 \<le> byte c \<and> byte c \<le> 102"

definition signed_digits :: "string \<Rightarrow> bool" where
  "signed_digits s \<longleftrightarrow> (case s of c # t \<Rightarrow> if c = CHR ''-'' then all_digits t else all_digits s | [] \<Rightarrow> False)"

definition edit_suffix :: "string list \<Rightarrow> bool" where
  "edit_suffix ps \<longleftrightarrow> (case ps of [] \<Rightarrow> True
     | [e, h] \<Rightarrow> (case e of c # t \<Rightarrow> c = CHR ''e'' \<and> all_digits t | [] \<Rightarrow> False) \<and>
                 length h = 12 \<and> list_all is_hex h
     | _ \<Rightarrow> False)"

definition listenerEventID :: "string \<Rightarrow> string option" where
  "listenerEventID s = (case split_on (CHR '':'') s of
       a # b # acct # chat # msg # rest \<Rightarrow>
         if a = ''evt'' \<and> b = ''v1'' \<and> all_digits acct \<and> signed_digits chat \<and> all_digits msg \<and> edit_suffix rest
         then Some acct else None
     | _ \<Rightarrow> None)"

definition telegramAccountID :: "string \<Rightarrow> string option" where
  "telegramAccountID eventID = (case listenerEventID eventID of
       None \<Rightarrow> None
     | Some acct \<Rightarrow> if length (''telegram:'' @ eventID) > 256 then None
         else if int (dec_value acct) > max_int64 \<or> dec_value acct = 0 then None
         else Some acct)"

text \<open>\<open>Format(time.RFC3339)\<close> of a UTC time.\<close>

definition rfc3339 :: "instant \<Rightarrow> string" where
  "rfc3339 inst = (let (y, m, d) = civil (inst div day_ns); s = inst mod day_ns div second in
     pad 4 y @ ''-'' @ pad 2 m @ ''-'' @ pad 2 d @ ''T'' @ pad 2 (s div 3600) @ '':'' @
     pad 2 (s mod 3600 div 60) @ '':'' @ pad 2 (s mod 60) @ ''Z'')"

definition BuildRoutedEnvelope :: "incoming_event \<Rightarrow> instant \<Rightarrow> string \<Rightarrow> (string, event_envelope) result" where
  "BuildRoutedEnvelope ev occurredAt reason =
     (if reason \<notin> {[], RoutePolicyDeny, RoutePolicyRequireApproval, RouteWorkerFailure, RouteWorkerUnclaimed}
      then Inl ''unknown routing reason''
      else case eventTypes (ie_kind ev) of
        None \<Rightarrow> Inl ''event kind is not published''
      | Some typ \<Rightarrow>
          if ie_event_id ev = [] \<or> ie_chat_tg_id ev = 0 \<or> ie_message_id ev \<le> 0
          then Inl ''event lacks identifiers''
          else case telegramAccountID (ie_event_id ev) of
            None \<Rightarrow> Inl ''event does not name a Telegram account''
          | Some account \<Rightarrow> Inr
             \<lparr>ee_id = ''telegram:'' @ ie_event_id ev, ee_type = typ, ee_occurred_at = rfc3339 occurredAt,
              ee_subject = [(''kind'', ''telegram.message''), (''account_id'', account),
                (''chat_id'', FormatInt (ie_chat_tg_id ev)), (''message_id'', FormatInt (ie_message_id ev)),
                (''peer'', ''user:'' @ FormatInt (ie_chat_tg_id ev))] @
                (if reason \<noteq> [] then [(''routing_reason'', reason)] else [])\<rparr>)"

text \<open>\<open>json.Marshal\<close> of the envelope: struct fields in order, map keys sorted. Every value consists of
  characters JSON does not escape.\<close>

definition json_field :: "string \<times> string \<Rightarrow> string" where
  "json_field kv = [CHR 0x22] @ fst kv @ [CHR 0x22, CHR '':'', CHR 0x22] @ snd kv @ [CHR 0x22]"

definition json_object :: "string list \<Rightarrow> string" where
  "json_object fs = ''{'' @ join_with '','' fs @ ''}''"

definition envelope_Marshal :: "event_envelope \<Rightarrow> (string, string) result" where
  "envelope_Marshal e =
     (let b = json_object (map json_field [(''specversion'', ''mctl.events/v1''), (''id'', ee_id e),
                 (''type'', ee_type e), (''source'', ''mctl-telegram''), (''occurred_at'', ee_occurred_at e),
                 (''correlation_id'', ee_id e)] @
               [[CHR 0x22] @ ''subject'' @ [CHR 0x22, CHR '':''] @
                json_object (map json_field (sort_key fst (ee_subject e)))]) in
      if length b > 4096 then Inl ''envelope exceeds 4096 bytes'' else Inr b)"

definition OutboxBuilder :: "string \<Rightarrow> outbox_builder" where
  "OutboxBuilder stream ev occurredAt reason =
     (if \<not> Publishable (ie_kind ev) then Inr None
      else bind_result (BuildRoutedEnvelope ev occurredAt reason) (\<lambda>env.
           bind_result (envelope_Marshal env) (\<lambda>body.
           Inr (Some \<lparr>env_event_id = ie_event_id ev, env_stream = stream, env_envelope = body\<rparr>))))"

section \<open>Writing rows\<close>

definition insertOutboxReasonTx ::
  "store \<Rightarrow> incoming_event \<Rightarrow> instant \<Rightarrow> string \<Rightarrow> agent_db \<Rightarrow> (db_error, bool \<times> agent_db) result" where
  "insertOutboxReasonTx st ev inst reason db =
     (case st_outbox st of None \<Rightarrow> Inr (False, db)
      | Some build \<Rightarrow>
         (case build ev inst reason of
            Inl m \<Rightarrow> Inl (EnvelopeFailed m)
          | Inr None \<Rightarrow> Inr (False, db)
          | Inr (Some row) \<Rightarrow>
              if env_event_id row \<in> o_event_id ` set (db_outbox db) then Inr (False, db)
              else Inr (True, db\<lparr>db_outbox := db_outbox db @
                [\<lparr>o_id = db_outbox_seq db + 1, o_event_id = env_event_id row, o_user_id = ie_user_id ev,
                  o_stream = env_stream row, o_envelope = env_envelope row, o_attempts = 0, o_last_error = [],
                  o_created_at = inst, o_published_at = None\<rparr>],
                db_outbox_seq := db_outbox_seq db + 1\<rparr>)))"

definition insertOutboxTx ::
  "store \<Rightarrow> incoming_event \<Rightarrow> instant \<Rightarrow> agent_db \<Rightarrow> (db_error, bool \<times> agent_db) result" where
  "insertOutboxTx st ev inst db = insertOutboxReasonTx st ev inst [] db"

definition insertRoutedOutboxTx ::
  "store \<Rightarrow> int \<Rightarrow> string \<Rightarrow> string \<Rightarrow> instant \<Rightarrow> agent_db \<Rightarrow> (db_error, bool \<times> agent_db) result" where
  "insertRoutedOutboxTx st uid eid reason now db =
     (if \<not> st_operator_routing st \<or> st_outbox st = None then Inr (False, db)
      else case List.find (\<lambda>e. e_event_id e = eid \<and> e_user_id e = uid) (db_events db) of
        None \<Rightarrow> Inr (False, db)
      | Some e \<Rightarrow> insertOutboxReasonTx st
          \<lparr>ie_event_id = eid, ie_user_id = uid, ie_kind = e_kind e, ie_chat_tg_id = e_chat_tg_id e,
           ie_sender_tg_id = e_sender_tg_id e, ie_message_id = e_message_id e, ie_body = [], ie_meta = []\<rparr>
          now reason db)"

fun route_events ::
  "store \<Rightarrow> string \<Rightarrow> instant \<Rightarrow> (int \<times> string) list \<Rightarrow> agent_db \<Rightarrow> (db_error, bool \<times> agent_db) result" where
  "route_events st reason now [] db = Inr (False, db)"
| "route_events st reason now ((uid, eid) # srcs) db =
     (case insertRoutedOutboxTx st uid eid reason now db of
        Inl err \<Rightarrow> Inl err
      | Inr (wrote, db1) \<Rightarrow>
         (case route_events st reason now srcs db1 of
            Inl err \<Rightarrow> Inl err
          | Inr (more_wrote, db2) \<Rightarrow> Inr (wrote \<or> more_wrote, db2)))"

definition routeJobEventTx ::
  "store \<Rightarrow> int \<Rightarrow> string \<Rightarrow> instant \<Rightarrow> agent_db \<Rightarrow> (db_error, bool \<times> agent_db) result" where
  "routeJobEventTx st jid reason now db =
     (if \<not> st_operator_routing st \<or> st_outbox st = None then Inr (False, db)
      else route_events st reason now
        (map (\<lambda>j. (j_user_id j, j_event_id j))
          (sort_key j_id (filter (\<lambda>j. j_id j = jid \<or> j_coalesced_into j = Some jid) (db_jobs db)))) db)"

fun route_jobs ::
  "store \<Rightarrow> string \<Rightarrow> instant \<Rightarrow> int list \<Rightarrow> agent_db \<Rightarrow> (db_error, bool \<times> agent_db) result" where
  "route_jobs st reason now [] db = Inr (False, db)"
| "route_jobs st reason now (i # is) db =
     (case routeJobEventTx st i reason now db of
        Inl err \<Rightarrow> Inl err
      | Inr (wrote, db1) \<Rightarrow>
         (case route_jobs st reason now is db1 of
            Inl err \<Rightarrow> Inl err
          | Inr (more_wrote, db2) \<Rightarrow> Inr (wrote \<or> more_wrote, db2)))"

section \<open>The unclaimed sweep\<close>

text \<open>The per-conversation rule the claim, the candidate list and this sweep share: no job of the
  conversation is processing and no earlier one is pending. A \<open>NULL\<close> conversation never blocks.\<close>

definition blocked_by :: "job \<Rightarrow> job \<Rightarrow> bool" where
  "blocked_by j p \<longleftrightarrow> j_conversation_id j \<noteq> None \<and> j_conversation_id p = j_conversation_id j \<and>
     (j_status p = JobProcessing \<or> j_status p = JobPending \<and> j_id p < j_id j)"

definition unblocked :: "agent_db \<Rightarrow> job \<Rightarrow> bool" where
  "unblocked db j \<longleftrightarrow> \<not> (\<exists>p\<in>set (db_jobs db). blocked_by j p)"

definition global_hold :: "store \<Rightarrow> instant \<Rightarrow> agent_db \<Rightarrow> int \<Rightarrow> bool" where
  "global_hold st now db uid = (case st_budget st of None \<Rightarrow> False
     | Some b \<Rightarrow> (\<exists>p\<in>set (db_profiles db). p_user_id p = uid \<and> p_runtime p = RuntimeManaged) \<and>
         global_day_usage now db + PerJobUSD b > GlobalDayUSD b + 1 / 1000000000)"

definition unclaimed :: "store \<Rightarrow> duration \<Rightarrow> instant \<Rightarrow> agent_db \<Rightarrow> job \<Rightarrow> bool" where
  "unclaimed st after now db j \<longleftrightarrow> j_status j = JobPending \<and> j_attempts j = 0 \<and>
     j_created_at j < now - after \<and> unblocked db j \<and>
     \<not> (\<exists>p\<in>set (db_profiles db). p_user_id p = j_user_id j \<and>
          (case p_paused_until p of None \<Rightarrow> False | Some t \<Rightarrow> t > now)) \<and>
     \<not> global_hold st now db (j_user_id j)"

definition RouteUnclaimedAgentJobs ::
  "store \<Rightarrow> duration \<Rightarrow> instant \<Rightarrow> agent_db \<Rightarrow> (db_error, int \<times> agent_db) result" where
  "RouteUnclaimedAgentJobs st after now db =
     (if \<not> st_operator_routing st \<or> st_outbox st = None \<or> after \<le> 0 then Inr (0, db)
      else let P = unclaimed st after now db; ids = map j_id (filter P (db_jobs db)) in
        map_sum id (\<lambda>(_, db'). (int (length ids), db'))
          (route_jobs st RouteWorkerUnclaimed now ids
             (update_jobs P (\<lambda>j. j\<lparr>j_status := JobRouted,
                 j_last_error := Some ''unclaimed past threshold, routed to operator'', j_updated_at := now\<rparr>) db)))"

section \<open>The relay's side\<close>

definition AcquireOutboxLease ::
  "string \<Rightarrow> instant \<Rightarrow> duration \<Rightarrow> agent_db \<Rightarrow> (db_error, bool \<times> agent_db) result" where
  "AcquireOutboxLease holder now ttl db =
     (if holder = [] \<or> ttl \<le> 0 then Inl LeaseInvalid
      else if (case db_lease db of None \<Rightarrow> True
               | Some l \<Rightarrow> lease_holder l = holder \<or> lease_expires_at l < now)
      then Inr (True, db\<lparr>db_lease := Some \<lparr>lease_holder = holder, lease_expires_at = now + ttl\<rparr>\<rparr>)
      else Inr (False, db))"

definition ReleaseOutboxLease :: "string \<Rightarrow> agent_db \<Rightarrow> agent_db" where
  "ReleaseOutboxLease holder db = (case db_lease db of None \<Rightarrow> db
     | Some l \<Rightarrow> if lease_holder l = holder then db\<lparr>db_lease := None\<rparr> else db)"

definition PendingOutbox :: "int \<Rightarrow> agent_db \<Rightarrow> (db_error, outbox_row list) result" where
  "PendingOutbox limit db = (if limit \<le> 0 then Inl LimitInvalid
     else Inr (take (nat limit) (sort_key o_id (filter (\<lambda>r. o_published_at r = None) (db_outbox db)))))"

definition MarkOutboxPublished :: "int \<Rightarrow> instant \<Rightarrow> agent_db \<Rightarrow> agent_db" where
  "MarkOutboxPublished rid inst db = db\<lparr>db_outbox := update_where (\<lambda>r. o_id r = rid)
     (\<lambda>r. r\<lparr>o_published_at := Some inst, o_attempts := o_attempts r + 1, o_last_error := []\<rparr>) (db_outbox db)\<rparr>"

definition clip_reason :: "string \<Rightarrow> string" where
  "clip_reason reason = (if length reason > 500 then to_valid_utf8 (take 500 reason) else reason)"

definition MarkOutboxFailed :: "int \<Rightarrow> string \<Rightarrow> agent_db \<Rightarrow> agent_db" where
  "MarkOutboxFailed rid reason db = db\<lparr>db_outbox := update_where (\<lambda>r. o_id r = rid \<and> o_published_at r = None)
     (\<lambda>r. r\<lparr>o_attempts := o_attempts r + 1, o_last_error := clip_reason reason\<rparr>) (db_outbox db)\<rparr>"

definition PurgePublishedOutbox :: "instant \<Rightarrow> agent_db \<Rightarrow> int \<times> agent_db" where
  "PurgePublishedOutbox before db =
     (let P = (\<lambda>r. case o_published_at r of None \<Rightarrow> False | Some t \<Rightarrow> t < before) in
      (count_where P (db_outbox db), db\<lparr>db_outbox := delete_where P (db_outbox db)\<rparr>))"

definition OutboxBacklog :: "agent_db \<Rightarrow> int" where
  "OutboxBacklog db = count_where (\<lambda>r. o_published_at r = None) (db_outbox db)"

end
