(* ===== verification/Ingest.thy ===== *)
theory Ingest
  imports Outbox
begin

text \<open>
  Ingestion: recording an incoming event and queueing its job (\<open>agent_events.go\<close>, \<open>agent_jobs.go\<close>,
  \<open>agent_ingest_atomic.go\<close>), and recording the deletion of a message
  (\<open>agent_source_supersession.go\<close>). Every operation is idempotent on the event id.
\<close>

definition check_event :: "incoming_event \<Rightarrow> db_error option" where
  "check_event ev = (if ie_event_id ev = [] then Some EventIdRequired
     else if ie_user_id ev \<le> 0 then Some UserIdRequired
     else if ie_kind ev = [] then Some EventKindRequired else None)"

definition InsertIncomingEvent ::
  "store \<Rightarrow> incoming_event \<Rightarrow> instant \<Rightarrow> agent_db \<Rightarrow> (db_error, (int \<times> bool) \<times> agent_db) result" where
  "InsertIncomingEvent st ev db_now db =
     (case check_event ev of Some err \<Rightarrow> Inl err
      | None \<Rightarrow> bind_result (seal_body st (ie_body ev) (ie_user_id ev)) (\<lambda>body.
          case insert_event ev body db_now db of
            (None, _) \<Rightarrow> Inr ((0, False), db)
          | (Some i, db') \<Rightarrow> Inr ((i, True), db')))"

definition EnqueueAgentJob ::
  "string \<Rightarrow> int \<Rightarrow> int \<Rightarrow> instant \<Rightarrow> agent_db \<Rightarrow> (db_error, (int \<times> bool) \<times> agent_db) result" where
  "EnqueueAgentJob eid uid cid db_now db =
     (if eid = [] then Inl EventIdRequired
      else if uid \<le> 0 then Inl UserIdRequired
      else bind_result (if cid \<noteq> 0 then map_sum id (\<lambda>_. ()) (GetConversation db uid cid) else Inr ()) (\<lambda>_.
        if \<not> (\<exists>e\<in>set (db_events db). e_event_id e = eid \<and> e_user_id e = uid)
        then Inl ErrIncomingEventNotFound
        else case insert_job eid uid (nullableInt cid) None db_now db of
          (None, _) \<Rightarrow> Inr ((0, False), db)
        | (Some i, db') \<Rightarrow> Inr ((i, True), db')))"

definition InsertEventAndEnqueueJob ::
  "store \<Rightarrow> incoming_event \<Rightarrow> int \<Rightarrow> instant \<Rightarrow> agent_db \<Rightarrow> (db_error, (int \<times> bool) \<times> agent_db) result" where
  "InsertEventAndEnqueueJob st ev cid db_now db =
     (case check_event ev of Some err \<Rightarrow> Inl err
      | None \<Rightarrow>
         bind_result (if cid \<noteq> 0 then map_sum id (\<lambda>_. ()) (GetConversation db (ie_user_id ev) cid) else Inr ()) (\<lambda>_.
         bind_result (seal_body st (ie_body ev) (ie_user_id ev)) (\<lambda>body.
           case insert_event ev body db_now db of
             (None, _) \<Rightarrow> Inr ((0, False), db)
           | (Some _, db1) \<Rightarrow>
              (case insert_job (ie_event_id ev) (ie_user_id ev) (nullableInt cid)
                      (Some (int (length (ie_body ev)))) db_now db1 of
                 (None, _) \<Rightarrow> Inr ((0, False), db1)
               | (Some i, db2) \<Rightarrow> Inr ((i, True), db2)))))"

section \<open>Deletes that arrived first\<close>

definition pendingDeleteTTL :: duration where "pendingDeleteTTL = 7 * 24 * 60 * minute"

definition deleteEventID :: "int \<Rightarrow> int \<Rightarrow> int \<Rightarrow> string" where
  "deleteEventID selfTGID chatTGID messageID = ''evt:v1:'' @ FormatInt selfTGID @ '':'' @
     FormatInt chatTGID @ '':'' @ FormatInt messageID @ '':d''"

definition delete_event :: "int \<Rightarrow> int \<Rightarrow> int \<Rightarrow> int \<Rightarrow> incoming_event" where
  "delete_event uid selfTGID chatTGID messageID =
     \<lparr>ie_event_id = deleteEventID selfTGID chatTGID messageID, ie_user_id = uid,
      ie_kind = EventKindMessageDelete, ie_chat_tg_id = chatTGID, ie_sender_tg_id = chatTGID,
      ie_message_id = messageID, ie_body = [], ie_meta = []\<rparr>"

definition ReasonSourceDeleted :: string where "ReasonSourceDeleted = ''source message deleted''"

definition ignore_job :: "string \<Rightarrow> instant \<Rightarrow> job \<Rightarrow> job" where
  "ignore_job reason now j = j\<lparr>j_status := JobIgnored, j_last_error := Some reason, j_updated_at := now\<rparr>"

definition takes_delete :: "incoming_event \<Rightarrow> instant \<Rightarrow> pending_delete \<Rightarrow> bool" where
  "takes_delete ev now d \<longleftrightarrow> pd_user_id d = ie_user_id ev \<and> pd_message_id d = ie_message_id ev \<and>
     pd_created_at d \<ge> now - pendingDeleteTTL"

definition applyPendingDeleteTx :: "incoming_event \<Rightarrow> int \<Rightarrow> instant \<Rightarrow> instant \<Rightarrow> agent_db \<Rightarrow> agent_db" where
  "applyPendingDeleteTx ev jid db_now now db =
     (if ie_kind ev \<noteq> EventKindPrivateMessage \<and> ie_kind ev \<noteq> EventKindMessageEdit then db
      else let db1 = (case List.find (takes_delete ev now) (db_pending_deletes db) of
              None \<Rightarrow> db
            | Some d \<Rightarrow> snd (insert_event
                (delete_event (ie_user_id ev) (pd_self_tg_id d) (ie_chat_tg_id ev) (ie_message_id ev)) None db_now
                (db\<lparr>db_pending_deletes := delete_where (takes_delete ev now) (db_pending_deletes db)\<rparr>))) in
        if jid = 0 then db1
        else update_jobs (\<lambda>j. j_id j = jid \<and> j_status j = JobPending \<and>
               (\<exists>e\<in>set (db_events db1). e_user_id e = ie_user_id ev \<and> e_chat_tg_id e = ie_chat_tg_id ev \<and>
                  e_message_id e = ie_message_id ev \<and> e_kind e = EventKindMessageDelete))
               (ignore_job ReasonSourceDeleted now) db1)"

definition ReasonConversationNotActive :: string where
  "ReasonConversationNotActive = ''conversation not active: agent not invoked''"

definition ignoreInactiveConversationJobTx :: "int \<Rightarrow> int \<Rightarrow> int \<Rightarrow> instant \<Rightarrow> agent_db \<Rightarrow> agent_db" where
  "ignoreInactiveConversationJobTx uid cid jid now db =
     (if jid = 0 then db
      else update_jobs (\<lambda>j. j_id j = jid \<and> j_status j = JobPending \<and>
             (\<exists>c\<in>set (db_conversations db). c_id c = cid \<and> c_user_id c = uid \<and> c_state c \<noteq> ConversationActive))
             (ignore_job ReasonConversationNotActive now) db)"

text \<open>Queueing the job of a newly recorded event; 0 is the id when the job row already existed.\<close>

definition enqueue_ingested :: "incoming_event \<Rightarrow> int \<Rightarrow> instant \<Rightarrow> instant \<Rightarrow> agent_db \<Rightarrow> int \<times> agent_db" where
  "enqueue_ingested ev cid db_now now db =
     (let (inserted, db1) = insert_job (ie_event_id ev) (ie_user_id ev) (Some cid)
                              (Some (int (length (ie_body ev)))) db_now db;
          jid = (case inserted of None \<Rightarrow> 0 | Some i \<Rightarrow> i) in
      (jid, ignoreInactiveConversationJobTx (ie_user_id ev) cid jid now (applyPendingDeleteTx ev jid db_now now db1)))"

definition touch_conversation :: "int \<Rightarrow> int \<Rightarrow> instant \<Rightarrow> agent_db \<Rightarrow> (db_error, agent_db) result" where
  "touch_conversation uid cid now db =
     (let P = (\<lambda>c. c_id c = cid \<and> c_user_id c = uid) in
      if count_where P (db_conversations db) \<noteq> 1 then Inl ErrConversationNotFound
      else Inr (db\<lparr>db_conversations := update_where P
             (\<lambda>c. c\<lparr>c_last_incoming_at := Some now, c_updated_at := now\<rparr>) (db_conversations db)\<rparr>))"

text \<open>The listener's ingest: event, job, pending delete, inactive conversation, outbox row and the
  conversation's last-incoming time, in one transaction. The first component of the result is the
  wake-up of the relay.\<close>

definition InsertEventEnqueueJobAndTouch ::
  "store \<Rightarrow> incoming_event \<Rightarrow> int \<Rightarrow> instant \<Rightarrow> instant \<Rightarrow> agent_db
     \<Rightarrow> (db_error, (bool \<times> int \<times> bool) \<times> agent_db) result" where
  "InsertEventEnqueueJobAndTouch st ev cid db_now now db =
     (case check_event ev of Some err \<Rightarrow> Inl err
      | None \<Rightarrow>
       if cid \<le> 0 then Inl ConversationIdRequired
       else bind_result (GetConversation db (ie_user_id ev) cid) (\<lambda>_.
         bind_result (seal_body st (ie_body ev) (ie_user_id ev)) (\<lambda>body.
           let (eventRowID, db1) = insert_event ev body db_now db in
           if eventRowID = None then Inr ((False, 0, False), db)
           else let (jid, db4) = enqueue_ingested ev cid db_now now db1 in
             bind_result (if \<not> st_operator_routing st \<or> jid = 0 then insertOutboxTx st ev now db4
                          else Inr (False, db4)) (\<lambda>(queued, db5).
             bind_result (touch_conversation (ie_user_id ev) cid now db5) (\<lambda>db6.
               Inr ((queued, jid, True), db6))))))"

section \<open>Message deletion\<close>

definition release_code :: "action \<Rightarrow> action" where
  "release_code a = a\<lparr>ac_approval_code := None, ac_code_hash := None, ac_code_encrypted := None\<rparr>"

definition deny_action :: "string \<Rightarrow> instant \<Rightarrow> action \<Rightarrow> action" where
  "deny_action reason now a = (release_code a)\<lparr>ac_status := ActionDenied, ac_reasons := reason, ac_updated_at := now\<rparr>"

text \<open>The head jobs whose turn includes an event with property \<open>P\<close>.\<close>

definition heads_of_events :: "agent_db \<Rightarrow> (job \<Rightarrow> bool) \<Rightarrow> (event_row \<Rightarrow> bool) \<Rightarrow> int set" where
  "heads_of_events db Q P = head_of ` set (filter (\<lambda>j. Q j \<and> (\<exists>e\<in>set (job_events db j). P e)) (db_jobs db))"

definition drafts_of :: "agent_db \<Rightarrow> int \<Rightarrow> int set \<Rightarrow> action \<Rightarrow> bool" where
  "drafts_of db uid heads a \<longleftrightarrow> ac_user_id a = uid \<and>
     ac_status a \<in> {ActionProposed, ActionPendingApproval, ActionApproved} \<and>
     (case ac_job_id a of None \<Rightarrow> False | Some j \<Rightarrow> j \<in> heads)"

record delete_result =
  Recorded :: int
  DeniedActions :: int
  IgnoredJobs :: int
  Pending :: int

definition recordMessageDeleteInChat ::
  "int \<Rightarrow> int \<Rightarrow> int \<Rightarrow> int \<Rightarrow> instant \<Rightarrow> instant \<Rightarrow> agent_db \<Rightarrow> delete_result \<times> agent_db" where
  "recordMessageDeleteInChat uid selfTGID chat msg db_now now db =
     (case insert_event (delete_event uid selfTGID chat msg) None db_now db of
        (None, _) \<Rightarrow> (\<lparr>Recorded = 0, DeniedActions = 0, IgnoredJobs = 0, Pending = 0\<rparr>, db)
      | (Some _, db1) \<Rightarrow>
         let heads = heads_of_events db1 (\<lambda>j. j_user_id j = uid)
                       (\<lambda>e. e_chat_tg_id e = chat \<and> e_message_id e = msg);
             P = drafts_of db1 uid heads;
             Q = (\<lambda>j. j_user_id j = uid \<and> j_status j = JobPending \<and>
                    (\<exists>e\<in>set (db_events db1). e_user_id e = uid \<and> e_chat_tg_id e = chat \<and> e_message_id e = msg \<and>
                       e_kind e \<in> {EventKindPrivateMessage, EventKindMessageEdit} \<and> e_event_id e = j_event_id j)) in
         (\<lparr>Recorded = 1, DeniedActions = count_where P (db_actions db1),
           IgnoredJobs = count_where Q (db_jobs db1), Pending = 0\<rparr>,
          update_jobs Q (ignore_job ReasonSourceDeleted now)
            (db1\<lparr>db_actions := update_where P (deny_action ReasonSourceDeleted now) (db_actions db1)\<rparr>)))"

fun record_deletes ::
  "int \<Rightarrow> int \<Rightarrow> int list \<Rightarrow> int \<Rightarrow> instant \<Rightarrow> instant \<Rightarrow> delete_result \<Rightarrow> agent_db \<Rightarrow> delete_result \<times> agent_db" where
  "record_deletes uid selfTGID [] msg db_now now out db = (out, db)"
| "record_deletes uid selfTGID (chat # chats) msg db_now now out db =
     (let (r, db1) = recordMessageDeleteInChat uid selfTGID chat msg db_now now db in
      record_deletes uid selfTGID chats msg db_now now
        (out\<lparr>Recorded := Recorded out + Recorded r, DeniedActions := DeniedActions out + DeniedActions r,
             IgnoredJobs := IgnoredJobs out + IgnoredJobs r\<rparr>) db1)"

definition RecordMessageDelete ::
  "int \<Rightarrow> int \<Rightarrow> int \<Rightarrow> instant \<Rightarrow> instant \<Rightarrow> agent_db \<Rightarrow> (db_error, delete_result \<times> agent_db) result" where
  "RecordMessageDelete uid selfTGID msg db_now now db =
     (if uid \<le> 0 \<or> msg \<le> 0 then Inl MessageIdRequired
      else let chats = remdups (map e_chat_tg_id (filter (\<lambda>e. e_user_id e = uid \<and> e_message_id e = msg \<and>
                         e_kind e \<in> {EventKindPrivateMessage, EventKindMessageEdit}) (db_events db)));
               zero = \<lparr>Recorded = 0, DeniedActions = 0, IgnoredJobs = 0, Pending = 0\<rparr> in
        if chats = [] then Inr (zero\<lparr>Pending := 1\<rparr>,
          if \<exists>d\<in>set (db_pending_deletes db). pd_user_id d = uid \<and> pd_message_id d = msg then db
          else db\<lparr>db_pending_deletes := db_pending_deletes db @
                 [\<lparr>pd_user_id = uid, pd_message_id = msg, pd_self_tg_id = selfTGID, pd_created_at = now\<rparr>]\<rparr>)
        else Inr (record_deletes uid selfTGID chats msg db_now now zero db))"

definition SweepExpiredPendingDeletes :: "instant \<Rightarrow> agent_db \<Rightarrow> agent_db" where
  "SweepExpiredPendingDeletes now db = db\<lparr>db_pending_deletes :=
     delete_where (\<lambda>d. pd_created_at d < now - pendingDeleteTTL) (db_pending_deletes db)\<rparr>"

end
