(* ===== verification/JobClaim.thy ===== *)
theory JobClaim
  imports Ingest
begin

text \<open>
  Claiming jobs (\<open>agent_jobs.go\<close>, \<open>agent_turn_claim.go\<close>, \<open>agent_managed_claim.go\<close>): admission under the
  in-flight cap and the budget, the choice of due jobs, and, with turn coalescing on, building each
  head's turn with the coalescer and folding its members into it. Row locks and advisory locks only
  order transactions; a transaction is atomic in the model, so they do not appear.
\<close>

section \<open>Admission\<close>

definition reserveInflight :: "agent_db \<Rightarrow> int \<Rightarrow> int \<Rightarrow> int \<Rightarrow> int" where
  "reserveInflight db uid limit maxInflight =
     (let inflight = count_where (\<lambda>j. j_user_id j = uid \<and> j_status j = JobProcessing) (db_jobs db);
          room = maxInflight - inflight in
      if room \<le> 0 then 0 else min limit room)"

text \<open>How many jobs the claim may take; 0 ends it, keeping what \<open>reserveBudget\<close> wrote.\<close>

definition admit ::
  "store \<Rightarrow> int \<Rightarrow> string \<Rightarrow> int \<Rightarrow> int \<Rightarrow> instant \<Rightarrow> agent_db \<Rightarrow> (db_error, int \<times> agent_db) result" where
  "admit st uid runtime limit maxInflight now db =
     (let limit1 = (if maxInflight > 0 then reserveInflight db uid limit maxInflight else limit) in
      if limit1 = 0 then Inr (0, db)
      else case st_budget st of
          None \<Rightarrow> Inr (limit1, db)
        | Some b \<Rightarrow> if budgeted st runtime maxInflight
            then map_sum id (\<lambda>(room, _, db'). (room, db')) (reserveBudget st b uid limit1 now db)
            else Inr (limit1, db))"

section \<open>One job per event\<close>

definition claimable :: "agent_db \<Rightarrow> instant \<Rightarrow> int \<Rightarrow> string \<Rightarrow> job \<Rightarrow> bool" where
  "claimable db now uid runtime j \<longleftrightarrow> j_status j = JobPending \<and> j_next_run_at j \<le> now \<and> j_user_id j = uid \<and>
     account_runtime db (j_user_id j) = runtime \<and> unblocked db j"

definition claim_order :: "job \<Rightarrow> instant \<times> int" where
  "claim_order j = (j_next_run_at j, j_id j)"

definition due :: "agent_db \<Rightarrow> instant \<Rightarrow> int \<Rightarrow> string \<Rightarrow> int \<Rightarrow> job list" where
  "due db now uid runtime limit =
     take (nat limit) (sort_key claim_order (filter (claimable db now uid runtime) (db_jobs db)))"

definition mark_claimed :: "agent_db \<Rightarrow> string \<Rightarrow> string \<Rightarrow> instant \<Rightarrow> job \<Rightarrow> job" where
  "mark_claimed db replica runtime now j =
     j\<lparr>j_status := JobProcessing, j_attempts := j_attempts j + 1, j_claimed_by := Some replica,
       j_claimed_at := Some now, j_updated_at := now,
       j_install_revision := account_revision db (j_user_id j), j_runtime := Some runtime\<rparr>"

definition reserve_job :: "managed_budget option \<Rightarrow> job \<Rightarrow> instant \<Rightarrow> agent_db \<Rightarrow> (db_error, agent_db) result" where
  "reserve_job budget j now db = (case budget of None \<Rightarrow> Inr db | Some b \<Rightarrow> insertReservation b j now db)"

text \<open>The loop over the claimed batch: open the attempt, store the turn context, reserve.\<close>

fun open_claims ::
  "managed_budget option \<Rightarrow> instant \<Rightarrow> job list \<Rightarrow> agent_db \<Rightarrow> (db_error, agent_job list \<times> agent_db) result" where
  "open_claims budget now [] db = Inr ([], db)"
| "open_claims budget now (j # js) db =
     (let db1 = insert_attempt (j_id j) (j_attempts j) now db;
          (aj, db2) = storeTurnContext \<lparr>job_row = j, SourceEventIDs = [j_event_id j]\<rparr> db1 in
      bind_result (reserve_job budget j now db2) (\<lambda>db3.
      bind_result (open_claims budget now js db3) (\<lambda>(ajs, db4). Inr (aj # ajs, db4))))"

definition claim_each ::
  "managed_budget option \<Rightarrow> string \<Rightarrow> int \<Rightarrow> string \<Rightarrow> int \<Rightarrow> instant \<Rightarrow> agent_db
     \<Rightarrow> (db_error, agent_job list \<times> agent_db) result" where
  "claim_each budget replica uid runtime limit now db =
     (let ids = j_id ` set (due db now uid runtime limit);
          P = (\<lambda>j. j_status j = JobPending \<and> j_id j \<in> ids);
          claimed = sort_key claim_order (map (mark_claimed db replica runtime now) (filter P (db_jobs db))) in
      open_claims budget now claimed (update_jobs P (mark_claimed db replica runtime now) db))"

section \<open>Turns\<close>

record claim_candidate =
  cc_id :: int
  cc_event_id :: string
  cc_conversation_id :: "int option"
  cc_created_at :: instant
  cc_bytes :: int
  cc_chat_tg_id :: int
  cc_turn_id :: "string option"

definition claimCandidateScan :: nat where "claimCandidateScan = 100"

definition loadClaimCandidates :: "agent_db \<Rightarrow> job list \<Rightarrow> claim_candidate list" where
  "loadClaimCandidates db js = concat (map (\<lambda>j. map (\<lambda>e.
     \<lparr>cc_id = j_id j, cc_event_id = j_event_id j, cc_conversation_id = j_conversation_id j,
      cc_created_at = j_created_at j, cc_bytes = (case j_body_bytes j of None \<Rightarrow> 0 | Some n \<Rightarrow> n),
      cc_chat_tg_id = e_chat_tg_id e, cc_turn_id = j_turn_id j\<rparr>) (job_events db j)) js)"

text \<open>Go's zero \<open>time.Time\<close>, and the zero value a map lookup yields for an absent event.\<close>

definition zero_time :: instant where "zero_time = -62135596800000000000"

definition zero_candidate :: claim_candidate where
  "zero_candidate = \<lparr>cc_id = 0, cc_event_id = [], cc_conversation_id = None, cc_created_at = zero_time,
     cc_bytes = 0, cc_chat_tg_id = 0, cc_turn_id = None\<rparr>"

definition backlogUntil :: "agent_db \<Rightarrow> claim_candidate \<Rightarrow> instant option" where
  "backlogUntil db c = (case cc_conversation_id c of None \<Rightarrow> None
     | Some cv \<Rightarrow>
        first_by uminus (List.map_filter t_finished_at (filter (\<lambda>a.
          (case t_finished_at a of None \<Rightarrow> False | Some t \<Rightarrow> t > cc_created_at c) \<and>
          (\<exists>p\<in>set (db_jobs db). j_id p = t_job_id a \<and> j_conversation_id p = Some cv \<and> j_id p < cc_id c))
          (db_attempts db))))"

definition followers :: "agent_db \<Rightarrow> int \<Rightarrow> claim_candidate \<Rightarrow> claim_candidate list" where
  "followers db uid c = (case cc_conversation_id c of None \<Rightarrow> []
     | Some cv \<Rightarrow> loadClaimCandidates db (sort_key j_id (filter (\<lambda>j. j_conversation_id j = Some cv \<and>
         j_user_id j = uid \<and> j_status j = JobPending \<and> j_attempts j = 0 \<and> j_id j > cc_id c) (db_jobs db))))"

definition offered_at :: "instant option \<Rightarrow> claim_candidate list \<Rightarrow> claim_candidate \<Rightarrow> instant" where
  "offered_at until es e = (case until of None \<Rightarrow> cc_created_at e
     | Some u \<Rightarrow>
        let backlogAt = fold (\<lambda>e acc. if cc_created_at e < u \<and> cc_created_at e > acc
                                      then cc_created_at e else acc) es zero_time in
        if cc_created_at e < u then backlogAt else cc_created_at e)"

definition offer_event :: "int \<Rightarrow> instant option \<Rightarrow> claim_candidate list \<Rightarrow> claim_candidate \<Rightarrow> event" where
  "offer_event uid until es e = \<lparr>ev_id = cc_event_id e, ev_session = SessionKey uid (cc_chat_tg_id e),
     ev_at = offered_at until es e, ev_bytes = cc_bytes e\<rparr>"

definition readyTurn ::
  "store \<Rightarrow> config \<Rightarrow> int \<Rightarrow> claim_candidate \<Rightarrow> instant \<Rightarrow> agent_db
     \<Rightarrow> (db_error, (string \<times> claim_candidate list) option) result" where
  "readyTurn st cf uid c now db =
     (let es = c # followers db uid c; until = backlogUntil db c in
      case New cf of None \<Rightarrow> Inl TurnConfigInvalid
      | Some co \<Rightarrow>
         let closed = snd (turn_run (sha256_hex (st_crypt st)) co
               (map (\<lambda>e. OpOffer (offer_event uid until es e)) es @ [OpTick now]));
             byEvent = map_of (rev (map (\<lambda>e. (cc_event_id e, e)) es)) in
         (case List.find (\<lambda>t. source_ids t \<noteq> [] \<and> hd (source_ids t) = cc_event_id c) closed of
            None \<Rightarrow> Inr None
          | Some t \<Rightarrow> Inr (Some (turn_id t,
              map (\<lambda>i. case byEvent i of Some m \<Rightarrow> m | None \<Rightarrow> zero_candidate) (tl (source_ids t))))))"

fun coalesce_members ::
  "int \<Rightarrow> string \<Rightarrow> instant \<Rightarrow> claim_candidate list \<Rightarrow> agent_db \<Rightarrow> (db_error, agent_db) result" where
  "coalesce_members head tid now [] db = Inr db"
| "coalesce_members head tid now (m # mems) db =
     (let P = (\<lambda>j. j_id j = cc_id m \<and> j_status j = JobPending) in
      if count_where P (db_jobs db) \<noteq> 1 then Inl MemberMovedConcurrently
      else coalesce_members head tid now mems (update_jobs P (\<lambda>j. j\<lparr>j_status := JobCoalesced,
             j_coalesced_into := Some head, j_turn_id := Some tid, j_updated_at := now\<rparr>) db))"

definition fillSourceEvents :: "agent_db \<Rightarrow> job \<Rightarrow> string list" where
  "fillSourceEvents db j = j_event_id j #
     (if j_coalesced_into j \<noteq> None \<and> j_coalesced_into j \<noteq> Some 0 then []
      else map j_event_id (sort_key j_id
        (filter (\<lambda>m. j_coalesced_into m = Some (j_id j) \<and> j_user_id m = j_user_id j) (db_jobs db))))"

text \<open>The body of the loop for a head whose turn is ready.\<close>

definition claim_head ::
  "managed_budget option \<Rightarrow> string \<Rightarrow> string \<Rightarrow> instant \<Rightarrow> job \<Rightarrow> string \<Rightarrow> claim_candidate list \<Rightarrow> agent_db
     \<Rightarrow> (db_error, agent_job \<times> agent_db) result" where
  "claim_head budget replica runtime now j tid members db =
     (let claim = (\<lambda>x. (mark_claimed db replica runtime now x)\<lparr>j_turn_id := Some tid\<rparr>);
          db1 = update_jobs (\<lambda>x. j_id x = j_id j \<and> j_status x = JobPending) claim db in
      bind_result (coalesce_members (j_id j) tid now members db1) (\<lambda>db2.
      bind_result (reserve_job budget (claim j) now (insert_attempt (j_id j) (j_attempts j + 1) now db2)) (\<lambda>db3.
        Inr (storeTurnContext \<lparr>job_row = claim j, SourceEventIDs = fillSourceEvents db3 (claim j)\<rparr> db3))))"

definition head_turn ::
  "store \<Rightarrow> config \<Rightarrow> int \<Rightarrow> claim_candidate \<Rightarrow> instant \<Rightarrow> agent_db
     \<Rightarrow> (db_error, (string \<times> claim_candidate list) option) result" where
  "head_turn st cf uid c now db = (case cc_turn_id c of
       Some tid \<Rightarrow> if tid \<noteq> [] then Inr (Some (tid, [])) else readyTurn st cf uid c now db
     | None \<Rightarrow> readyTurn st cf uid c now db)"

fun claim_heads ::
  "store \<Rightarrow> config \<Rightarrow> managed_budget option \<Rightarrow> string \<Rightarrow> int \<Rightarrow> string \<Rightarrow> instant \<Rightarrow> int
     \<Rightarrow> claim_candidate list \<Rightarrow> agent_db \<Rightarrow> (db_error, agent_job list \<times> agent_db) result" where
  "claim_heads st cf budget replica uid runtime now room [] db = Inr ([], db)"
| "claim_heads st cf budget replica uid runtime now room (c # cs) db =
     (if room \<le> 0 then Inr ([], db)
      else bind_result (head_turn st cf uid c now db) (\<lambda>turn.
        case turn of None \<Rightarrow> claim_heads st cf budget replica uid runtime now room cs db
        | Some (tid, members) \<Rightarrow>
           (case filter (\<lambda>j. j_id j = cc_id c \<and> j_status j = JobPending) (db_jobs db) of
              [j] \<Rightarrow> bind_result (claim_head budget replica runtime now j tid members db) (\<lambda>(aj, db1).
                bind_result (claim_heads st cf budget replica uid runtime now (room - 1) cs db1) (\<lambda>(ajs, db2).
                  Inr (aj # ajs, db2)))
            | _ \<Rightarrow> claim_heads st cf budget replica uid runtime now room cs db)))"

definition claimCoalesced ::
  "store \<Rightarrow> config \<Rightarrow> managed_budget option \<Rightarrow> string \<Rightarrow> int \<Rightarrow> string \<Rightarrow> int \<Rightarrow> instant \<Rightarrow> agent_db
     \<Rightarrow> (db_error, agent_job list \<times> agent_db) result" where
  "claimCoalesced st cf budget replica uid runtime limit now db =
     (let cands = take claimCandidateScan (loadClaimCandidates db
            (sort_key claim_order (filter (claimable db now uid runtime) (db_jobs db)))) in
      map_sum id (\<lambda>(ajs, db'). (sort_key (\<lambda>aj. claim_order (job_row aj)) ajs, db'))
        (claim_heads st cf budget replica uid runtime now limit cands db))"

section \<open>Entry points\<close>

definition claimAgentJobs ::
  "store \<Rightarrow> string \<Rightarrow> int \<Rightarrow> string \<Rightarrow> int \<Rightarrow> int \<Rightarrow> instant \<Rightarrow> agent_db
     \<Rightarrow> (db_error, agent_job list \<times> agent_db) result" where
  "claimAgentJobs st replica uid runtime limit maxInflight now db =
     (if uid \<le> 0 then Inl UserIdRequired
      else if runtime \<noteq> RuntimeOwn \<and> runtime \<noteq> RuntimeManaged then Inl InvalidRuntime
      else let limit' = (if limit \<le> 0 then 1 else limit);
               budget = (if budgeted st runtime maxInflight then st_budget st else None) in
        bind_result (admit st uid runtime limit' maxInflight now db) (\<lambda>(room, db').
          if room = 0 then Inr ([], db')
          else case st_turn_cfg st of
              None \<Rightarrow> claim_each budget replica uid runtime room now db'
            | Some cf \<Rightarrow> claimCoalesced st cf budget replica uid runtime room now db'))"

definition ClaimAgentJobs ::
  "store \<Rightarrow> string \<Rightarrow> int \<Rightarrow> string \<Rightarrow> int \<Rightarrow> instant \<Rightarrow> agent_db
     \<Rightarrow> (db_error, agent_job list \<times> agent_db) result" where
  "ClaimAgentJobs st replica uid runtime limit now db = claimAgentJobs st replica uid runtime limit 0 now db"

definition ClaimManagedAgentJobs ::
  "store \<Rightarrow> string \<Rightarrow> int \<Rightarrow> int \<Rightarrow> int \<Rightarrow> instant \<Rightarrow> agent_db
     \<Rightarrow> (db_error, agent_job list \<times> agent_db) result" where
  "ClaimManagedAgentJobs st replica uid limit maxInflight now db =
     (if maxInflight < 1 then Inl MaxInflightInvalid
      else claimAgentJobs st replica uid RuntimeManaged limit maxInflight now db)"

section \<open>Candidate accounts of the managed pool\<close>

definition CountManagedAccountsWithPendingJobs :: "agent_db \<Rightarrow> int" where
  "CountManagedAccountsWithPendingJobs db = int (card (set (map p_user_id
     (filter (\<lambda>p. p_runtime p = RuntimeManaged \<and>
        (\<exists>j\<in>set (db_jobs db). j_user_id j = p_user_id p \<and> j_status j = JobPending)) (db_profiles db)))))"

definition ManagedConsentCurrent :: string where "ManagedConsentCurrent = ''managed-data-flow/v1''"

text \<open>The due, unblocked jobs of an account, and the time of the oldest.\<close>

definition candidate_jobs :: "agent_db \<Rightarrow> instant \<Rightarrow> int \<Rightarrow> job list" where
  "candidate_jobs db now uid = filter (\<lambda>j. j_user_id j = uid \<and> j_status j = JobPending \<and>
     j_next_run_at j \<le> now \<and> unblocked db j) (db_jobs db)"

definition oldest_run :: "agent_db \<Rightarrow> instant \<Rightarrow> int \<Rightarrow> instant" where
  "oldest_run db now uid = Min (j_next_run_at ` set (candidate_jobs db now uid))"

definition is_candidate ::
  "store \<Rightarrow> (int \<Rightarrow> int option) \<Rightarrow> agent_db \<Rightarrow> instant \<Rightarrow> int \<Rightarrow> profile \<Rightarrow> bool" where
  "is_candidate st login db now maxInflight p \<longleftrightarrow> p_runtime p = RuntimeManaged \<and>
     p_consent_version p = ManagedConsentCurrent \<and>
     login (p_user_id p) \<noteq> None \<and> login (p_user_id p) \<noteq> Some 0 \<and>
     candidate_jobs db now (p_user_id p) \<noteq> [] \<and>
     count_where (\<lambda>j. j_user_id j = p_user_id p \<and> j_status j = JobProcessing) (db_jobs db) < maxInflight \<and>
     budgetCandidateFilter st now db p"

definition after_cursor :: "agent_db \<Rightarrow> instant \<Rightarrow> (instant \<times> int) option \<Rightarrow> profile \<Rightarrow> bool" where
  "after_cursor db now cursor p = (case cursor of None \<Rightarrow> True
     | Some (t, u) \<Rightarrow> oldest_run db now (p_user_id p) > t \<or> (oldest_run db now (p_user_id p) = t \<and> p_user_id p > u))"

text \<open>The telegram login ids of the users table are the argument \<open>login\<close>. A candidate is the account
  and its cursor: oldest claimable job, then user id.\<close>

definition ListManagedClaimCandidates ::
  "store \<Rightarrow> (int \<Rightarrow> int option) \<Rightarrow> instant \<Rightarrow> int \<Rightarrow> (instant \<times> int) option \<Rightarrow> int \<Rightarrow> agent_db
     \<Rightarrow> (int \<times> int option \<times> instant) list" where
  "ListManagedClaimCandidates st login now maxInflight cursor limit db =
     (let mi = (if maxInflight < 1 then 1 else maxInflight); lim = (if limit < 1 then 1 else limit) in
      take (nat lim) (map (\<lambda>p. (p_user_id p, login (p_user_id p), oldest_run db now (p_user_id p)))
        (sort_key (\<lambda>p. (oldest_run db now (p_user_id p), p_user_id p))
          (filter (\<lambda>p. is_candidate st login db now mi p \<and> after_cursor db now cursor p) (db_profiles db)))))"

end
