(* ===== verification/JobLifecycle.thy ===== *)
theory JobLifecycle
  imports JobClaim
begin

text \<open>
  What happens to a claimed job (\<open>agent_jobs.go\<close>): completion with and without a durable result,
  retry with backoff, release of a claim whose credential was never issued, the sweep of stale claims,
  and the purge of an account. Every write is fenced by the claim's attempt number.
\<close>

section \<open>Backoff and the dialect probe\<close>

fun backoff_loop :: "nat \<Rightarrow> duration \<Rightarrow> duration" where
  "backoff_loop 0 d = d"
| "backoff_loop (Suc n) d =
     (let d' = wrap64 (d * 2) in if d' \<ge> 30 * minute then 30 * minute else backoff_loop n d')"

definition AgentJobBackoff :: "int \<Rightarrow> duration" where
  "AgentJobBackoff attempts = (let n = (if attempts < 1 then 1 else attempts) in
     backoff_loop (nat (n - 1)) (30 * second))"

record dialect =
  pgResolved :: bool
  pgFlag :: bool

text \<open>\<open>probe\<close> is the error of the \<open>pg_catalog\<close> query, if any.\<close>

definition resolveDialect :: "string option \<Rightarrow> dialect \<Rightarrow> (bool \<times> bool) \<times> dialect" where
  "resolveDialect probe d =
     (if pgResolved d then ((pgFlag d, True), d)
      else let d' = (case probe of
              None \<Rightarrow> \<lparr>pgResolved = True, pgFlag = True\<rparr>
            | Some err \<Rightarrow> if contains_str err ''no such table'' then \<lparr>pgResolved = True, pgFlag = False\<rparr> else d) in
        ((pgFlag d', pgResolved d'), d'))"

definition isPostgres :: "string option \<Rightarrow> dialect \<Rightarrow> bool \<times> dialect" where
  "isPostgres probe d = (let ((pg, _), d') = resolveDialect probe d in (pg, d'))"

definition postgresDialect :: "string option \<Rightarrow> dialect \<Rightarrow> bool option \<times> dialect" where
  "postgresDialect probe d = (let ((pg, resolved), d') = resolveDialect probe d in
     (if resolved then Some pg else None, d'))"

definition managedClaimDialect :: "string option \<Rightarrow> int \<Rightarrow> dialect \<Rightarrow> bool option \<times> dialect" where
  "managedClaimDialect probe maxInflight d =
     (if maxInflight \<le> 0 then (Some False, d) else postgresDialect probe d)"

section \<open>Completion\<close>

definition completeRuntimeFence :: "agent_db \<Rightarrow> job \<Rightarrow> bool" where
  "completeRuntimeFence db j \<longleftrightarrow>
     j_runtime j = None \<or> j_runtime j = Some (account_runtime db (j_user_id j))"

definition open_of :: "int \<Rightarrow> attempt_row \<Rightarrow> bool" where
  "open_of jid a \<longleftrightarrow> t_job_id a = jid \<and> t_finished_at a = None"

definition finish_attempt :: "job_status \<Rightarrow> string option \<Rightarrow> instant \<Rightarrow> attempt_row \<Rightarrow> attempt_row" where
  "finish_attempt status err now a =
     a\<lparr>t_finished_at := Some now, t_status := AttemptEnded status, t_error := err\<rparr>"

definition finishOpenAttempt :: "int \<Rightarrow> job_status \<Rightarrow> string \<Rightarrow> instant \<Rightarrow> agent_db \<Rightarrow> agent_db" where
  "finishOpenAttempt jid status errMsg now db =
     (case first_by (\<lambda>a. - t_id a) (filter (open_of jid) (db_attempts db)) of
        None \<Rightarrow> db
      | Some r \<Rightarrow> db\<lparr>db_attempts := update_where (\<lambda>a. t_id a = t_id r)
          (finish_attempt status (nullable errMsg) now) (db_attempts db)\<rparr>)"

definition is_terminal_request :: "job_status \<Rightarrow> bool" where
  "is_terminal_request s \<longleftrightarrow> s \<in> {JobCompleted, JobFailed, JobIgnored}"

definition route_failed ::
  "store \<Rightarrow> job_status \<Rightarrow> int \<Rightarrow> instant \<Rightarrow> agent_db \<Rightarrow> (db_error, bool \<times> agent_db) result" where
  "route_failed st status jid now db =
     (if status = JobFailed then routeJobEventTx st jid RouteWorkerFailure now db else Inr (False, db))"

definition CompleteAgentJob ::
  "store \<Rightarrow> int \<Rightarrow> int \<Rightarrow> job_status \<Rightarrow> string \<Rightarrow> instant \<Rightarrow> agent_db \<Rightarrow> (db_error, bool \<times> agent_db) result" where
  "CompleteAgentJob st jid attempt status note now db =
     (if \<not> is_terminal_request status then Inl InvalidTerminalStatus
      else let P = (\<lambda>j. j_id j = jid \<and> j_status j = JobProcessing \<and> j_attempts j = attempt \<and>
                        completeRuntimeFence db j) in
        if count_where P (db_jobs db) = 0 then Inl ErrAgentJobNotFound
        else route_failed st status jid now (finishOpenAttempt jid status note now
               (update_jobs P (\<lambda>j. j\<lparr>j_status := status, j_last_error := nullable note, j_updated_at := now\<rparr>) db)))"

definition result_action_ok :: "agent_db \<Rightarrow> int \<Rightarrow> int \<Rightarrow> int \<Rightarrow> bool" where
  "result_action_ok db uid jid aid \<longleftrightarrow>
     (\<exists>a\<in>set (db_actions db). ac_id a = aid \<and> ac_job_id a = Some jid \<and> ac_user_id a = uid)"

definition result_lead_ok :: "agent_db \<Rightarrow> int \<Rightarrow> int \<Rightarrow> int \<Rightarrow> bool" where
  "result_lead_ok db uid jid lid \<longleftrightarrow>
     (\<exists>r\<in>set (db_lead_results db). lr_lead_id r = lid \<and> lr_job_id r = jid \<and> lr_user_id r = uid \<and>
        (\<exists>l\<in>set (db_leads db). l_id l = lr_lead_id r \<and> l_user_id l = uid))"

definition CompleteAgentJobWithResult ::
  "store \<Rightarrow> int \<Rightarrow> int \<Rightarrow> int \<Rightarrow> job_status \<Rightarrow> string \<Rightarrow> int \<Rightarrow> int \<Rightarrow> instant \<Rightarrow> agent_db
     \<Rightarrow> (db_error, bool \<times> agent_db) result" where
  "CompleteAgentJobWithResult st uid jid attempt status note actionID leadID now db =
     (if uid \<le> 0 then Inl UserIdRequired
      else if \<not> is_terminal_request status then Inl InvalidTerminalStatus
      else if actionID < 0 \<or> leadID < 0 then Inl ErrAgentJobResultInvalid
      else if status = JobCompleted \<and> actionID \<le> 0 \<and> leadID \<le> 0 then Inl ErrAgentJobResultRequired
      else if status \<noteq> JobCompleted \<and> (actionID \<noteq> 0 \<or> leadID \<noteq> 0) then Inl ErrAgentJobResultInvalid
      else if actionID > 0 \<and> \<not> result_action_ok db uid jid actionID then Inl ErrAgentJobResultInvalid
      else if leadID > 0 \<and> \<not> result_lead_ok db uid jid leadID then Inl ErrAgentJobResultInvalid
      else let P = (\<lambda>j. j_id j = jid \<and> j_user_id j = uid \<and> j_status j = JobProcessing \<and>
                        j_attempts j = attempt \<and> completeRuntimeFence db j) in
        if count_where P (db_jobs db) = 0 then Inl ErrAgentJobNotFound
        else route_failed st status jid now (finishOpenAttempt jid status note now
               (update_jobs P (\<lambda>j. j\<lparr>j_status := status, j_last_error := nullable note,
                  j_result_action_id := nullableInt actionID, j_result_lead_id := nullableInt leadID,
                  j_updated_at := now\<rparr>) db)))"

section \<open>Retry and release\<close>

definition RetryAgentJob ::
  "store \<Rightarrow> int \<Rightarrow> int \<Rightarrow> string \<Rightarrow> instant \<Rightarrow> agent_db \<Rightarrow> (db_error, job_status \<times> agent_db) result" where
  "RetryAgentJob st jid attempt errMsg now db =
     (let P = (\<lambda>j. j_id j = jid \<and> j_status j = JobProcessing \<and> j_attempts j = attempt) in
      case List.find P (db_jobs db) of
        None \<Rightarrow> Inl ErrAgentJobNotFound
      | Some j \<Rightarrow>
         let exhausted = (j_attempts j \<ge> j_max_attempts j);
             status = (if exhausted then JobDeadLetter else JobPending);
             nextRun = (if exhausted then now else now + AgentJobBackoff (j_attempts j)) in
         bind_result
           ((if status = JobDeadLetter then routeJobEventTx st jid RouteWorkerFailure now else (\<lambda>d. Inr (False, d)))
             (finishOpenAttempt jid JobFailed errMsg now
               (update_jobs P (\<lambda>x. x\<lparr>j_status := status, j_next_run_at := nextRun,
                  j_last_error := nullable errMsg, j_updated_at := now\<rparr>) db)))
           (\<lambda>(_, db'). Inr (status, db')))"

definition releaseUnissuedDelay :: duration where "releaseUnissuedDelay = second"

definition ReleaseUnissuedClaim ::
  "int \<Rightarrow> int \<Rightarrow> string \<Rightarrow> instant \<Rightarrow> agent_db \<Rightarrow> (db_error, agent_db) result" where
  "ReleaseUnissuedClaim jid attempt replica now db =
     (let P = (\<lambda>j. j_id j = jid \<and> j_status j = JobProcessing \<and> j_attempts j = attempt \<and>
                   j_claimed_by j = Some replica) in
      if count_where P (db_jobs db) = 0 then Inl ErrAgentJobNotFound
      else let db1 = update_jobs P (\<lambda>j. j\<lparr>j_status := JobPending, j_attempts := j_attempts j - 1,
                 j_claimed_by := None, j_claimed_at := None, j_next_run_at := now + releaseUnissuedDelay,
                 j_last_error := Some ''job token mint failed'', j_updated_at := now\<rparr>) db in
        Inr (db1\<lparr>db_attempts := delete_where (\<lambda>a. open_of jid a \<and> t_attempt a = attempt) (db_attempts db1),
                 db_usage := delete_where (\<lambda>u. us_job_id u = jid \<and> us_attempt u = attempt \<and>
                               us_status u = UsageReserved) (db_usage db1)\<rparr>))"

definition AgentJobOwner :: "int \<Rightarrow> agent_db \<Rightarrow> int option" where
  "AgentJobOwner jid db = map_option j_user_id (List.find (\<lambda>j. j_id j = jid) (db_jobs db))"

definition GetAgentJob :: "int \<Rightarrow> int \<Rightarrow> agent_db \<Rightarrow> (db_error, agent_job) result" where
  "GetAgentJob uid jid db =
     (case List.find (\<lambda>j. j_id j = jid \<and> j_user_id j = uid) (db_jobs db) of
        None \<Rightarrow> Inl ErrAgentJobNotFound
      | Some j \<Rightarrow> Inr \<lparr>job_row = j, SourceEventIDs =
          (case loadTurnContext db uid jid of Some ids \<Rightarrow> ids | None \<Rightarrow> fillSourceEvents db j)\<rparr>)"

section \<open>The stale sweep\<close>

definition stale :: "instant \<Rightarrow> job \<Rightarrow> bool" where
  "stale cutoff j \<longleftrightarrow> j_status j = JobProcessing \<and>
     (case j_claimed_at j of None \<Rightarrow> False | Some t \<Rightarrow> t < cutoff)"

text \<open>\<open>UPDATE ... WHERE P RETURNING id\<close> on \<open>agent_jobs\<close>.\<close>

definition requeueTransition :: "(job \<Rightarrow> bool) \<Rightarrow> (job \<Rightarrow> job) \<Rightarrow> agent_db \<Rightarrow> int list \<times> agent_db" where
  "requeueTransition P f db = (map j_id (filter P (db_jobs db)), update_jobs P f db)"

definition requeue :: "string \<Rightarrow> instant \<Rightarrow> job \<Rightarrow> job" where
  "requeue why now j = j\<lparr>j_status := JobPending, j_next_run_at := now, j_last_error := Some why, j_updated_at := now\<rparr>"

definition requeue_fenced :: "instant \<Rightarrow> job \<Rightarrow> job" where
  "requeue_fenced now j = (requeue ''runtime switched, requeued for the new runtime'' now j)
     \<lparr>j_max_attempts := (if j_attempts j \<ge> j_max_attempts j then j_attempts j + 1 else j_max_attempts j)\<rparr>"

definition dead_letter :: "instant \<Rightarrow> job \<Rightarrow> job" where
  "dead_letter now j = j\<lparr>j_status := JobDeadLetter,
     j_last_error := Some ''visibility timeout, attempts exhausted'', j_updated_at := now\<rparr>"

definition closeAttempts :: "int list \<Rightarrow> string \<Rightarrow> instant \<Rightarrow> agent_db \<Rightarrow> agent_db" where
  "closeAttempts ids reason now db = fold (\<lambda>i db. db\<lparr>db_attempts :=
     update_where (open_of i) (finish_attempt JobFailed (Some reason) now) (db_attempts db)\<rparr>) ids db"

definition RequeueStaleAgentJobs ::
  "store \<Rightarrow> duration \<Rightarrow> instant \<Rightarrow> agent_db \<Rightarrow> (db_error, (int \<times> int) \<times> agent_db) result" where
  "RequeueStaleAgentJobs st visibility now db =
     (if visibility \<le> 0 then Inr ((0, 0), db)
      else let cutoff = now - visibility;
               (fencedIDs, db1) = requeueTransition (\<lambda>j. stale cutoff j \<and> \<not> completeRuntimeFence db j)
                                    (requeue_fenced now) db;
               (deadIDs, db2) = requeueTransition (\<lambda>j. stale cutoff j \<and> j_attempts j \<ge> j_max_attempts j)
                                    (dead_letter now) db1;
               (requeuedIDs, db3) = requeueTransition (stale cutoff)
                                    (requeue ''visibility timeout, requeued'' now) db2;
               db4 = closeAttempts fencedIDs ''runtime switched'' now
                       (closeAttempts (deadIDs @ requeuedIDs) ''visibility timeout'' now db3);
               db5 = holdReservations requeuedIDs now (holdReservations deadIDs now
                       (holdReservations fencedIDs now db4));
               db6 = holdEndedReservations now db5 in
        bind_result (route_jobs st RouteWorkerFailure now deadIDs db6) (\<lambda>(_, db7).
          Inr ((int (length requeuedIDs + length fencedIDs), int (length deadIDs)), db7)))"

section \<open>Purge and counts\<close>

definition purgeAgentJobs :: "int \<Rightarrow> agent_db \<Rightarrow> agent_db" where
  "purgeAgentJobs uid db =
     db\<lparr>db_attempts := delete_where (\<lambda>a. t_job_id a \<in> j_id ` set (filter (\<lambda>j. j_user_id j = uid) (db_jobs db))) (db_attempts db),
        db_usage := delete_where (\<lambda>u. us_user_id u = uid) (db_usage db),
        db_jobs := delete_where (\<lambda>j. j_user_id j = uid) (db_jobs db)\<rparr>"

definition CountAgentJobs :: "agent_db \<Rightarrow> job_status \<Rightarrow> int option" where
  "CountAgentJobs db s = (let n = count_where (\<lambda>j. j_status j = s) (db_jobs db) in if n = 0 then None else Some n)"

end
