(* ===== verification/Actions.thy ===== *)
theory Actions
  imports JobLifecycle
begin

text \<open>
  The life of an agent action (\<open>agent_actions.go\<close>, \<open>agent_delivery.go\<close>): proposal, approval, the
  reservation that precedes every send, the outcome of the send, and the sweeps that withdraw drafts.
  The random id of a send is persisted before the RPC and reused by every retry, so Telegram
  deduplicates them.
\<close>

section \<open>Inserting\<close>

text \<open>\<open>AgentAction\<close> as a proposer passes it; a missing status is \<open>proposed\<close>.\<close>

record new_action =
  na_user_id :: int
  na_code :: string
  na_job_id :: int
  na_attempt :: int
  na_conversation_id :: int
  na_type :: string
  na_intent :: string
  na_payload :: string
  na_decision :: string
  na_reasons :: string
  na_status :: "action_status option"

definition PolicyRequireApproval :: string where "PolicyRequireApproval = ''require_approval''"
definition NotificationApproval :: string where "NotificationApproval = ''approval_request''"

definition protectApprovalCode :: "store \<Rightarrow> string \<Rightarrow> int \<Rightarrow> (db_error, string option \<times> string option) result" where
  "protectApprovalCode st code uid =
     (if code = [] then Inr (None, None)
      else case BlindIndexForUser (st_crypt st) ''agent-approval-code'' code uid of
          Inl m \<Rightarrow> Inl (SealFailed m)
        | Inr hash \<Rightarrow> (case SealForUser (st_crypt st) code uid of
              Inl m \<Rightarrow> Inl (SealFailed m) | Inr enc \<Rightarrow> Inr (Some hash, Some enc)))"

definition action_row ::
  "new_action \<Rightarrow> string option \<times> string option \<Rightarrow> string option \<Rightarrow> int option \<Rightarrow> int \<Rightarrow> instant \<Rightarrow> agent_db \<Rightarrow> action" where
  "action_row a codes payload jid revision db_now db =
     \<lparr>ac_id = db_action_seq db + 1, ac_approval_code = None, ac_code_hash = fst codes,
      ac_code_encrypted = snd codes, ac_job_id = jid, ac_conversation_id = nullableInt (na_conversation_id a),
      ac_user_id = na_user_id a, ac_type = na_type a, ac_intent = na_intent a, ac_payload = payload,
      ac_decision = na_decision a, ac_reasons = na_reasons a,
      ac_status = (case na_status a of None \<Rightarrow> ActionProposed | Some s \<Rightarrow> s),
      ac_executed_msg = None, ac_random_id = None, ac_send_body = None, ac_send_attempts = 0,
      ac_retry_not_before = None, ac_install_revision = revision, ac_created_at = db_now, ac_updated_at = db_now\<rparr>"

definition code_taken :: "agent_db \<Rightarrow> int \<Rightarrow> string option \<Rightarrow> bool" where
  "code_taken db uid hash \<longleftrightarrow> hash \<noteq> None \<and> (\<exists>a\<in>set (db_actions db). ac_user_id a = uid \<and> ac_code_hash a = hash)"

definition insert_action :: "action \<Rightarrow> agent_db \<Rightarrow> (db_error, agent_db) result" where
  "insert_action a db = (if code_taken db (ac_user_id a) (ac_code_hash a) then Inl UniqueViolation
     else Inr (db\<lparr>db_actions := db_actions db @ [a], db_action_seq := db_action_seq db + 1\<rparr>))"

text \<open>The operator-routing reason of a job-tied reply the policy denied or parked.\<close>

definition route_reason :: "new_action \<Rightarrow> string" where
  "route_reason a = (if na_type a = ActionTypeReply
     then (if na_status a = Some ActionDenied then RoutePolicyDeny
           else if na_status a = Some ActionPendingApproval then RoutePolicyRequireApproval else [])
     else [])"

definition insert_job_action ::
  "store \<Rightarrow> new_action \<Rightarrow> string option \<times> string option \<Rightarrow> string option \<Rightarrow> instant \<Rightarrow> instant \<Rightarrow> agent_db
     \<Rightarrow> (db_error, int \<times> agent_db) result" where
  "insert_job_action st a codes payload db_now now db =
     (let live = List.find (\<lambda>j. j_id j = na_job_id a \<and> j_user_id j = na_user_id a \<and>
                    j_status j = JobProcessing \<and> j_attempts j = na_attempt a) (db_jobs db);
          existing = List.find (\<lambda>x. ac_job_id x = Some (na_job_id a) \<and> ac_type x = na_type a) (db_actions db) in
      case (live, existing) of
        (Some j, None) \<Rightarrow>
          bind_result (insert_action (action_row a codes payload (Some (j_id j)) (j_install_revision j) db_now db) db) (\<lambda>db1.
          bind_result (if route_reason a = [] then Inr (False, db1)
                       else routeJobEventTx st (na_job_id a) (route_reason a) now db1) (\<lambda>(_, db2).
          Inr (db_action_seq db + 1, db2)))
      | _ \<Rightarrow> (case List.find (\<lambda>x. ac_job_id x = Some (na_job_id a) \<and> ac_type x = na_type a \<and>
                     ac_user_id x = na_user_id a) (db_actions db) of
                None \<Rightarrow> Inl ErrAgentJobNotFound
              | Some x \<Rightarrow> Inr (ac_id x, db)))"

definition InsertAgentAction ::
  "store \<Rightarrow> new_action \<Rightarrow> instant \<Rightarrow> instant \<Rightarrow> agent_db \<Rightarrow> (db_error, int \<times> agent_db) result" where
  "InsertAgentAction st a db_now now db =
     (if na_user_id a \<le> 0 then Inl UserIdRequired
      else if na_type a = [] then Inl ActionTypeRequired
      else if na_decision a = [] then Inl PolicyDecisionRequired
      else bind_result (protectApprovalCode st (na_code a) (na_user_id a)) (\<lambda>codes.
           bind_result (if na_conversation_id a \<noteq> 0
                        then map_sum id (\<lambda>_. ()) (GetConversation db (na_user_id a) (na_conversation_id a))
                        else Inr ()) (\<lambda>_.
           bind_result (seal_body st (na_payload a) (na_user_id a)) (\<lambda>payload.
             if na_job_id a \<noteq> 0 then insert_job_action st a codes payload db_now now db
             else bind_result (insert_action (action_row a codes payload None
                                 (account_revision db (na_user_id a)) db_now db) db) (\<lambda>db1.
                    Inr (db_action_seq db + 1, db1))))))"

definition InsertStandaloneApprovalWithNotification ::
  "store \<Rightarrow> new_action \<Rightarrow> string \<Rightarrow> instant \<Rightarrow> agent_db \<Rightarrow> (db_error, int \<times> agent_db) result" where
  "InsertStandaloneApprovalWithNotification st a notificationBody db_now db =
     (if na_job_id a \<noteq> 0 then Inl JobIdForbidden
      else if na_user_id a \<le> 0 \<or> na_conversation_id a \<le> 0 then Inl ConversationIdRequired
      else if na_type a = [] \<or> na_decision a = [] then Inl ActionTypeRequired
      else if na_status a \<noteq> Some ActionPendingApproval \<or> na_code a = [] then Inl ApprovalRequired
      else bind_result (GetConversation db (na_user_id a) (na_conversation_id a)) (\<lambda>_.
        case (SealForUser (st_crypt st) (na_payload a) (na_user_id a),
              SealForUser (st_crypt st) notificationBody (na_user_id a)) of
          (Inr payload, Inr body) \<Rightarrow>
            bind_result (protectApprovalCode st (na_code a) (na_user_id a)) (\<lambda>codes.
            bind_result (insert_action (action_row a codes (Some payload) None
                           (account_revision db (na_user_id a)) db_now db) db) (\<lambda>db1.
            Inr (db_action_seq db + 1, insert_notification (na_user_id a) NotificationApproval
                   (Some (db_action_seq db + 1)) (Some body) db_now db1)))
        | (Inl m, _) \<Rightarrow> Inl (SealFailed m)
        | (_, Inl m) \<Rightarrow> Inl (SealFailed m)))"

section \<open>Lookups\<close>

text \<open>The sealed columns of a row open under its owner's key; a read of a row that does not is an error.\<close>

definition readable :: "store \<Rightarrow> action \<Rightarrow> bool" where
  "readable st a = list_all (\<lambda>x. case x of None \<Rightarrow> True
       | Some s \<Rightarrow> s = [] \<or> (case OpenForUser (st_crypt st) s (ac_user_id a) of Inl _ \<Rightarrow> False | Inr _ \<Rightarrow> True))
     [ac_code_encrypted a, ac_payload a, ac_send_body a]"

definition getAgentAction :: "store \<Rightarrow> (action \<Rightarrow> bool) \<Rightarrow> agent_db \<Rightarrow> (db_error, action) result" where
  "getAgentAction st P db = (case List.find P (db_actions db) of
       None \<Rightarrow> Inl ErrAgentActionNotFound
     | Some a \<Rightarrow> if readable st a then Inr a else Inl OpenFailed)"

definition GetAgentAction :: "store \<Rightarrow> agent_db \<Rightarrow> int \<Rightarrow> int \<Rightarrow> (db_error, action) result" where
  "GetAgentAction st db uid aid = getAgentAction st (\<lambda>a. ac_id a = aid \<and> ac_user_id a = uid) db"

definition GetAgentActionByCode :: "store \<Rightarrow> agent_db \<Rightarrow> int \<Rightarrow> string \<Rightarrow> (db_error, action) result" where
  "GetAgentActionByCode st db uid code =
     (if code = [] then Inl ErrAgentActionNotFound
      else case BlindIndexForUser (st_crypt st) ''agent-approval-code'' code uid of
          Inl m \<Rightarrow> Inl (SealFailed m)
        | Inr hash \<Rightarrow> getAgentAction st (\<lambda>a. ac_user_id a = uid \<and> ac_code_hash a = Some hash) db)"

section \<open>Status transitions\<close>

definition isTerminalActionStatus :: "action_status \<Rightarrow> bool" where
  "isTerminalActionStatus s \<longleftrightarrow>
     s \<in> {ActionExecuted, ActionRejected, ActionExpired, ActionDenied, ActionDeliveryUnknown}"

fun allowedActionTransitions :: "action_status \<Rightarrow> action_status set" where
  "allowedActionTransitions ActionProposed = {ActionPendingApproval, ActionDenied, ActionApproved}"
| "allowedActionTransitions ActionPendingApproval = {ActionApproved, ActionRejected, ActionDenied}"
| "allowedActionTransitions ActionApproved = {ActionExecuting, ActionDenied}"
| "allowedActionTransitions ActionExecuting = {ActionDenied}"
| "allowedActionTransitions _ = {}"

definition update_actions :: "(action \<Rightarrow> bool) \<Rightarrow> (action \<Rightarrow> action) \<Rightarrow> agent_db \<Rightarrow> agent_db" where
  "update_actions P f db = db\<lparr>db_actions := update_where P f (db_actions db)\<rparr>"

text \<open>A compare-and-set on one action: whether a row matched, and the updated table.\<close>

definition cas_action :: "(action \<Rightarrow> bool) \<Rightarrow> (action \<Rightarrow> action) \<Rightarrow> agent_db \<Rightarrow> bool \<times> agent_db" where
  "cas_action P f db = (count_where P (db_actions db) > 0, update_actions P f db)"

definition in_status :: "int \<Rightarrow> int \<Rightarrow> action_status \<Rightarrow> action \<Rightarrow> bool" where
  "in_status uid aid s a \<longleftrightarrow> ac_id a = aid \<and> ac_user_id a = uid \<and> ac_status a = s"

definition UpdateAgentActionStatus ::
  "int \<Rightarrow> int \<Rightarrow> action_status \<Rightarrow> action_status \<Rightarrow> instant \<Rightarrow> agent_db \<Rightarrow> (db_error, bool \<times> agent_db) result" where
  "UpdateAgentActionStatus uid aid from_st to_st now db =
     (if to_st \<notin> allowedActionTransitions from_st then Inl ErrInvalidActionTransition
      else Inr (cas_action (in_status uid aid from_st)
        (\<lambda>a. (if isTerminalActionStatus to_st then release_code a else a)\<lparr>ac_status := to_st, ac_updated_at := now\<rparr>) db))"

definition DenyAgentAction ::
  "int \<Rightarrow> int \<Rightarrow> action_status \<Rightarrow> string \<Rightarrow> instant \<Rightarrow> agent_db \<Rightarrow> (db_error, bool \<times> agent_db) result" where
  "DenyAgentAction uid aid from_st reason now db =
     (if ActionDenied \<notin> allowedActionTransitions from_st then Inl ErrInvalidActionTransition
      else Inr (cas_action (in_status uid aid from_st) (deny_action reason now) db))"

definition DenyAgentActionWithReason ::
  "int \<Rightarrow> int \<Rightarrow> action_status \<Rightarrow> string \<Rightarrow> instant \<Rightarrow> agent_db \<Rightarrow> (db_error, bool \<times> agent_db) result" where
  "DenyAgentActionWithReason uid aid from_st reason now db =
     (if ActionDenied \<notin> allowedActionTransitions from_st then Inl ErrInvalidActionTransition
      else Inr (cas_action (in_status uid aid from_st) (deny_action reason now) db))"

section \<open>Sending\<close>

definition DirectionAgentOutgoing :: string where "DirectionAgentOutgoing = ''agent_outgoing''"

text \<open>Completed sends in the window plus sends that hold a reservation.\<close>

definition recent_sends :: "agent_db \<Rightarrow> int \<Rightarrow> instant \<Rightarrow> int" where
  "recent_sends db cid since =
     count_where (\<lambda>m. m_conversation_id m = cid \<and> m_direction m = DirectionAgentOutgoing \<and> m_created_at m > since) (db_messages db)
     + count_where (\<lambda>a. ac_conversation_id a = Some cid \<and>
         ac_status a \<in> {ActionExecuting, ActionDenied, ActionDeliveryUnknown} \<and>
         ac_random_id a \<noteq> None \<and> ac_updated_at a > since) (db_actions db)"

definition begin_send :: "int \<Rightarrow> string option \<Rightarrow> instant \<Rightarrow> action \<Rightarrow> action" where
  "begin_send rid body now a =
     a\<lparr>ac_status := ActionExecuting, ac_random_id := Some rid, ac_send_body := body, ac_updated_at := now\<rparr>"

definition ReserveAgentActionSend ::
  "store \<Rightarrow> action \<Rightarrow> int \<Rightarrow> string \<Rightarrow> int \<Rightarrow> int \<Rightarrow> instant \<Rightarrow> bool \<Rightarrow> instant \<Rightarrow> agent_db
     \<Rightarrow> (db_error, bool \<times> agent_db) result" where
  "ReserveAgentActionSend st act randomID finalBody maxTurns maxPerMinute windowStart enforceBudget now db =
     (let uid = ac_user_id act; cid = (case ac_conversation_id act of None \<Rightarrow> 0 | Some c \<Rightarrow> c);
          jid = (case ac_job_id act of None \<Rightarrow> 0 | Some j \<Rightarrow> j) in
      if randomID = 0 then Inl RandomIdRequired
      else if uid \<le> 0 \<or> ac_id act \<le> 0 \<or> cid \<le> 0 then Inl ActionIdsRequired
      else bind_result (seal_body st finalBody uid) (\<lambda>body.
           bind_result (GetConversation db uid cid) (\<lambda>conv.
        if enforceBudget \<and> maxTurns > 0 \<and> c_autonomous_turns conv \<ge> maxTurns then Inl ErrAgentSendBudgetExhausted
        else if enforceBudget \<and> maxPerMinute > 0 \<and> recent_sends db cid windowStart \<ge> maxPerMinute
          then Inl ErrAgentSendBudgetExhausted
        else if jid \<noteq> 0 \<and> jobSourceSuperseded db uid jid \<noteq> [] then Inl (SourceSuperseded (jobSourceSuperseded db uid jid))
        else let P = (\<lambda>a. in_status uid (ac_id act) ActionApproved a \<and> ac_conversation_id a = Some cid) in
          if count_where P (db_actions db) = 0 then Inr (False, db)
          else Inr (True, (update_actions P (begin_send randomID body now) db)
                 \<lparr>db_conversations := update_where (\<lambda>c. c_id c = cid \<and> c_user_id c = uid)
                    (\<lambda>c. c\<lparr>c_autonomous_turns := c_autonomous_turns c + 1, c_updated_at := now\<rparr>) (db_conversations db)\<rparr>))))"

definition BeginExecutingAgentAction ::
  "store \<Rightarrow> int \<Rightarrow> int \<Rightarrow> int \<Rightarrow> instant \<Rightarrow> agent_db \<Rightarrow> (db_error, bool \<times> agent_db) result" where
  "BeginExecutingAgentAction st uid aid randomID now db =
     bind_result (GetAgentAction st db uid aid) (\<lambda>act.
       ReserveAgentActionSend st act randomID [] 0 0 zero_time False now db)"

definition SetAgentActionExecuted :: "int \<Rightarrow> int \<Rightarrow> int \<Rightarrow> instant \<Rightarrow> agent_db \<Rightarrow> bool \<times> agent_db" where
  "SetAgentActionExecuted uid aid msg now db = cas_action (in_status uid aid ActionExecuting)
     (\<lambda>a. (release_code a)\<lparr>ac_status := ActionExecuted, ac_executed_msg := Some msg, ac_updated_at := now\<rparr>) db"

definition mark_executed :: "int option \<Rightarrow> instant \<Rightarrow> action \<Rightarrow> action" where
  "mark_executed msg now a = (release_code a)\<lparr>ac_status := ActionExecuted, ac_executed_msg := msg,
     ac_send_body := (if msg = None then ac_send_body a else None), ac_updated_at := now\<rparr>"

definition recordAgentActionSent ::
  "store \<Rightarrow> action_status \<Rightarrow> int \<Rightarrow> int \<Rightarrow> int \<Rightarrow> int \<Rightarrow> string \<Rightarrow> instant \<Rightarrow> instant \<Rightarrow> agent_db
     \<Rightarrow> (db_error, bool \<times> agent_db) result" where
  "recordAgentActionSent st from_st uid aid cid tgMsg sentText db_now now db =
     bind_result (GetConversation db uid cid) (\<lambda>_.
      case List.find (in_status uid aid from_st) (db_actions db) of
        None \<Rightarrow> Inr (False, db)
      | Some a \<Rightarrow>
         let noted = (case ac_executed_msg a of Some n \<Rightarrow> if n \<noteq> 0 then Some n else None | None \<Rightarrow> None);
             msg = (if tgMsg \<noteq> 0 then Some tgMsg else noted);
             touch = (\<lambda>c. c\<lparr>c_last_agent_reply_at := Some now, c_updated_at := now,
               c_owner_engaged_at := (if ac_decision a = PolicyRequireApproval
                  then (case c_owner_engaged_at c of None \<Rightarrow> Some now | Some t \<Rightarrow> if t < now then Some now else Some t)
                  else c_owner_engaged_at c)\<rparr>) in
         bind_result (seal_body st sentText uid) (\<lambda>body.
           Inr (True, insert_message cid DirectionAgentOutgoing msg None body db_now
              ((update_actions (in_status uid aid from_st) (mark_executed msg now) db)
                \<lparr>db_conversations := update_where (\<lambda>c. c_id c = cid \<and> c_user_id c = uid) touch (db_conversations db)\<rparr>))))"

definition RecordAgentActionSent ::
  "store \<Rightarrow> int \<Rightarrow> int \<Rightarrow> int \<Rightarrow> int \<Rightarrow> string \<Rightarrow> instant \<Rightarrow> instant \<Rightarrow> agent_db
     \<Rightarrow> (db_error, bool \<times> agent_db) result" where
  "RecordAgentActionSent st uid aid cid tgMsg sentText db_now now db =
     recordAgentActionSent st ActionExecuting uid aid cid tgMsg sentText db_now now db"

section \<open>Delivery\<close>

definition NoteAgentActionSendAttempt :: "int \<Rightarrow> int \<Rightarrow> agent_db \<Rightarrow> int option \<times> agent_db" where
  "NoteAgentActionSendAttempt uid aid db =
     (case List.find (in_status uid aid ActionExecuting) (db_actions db) of
        None \<Rightarrow> (None, db)
      | Some a \<Rightarrow> (Some (ac_send_attempts a + 1), update_actions (in_status uid aid ActionExecuting)
          (\<lambda>a. a\<lparr>ac_send_attempts := ac_send_attempts a + 1\<rparr>) db))"

definition UnnoteAgentActionSendAttempt :: "int \<Rightarrow> int \<Rightarrow> instant option \<Rightarrow> agent_db \<Rightarrow> int option \<times> agent_db" where
  "UnnoteAgentActionSendAttempt uid aid notBefore db =
     (case List.find (in_status uid aid ActionExecuting) (db_actions db) of
        None \<Rightarrow> (None, db)
      | Some a \<Rightarrow> (Some (if ac_send_attempts a > 0 then ac_send_attempts a - 1 else 0),
          update_actions (in_status uid aid ActionExecuting)
            (\<lambda>a. a\<lparr>ac_send_attempts := (if ac_send_attempts a > 0 then ac_send_attempts a - 1 else 0),
                   ac_retry_not_before := notBefore\<rparr>) db))"

definition NotificationDeliveryUnknown :: string where "NotificationDeliveryUnknown = ''delivery_unknown''"

definition MarkAgentActionDeliveryUnknown ::
  "store \<Rightarrow> int \<Rightarrow> int \<Rightarrow> string \<Rightarrow> string \<Rightarrow> instant \<Rightarrow> instant \<Rightarrow> agent_db \<Rightarrow> (db_error, bool \<times> agent_db) result" where
  "MarkAgentActionDeliveryUnknown st uid aid reason alertBody db_now now db =
     bind_result (seal_body st alertBody uid) (\<lambda>body.
       let P = (\<lambda>a. in_status uid aid ActionExecuting a \<and> ac_executed_msg a = None);
           (won, db1) = cas_action P (\<lambda>a. (release_code a)\<lparr>ac_status := ActionDeliveryUnknown,
                           ac_reasons := reason, ac_updated_at := now\<rparr>) db in
       if \<not> won then Inr (False, db)
       else Inr (True, case body of None \<Rightarrow> db1
              | Some b \<Rightarrow> insert_notification uid NotificationDeliveryUnknown None (Some b) db_now db1))"

definition echo_candidate :: "int \<Rightarrow> int \<Rightarrow> instant \<Rightarrow> action \<Rightarrow> bool" where
  "echo_candidate uid cid since a \<longleftrightarrow> ac_user_id a = uid \<and> ac_conversation_id a = Some cid \<and>
     (ac_status a = ActionExecuting \<or> ac_updated_at a \<ge> since) \<and>
     ac_random_id a \<noteq> None \<and> ac_send_body a \<noteq> None \<and> ac_executed_msg a = None \<and>
     ((ac_status a \<in> {ActionExecuting, ActionDeliveryUnknown} \<and> ac_send_attempts a > 0) \<or> ac_status a = ActionExecuted)"

definition opens_to :: "store \<Rightarrow> int \<Rightarrow> string \<Rightarrow> action \<Rightarrow> bool" where
  "opens_to st uid want a = (case ac_send_body a of None \<Rightarrow> False
     | Some sealed \<Rightarrow> (case OpenForUser (st_crypt st) sealed uid of
         Inl _ \<Rightarrow> False | Inr pt \<Rightarrow> trim_space pt = want))"

definition opened_body :: "store \<Rightarrow> int \<Rightarrow> action \<Rightarrow> string" where
  "opened_body st uid a = (case ac_send_body a of None \<Rightarrow> []
     | Some sealed \<Rightarrow> (case OpenForUser (st_crypt st) sealed uid of Inl _ \<Rightarrow> [] | Inr pt \<Rightarrow> pt))"

text \<open>Go returns a match together with an error when recording it fails, so both are in the result.\<close>

definition MatchUnconfirmedAgentSend ::
  "store \<Rightarrow> int \<Rightarrow> int \<Rightarrow> int \<Rightarrow> string \<Rightarrow> instant \<Rightarrow> instant \<Rightarrow> instant \<Rightarrow> agent_db
     \<Rightarrow> bool \<times> db_error option \<times> agent_db" where
  "MatchUnconfirmedAgentSend st uid peer msg text since db_now now db =
     (let want = trim_space text in
      if uid \<le> 0 \<or> msg \<le> 0 \<or> want = [] then (False, None, db)
      else case GetConversationByPeer db uid peer of
        Inl _ \<Rightarrow> (False, None, db)
      | Inr conv \<Rightarrow>
         (case List.find (opens_to st uid want)
                 (sort_key ac_id (filter (echo_candidate uid (c_id conv) since) (db_actions db))) of
            None \<Rightarrow> (False, None, db)
          | Some a \<Rightarrow>
             if ac_id a = 0 then (False, None, db)
             else if ac_status a = ActionExecuting then
               (True, None, update_actions (\<lambda>x. in_status uid (ac_id a) ActionExecuting x \<and> ac_executed_msg x = None)
                  (\<lambda>x. x\<lparr>ac_executed_msg := Some msg\<rparr>) db)
             else if ac_status a = ActionDeliveryUnknown then
               (case recordAgentActionSent st ActionDeliveryUnknown uid (ac_id a) (c_id conv) msg
                       (opened_body st uid a) db_now now db of
                  Inl err \<Rightarrow> (True, Some err, db)
                | Inr (_, db') \<Rightarrow> (True, None, db'))
             else
               (True, None, update_actions (\<lambda>x. in_status uid (ac_id a) ActionExecuted x \<and> ac_executed_msg x = None)
                  (\<lambda>x. x\<lparr>ac_executed_msg := Some msg, ac_send_body := None\<rparr>) db)))"

section \<open>Sweeps\<close>

definition expire_action :: "instant \<Rightarrow> action \<Rightarrow> action" where
  "expire_action now a = (release_code a)\<lparr>ac_status := ActionExpired, ac_updated_at := now\<rparr>"

definition ExpireStaleAgentActions :: "duration \<Rightarrow> instant \<Rightarrow> agent_db \<Rightarrow> int \<times> agent_db" where
  "ExpireStaleAgentActions ttl now db =
     (if ttl \<le> 0 then (0, db)
      else let P = (\<lambda>a. ac_status a = ActionPendingApproval \<and> ac_updated_at a < now - ttl) in
        (count_where P (db_actions db), update_actions P (expire_action now) db))"

definition ExpireAgentActionIfStale :: "int \<Rightarrow> int \<Rightarrow> duration \<Rightarrow> instant \<Rightarrow> agent_db \<Rightarrow> bool \<times> agent_db" where
  "ExpireAgentActionIfStale uid aid ttl now db =
     (if ttl \<le> 0 then (False, db)
      else cas_action (\<lambda>a. in_status uid aid ActionPendingApproval a \<and> ac_updated_at a < now - ttl) (expire_action now) db)"

definition ListStuckExecutingActions :: "store \<Rightarrow> duration \<Rightarrow> instant \<Rightarrow> agent_db \<Rightarrow> action list" where
  "ListStuckExecutingActions st grace now db = filter (readable st)
     (filter (\<lambda>a. ac_status a = ActionExecuting \<and> ac_updated_at a < now - grace \<and>
        (case ac_retry_not_before a of None \<Rightarrow> True | Some t \<Rightarrow> t \<le> now)) (db_actions db))"

definition ListActionsByStatus :: "store \<Rightarrow> action_status \<Rightarrow> int \<Rightarrow> agent_db \<Rightarrow> action list" where
  "ListActionsByStatus st status limit db = filter (readable st)
     (take (nat (if limit \<le> 0 then 50 else limit))
       (sort_key ac_updated_at (filter (\<lambda>a. ac_status a = status) (db_actions db))))"

definition drafts :: "action_status set" where
  "drafts = {ActionProposed, ActionPendingApproval, ActionApproved}"

definition DenyPendingActionsForConversation ::
  "int \<Rightarrow> int \<Rightarrow> string \<Rightarrow> instant \<Rightarrow> agent_db \<Rightarrow> int \<times> agent_db" where
  "DenyPendingActionsForConversation uid cid reason now db =
     (let P = (\<lambda>a. ac_user_id a = uid \<and> ac_conversation_id a = Some cid \<and> ac_status a \<in> drafts) in
      (count_where P (db_actions db), update_actions P (deny_action reason now) db))"

definition DenyPendingActionsForSourceMessage ::
  "int \<Rightarrow> int \<Rightarrow> int \<Rightarrow> string \<Rightarrow> instant \<Rightarrow> agent_db \<Rightarrow> int \<times> agent_db" where
  "DenyPendingActionsForSourceMessage uid cid msg reason now db =
     (let heads = heads_of_events db (\<lambda>j. j_user_id j = uid \<and> j_conversation_id j = Some cid)
                    (\<lambda>e. e_message_id e = msg);
          P = (\<lambda>a. ac_conversation_id a = Some cid \<and> drafts_of db uid heads a) in
      (count_where P (db_actions db), update_actions P (deny_action reason now) db))"

definition DenyActionsFromEarlierInstalls :: "int \<Rightarrow> string \<Rightarrow> instant \<Rightarrow> agent_db \<Rightarrow> int \<times> agent_db" where
  "DenyActionsFromEarlierInstalls uid reason now db =
     (let P = (\<lambda>a. ac_user_id a = uid \<and> ac_status a \<in> {ActionProposed, ActionApproved} \<and>
                 (case profile_of db uid of None \<Rightarrow> False | Some p \<Rightarrow> ac_install_revision a < p_install_revision p)) in
      (count_where P (db_actions db), update_actions P (deny_action reason now) db))"

definition HasExecutedOwnerSummarySince ::
  "int \<Rightarrow> int \<Rightarrow> string \<Rightarrow> instant \<Rightarrow> agent_db \<Rightarrow> (db_error, bool) result" where
  "HasExecutedOwnerSummarySince uid cid intent since db =
     (if uid \<le> 0 then Inl UserIdRequired
      else Inr (\<exists>a\<in>set (db_actions db). ac_user_id a = uid \<and> ac_type a = ''send_owner_summary'' \<and> ac_intent a = intent \<and>
             ac_created_at a \<ge> since \<and> ac_conversation_id a = nullableInt cid \<and> ac_status a = ActionExecuted))"

text \<open>The retention sweep (\<open>agent_events.go\<close>): queued jobs and drafts that depend on expired content are
  closed before the content is cleared.\<close>

definition clears :: "instant \<Rightarrow> action \<Rightarrow> bool" where
  "clears cutoff a \<longleftrightarrow> ac_created_at a < cutoff \<and> isTerminalActionStatus (ac_status a) \<and>
     (ac_payload a \<noteq> None \<or> ac_send_body a \<noteq> None \<or> ac_approval_code a \<noteq> None \<or>
      ac_code_hash a \<noteq> None \<or> ac_code_encrypted a \<noteq> None)"

definition SweepAgentMessageBodies :: "duration \<Rightarrow> instant \<Rightarrow> agent_db \<Rightarrow> int \<times> agent_db" where
  "SweepAgentMessageBodies retention now db =
     (if retention \<le> 0 then (0, db)
      else let cutoff = now - retention;
               aged = (\<lambda>e. e_created_at e < cutoff \<and> e_body e \<noteq> None);
               db1 = update_jobs (\<lambda>j. j_status j = JobPending \<and>
                        (\<exists>e\<in>set (db_events db). aged e \<and> e_event_id e = j_event_id j))
                       (ignore_job ''payload expired by retention sweep'' now) db;
               old_msg = (\<lambda>m. m_created_at m < cutoff);
               retire = (\<lambda>a. ac_created_at a < cutoff \<and> ac_updated_at a < cutoff \<and> ac_status a \<in> drafts);
               acts = update_where retire (deny_action ''content expired by retention sweep'' now) (db_actions db);
               old_note = (\<lambda>n. n_created_at n < cutoff \<and> n_body n \<noteq> None) in
        (count_where aged (db_events db) + count_where old_msg (db_messages db)
           + count_where (clears cutoff) acts + count_where old_note (db_notifications db),
         db1\<lparr>db_events := update_where aged (\<lambda>e. e\<lparr>e_body := None\<rparr>) (db_events db),
             db_messages := delete_where old_msg (db_messages db),
             db_actions := update_where (clears cutoff)
               (\<lambda>a. (release_code a)\<lparr>ac_payload := None, ac_send_body := None\<rparr>) acts,
             db_notifications := update_where old_note (\<lambda>n. n\<lparr>n_body := None\<rparr>) (db_notifications db)\<rparr>))"

end
