(* ===== verification/JobInv.thy ===== *)
theory JobInv
  imports JobLifecycle
begin

text \<open>
  The invariant of the job queue and its preservation by every operation. A job moves along the
  machine documented in \<open>agent_jobs.go\<close> (\<open>job_step\<close>); a processing job has exactly one open attempt
  row, which carries its attempt number; a conversation has at most one processing job.
\<close>

section \<open>The status machine of a job\<close>

definition same_identity :: "job \<Rightarrow> job \<Rightarrow> bool" where
  "same_identity j j' \<longleftrightarrow> j_id j' = j_id j \<and> j_event_id j' = j_event_id j \<and> j_user_id j' = j_user_id j \<and>
     j_conversation_id j' = j_conversation_id j \<and> j_created_at j' = j_created_at j"

inductive job_step :: "job \<Rightarrow> job \<Rightarrow> bool" where
  stutter: "same_identity j j' \<Longrightarrow> j_status j' = j_status j \<Longrightarrow> j_attempts j' = j_attempts j \<Longrightarrow>
    j_max_attempts j' = j_max_attempts j \<Longrightarrow> job_step j j'"
| claim: "same_identity j j' \<Longrightarrow> j_status j = JobPending \<Longrightarrow> j_status j' = JobProcessing \<Longrightarrow>
    j_attempts j' = j_attempts j + 1 \<Longrightarrow> j_max_attempts j' = j_max_attempts j \<Longrightarrow> job_step j j'"
| close_pending: "same_identity j j' \<Longrightarrow> j_status j = JobPending \<Longrightarrow>
    j_status j' \<in> {JobIgnored, JobCoalesced, JobRouted} \<Longrightarrow> j_attempts j' = j_attempts j \<Longrightarrow>
    j_max_attempts j' = j_max_attempts j \<Longrightarrow> job_step j j'"
| finish: "same_identity j j' \<Longrightarrow> j_status j = JobProcessing \<Longrightarrow>
    j_status j' \<in> {JobCompleted, JobFailed, JobIgnored, JobDeadLetter} \<Longrightarrow> j_attempts j' = j_attempts j \<Longrightarrow>
    j_max_attempts j' = j_max_attempts j \<Longrightarrow> job_step j j'"
| requeue: "same_identity j j' \<Longrightarrow> j_status j = JobProcessing \<Longrightarrow> j_status j' = JobPending \<Longrightarrow>
    j_attempts j' = j_attempts j \<Longrightarrow> j_max_attempts j \<le> j_max_attempts j' \<Longrightarrow>
    j_attempts j < j_max_attempts j' \<Longrightarrow> job_step j j'"
| release: "same_identity j j' \<Longrightarrow> j_status j = JobProcessing \<Longrightarrow> j_status j' = JobPending \<Longrightarrow>
    j_attempts j' = j_attempts j - 1 \<Longrightarrow> j_max_attempts j' = j_max_attempts j \<Longrightarrow> job_step j j'"

inductive_cases job_stepE: "job_step j j'"

definition terminal :: "job_status \<Rightarrow> bool" where
  "terminal s \<longleftrightarrow> s \<notin> {JobPending, JobProcessing}"

definition attempts_ok :: "job \<Rightarrow> bool" where
  "attempts_ok j \<longleftrightarrow> 0 \<le> j_attempts j \<and> (j_status j = JobPending \<longrightarrow> j_attempts j < j_max_attempts j) \<and>
     (j_status j = JobProcessing \<longrightarrow> 1 \<le> j_attempts j \<and> j_attempts j \<le> j_max_attempts j)"

lemma same_identity_refl [simp]: "same_identity j j"
  by (simp add: same_identity_def)

lemma same_identity_trans: "same_identity a b \<Longrightarrow> same_identity b c \<Longrightarrow> same_identity a c"
  by (simp add: same_identity_def)

lemma job_step_refl [simp]: "job_step j j"
  by (rule stutter) auto

lemma job_step_identity: "job_step j j' \<Longrightarrow> same_identity j j'"
  by (erule job_stepE) auto

lemma job_step_attempts: "job_step j j' \<Longrightarrow> attempts_ok j \<Longrightarrow> attempts_ok j'"
  by (erule job_stepE) (auto simp: attempts_ok_def)

lemma job_step_terminal: "job_step j j' \<Longrightarrow> terminal (j_status j) \<Longrightarrow> j_status j' = j_status j"
  by (erule job_stepE) (auto simp: terminal_def)

lemma job_steps_identity: "job_step\<^sup>*\<^sup>* j j' \<Longrightarrow> same_identity j j'"
  by (induction rule: rtranclp_induct) (auto intro: same_identity_trans dest: job_step_identity)

lemma job_steps_attempts: "job_step\<^sup>*\<^sup>* j j' \<Longrightarrow> attempts_ok j \<Longrightarrow> attempts_ok j'"
  by (induction rule: rtranclp_induct) (auto dest: job_step_attempts)

lemma job_steps_terminal:
  "job_step\<^sup>*\<^sup>* j j' \<Longrightarrow> terminal (j_status j) \<Longrightarrow> j_status j' = j_status j"
  by (induction rule: rtranclp_induct) (auto dest: job_step_terminal)

section \<open>The invariant\<close>

definition one_processing :: "job list \<Rightarrow> bool" where
  "one_processing js \<longleftrightarrow> (\<forall>j\<in>set js. \<forall>k\<in>set js. j_status j = JobProcessing \<longrightarrow> j_status k = JobProcessing \<longrightarrow>
     j_conversation_id j \<noteq> None \<longrightarrow> j_conversation_id j = j_conversation_id k \<longrightarrow> j_id j = j_id k)"

definition open_attempts :: "attempt_row list \<Rightarrow> int \<Rightarrow> int list" where
  "open_attempts rows i = map t_attempt (filter (open_of i) rows)"

definition expected_open :: "job \<Rightarrow> int list" where
  "expected_open j = (if j_status j = JobProcessing then [j_attempts j] else [])"

definition ledger_ok :: "job list \<Rightarrow> attempt_row list \<Rightarrow> bool" where
  "ledger_ok js rows \<longleftrightarrow> (\<forall>j\<in>set js. open_attempts rows (j_id j) = expected_open j) \<and>
     (\<forall>a\<in>set rows. t_job_id a \<in> j_id ` set js)"

definition jobs_inv :: "agent_db \<Rightarrow> bool" where
  "jobs_inv db \<longleftrightarrow> keyed j_id (db_job_seq db) (db_jobs db) \<and> distinct (map j_event_id (db_jobs db)) \<and>
     list_all attempts_ok (db_jobs db) \<and> one_processing (db_jobs db) \<and>
     keyed t_id (db_attempt_seq db) (db_attempts db) \<and> ledger_ok (db_jobs db) (db_attempts db)"

text \<open>The tables the invariant is about; an operation that keeps them keeps it.\<close>

definition same_queue :: "agent_db \<Rightarrow> agent_db \<Rightarrow> bool" where
  "same_queue db db' \<longleftrightarrow> db_jobs db' = db_jobs db \<and> db_job_seq db' = db_job_seq db \<and>
     db_attempts db' = db_attempts db \<and> db_attempt_seq db' = db_attempt_seq db"

lemma same_queue_refl [simp]: "same_queue db db"
  by (simp add: same_queue_def)

lemma same_queue_trans: "same_queue a b \<Longrightarrow> same_queue b c \<Longrightarrow> same_queue a c"
  by (simp add: same_queue_def)

lemma jobs_inv_same [inv_intros]: "jobs_inv db \<Longrightarrow> same_queue db db' \<Longrightarrow> jobs_inv db'"
  by (simp add: jobs_inv_def same_queue_def)

lemma jobs_inv_cong:
  "db_jobs db' = db_jobs db \<Longrightarrow> db_job_seq db' = db_job_seq db \<Longrightarrow> db_attempts db' = db_attempts db \<Longrightarrow>
   db_attempt_seq db' = db_attempt_seq db \<Longrightarrow> jobs_inv db' = jobs_inv db"
  by (simp add: jobs_inv_def)

text \<open>How a step changes the job table: old rows move along the machine, possibly in several steps,
  and stay in place.\<close>

definition jobs_move :: "job list \<Rightarrow> job list \<Rightarrow> bool" where
  "jobs_move = list_all2 (job_step\<^sup>*\<^sup>*)"

lemma jobs_move_refl [simp]: "jobs_move js js"
  by (simp add: jobs_move_def list.rel_refl)

lemma jobs_move_trans: "jobs_move a b \<Longrightarrow> jobs_move b c \<Longrightarrow> jobs_move a c"
  unfolding jobs_move_def by (erule (1) list_all2_trans[rotated 1]) auto

lemma jobs_move_update:
  assumes "\<And>j. j \<in> set js \<Longrightarrow> P j \<Longrightarrow> job_step j (f j)"
  shows "jobs_move js (update_where P f js)"
  unfolding jobs_move_def using assms by (intro list_all2_update_where) auto

lemma jobs_move_map:
  assumes "jobs_move js js'" and "\<And>j j'. same_identity j j' \<Longrightarrow> key j' = key j"
  shows "map key js' = map key js"
  using assms(1) unfolding jobs_move_def
  by (induction rule: list_all2_induct) (auto dest: job_steps_identity assms(2))

lemma jobs_move_attempts: "jobs_move js js' \<Longrightarrow> list_all attempts_ok js \<Longrightarrow> list_all attempts_ok js'"
  unfolding jobs_move_def by (induction rule: list_all2_induct) (auto dest: job_steps_attempts)

lemma jobs_move_back:
  assumes "jobs_move js js'" and "j' \<in> set js'"
  obtains j where "j \<in> set js" "job_step\<^sup>*\<^sup>* j j'"
  using assms unfolding jobs_move_def by (elim list_all2_in_set2)

lemma jobs_move_forth:
  assumes "jobs_move js js'" and "j \<in> set js"
  obtains j' where "j' \<in> set js'" "job_step\<^sup>*\<^sup>* j j'"
  using assms unfolding jobs_move_def by (metis list_all2_conv_all_nth in_set_conv_nth)

lemma jobs_move_keyed: "jobs_move js js' \<Longrightarrow> keyed j_id sq js \<Longrightarrow> keyed j_id sq js'"
proof -
  assume m: "jobs_move js js'" and k: "keyed j_id sq js"
  have "map j_id js' = map j_id js" by (rule jobs_move_map[OF m]) (simp add: same_identity_def)
  moreover from this have "j_id ` set js' = j_id ` set js" by (metis set_map)
  ultimately show ?thesis using k by (auto simp: keyed_def) (metis imageE imageI)+
qed

lemma jobs_move_events: "jobs_move js js' \<Longrightarrow> map j_event_id js' = map j_event_id js"
  by (erule jobs_move_map) (simp add: same_identity_def)

section \<open>Attempt rows\<close>

lemma open_of_finish [simp]: "\<not> open_of i (finish_attempt s e now a)"
  by (simp add: open_of_def finish_attempt_def)

lemma finish_attempt_simps [simp]:
  "t_id (finish_attempt s e now a) = t_id a" "t_job_id (finish_attempt s e now a) = t_job_id a"
  "t_attempt (finish_attempt s e now a) = t_attempt a"
  by (simp_all add: finish_attempt_def)

lemma open_attempts_finish:
  "open_attempts (update_where Q (finish_attempt s e now) rows) i =
     map t_attempt (filter (\<lambda>a. open_of i a \<and> \<not> Q a) rows)"
  by (induction rows) (auto simp: open_attempts_def)

lemma finish_job_ids [simp]:
  "t_job_id ` set (update_where Q (finish_attempt s e now) rows) = t_job_id ` set rows"
proof -
  have "map t_job_id (update_where Q (finish_attempt s e now) rows) = map t_job_id rows"
    by (rule map_update_where) simp
  then show ?thesis by (metis list.set_map)
qed

lemma open_attempts_insert:
  "open_attempts (rows @ [a]) i = open_attempts rows i @ (if open_of i a then [t_attempt a] else [])"
  by (simp add: open_attempts_def)

text \<open>Closing the newest open row of a job that has at most one closes all of its open rows.\<close>

lemma finish_newest:
  assumes k: "keyed t_id sq rows" and one: "length (open_attempts rows jid) \<le> 1"
    and r: "first_by (\<lambda>a. - t_id a) (filter (open_of jid) rows) = Some r"
  shows "open_attempts (update_where (\<lambda>a. t_id a = t_id r) (finish_attempt s e now) rows) i =
     (if i = jid then [] else open_attempts rows i)"
proof -
  have r': "r \<in> set rows" "open_of jid r" using first_by_Some[OF r] by auto
  have uniq: "t_id a = t_id r \<longleftrightarrow> a = r" if "a \<in> set rows" for a
    using keyed_unique[OF k that r'(1)] by auto
  obtain x where x: "filter (open_of jid) rows = [x]"
    using one r' by (cases "filter (open_of jid) rows") (auto simp: open_attempts_def filter_empty_conv)
  have "a = x" if "a \<in> set rows" "open_of jid a" for a
  proof -
    have "a \<in> set (filter (open_of jid) rows)" using that by simp
    then show ?thesis by (simp add: x)
  qed
  then have "\<forall>a\<in>set rows. open_of jid a \<longrightarrow> a = r" using r' by metis
  then have "filter (\<lambda>a. open_of i a \<and> t_id a \<noteq> t_id r) rows = (if i = jid then [] else filter (open_of i) rows)"
    using uniq r'(2) by (auto simp: filter_empty_conv open_of_def intro!: filter_cong)
  then show ?thesis by (simp add: open_attempts_finish) (simp add: open_attempts_def)
qed

definition closed_open :: "int set \<Rightarrow> attempt_row list \<Rightarrow> attempt_row list \<Rightarrow> bool" where
  "closed_open C rows rows' \<longleftrightarrow> (\<forall>i. open_attempts rows' i = (if i \<in> C then [] else open_attempts rows i)) \<and>
     t_job_id ` set rows' \<subseteq> t_job_id ` set rows"

lemma closed_open_refl [simp]: "closed_open {} rows rows"
  by (simp add: closed_open_def)

lemma closed_open_trans: "closed_open C a b \<Longrightarrow> closed_open D b c \<Longrightarrow> closed_open (C \<union> D) a c"
  unfolding closed_open_def by (metis Un_iff subset_trans)

lemma finishOpenAttempt_closes:
  assumes "keyed t_id (db_attempt_seq db) (db_attempts db)"
    and "length (open_attempts (db_attempts db) jid) \<le> 1"
  shows "closed_open {jid} (db_attempts db) (db_attempts (finishOpenAttempt jid s e now db))"
proof (cases "first_by (\<lambda>a. - t_id a) (filter (open_of jid) (db_attempts db))")
  case None
  then have "open_attempts (db_attempts db) jid = []" by (simp add: open_attempts_def)
  moreover have "finishOpenAttempt jid s e now db = db" using None by (simp only: finishOpenAttempt_def option.case)
  ultimately show ?thesis by (auto simp: closed_open_def)
next
  case (Some r)
  then show ?thesis
    using finish_newest[OF assms Some]
    by (simp add: finishOpenAttempt_def closed_open_def)
qed

lemma finishOpenAttempt_simps [simp]:
  "db_jobs (finishOpenAttempt jid s e now db) = db_jobs db"
  "db_job_seq (finishOpenAttempt jid s e now db) = db_job_seq db"
  "db_attempt_seq (finishOpenAttempt jid s e now db) = db_attempt_seq db"
  "db_usage (finishOpenAttempt jid s e now db) = db_usage db"
  "db_actions (finishOpenAttempt jid s e now db) = db_actions db"
  by (simp_all add: finishOpenAttempt_def split: option.splits)

lemma finishOpenAttempt_keyed:
  "keyed t_id sq (db_attempts db) \<Longrightarrow> keyed t_id sq (db_attempts (finishOpenAttempt jid s e now db))"
  by (auto simp: finishOpenAttempt_def keyed_update split: option.splits)

lemma closeAttempts_simps [simp]:
  "db_jobs (closeAttempts ids why now db) = db_jobs db"
  "db_job_seq (closeAttempts ids why now db) = db_job_seq db"
  "db_attempt_seq (closeAttempts ids why now db) = db_attempt_seq db"
  "db_usage (closeAttempts ids why now db) = db_usage db"
  "db_actions (closeAttempts ids why now db) = db_actions db"
  unfolding closeAttempts_def by (induction ids arbitrary: db) simp_all

lemma closeAttempts_Cons:
  "closeAttempts (i # ids) why now db = closeAttempts ids why now (db\<lparr>db_attempts :=
     update_where (open_of i) (finish_attempt JobFailed (Some why) now) (db_attempts db)\<rparr>)"
  by (simp add: closeAttempts_def)

lemma closeAttempts_keyed:
  "keyed t_id sq (db_attempts db) \<Longrightarrow> keyed t_id sq (db_attempts (closeAttempts ids why now db))"
  by (induction ids arbitrary: db) (auto simp: closeAttempts_Cons keyed_update, simp add: closeAttempts_def)

lemma close_one: "closed_open {i} rows (update_where (open_of i) (finish_attempt s e now) rows)"
proof -
  have "open_attempts (update_where (open_of i) (finish_attempt s e now) rows) k =
      (if k = i then [] else open_attempts rows k)" for k
    by (auto simp: open_attempts_finish open_of_def filter_empty_conv)
       (auto simp: open_attempts_def open_of_def intro!: arg_cong[where f = "map t_attempt"] filter_cong)
  then show ?thesis by (simp add: closed_open_def)
qed

lemma closeAttempts_closes: "closed_open (set ids) (db_attempts db) (db_attempts (closeAttempts ids why now db))"
proof (induction ids arbitrary: db)
  case (Cons i ids)
  let ?rows = "update_where (open_of i) (finish_attempt JobFailed (Some why) now) (db_attempts db)"
  have "closed_open (set ids) ?rows (db_attempts (closeAttempts ids why now (db\<lparr>db_attempts := ?rows\<rparr>)))"
    using Cons[of "db\<lparr>db_attempts := ?rows\<rparr>"] by simp
  from closed_open_trans[OF close_one this] show ?case by (simp add: closeAttempts_Cons)
qed (simp add: closeAttempts_def)

section \<open>Preserving the invariant\<close>

lemma one_processing_shrink:
  assumes "one_processing js"
    and "\<And>j'. j' \<in> set js' \<Longrightarrow> j_status j' = JobProcessing \<Longrightarrow>
       \<exists>j\<in>set js. j_status j = JobProcessing \<and> j_id j' = j_id j \<and> j_conversation_id j' = j_conversation_id j"
  shows "one_processing js'"
  unfolding one_processing_def using assms by (metis one_processing_def)

text \<open>The general step of an operation that claims nothing: rows move along the machine, the jobs in
  \<open>C\<close> leave processing, and exactly their attempt rows are closed.\<close>

lemma jobs_inv_step:
  assumes inv: "jobs_inv db" and move: "jobs_move (db_jobs db) (db_jobs db')"
    and exp: "list_all2 (\<lambda>j j'. expected_open j' = (if j_id j \<in> C then [] else expected_open j)) (db_jobs db) (db_jobs db')"
    and close: "closed_open C (db_attempts db) (db_attempts db')"
    and seqs: "db_job_seq db' = db_job_seq db" "keyed t_id (db_attempt_seq db') (db_attempts db')"
  shows "jobs_inv db'"
proof -
  have ids: "map j_id (db_jobs db') = map j_id (db_jobs db)"
    by (rule jobs_move_map[OF move]) (simp add: same_identity_def)
  have led: "ledger_ok (db_jobs db) (db_attempts db)" using inv by (simp add: jobs_inv_def)
  have pair: "\<exists>j\<in>set (db_jobs db). same_identity j j' \<and> expected_open j' = (if j_id j \<in> C then [] else expected_open j)"
    if j': "j' \<in> set (db_jobs db')" for j'
  proof -
    obtain n where n: "n < length (db_jobs db')" "db_jobs db' ! n = j'" using j' by (auto simp: in_set_conv_nth)
    then show ?thesis
      using exp move job_steps_identity unfolding jobs_move_def
      by (auto simp: list_all2_conv_all_nth intro!: bexI[where x = "db_jobs db ! n"])
  qed
  have "one_processing (db_jobs db')"
  proof (rule one_processing_shrink)
    show "one_processing (db_jobs db)" using inv by (simp add: jobs_inv_def)
    fix j' assume "j' \<in> set (db_jobs db')" "j_status j' = JobProcessing"
    then have "expected_open j' \<noteq> []" by (simp add: expected_open_def)
    with pair[OF \<open>j' \<in> set (db_jobs db')\<close>] obtain j
      where "j \<in> set (db_jobs db)" "same_identity j j'" "expected_open j \<noteq> []" by metis
    then show "\<exists>j\<in>set (db_jobs db). j_status j = JobProcessing \<and> j_id j' = j_id j \<and>
        j_conversation_id j' = j_conversation_id j"
      by (auto simp: expected_open_def same_identity_def split: if_splits)
  qed
  moreover have "ledger_ok (db_jobs db') (db_attempts db')"
  proof -
    have opens: "open_attempts (db_attempts db') (j_id j') = expected_open j'" if "j' \<in> set (db_jobs db')" for j'
      using pair[OF that] led close by (auto simp: ledger_ok_def closed_open_def same_identity_def)
    have "j_id ` set (db_jobs db') = j_id ` set (db_jobs db)" using ids by (metis set_map)
    moreover have "t_job_id ` set (db_attempts db) \<subseteq> j_id ` set (db_jobs db)"
      using led by (auto simp: ledger_ok_def)
    moreover have "t_job_id ` set (db_attempts db') \<subseteq> t_job_id ` set (db_attempts db)"
      using close by (simp add: closed_open_def)
    ultimately have "t_job_id ` set (db_attempts db') \<subseteq> j_id ` set (db_jobs db')" by simp
    then show ?thesis by (simp add: ledger_ok_def image_subset_iff opens)
  qed
  ultimately show ?thesis
    using inv jobs_move_keyed[OF move] jobs_move_events[OF move] jobs_move_attempts[OF move] seqs
    by (simp add: jobs_inv_def)
qed

text \<open>An operation that rewrites job rows without touching which of them are processing.\<close>

lemma jobs_inv_quiet:
  assumes inv: "jobs_inv db"
    and step: "\<And>j. j \<in> set (db_jobs db) \<Longrightarrow> P j \<Longrightarrow> job_step j (f j) \<and> expected_open (f j) = expected_open j"
  shows "jobs_inv (update_jobs P f db)"
proof (rule jobs_inv_step[OF inv, where C = "{}"])
  show "jobs_move (db_jobs db) (db_jobs (update_jobs P f db))"
    using step by (auto intro: jobs_move_update)
  show "list_all2 (\<lambda>j j'. expected_open j' = (if j_id j \<in> {} then [] else expected_open j))
     (db_jobs db) (db_jobs (update_jobs P f db))"
    using step by (auto intro: list_all2_update_where)
qed (use inv in \<open>auto simp: jobs_inv_def\<close>)

section \<open>Steps of the queue\<close>

definition fresh_job :: "job \<Rightarrow> bool" where
  "fresh_job j \<longleftrightarrow> j_status j = JobPending \<and> j_attempts j = 0 \<and> j_max_attempts j = 5"

text \<open>Every job present afterwards is an earlier job moved along the machine, or a fresh one.\<close>

definition queue_rel :: "agent_db \<Rightarrow> agent_db \<Rightarrow> bool" where
  "queue_rel db db' \<longleftrightarrow> db_job_seq db \<le> db_job_seq db' \<and>
     (\<forall>j'\<in>set (db_jobs db'). (\<exists>j\<in>set (db_jobs db). job_step\<^sup>*\<^sup>* j j') \<or>
        (j_id j' > db_job_seq db \<and> (\<exists>j0. fresh_job j0 \<and> job_step\<^sup>*\<^sup>* j0 j')))"

definition queue_ok :: "agent_db \<Rightarrow> agent_db \<Rightarrow> bool" where
  "queue_ok db db' \<longleftrightarrow> jobs_inv db' \<and> queue_rel db db'"

lemma queue_rel_refl [simp]: "queue_rel db db"
  by (auto simp: queue_rel_def)

lemma queue_rel_trans:
  assumes ab: "queue_rel a b" and bc: "queue_rel b c"
  shows "queue_rel a c"
proof -
  have "(\<exists>j\<in>set (db_jobs a). job_step\<^sup>*\<^sup>* j j') \<or>
      (j_id j' > db_job_seq a \<and> (\<exists>j0. fresh_job j0 \<and> job_step\<^sup>*\<^sup>* j0 j'))" if "j' \<in> set (db_jobs c)" for j'
  proof -
    consider (old) j where "j \<in> set (db_jobs b)" "job_step\<^sup>*\<^sup>* j j'"
      | (new) "j_id j' > db_job_seq b" "\<exists>j0. fresh_job j0 \<and> job_step\<^sup>*\<^sup>* j0 j'"
      using bc \<open>j' \<in> set (db_jobs c)\<close> unfolding queue_rel_def by blast
    then show ?thesis
    proof cases
      case old
      then have "j_id j' = j_id j" using job_steps_identity by (auto simp: same_identity_def)
      then show ?thesis using ab old unfolding queue_rel_def by (metis rtranclp_trans)
    next
      case new
      then show ?thesis using ab unfolding queue_rel_def by auto
    qed
  qed
  then show ?thesis using ab bc by (auto simp: queue_rel_def)
qed

lemma queue_ok_refl: "jobs_inv db \<Longrightarrow> queue_ok db db"
  by (simp add: queue_ok_def)

lemma queue_ok_trans: "queue_ok a b \<Longrightarrow> queue_ok b c \<Longrightarrow> queue_ok a c"
  by (auto simp: queue_ok_def intro: queue_rel_trans)

lemma queue_ok_same: "jobs_inv db \<Longrightarrow> same_queue db db' \<Longrightarrow> queue_ok db db'"
  by (auto simp: queue_ok_def queue_rel_def same_queue_def jobs_inv_def)

lemma queue_ok_same_trans: "queue_ok a b \<Longrightarrow> same_queue b c \<Longrightarrow> queue_ok a c"
  by (rule queue_ok_trans, assumption, rule queue_ok_same) (simp_all add: queue_ok_def)

lemma queue_rel_move:
  "jobs_move (db_jobs db) (db_jobs db') \<Longrightarrow> db_job_seq db \<le> db_job_seq db' \<Longrightarrow> queue_rel db db'"
  by (auto simp: queue_rel_def elim: jobs_move_back)

lemma queue_ok_step:
  assumes "jobs_inv db" and "jobs_move (db_jobs db) (db_jobs db')"
    and "list_all2 (\<lambda>j j'. expected_open j' = (if j_id j \<in> C then [] else expected_open j)) (db_jobs db) (db_jobs db')"
    and "closed_open C (db_attempts db) (db_attempts db')"
    and "db_job_seq db' = db_job_seq db" "keyed t_id (db_attempt_seq db') (db_attempts db')"
  shows "queue_ok db db'"
  using jobs_inv_step[OF assms] assms by (simp add: queue_ok_def queue_rel_move)

lemma queue_ok_quiet:
  assumes "jobs_inv db"
    and "\<And>j. j \<in> set (db_jobs db) \<Longrightarrow> P j \<Longrightarrow> job_step j (f j) \<and> expected_open (f j) = expected_open j"
  shows "queue_ok db (update_jobs P f db)"
  using assms jobs_inv_quiet[OF assms(1), of P f]
  by (auto simp: queue_ok_def intro!: queue_rel_move jobs_move_update)

lemma jobs_inv_processing:
  assumes "jobs_inv db" and "k \<in> set (db_jobs db)"
  shows "open_attempts (db_attempts db) (j_id k) = expected_open k"
  using assms by (simp add: jobs_inv_def ledger_ok_def)

lemma jobs_inv_unique:
  "jobs_inv db \<Longrightarrow> j \<in> set (db_jobs db) \<Longrightarrow> k \<in> set (db_jobs db) \<Longrightarrow> j_id j = j_id k \<Longrightarrow> j = k"
  by (auto simp: jobs_inv_def dest: keyed_unique)

text \<open>A set of processing jobs leaves processing and their attempt rows are closed.\<close>

lemma queue_ok_leave:
  assumes inv: "jobs_inv db"
    and step: "\<And>j. j \<in> set (db_jobs db) \<Longrightarrow> P j \<Longrightarrow> job_step j (f j) \<and> expected_open (f j) = []"
    and jobs: "db_jobs db' = update_where P f (db_jobs db)" "db_job_seq db' = db_job_seq db"
    and ids: "\<And>j. j \<in> set (db_jobs db) \<Longrightarrow> j_id j \<in> C \<longleftrightarrow> P j"
    and rows: "closed_open C (db_attempts db) (db_attempts db')" "keyed t_id (db_attempt_seq db') (db_attempts db')"
  shows "queue_ok db db'"
proof (rule queue_ok_step[OF inv])
  show "jobs_move (db_jobs db) (db_jobs db')" unfolding jobs using step by (blast intro: jobs_move_update)
  have "list_all2 (\<lambda>j j'. expected_open j' = (if j_id j \<in> C then [] else expected_open j)) js (update_where P f js)"
    if "set js \<subseteq> set (db_jobs db)" for js
    using that step ids by (induction js) auto
  then show "list_all2 (\<lambda>j j'. expected_open j' = (if j_id j \<in> C then [] else expected_open j)) (db_jobs db) (db_jobs db')"
    unfolding jobs by simp
qed (use jobs rows in auto)

lemma queue_ok_finish_one:
  assumes inv: "jobs_inv db" and k: "k \<in> set (db_jobs db)" "P k"
    and P: "\<And>j. P j \<Longrightarrow> j_id j = jid"
    and step: "\<And>j. j \<in> set (db_jobs db) \<Longrightarrow> P j \<Longrightarrow> job_step j (f j) \<and> expected_open (f j) = []"
  shows "queue_ok db (finishOpenAttempt jid s e now (update_jobs P f db))"
proof (rule queue_ok_leave[OF inv step, where C = "{jid}"])
  show "j_id j \<in> {jid} \<longleftrightarrow> P j" if "j \<in> set (db_jobs db)" for j
    using that jobs_inv_unique[OF inv that k(1)] P k(2) by auto
  have "length (open_attempts (db_attempts db) jid) \<le> 1"
    using jobs_inv_processing[OF inv k(1)] P[OF k(2)] by (simp add: expected_open_def)
  then show "closed_open {jid} (db_attempts db) (db_attempts (finishOpenAttempt jid s e now (update_jobs P f db)))"
    using finishOpenAttempt_closes[of "update_jobs P f db" jid] inv by (simp add: jobs_inv_def)
  show "keyed t_id (db_attempt_seq (finishOpenAttempt jid s e now (update_jobs P f db)))
      (db_attempts (finishOpenAttempt jid s e now (update_jobs P f db)))"
    using inv by (simp add: jobs_inv_def finishOpenAttempt_keyed)
qed auto

section \<open>Frames\<close>

definition outbox_only :: "agent_db \<Rightarrow> agent_db \<Rightarrow> bool" where
  "outbox_only db db' \<longleftrightarrow> (\<exists>rows sq. db' = db\<lparr>db_outbox := rows, db_outbox_seq := sq\<rparr>)"

lemma outbox_only_refl [simp]: "outbox_only db db"
  unfolding outbox_only_def by (rule exI[where x = "db_outbox db"], rule exI[where x = "db_outbox_seq db"]) simp

lemma outbox_only_trans: "outbox_only a b \<Longrightarrow> outbox_only b c \<Longrightarrow> outbox_only a c"
  unfolding outbox_only_def by (elim exE) (simp, intro exI, rule refl)

lemma outbox_only_queue: "outbox_only db db' \<Longrightarrow> same_queue db db'"
  by (auto simp: outbox_only_def same_queue_def)

lemma insertOutboxReasonTx_only:
  "insertOutboxReasonTx st ev inst reason db = Inr (w, db') \<Longrightarrow> outbox_only db db'"
  by (auto simp: insertOutboxReasonTx_def split: option.splits sum.splits if_splits)
     (auto simp: outbox_only_def)

lemma insertRoutedOutboxTx_only:
  "insertRoutedOutboxTx st uid eid reason now db = Inr (w, db') \<Longrightarrow> outbox_only db db'"
  by (auto simp: insertRoutedOutboxTx_def split: option.splits if_splits dest: insertOutboxReasonTx_only)

lemma route_events_only: "route_events st reason now srcs db = Inr (w, db') \<Longrightarrow> outbox_only db db'"
proof (induction srcs arbitrary: db w)
  case (Cons x xs)
  obtain uid eid where x: "x = (uid, eid)" by (cases x)
  then obtain w1 db1 w2 where "insertRoutedOutboxTx st uid eid reason now db = Inr (w1, db1)"
    "route_events st reason now xs db1 = Inr (w2, db')"
    using Cons.prems by (clarsimp split: sum.splits)
  then show ?case using outbox_only_trans[OF insertRoutedOutboxTx_only Cons.IH] by blast
qed simp

lemma routeJobEventTx_only: "routeJobEventTx st jid reason now db = Inr (w, db') \<Longrightarrow> outbox_only db db'"
  by (auto simp: routeJobEventTx_def split: if_splits dest: route_events_only)

lemma route_jobs_only: "route_jobs st reason now ids db = Inr (w, db') \<Longrightarrow> outbox_only db db'"
proof (induction ids arbitrary: db w)
  case (Cons x xs)
  then obtain w1 db1 w2 where "routeJobEventTx st x reason now db = Inr (w1, db1)"
    "route_jobs st reason now xs db1 = Inr (w2, db')"
    by (clarsimp split: sum.splits)
  then show ?case using outbox_only_trans[OF routeJobEventTx_only Cons.IH] by blast
qed simp

section \<open>Ingestion\<close>

lemma insert_event_queue [simp]: "same_queue db (snd (insert_event ev body db_now db))"
  by (simp add: insert_event_def same_queue_def)

lemma insert_event_same: "insert_event ev body db_now db = (i, db') \<Longrightarrow> same_queue db db'"
  using insert_event_queue[of db ev body db_now] by simp

lemma new_job_fresh: "fresh_job (new_job db eid uid conv bytes db_now)"
  by (simp add: fresh_job_def new_job_def)

lemma new_job_simps [simp]:
  "j_id (new_job db eid uid conv bytes db_now) = db_job_seq db + 1"
  "j_event_id (new_job db eid uid conv bytes db_now) = eid"
  "j_status (new_job db eid uid conv bytes db_now) = JobPending"
  by (simp_all add: new_job_def)

lemma open_attempts_absent:
  assumes "jobs_inv db" and "db_job_seq db < i"
  shows "open_attempts (db_attempts db) i = []"
  using assms by (fastforce simp: jobs_inv_def ledger_ok_def keyed_def open_attempts_def open_of_def filter_empty_conv)

lemma queue_ok_insert_job:
  assumes inv: "jobs_inv db"
  shows "queue_ok db (snd (insert_job eid uid conv bytes db_now db))"
proof (cases "eid \<in> j_event_id ` set (db_jobs db)")
  case True
  then show ?thesis using inv by (simp add: insert_job_def queue_ok_refl)
next
  case False
  let ?j = "new_job db eid uid conv bytes db_now"
  have "keyed j_id (db_job_seq db + 1) (db_jobs db @ [?j])"
    using inv by (intro keyed_insert) (auto simp: jobs_inv_def)
  moreover have "one_processing (db_jobs db @ [?j])"
    using inv by (rule_tac one_processing_shrink[of "db_jobs db"]) (auto simp: jobs_inv_def)
  moreover have "ledger_ok (db_jobs db @ [?j]) (db_attempts db)"
    using inv open_attempts_absent[OF inv, of "db_job_seq db + 1"]
    by (auto simp: jobs_inv_def ledger_ok_def expected_open_def)
  moreover have "attempts_ok ?j" by (simp add: attempts_ok_def new_job_def)
  ultimately have "jobs_inv (snd (insert_job eid uid conv bytes db_now db))"
    using inv False by (simp add: insert_job_def jobs_inv_def)
  moreover have "queue_rel db (snd (insert_job eid uid conv bytes db_now db))"
    using False new_job_fresh[of db eid uid conv bytes db_now]
    by (auto simp: insert_job_def queue_rel_def)
  ultimately show ?thesis by (simp add: queue_ok_def)
qed

lemma insert_job_ok:
  "jobs_inv db \<Longrightarrow> insert_job eid uid conv bytes db_now db = (i, db') \<Longrightarrow> queue_ok db db'"
  using queue_ok_insert_job[of db eid uid conv bytes db_now] by simp

lemma EnqueueAgentJob_ok:
  assumes "jobs_inv db" and "EnqueueAgentJob eid uid cid db_now db = Inr (r, db')"
  shows "queue_ok db db'"
  using assms by (auto simp: EnqueueAgentJob_def queue_ok_refl split: if_splits prod.splits option.splits
      dest: insert_job_ok)

lemma InsertIncomingEvent_ok:
  assumes "jobs_inv db" and "InsertIncomingEvent st ev db_now db = Inr (r, db')"
  shows "queue_ok db db'"
  using assms by (clarsimp simp: InsertIncomingEvent_def split: option.split_asm)
    (auto simp: queue_ok_refl split: prod.split_asm option.split_asm dest: insert_event_same intro: queue_ok_same)

lemma InsertEventAndEnqueueJob_ok:
  assumes inv: "jobs_inv db" and "InsertEventAndEnqueueJob st ev cid db_now db = Inr (r, db')"
  shows "queue_ok db db'"
proof -
  obtain body i db1 where e: "insert_event ev body db_now db = (i, db1)"
    and d: "i = None \<and> db' = db \<or> (\<exists>k. insert_job (ie_event_id ev) (ie_user_id ev) (nullableInt cid)
        (Some (int (length (ie_body ev)))) db_now db1 = (k, db') ) \<or> db' = db1"
    using assms(2) by (clarsimp simp: InsertEventAndEnqueueJob_def split: option.split_asm)
      (fastforce split: prod.split_asm option.split_asm)
  have one: "queue_ok db db1" using inv insert_event_same[OF e] by (rule queue_ok_same)
  then have "jobs_inv db1" by (simp add: queue_ok_def)
  with d one inv show ?thesis by (auto simp: queue_ok_refl intro: queue_ok_trans dest: insert_job_ok)
qed

lemma ignore_step: "j_status j = JobPending \<Longrightarrow> job_step j (ignore_job why now j)"
  by (rule close_pending) (auto simp: ignore_job_def same_identity_def)

lemma ignore_open: "j_status j = JobPending \<Longrightarrow> expected_open (ignore_job why now j) = expected_open j"
  by (simp add: ignore_job_def expected_open_def)

lemma queue_ok_ignore:
  assumes "jobs_inv db" and "\<And>j. P j \<Longrightarrow> j_status j = JobPending"
  shows "queue_ok db (update_jobs P (ignore_job why now) db)"
  using assms by (intro queue_ok_quiet) (auto simp: ignore_step ignore_open)

lemma applyPendingDeleteTx_ok:
  assumes inv: "jobs_inv db"
  shows "queue_ok db (applyPendingDeleteTx ev jid db_now now db)"
proof -
  define db1 where "db1 = (case List.find (takes_delete ev now) (db_pending_deletes db) of
      None \<Rightarrow> db
    | Some d \<Rightarrow> snd (insert_event
        (delete_event (ie_user_id ev) (pd_self_tg_id d) (ie_chat_tg_id ev) (ie_message_id ev)) None db_now
        (db\<lparr>db_pending_deletes := delete_where (takes_delete ev now) (db_pending_deletes db)\<rparr>)))"
  have "same_queue db db1"
    by (auto simp: db1_def same_queue_def insert_event_def split: option.splits)
  then have one: "queue_ok db db1" using inv by (intro queue_ok_same)
  then have inv1: "jobs_inv db1" by (simp add: queue_ok_def)
  show ?thesis
    unfolding applyPendingDeleteTx_def db1_def[symmetric] Let_def
    using inv one by (auto simp: queue_ok_refl intro!: queue_ok_trans[OF one queue_ok_ignore[OF inv1]])
qed

lemma ignoreInactive_ok:
  "jobs_inv db \<Longrightarrow> queue_ok db (ignoreInactiveConversationJobTx uid cid jid now db)"
  by (auto simp: ignoreInactiveConversationJobTx_def queue_ok_refl intro: queue_ok_ignore)

lemma insertOutboxTx_ok:
  "jobs_inv db \<Longrightarrow> insertOutboxTx st ev inst db = Inr (w, db') \<Longrightarrow> queue_ok db db'"
  unfolding insertOutboxTx_def by (intro queue_ok_same outbox_only_queue insertOutboxReasonTx_only)

lemma enqueue_ingested_ok:
  assumes inv: "jobs_inv db"
  shows "queue_ok db (snd (enqueue_ingested ev cid db_now now db))"
proof -
  have one: "queue_ok db (snd (insert_job (ie_event_id ev) (ie_user_id ev) (Some cid)
      (Some (int (length (ie_body ev)))) db_now db))" (is "queue_ok db ?db1")
    by (rule queue_ok_insert_job[OF inv])
  then have inv1: "jobs_inv ?db1" by (simp add: queue_ok_def)
  have two: "queue_ok db (applyPendingDeleteTx ev jid db_now now ?db1)" for jid
    by (rule queue_ok_trans[OF one applyPendingDeleteTx_ok[OF inv1]])
  then have "jobs_inv (applyPendingDeleteTx ev jid db_now now ?db1)" for jid by (simp add: queue_ok_def)
  from queue_ok_trans[OF two ignoreInactive_ok[OF this]] show ?thesis
    by (simp add: enqueue_ingested_def Let_def split_beta)
qed

lemma touch_conversation_same: "touch_conversation uid cid now db = Inr db' \<Longrightarrow> same_queue db db'"
  by (auto simp: touch_conversation_def Let_def same_queue_def split: if_splits)

lemma InsertEventEnqueueJobAndTouch_ok:
  assumes inv: "jobs_inv db" and run: "InsertEventEnqueueJobAndTouch st ev cid db_now now db = Inr (r, db')"
  shows "queue_ok db db'"
proof (cases "db' = db")
  case False
  then obtain body w db5 where
    out: "insertOutboxTx st ev now (snd (enqueue_ingested ev cid db_now now (snd (insert_event ev body db_now db)))) = Inr (w, db5)
       \<or> db5 = snd (enqueue_ingested ev cid db_now now (snd (insert_event ev body db_now db)))"
    and tch: "touch_conversation (ie_user_id ev) cid now db5 = Inr db'"
    using run by (clarsimp simp: InsertEventEnqueueJobAndTouch_def Let_def split_beta split: option.split_asm if_split_asm)
      blast+
  let ?db1 = "snd (insert_event ev body db_now db)"
  let ?db4 = "snd (enqueue_ingested ev cid db_now now ?db1)"
  have 1: "queue_ok db ?db1" using inv by (intro queue_ok_same) auto
  then have 2: "queue_ok ?db1 ?db4" by (intro enqueue_ingested_ok) (simp add: queue_ok_def)
  then have "jobs_inv ?db4" by (simp add: queue_ok_def)
  then have 3: "queue_ok ?db4 db5" using out by (auto intro: insertOutboxTx_ok queue_ok_refl)
  then have "queue_ok db5 db'" by (intro queue_ok_same touch_conversation_same[OF tch]) (simp add: queue_ok_def)
  then show ?thesis using 1 2 3 by (blast intro: queue_ok_trans)
qed (simp add: inv queue_ok_refl)

lemma recordMessageDeleteInChat_ok:
  assumes inv: "jobs_inv db"
  shows "queue_ok db (snd (recordMessageDeleteInChat uid self chat msg db_now now db))"
proof (cases "insert_event (delete_event uid self chat msg) None db_now db")
  case (Pair i db1)
  have one: "queue_ok db (db1\<lparr>db_actions := acts\<rparr>)" for acts
    using inv insert_event_same[OF Pair] by (auto simp: same_queue_def intro: queue_ok_same)
  have "jobs_inv (db1\<lparr>db_actions := acts\<rparr>)" for acts using one by (simp add: queue_ok_def)
  then show ?thesis
    using Pair inv unfolding recordMessageDeleteInChat_def
    by (cases i) (auto simp: queue_ok_refl Let_def intro!: queue_ok_trans[OF one queue_ok_ignore])
qed

lemma record_deletes_ok:
  "jobs_inv db \<Longrightarrow> queue_ok db (snd (record_deletes uid self chats msg db_now now out db))"
proof (induction chats arbitrary: out db)
  case (Cons chat chats)
  obtain r db1 where one: "recordMessageDeleteInChat uid self chat msg db_now now db = (r, db1)" by fastforce
  then have "queue_ok db db1" using recordMessageDeleteInChat_ok[OF Cons.prems] by (metis snd_conv)
  moreover from this have "jobs_inv db1" by (simp add: queue_ok_def)
  ultimately show ?case using Cons.IH one by (auto intro: queue_ok_trans)
qed (simp add: queue_ok_refl)

lemma RecordMessageDelete_ok:
  assumes "jobs_inv db" and "RecordMessageDelete uid self msg db_now now db = Inr (r, db')"
  shows "queue_ok db db'"
proof -
  consider "same_queue db db'" | out chats where "record_deletes uid self chats msg db_now now out db = (r, db')"
    using assms(2) by (auto simp: RecordMessageDelete_def Let_def same_queue_def split: if_split_asm)
  then show ?thesis
  proof cases
    case 2
    then show ?thesis using record_deletes_ok[OF assms(1)] by (metis snd_conv)
  qed (use assms in \<open>auto intro: queue_ok_same\<close>)
qed

section \<open>Completion, retry, release\<close>

lemma finish_step:
  assumes "j_status j = JobProcessing" and "s \<in> {JobCompleted, JobFailed, JobIgnored, JobDeadLetter}"
    and "same_identity j j'" "j_status j' = s" "j_attempts j' = j_attempts j" "j_max_attempts j' = j_max_attempts j"
  shows "job_step j j' \<and> expected_open j' = []"
  using assms by (auto simp: expected_open_def intro: finish)

lemma route_failed_same: "route_failed st s jid now db = Inr (w, db') \<Longrightarrow> same_queue db db'"
  by (auto simp: route_failed_def split: if_splits dest: routeJobEventTx_only outbox_only_queue)

lemma CompleteAgentJob_ok:
  assumes inv: "jobs_inv db" and run: "CompleteAgentJob st jid attempt s note now db = Inr (w, db')"
  shows "queue_ok db db'"
proof -
  let ?P = "\<lambda>j. j_id j = jid \<and> j_status j = JobProcessing \<and> j_attempts j = attempt \<and> completeRuntimeFence db j"
  let ?f = "\<lambda>j. j\<lparr>j_status := s, j_last_error := nullable note, j_updated_at := now\<rparr>"
  have s: "s \<in> {JobCompleted, JobFailed, JobIgnored}" and k: "\<exists>k\<in>set (db_jobs db). ?P k"
    and r: "route_failed st s jid now (finishOpenAttempt jid s note now (update_jobs ?P ?f db)) = Inr (w, db')"
    using run by (auto simp: CompleteAgentJob_def is_terminal_request_def Let_def count_where_pos[symmetric] split: if_splits)
  from k obtain k where k: "k \<in> set (db_jobs db)" "?P k" by blast
  have "queue_ok db (finishOpenAttempt jid s note now (update_jobs ?P ?f db))"
    using s by (intro queue_ok_finish_one[where P = ?P, OF inv k] finish_step) (auto simp: same_identity_def)
  from queue_ok_same_trans[OF this route_failed_same[OF r]] show ?thesis .
qed

lemma CompleteAgentJobWithResult_ok:
  assumes inv: "jobs_inv db"
    and run: "CompleteAgentJobWithResult st uid jid attempt s note aid lid now db = Inr (w, db')"
  shows "queue_ok db db'"
proof -
  let ?P = "\<lambda>j. j_id j = jid \<and> j_user_id j = uid \<and> j_status j = JobProcessing \<and> j_attempts j = attempt \<and>
     completeRuntimeFence db j"
  let ?f = "\<lambda>j. j\<lparr>j_status := s, j_last_error := nullable note, j_result_action_id := nullableInt aid,
     j_result_lead_id := nullableInt lid, j_updated_at := now\<rparr>"
  have s: "s \<in> {JobCompleted, JobFailed, JobIgnored}" and k: "\<exists>k\<in>set (db_jobs db). ?P k"
    and r: "route_failed st s jid now (finishOpenAttempt jid s note now (update_jobs ?P ?f db)) = Inr (w, db')"
    using run by (auto simp: CompleteAgentJobWithResult_def is_terminal_request_def Let_def count_where_pos[symmetric]
        split: if_split_asm)
  from k obtain k where k: "k \<in> set (db_jobs db)" "?P k" by blast
  have "queue_ok db (finishOpenAttempt jid s note now (update_jobs ?P ?f db))"
    using s by (intro queue_ok_finish_one[where P = ?P, OF inv k] finish_step) (auto simp: same_identity_def)
  from queue_ok_same_trans[OF this route_failed_same[OF r]] show ?thesis .
qed

lemma RetryAgentJob_ok:
  assumes inv: "jobs_inv db" and run: "RetryAgentJob st jid attempt err now db = Inr (s, db')"
  shows "queue_ok db db'"
proof -
  let ?P = "\<lambda>j. j_id j = jid \<and> j_status j = JobProcessing \<and> j_attempts j = attempt"
  obtain k where find: "List.find ?P (db_jobs db) = Some k"
    using run by (auto simp: RetryAgentJob_def Let_def split: option.split_asm)
  then have k: "k \<in> set (db_jobs db)" "?P k" by (auto dest: find_SomeD)
  let ?next = "if j_attempts k \<ge> j_max_attempts k then now else now + AgentJobBackoff (j_attempts k)"
  let ?f = "\<lambda>x. x\<lparr>j_status := s, j_next_run_at := ?next, j_last_error := nullable err, j_updated_at := now\<rparr>"
  let ?db1 = "finishOpenAttempt jid JobFailed err now (update_jobs ?P ?f db)"
  have s: "s = (if j_attempts k \<ge> j_max_attempts k then JobDeadLetter else JobPending)"
    and r: "db' = ?db1 \<or> (\<exists>w. routeJobEventTx st jid RouteWorkerFailure now ?db1 = Inr (w, db'))"
    using run find by (auto simp: RetryAgentJob_def Let_def split: if_split_asm)
  have "job_step j (?f j) \<and> expected_open (?f j) = []" if "j \<in> set (db_jobs db)" "?P j" for j
  proof -
    have "j = k" using jobs_inv_unique[OF inv that(1) k(1)] that k by simp
    then show ?thesis
      using k s by (auto simp: expected_open_def same_identity_def intro: finish requeue)
  qed
  then have 1: "queue_ok db ?db1" by (intro queue_ok_finish_one[where P = ?P, OF inv k]) auto
  define db1 where "db1 = ?db1"
  have "same_queue db1 db'" using r unfolding db1_def[symmetric] by (auto dest: routeJobEventTx_only outbox_only_queue)
  then show ?thesis using 1 unfolding db1_def[symmetric] by (rule queue_ok_same_trans[rotated])
qed

lemma ReleaseUnissuedClaim_ok:
  assumes inv: "jobs_inv db" and run: "ReleaseUnissuedClaim jid attempt replica now db = Inr db'"
  shows "queue_ok db db'"
proof -
  let ?P = "\<lambda>j. j_id j = jid \<and> j_status j = JobProcessing \<and> j_attempts j = attempt \<and> j_claimed_by j = Some replica"
  let ?f = "\<lambda>j. j\<lparr>j_status := JobPending, j_attempts := j_attempts j - 1, j_claimed_by := None, j_claimed_at := None,
     j_next_run_at := now + releaseUnissuedDelay, j_last_error := Some ''job token mint failed'', j_updated_at := now\<rparr>"
  have "\<exists>k\<in>set (db_jobs db). ?P k"
    and jobs: "db_jobs db' = update_where ?P ?f (db_jobs db)" "db_job_seq db' = db_job_seq db"
      "db_attempts db' = delete_where (\<lambda>a. open_of jid a \<and> t_attempt a = attempt) (db_attempts db)"
      "db_attempt_seq db' = db_attempt_seq db"
    using run by (auto simp: ReleaseUnissuedClaim_def Let_def count_where_pos[symmetric] split: if_splits)
  then obtain k where k: "k \<in> set (db_jobs db)" "?P k" by blast
  have "open_attempts (db_attempts db) jid = [attempt]"
    using jobs_inv_processing[OF inv k(1)] k(2) by (simp add: expected_open_def)
  then have "set (map t_attempt (filter (open_of jid) (db_attempts db))) = {attempt}"
    by (simp only: open_attempts_def) simp
  then have att: "t_attempt a = attempt" if "a \<in> set (db_attempts db)" "open_of jid a" for a
    using that by auto
  have "filter (open_of i) (delete_where (\<lambda>a. open_of jid a \<and> t_attempt a = attempt) (db_attempts db)) =
      filter (\<lambda>a. open_of i a \<and> \<not> open_of jid a) (db_attempts db)" for i
    unfolding delete_where_def filter_filter by (rule filter_cong) (auto simp: att)
  moreover have "filter (\<lambda>a. open_of i a \<and> \<not> open_of jid a) (db_attempts db) =
      (if i = jid then [] else filter (open_of i) (db_attempts db))" for i
    by (auto simp: filter_empty_conv open_of_def intro!: filter_cong)
  ultimately have "filter (open_of i) (delete_where (\<lambda>a. open_of jid a \<and> t_attempt a = attempt) (db_attempts db)) =
      (if i = jid then [] else filter (open_of i) (db_attempts db))" for i by simp
  then have "open_attempts (db_attempts db') i = (if i = jid then [] else open_attempts (db_attempts db) i)" for i
    unfolding jobs open_attempts_def by simp
  then have "closed_open {jid} (db_attempts db) (db_attempts db')"
    unfolding closed_open_def jobs by auto
  moreover have "keyed t_id (db_attempt_seq db') (db_attempts db')"
    using inv unfolding jobs by (simp add: jobs_inv_def keyed_delete)
  ultimately show ?thesis
    using jobs_inv_unique[OF inv _ k(1)] k(2) jobs(1,2)
    by (intro queue_ok_leave[OF inv, where P = ?P and f = ?f and C = "{jid}"])
       (auto simp: expected_open_def same_identity_def intro: release)
qed

section \<open>Sweeps, usage and purge\<close>

text \<open>What the stale sweep does to one stale job.\<close>

definition sweep_job :: "agent_db \<Rightarrow> instant \<Rightarrow> job \<Rightarrow> job" where
  "sweep_job db now j = (if \<not> completeRuntimeFence db j then requeue_fenced now j
     else if j_attempts j \<ge> j_max_attempts j then dead_letter now j
     else requeue ''visibility timeout, requeued'' now j)"

lemma not_stale_after [simp]:
  "\<not> stale cutoff (requeue_fenced now j)" "\<not> stale cutoff (dead_letter now j)" "\<not> stale cutoff (requeue why now j)"
  by (simp_all add: stale_def requeue_fenced_def requeue_def dead_letter_def)

lemma sweep_step: "j_status j = JobProcessing \<Longrightarrow> job_step j (sweep_job db now j) \<and> expected_open (sweep_job db now j) = []"
  by (auto simp: sweep_job_def requeue_fenced_def requeue_def dead_letter_def expected_open_def same_identity_def
      intro: job_step.requeue finish)

lemma sweep_jobs:
  fixes cutoff now db
  defines "P1 \<equiv> \<lambda>j. stale cutoff j \<and> \<not> completeRuntimeFence db j"
    and "P2 \<equiv> \<lambda>j. stale cutoff j \<and> j_attempts j \<ge> j_max_attempts j"
  shows "update_where (stale cutoff) (requeue ''visibility timeout, requeued'' now)
      (update_where P2 (dead_letter now) (update_where P1 (requeue_fenced now) js)) =
      update_where (stale cutoff) (sweep_job db now) js"
    and "j_id ` set (filter P1 js) \<union> j_id ` set (filter P2 (update_where P1 (requeue_fenced now) js)) \<union>
      j_id ` set (filter (stale cutoff) (update_where P2 (dead_letter now) (update_where P1 (requeue_fenced now) js)))
      = j_id ` set (filter (stale cutoff) js)"
  by (induction js) (auto simp: P1_def P2_def sweep_job_def)

lemma holdReservations_queue [simp]: "same_queue db (holdReservations ids now db)"
  unfolding holdReservations_def by (induction ids arbitrary: db) (auto simp: same_queue_def)

lemma holdEndedReservations_queue [simp]: "same_queue db (holdEndedReservations now db)"
  by (simp add: holdEndedReservations_def same_queue_def)

lemma RequeueStaleAgentJobs_ok:
  assumes inv: "jobs_inv db" and run: "RequeueStaleAgentJobs st visibility now db = Inr (r, db')"
  shows "queue_ok db db'"
proof (cases "visibility \<le> 0")
  case True
  then show ?thesis using run inv by (simp add: RequeueStaleAgentJobs_def queue_ok_refl)
next
  case False
  let ?cut = "now - visibility"
  let ?P1 = "\<lambda>j. stale ?cut j \<and> \<not> completeRuntimeFence db j"
  let ?P2 = "\<lambda>j. stale ?cut j \<and> j_attempts j \<ge> j_max_attempts j"
  define db1 where "db1 = update_jobs ?P1 (requeue_fenced now) db"
  define db2 where "db2 = update_jobs ?P2 (dead_letter now) db1"
  define db3 where "db3 = update_jobs (stale ?cut) (requeue ''visibility timeout, requeued'' now) db2"
  define F where "F = map j_id (filter ?P1 (db_jobs db))"
  define D where "D = map j_id (filter ?P2 (db_jobs db1))"
  define R where "R = map j_id (filter (stale ?cut) (db_jobs db2))"
  define db4 where "db4 = closeAttempts F ''runtime switched'' now (closeAttempts (D @ R) ''visibility timeout'' now db3)"
  have sets: "set (D @ R) \<union> set F = j_id ` set (filter (stale ?cut) (db_jobs db))"
    using sweep_jobs(2)[of ?cut db "db_jobs db" now] by (auto simp: F_def D_def R_def db1_def db2_def)
  have "queue_ok db db4"
  proof (rule queue_ok_leave[OF inv])
    show "db_jobs db4 = update_where (stale ?cut) (sweep_job db now) (db_jobs db)"
      using sweep_jobs(1)[of ?cut now db "db_jobs db"] by (simp add: db4_def db3_def db2_def db1_def)
    show "closed_open (j_id ` set (filter (stale ?cut) (db_jobs db))) (db_attempts db) (db_attempts db4)"
      using closed_open_trans[OF closeAttempts_closes[of "D @ R" db3] closeAttempts_closes[of F], of _ now _ now]
      unfolding sets db4_def by (simp add: db3_def db2_def db1_def)
    show "keyed t_id (db_attempt_seq db4) (db_attempts db4)"
      using inv by (simp add: db4_def closeAttempts_keyed db3_def db2_def db1_def jobs_inv_def)
    show "j_id j \<in> j_id ` set (filter (stale ?cut) (db_jobs db)) \<longleftrightarrow> stale ?cut j" if "j \<in> set (db_jobs db)" for j
      using that jobs_inv_unique[OF inv that] by auto
  qed (auto simp: db4_def db3_def db2_def db1_def stale_def dest: sweep_step)
  moreover have "same_queue db4 (holdEndedReservations now (holdReservations R now (holdReservations D now
      (holdReservations F now db4))))" (is "same_queue db4 ?db6")
    by (meson holdReservations_queue holdEndedReservations_queue same_queue_trans)
  moreover have "same_queue ?db6 db'"
    using run False
    by (auto simp: RequeueStaleAgentJobs_def requeueTransition_def Let_def F_def D_def R_def db4_def db3_def db2_def db1_def
        dest!: route_jobs_only intro!: outbox_only_queue)
  ultimately show ?thesis by (meson queue_ok_same_trans)
qed

lemma RouteUnclaimedAgentJobs_ok:
  assumes inv: "jobs_inv db" and run: "RouteUnclaimedAgentJobs st after now db = Inr (n, db')"
  shows "queue_ok db db'"
proof (cases "\<not> st_operator_routing st \<or> st_outbox st = None \<or> after \<le> 0")
  case True
  then show ?thesis using run inv by (auto simp: RouteUnclaimedAgentJobs_def queue_ok_refl)
next
  case False
  let ?P = "unclaimed st after now db"
  let ?f = "\<lambda>j. j\<lparr>j_status := JobRouted,
     j_last_error := Some ''unclaimed past threshold, routed to operator'', j_updated_at := now\<rparr>"
  have "queue_ok db (update_jobs ?P ?f db)"
    using inv by (intro queue_ok_quiet) (auto simp: unclaimed_def expected_open_def same_identity_def intro: close_pending)
  moreover obtain w where "route_jobs st RouteWorkerUnclaimed now (map j_id (filter ?P (db_jobs db))) (update_jobs ?P ?f db) = Inr (w, db')"
    using run False by (fastforce simp: RouteUnclaimedAgentJobs_def Let_def map_sum_def split: sum.split_asm)
  ultimately show ?thesis using route_jobs_only outbox_only_queue queue_ok_same_trans by blast
qed

lemma record_cost_ok: "jobs_inv db \<Longrightarrow> queue_ok db (record_cost jid u now db)"
  unfolding record_cost_def
  by (intro queue_ok_quiet) (auto simp: expected_open_def same_identity_def intro: stutter)

lemma RecordAgentJobUsage_ok:
  assumes inv: "jobs_inv db" and run: "RecordAgentJobUsage uid jid attempt u now db = Inr (r, db')"
  shows "queue_ok db db'"
proof -
  have "db' = db \<or> same_queue (record_cost jid u now db) db'"
    using run by (auto simp: RecordAgentJobUsage_def Let_def insert_usage_def same_queue_def split: if_splits option.splits)
  then show ?thesis
    using record_cost_ok[OF inv] queue_ok_refl[OF inv] by (auto intro: queue_ok_same_trans)
qed

lemma open_attempts_delete:
  "(\<And>a. a \<in> set rows \<Longrightarrow> open_of i a \<Longrightarrow> \<not> P a) \<Longrightarrow> open_attempts (delete_where P rows) i = open_attempts rows i"
  unfolding open_attempts_def delete_where_def filter_filter by (intro arg_cong[where f = "map t_attempt"] filter_cong) auto

lemma purgeAgentJobs_ok:
  assumes inv: "jobs_inv db"
  shows "queue_ok db (purgeAgentJobs uid db)"
proof -
  let ?gone = "\<lambda>a. t_job_id a \<in> j_id ` set (filter (\<lambda>j. j_user_id j = uid) (db_jobs db))"
  let ?js = "delete_where (\<lambda>j. j_user_id j = uid) (db_jobs db)" and ?rows = "delete_where ?gone (db_attempts db)"
  have "open_attempts ?rows (j_id j) = expected_open j" if "j \<in> set ?js" for j
  proof -
    have "open_attempts ?rows (j_id j) = open_attempts (db_attempts db) (j_id j)"
      using that jobs_inv_unique[OF inv] by (intro open_attempts_delete) (fastforce simp: open_of_def)
    then show ?thesis using that jobs_inv_processing[OF inv] by simp
  qed
  moreover have "\<forall>a\<in>set ?rows. t_job_id a \<in> j_id ` set ?js"
    using inv unfolding jobs_inv_def ledger_ok_def by fastforce
  moreover have "one_processing ?js"
    using inv by (rule_tac one_processing_shrink[of "db_jobs db"]) (auto simp: jobs_inv_def)
  ultimately have "jobs_inv (purgeAgentJobs uid db)"
    using inv by (auto simp: jobs_inv_def purgeAgentJobs_def ledger_ok_def keyed_delete distinct_map_delete list_all_iff)
  then show ?thesis by (auto simp: queue_ok_def queue_rel_def purgeAgentJobs_def)
qed

section \<open>Claims\<close>

lemma jobs_inv_pending_open: "jobs_inv db \<Longrightarrow> j \<in> set (db_jobs db) \<Longrightarrow> j_status j = JobPending \<Longrightarrow>
    open_attempts (db_attempts db) (j_id j) = []"
  by (simp add: jobs_inv_processing expected_open_def)

text \<open>Two unblocked pending jobs are never of the same conversation.\<close>

lemma unblocked_distinct:
  assumes inv: "jobs_inv db" and j: "j \<in> set (db_jobs db)" "j_status j = JobPending" "unblocked db j"
    and k: "k \<in> set (db_jobs db)" "j_status k = JobPending" "unblocked db k"
    and conv: "j_conversation_id j = j_conversation_id k" "j_conversation_id j \<noteq> None"
  shows "j = k"
proof -
  have "\<not> j_id j < j_id k" "\<not> j_id k < j_id j"
    using j k conv unfolding unblocked_def blocked_by_def by metis+
  then show ?thesis using jobs_inv_unique[OF inv j(1) k(1)] by simp
qed

text \<open>The step of a claim: the jobs in \<open>K\<close>, pending and unblocked, become processing under the next
  attempt, each with one new open attempt row.\<close>

lemma queue_ok_claim:
  assumes inv: "jobs_inv db"
    and K: "\<And>j. j \<in> set (db_jobs db) \<Longrightarrow> j_id j \<in> K \<Longrightarrow> j_status j = JobPending \<and> unblocked db j"
    and move: "list_all2 (\<lambda>j j'. job_step\<^sup>*\<^sup>* j j' \<and>
        expected_open j' = (if j_id j \<in> K then [j_attempts j + 1] else expected_open j)) (db_jobs db) (db_jobs db')"
    and rows: "\<And>j. j \<in> set (db_jobs db) \<Longrightarrow> open_attempts (db_attempts db') (j_id j) =
        open_attempts (db_attempts db) (j_id j) @ (if j_id j \<in> K then [j_attempts j + 1] else [])"
    and ids: "t_job_id ` set (db_attempts db') \<subseteq> j_id ` set (db_jobs db)"
    and seqs: "db_job_seq db' = db_job_seq db" "keyed t_id (db_attempt_seq db') (db_attempts db')"
  shows "queue_ok db db'"
proof -
  have moves: "jobs_move (db_jobs db) (db_jobs db')"
    unfolding jobs_move_def using move by (rule list_all2_mono) simp
  have ids': "j_id ` set (db_jobs db') = j_id ` set (db_jobs db)"
    using jobs_move_map[OF moves, of j_id] by (metis same_identity_def list.set_map)
  have pair: "\<exists>j\<in>set (db_jobs db). same_identity j j' \<and>
      expected_open j' = (if j_id j \<in> K then [j_attempts j + 1] else expected_open j)"
    if mem: "j' \<in> set (db_jobs db')" for j'
  proof -
    obtain j where "j \<in> set (db_jobs db)" "job_step\<^sup>*\<^sup>* j j' \<and>
        expected_open j' = (if j_id j \<in> K then [j_attempts j + 1] else expected_open j)"
      by (rule list_all2_in_set2[OF move mem])
    then show ?thesis using job_steps_identity[of j j'] by (intro bexI[of _ j]) auto
  qed
  have "open_attempts (db_attempts db') (j_id j') = expected_open j'" if mem: "j' \<in> set (db_jobs db')" for j'
  proof -
    obtain j where j: "j \<in> set (db_jobs db)" "j_id j' = j_id j"
      "expected_open j' = (if j_id j \<in> K then [j_attempts j + 1] else expected_open j)"
      using pair[OF mem] by (auto simp: same_identity_def)
    then show ?thesis
      using rows[OF j(1)] jobs_inv_processing[OF inv j(1)] jobs_inv_pending_open[OF inv j(1)] K[OF j(1)]
      by (cases "j_id j \<in> K") auto
  qed
  then have led: "ledger_ok (db_jobs db') (db_attempts db')"
    using ids by (simp add: ledger_ok_def ids' image_subset_iff)
  have "one_processing (db_jobs db')"
    unfolding one_processing_def
  proof (intro ballI impI)
    fix a b assume ab: "a \<in> set (db_jobs db')" "b \<in> set (db_jobs db')"
      and st: "j_status a = JobProcessing" "j_status b = JobProcessing"
      and cv: "j_conversation_id a \<noteq> None" "j_conversation_id a = j_conversation_id b"
    have "expected_open a \<noteq> []" "expected_open b \<noteq> []" using st by (simp_all add: expected_open_def)
    with pair[OF ab(1)] pair[OF ab(2)] obtain j k
      where j: "j \<in> set (db_jobs db)" "same_identity j a" "j_id j \<in> K \<or> expected_open j \<noteq> []"
        and k: "k \<in> set (db_jobs db)" "same_identity k b" "j_id k \<in> K \<or> expected_open k \<noteq> []" by metis
    have conv: "j_conversation_id j = j_conversation_id k" "j_conversation_id j \<noteq> None"
      using j k cv by (auto simp: same_identity_def)
    have proc: "j_status x = JobProcessing" if "expected_open x \<noteq> []" for x
      using that by (simp add: expected_open_def split: if_splits)
    have blk: "\<not> (j_id x \<in> K \<and> j_status y = JobProcessing)" if "x \<in> set (db_jobs db)" "y \<in> set (db_jobs db)"
      "j_conversation_id x = j_conversation_id y" "j_conversation_id x \<noteq> None" for x y
      using that K[OF that(1)] by (auto simp: unblocked_def blocked_by_def)
    have "j = k"
    proof (cases "j_id j \<in> K \<or> j_id k \<in> K")
      case True
      then have "j_id j \<in> K" "j_id k \<in> K"
        using j k conv blk[OF j(1) k(1)] blk[OF k(1) j(1)] proc by auto
      then show ?thesis using unblocked_distinct[OF inv _ _ _ _ _ _ conv] j(1) k(1) K by blast
    next
      case False
      then have "j_status j = JobProcessing" "j_status k = JobProcessing" using j(3) k(3) proc by auto
      moreover have "one_processing (db_jobs db)" using inv by (simp add: jobs_inv_def)
      ultimately have "j_id j = j_id k" using j(1) k(1) conv unfolding one_processing_def by blast
      then show ?thesis by (rule jobs_inv_unique[OF inv j(1) k(1)])
    qed
    then show "j_id a = j_id b" using j k by (simp add: same_identity_def)
  qed
  then show ?thesis
    using inv led jobs_move_keyed[OF moves] jobs_move_events[OF moves] jobs_move_attempts[OF moves] seqs
    by (simp add: queue_ok_def jobs_inv_def queue_rel_move[OF moves])
qed

definition calm :: "job \<Rightarrow> job \<Rightarrow> bool" where
  "calm j j' \<longleftrightarrow> job_step\<^sup>*\<^sup>* j j' \<and> expected_open j' = expected_open j"

lemma calm_refl [simp]: "calm j j"
  by (simp add: calm_def)

lemma calm_list_refl [simp]: "list_all2 calm js js"
  by (simp add: list.rel_refl)

lemma calm_list_trans: "list_all2 calm a b \<Longrightarrow> list_all2 calm b c \<Longrightarrow> list_all2 calm a c"
  by (erule (1) list_all2_trans[rotated 1]) (auto simp: calm_def)

text \<open>The part of a claim after the rows are marked: attempt rows for the given (job, attempt) pairs are
  opened, and job rows change calmly.\<close>

definition opened :: "(int \<times> int) list \<Rightarrow> agent_db \<Rightarrow> agent_db \<Rightarrow> bool" where
  "opened ps db db' \<longleftrightarrow> list_all2 calm (db_jobs db) (db_jobs db') \<and> db_job_seq db' = db_job_seq db \<and>
     (\<forall>i. open_attempts (db_attempts db') i = open_attempts (db_attempts db) i @ map snd (filter (\<lambda>p. fst p = i) ps)) \<and>
     t_job_id ` set (db_attempts db') = t_job_id ` set (db_attempts db) \<union> fst ` set ps \<and>
     (keyed t_id (db_attempt_seq db) (db_attempts db) \<longrightarrow> keyed t_id (db_attempt_seq db') (db_attempts db'))"

lemma opened_same: "same_queue db db' \<Longrightarrow> opened [] db db'"
  by (simp add: opened_def same_queue_def)

lemma opened_trans:
  assumes "opened ps a b" and "opened qs b c"
  shows "opened (ps @ qs) a c"
  using assms calm_list_trans[of "db_jobs a" "db_jobs b" "db_jobs c"] by (auto simp: opened_def)

lemma opened_attempt: "opened [(i, n)] db (insert_attempt i n now db)"
  by (auto simp: opened_def insert_attempt_def open_attempts_insert open_of_def intro: keyed_insert)

lemma opened_update:
  assumes "\<And>j. j \<in> set (db_jobs db) \<Longrightarrow> P j \<Longrightarrow> calm j (f j)"
  shows "opened [] db (update_jobs P f db)"
  using assms by (simp add: opened_def list_all2_update_where)

lemma opened_context: "opened [] db (snd (storeTurnContext aj db))"
proof -
  have "calm j (j\<lparr>j_turn_context := c\<rparr>)" for j c
  proof -
    have "job_step j (j\<lparr>j_turn_context := c\<rparr>)" by (rule stutter) (auto simp: same_identity_def)
    then show ?thesis by (simp add: calm_def expected_open_def)
  qed
  then show ?thesis unfolding storeTurnContext_def Let_def by (simp add: opened_update)
qed

lemma reserve_job_same: "reserve_job b j now db = Inr db' \<Longrightarrow> same_queue db db'"
  by (auto simp: reserve_job_def insertReservation_def insert_usage_def same_queue_def split: option.splits if_splits)

lemma open_claims_opened:
  "open_claims b now js db = Inr (ajs, db') \<Longrightarrow> opened (map (\<lambda>j. (j_id j, j_attempts j)) js) db db'"
proof (induction js arbitrary: db ajs)
  case (Cons j js)
  let ?db1 = "insert_attempt (j_id j) (j_attempts j) now db"
  let ?s = "storeTurnContext \<lparr>job_row = j, SourceEventIDs = [j_event_id j]\<rparr> ?db1"
  obtain db3 ajs' where r: "reserve_job b j now (snd ?s) = Inr db3" and o: "open_claims b now js db3 = Inr (ajs', db')"
    using Cons.prems by (auto simp: Let_def split_beta)
  have "opened [(j_id j, j_attempts j)] db db3"
    using opened_trans[OF opened_trans[OF opened_attempt opened_context] opened_same[OF reserve_job_same[OF r]]] by simp
  from opened_trans[OF this Cons.IH[OF o]] show ?case by simp
qed (auto simp: opened_same)

lemma open_claims_rows: "open_claims b now js db = Inr (ajs, db') \<Longrightarrow> map job_row ajs = js"
proof (induction js arbitrary: db ajs)
  case (Cons j js)
  then show ?case by (fastforce simp: Let_def storeTurnContext_def split: option.splits)
qed simp

lemma mark_claimed_simps [simp]:
  "j_id (mark_claimed db rep rt now j) = j_id j" "j_status (mark_claimed db rep rt now j) = JobProcessing"
  "j_attempts (mark_claimed db rep rt now j) = j_attempts j + 1"
  "j_user_id (mark_claimed db rep rt now j) = j_user_id j"
  "j_event_id (mark_claimed db rep rt now j) = j_event_id j"
  "j_conversation_id (mark_claimed db rep rt now j) = j_conversation_id j"
  by (simp_all add: mark_claimed_def)

lemma mark_claimed_step: "j_status j = JobPending \<Longrightarrow> job_step j (mark_claimed db rep rt now j)"
  by (rule claim) (auto simp: mark_claimed_def same_identity_def)

text \<open>Marking the jobs in \<open>K\<close> and then opening their attempts is a claim step.\<close>

lemma queue_ok_marked:
  assumes inv: "jobs_inv db"
    and K: "\<And>j. j \<in> set (db_jobs db) \<Longrightarrow> P j \<longleftrightarrow> j_id j \<in> K"
      "\<And>j. j \<in> set (db_jobs db) \<Longrightarrow> P j \<Longrightarrow> j_status j = JobPending \<and> unblocked db j"
    and f: "\<And>j. j \<in> set (db_jobs db) \<Longrightarrow> P j \<Longrightarrow> job_step j (f j) \<and> expected_open (f j) = [j_attempts j + 1]"
    and opn: "opened ps (update_jobs P f db) db'"
    and ps: "\<And>j. j \<in> set (db_jobs db) \<Longrightarrow>
        map snd (filter (\<lambda>p. fst p = j_id j) ps) = (if j_id j \<in> K then [j_attempts j + 1] else [])"
      "fst ` set ps \<subseteq> j_id ` set (db_jobs db)"
  shows "queue_ok db db'"
proof (rule queue_ok_claim[OF inv, where K = K])
  have "list_all2 (\<lambda>j j'. job_step\<^sup>*\<^sup>* j j' \<and>
      expected_open j' = (if j_id j \<in> K then [j_attempts j + 1] else expected_open j)) js (update_where P f js)"
    if "set js \<subseteq> set (db_jobs db)" for js
    using that f K(1) by (induction js) auto
  then have "list_all2 (\<lambda>j j'. job_step\<^sup>*\<^sup>* j j' \<and>
      expected_open j' = (if j_id j \<in> K then [j_attempts j + 1] else expected_open j)) (db_jobs db) (db_jobs (update_jobs P f db))"
    by simp
  moreover have "list_all2 calm (db_jobs (update_jobs P f db)) (db_jobs db')" using opn by (simp add: opened_def)
  ultimately show "list_all2 (\<lambda>j j'. job_step\<^sup>*\<^sup>* j j' \<and>
      expected_open j' = (if j_id j \<in> K then [j_attempts j + 1] else expected_open j)) (db_jobs db) (db_jobs db')"
    by (rule list_all2_trans[rotated 1]) (auto simp: calm_def)
  show "t_job_id ` set (db_attempts db') \<subseteq> j_id ` set (db_jobs db)"
    using inv opn ps(2) unfolding opened_def jobs_inv_def ledger_ok_def by auto
qed (use inv opn ps K in \<open>auto simp: opened_def jobs_inv_def\<close>)

lemma due_claimable: "j \<in> set (due db now uid rt limit) \<Longrightarrow> j \<in> set (db_jobs db) \<and> claimable db now uid rt j"
  by (auto simp: due_def dest: in_set_takeD)

lemma claim_each_ok:
  assumes inv: "jobs_inv db" and run: "claim_each b rep uid rt limit now db = Inr (ajs, db')"
  shows "queue_ok db db'"
proof -
  define K where "K = j_id ` set (due db now uid rt limit)"
  let ?P = "\<lambda>j. j_status j = JobPending \<and> j_id j \<in> K" and ?f = "mark_claimed db rep rt now"
  let ?claimed = "sort_key claim_order (map ?f (filter ?P (db_jobs db)))"
  have open_run: "open_claims b now ?claimed (update_jobs ?P ?f db) = Inr (ajs, db')"
    using run by (simp add: claim_each_def K_def Let_def)
  have inK: "j_status j = JobPending \<and> unblocked db j" if "j \<in> set (db_jobs db)" "j_id j \<in> K" for j
  proof -
    obtain d where d: "d \<in> set (due db now uid rt limit)" "j_id j = j_id d" using \<open>j_id j \<in> K\<close> by (auto simp: K_def)
    then have "j = d" using due_claimable[OF d(1)] jobs_inv_unique[OF inv \<open>j \<in> set (db_jobs db)\<close>] by blast
    then show ?thesis using due_claimable[OF d(1)] by (simp add: claimable_def)
  qed
  have keys: "distinct (map j_id (db_jobs db))" using inv by (simp add: jobs_inv_def keyed_def)
  have dist: "distinct (map j_id ?claimed)"
  proof -
    have "distinct (map j_id (map ?f (filter ?P (db_jobs db))))"
      using distinct_map_filter[OF keys, of ?P] by (simp add: comp_def)
    moreover have "mset (map j_id ?claimed) = mset (map j_id (map ?f (filter ?P (db_jobs db))))"
      by (simp only: mset_map mset_sort)
    ultimately show ?thesis using mset_eq_imp_distinct_iff by blast
  qed
  show ?thesis
  proof (rule queue_ok_marked[OF inv, where P = ?P and K = K and f = ?f])
    show "opened (map (\<lambda>j. (j_id j, j_attempts j)) ?claimed) (update_jobs ?P ?f db) db'"
      by (rule open_claims_opened[OF open_run])
    show "map snd (filter (\<lambda>p. fst p = j_id j) (map (\<lambda>j. (j_id j, j_attempts j)) ?claimed)) =
        (if j_id j \<in> K then [j_attempts j + 1] else [])" if j: "j \<in> set (db_jobs db)" for j
    proof (cases "j_id j \<in> K")
      case True
      then have "?f j \<in> set ?claimed" using inK[OF j] j by auto
      from filter_key_unique[OF dist this] True show ?thesis
        by (simp add: filter_map comp_def)
    next
      case False
      then have "j_id j \<notin> j_id ` set ?claimed" by auto
      from filter_key_absent[OF this] False show ?thesis by (simp add: filter_map comp_def)
    qed
  qed (use inK in \<open>auto simp: mark_claimed_step expected_open_def\<close>)
qed

lemma coalesce_members_calm:
  "coalesce_members head tid now mems db = Inr db' \<Longrightarrow> opened [] db db' \<and> db_attempts db' = db_attempts db"
proof (induction mems arbitrary: db)
  case (Cons m mems)
  let ?P = "\<lambda>j. j_id j = cc_id m \<and> j_status j = JobPending"
  let ?f = "\<lambda>j. j\<lparr>j_status := JobCoalesced, j_coalesced_into := Some head, j_turn_id := Some tid, j_updated_at := now\<rparr>"
  have "job_step j (?f j)" if "?P j" for j
    using that by (intro close_pending) (auto simp: same_identity_def)
  then have "opened [] db (update_jobs ?P ?f db)"
    by (intro opened_update) (auto simp: calm_def expected_open_def)
  moreover have "opened [] (update_jobs ?P ?f db) db' \<and> db_attempts db' = db_attempts db"
    using Cons by (auto simp: Let_def split: if_splits)
  ultimately show ?case using opened_trans by fastforce
qed (simp add: opened_same)

lemma claim_head_ok:
  assumes inv: "jobs_inv db" and j: "j \<in> set (db_jobs db)" "j_status j = JobPending" "unblocked db j"
    and run: "claim_head b rep rt now j tid mems db = Inr (aj, db')"
  shows "queue_ok db db'"
proof -
  let ?P = "\<lambda>x. j_id x = j_id j \<and> j_status x = JobPending"
  let ?f = "\<lambda>x. (mark_claimed db rep rt now x)\<lparr>j_turn_id := Some tid\<rparr>"
  obtain db2 db3 where two: "coalesce_members (j_id j) tid now mems (update_jobs ?P ?f db) = Inr db2"
    and three: "reserve_job b (?f j) now (insert_attempt (j_id j) (j_attempts j + 1) now db2) = Inr db3"
    and four: "db' = snd (storeTurnContext \<lparr>job_row = ?f j, SourceEventIDs = fillSourceEvents db3 (?f j)\<rparr> db3)"
    using run by (auto simp: claim_head_def Let_def)
  have "opened [] (update_jobs ?P ?f db) db2" using coalesce_members_calm[OF two] by simp
  from opened_trans[OF opened_trans[OF opened_trans[OF this opened_attempt] opened_same[OF reserve_job_same[OF three]]]
      opened_context]
  have opn: "opened [(j_id j, j_attempts j + 1)] (update_jobs ?P ?f db) db'" by (simp add: four)
  have same: "x = j" if "x \<in> set (db_jobs db)" "j_id x = j_id j" for x
    using jobs_inv_unique[OF inv that(1) j(1) that(2)] .
  have step: "job_step j (?f j)"
    using mark_claimed_step[OF j(2), of db rep rt now] by (auto elim!: job_stepE simp: same_identity_def intro: claim)
  show ?thesis
  proof (rule queue_ok_marked[OF inv, where P = ?P and K = "{j_id j}" and f = ?f, OF _ _ _ opn])
    fix x assume x: "x \<in> set (db_jobs db)"
    show "?P x \<longleftrightarrow> j_id x \<in> {j_id j}" using same[OF x] j by auto
    show "map snd (filter (\<lambda>p. fst p = j_id x) [(j_id j, j_attempts j + 1)]) =
        (if j_id x \<in> {j_id j} then [j_attempts x + 1] else [])" using same[OF x] by auto
    assume "?P x"
    then have "x = j" using same[OF x] by simp
    then show "j_status x = JobPending \<and> unblocked db x" "job_step x (?f x) \<and> expected_open (?f x) = [j_attempts x + 1]"
      using j step by (auto simp: expected_open_def)
  qed (use j in auto)
qed

text \<open>Claiming a head leaves every other candidate of the scan pending and unblocked, or no longer
  pending.\<close>

definition cand_ok :: "agent_db \<Rightarrow> claim_candidate \<Rightarrow> bool" where
  "cand_ok db c \<longleftrightarrow> (\<forall>x\<in>set (db_jobs db). j_id x = cc_id c \<longrightarrow> j_status x = JobPending \<longrightarrow> unblocked db x)"

lemma claim_head_jobs:
  assumes run: "claim_head b rep rt now j tid mems db = Inr (aj, db')"
  shows "list_all2 (\<lambda>x x'. same_identity x x' \<and> (j_status x' = JobPending \<longrightarrow> j_status x = JobPending) \<and>
     (j_status x' = JobProcessing \<longrightarrow> j_status x = JobProcessing \<or> j_id x = j_id j)) (db_jobs db) (db_jobs db')"
proof -
  let ?P = "\<lambda>x. j_id x = j_id j \<and> j_status x = JobPending"
  let ?f = "\<lambda>x. (mark_claimed db rep rt now x)\<lparr>j_turn_id := Some tid\<rparr>"
  obtain db2 db3 where two: "coalesce_members (j_id j) tid now mems (update_jobs ?P ?f db) = Inr db2"
    and three: "reserve_job b (?f j) now (insert_attempt (j_id j) (j_attempts j + 1) now db2) = Inr db3"
    and four: "db' = snd (storeTurnContext \<lparr>job_row = ?f j, SourceEventIDs = fillSourceEvents db3 (?f j)\<rparr> db3)"
    using run by (auto simp: claim_head_def Let_def)
  define R where "R x x' \<longleftrightarrow> same_identity x x' \<and> (j_status x' = JobPending \<longrightarrow> j_status x = JobPending) \<and>
     (j_status x' = JobProcessing \<longrightarrow> j_status x = JobProcessing \<or> j_id x = j_id j)" for x x' :: job
  define Q where "Q x x' \<longleftrightarrow> same_identity x x' \<and> (j_status x' = JobPending \<longrightarrow> j_status x = JobPending) \<and>
     (j_status x' = JobProcessing \<longrightarrow> j_status x = JobProcessing)" for x x' :: job
  have Qt: "list_all2 Q a b \<Longrightarrow> list_all2 Q b c \<Longrightarrow> list_all2 Q a c" for a b c
    by (erule (1) list_all2_trans[rotated 1]) (auto simp: Q_def intro: same_identity_trans)
  have "list_all2 R (db_jobs db) (db_jobs (update_jobs ?P ?f db))"
    by (simp, rule list_all2_update_where) (auto simp: R_def same_identity_def mark_claimed_def)
  moreover have "list_all2 Q (db_jobs d) (db_jobs d')" if "coalesce_members h t now ms' d = Inr d'" for h t ms' d d'
    using that
  proof (induction ms' arbitrary: d)
    case (Cons m ms')
    let ?U = "update_jobs (\<lambda>j. j_id j = cc_id m \<and> j_status j = JobPending) (\<lambda>j. j\<lparr>j_status := JobCoalesced,
       j_coalesced_into := Some h, j_turn_id := Some t, j_updated_at := now\<rparr>) d"
    have "list_all2 Q (db_jobs d) (db_jobs ?U)"
      by (simp, rule list_all2_update_where) (auto simp: Q_def same_identity_def)
    moreover have "coalesce_members h t now ms' ?U = Inr d'"
      using Cons.prems by (auto simp: Let_def split: if_splits)
    then have "list_all2 Q (db_jobs ?U) (db_jobs d')" by (rule Cons.IH)
    ultimately show ?case by (rule Qt)
  qed (simp add: Q_def list.rel_refl)
  from this[OF two] have "list_all2 Q (db_jobs (update_jobs ?P ?f db)) (db_jobs db2)" .
  moreover have "db_jobs db3 = db_jobs db2"
    using reserve_job_same[OF three] by (simp add: same_queue_def insert_attempt_def)
  moreover have "list_all2 Q (db_jobs db3) (db_jobs db')"
    unfolding four storeTurnContext_def Let_def
    by simp (rule list_all2_update_where, auto simp: Q_def same_identity_def)
  ultimately have "list_all2 R (db_jobs db) (db_jobs (update_jobs ?P ?f db))"
    "list_all2 Q (db_jobs (update_jobs ?P ?f db)) (db_jobs db')" using Qt by (auto simp: Q_def)
  then have "list_all2 R (db_jobs db) (db_jobs db')"
    by (rule list_all2_trans[rotated 1]) (auto simp: R_def Q_def intro: same_identity_trans)
  then show ?thesis by (simp add: R_def[abs_def])
qed

lemma claim_head_cands:
  assumes inv: "jobs_inv db" and j: "j \<in> set (db_jobs db)" "j_status j = JobPending" "unblocked db j"
    and run: "claim_head b rep rt now j tid mems db = Inr (aj, db')" and c: "cand_ok db c"
  shows "cand_ok db' c"
  unfolding cand_ok_def
proof (intro ballI impI)
  fix x' assume x': "x' \<in> set (db_jobs db')" "j_id x' = cc_id c" "j_status x' = JobPending"
  note jobs = claim_head_jobs[OF run]
  obtain x where x: "x \<in> set (db_jobs db)" "same_identity x x'" "j_status x = JobPending"
    using list_all2_in_set2[OF jobs x'(1)] x'(3) by metis
  have ux: "unblocked db x" using c x x'(2) by (auto simp: cand_ok_def same_identity_def)
  show "unblocked db' x'"
    unfolding unblocked_def
  proof
    assume "\<exists>p'\<in>set (db_jobs db'). blocked_by x' p'"
    then obtain p' where p': "p' \<in> set (db_jobs db')" "blocked_by x' p'" by blast
    obtain p where p: "p \<in> set (db_jobs db)" "same_identity p p'"
      "j_status p' = JobPending \<longrightarrow> j_status p = JobPending"
      "j_status p' = JobProcessing \<longrightarrow> j_status p = JobProcessing \<or> j_id p = j_id j"
      using list_all2_in_set2[OF jobs p'(1)] by metis
    have conv: "j_conversation_id x = j_conversation_id p" "j_conversation_id x \<noteq> None"
      using p'(2) x(2) p(2) by (auto simp: blocked_by_def same_identity_def)
    have "\<not> blocked_by x p" using ux p(1) by (simp add: unblocked_def)
    then have "j_id p = j_id j" "j_status p' = JobProcessing"
      using p' p x(2) conv by (auto simp: blocked_by_def same_identity_def)
    then have "p = j" using jobs_inv_unique[OF inv p(1) j(1)] by simp
    then have "x = j" using unblocked_distinct[OF inv x(1,3) ux j] conv by simp
    then have "j_id x' = j_id p'" using \<open>p = j\<close> x(2) p(2) by (simp add: same_identity_def)
    moreover have "distinct (map j_id (db_jobs db'))"
      using claim_head_ok[OF inv j run] by (simp add: queue_ok_def jobs_inv_def keyed_def)
    ultimately have "x' = p'" using x'(1) p'(1) by (auto simp: distinct_map inj_on_def)
    then show False using x'(3) \<open>j_status p' = JobProcessing\<close> by simp
  qed
qed

lemma claim_heads_ok:
  assumes "jobs_inv db" and "\<forall>c\<in>set cs. cand_ok db c"
    and "claim_heads st cf b rep uid rt now room cs db = Inr (ajs, db')"
  shows "queue_ok db db'"
  using assms
proof (induction cs arbitrary: room db ajs)
  case (Cons c cs)
  consider (skip) room' ajs' where "claim_heads st cf b rep uid rt now room' cs db = Inr (ajs', db')"
    | (stop) "db' = db"
    | (take) j tid mems aj db1 ajs' where "filter (\<lambda>j. j_id j = cc_id c \<and> j_status j = JobPending) (db_jobs db) = [j]"
        "claim_head b rep rt now j tid mems db = Inr (aj, db1)"
        "claim_heads st cf b rep uid rt now (room - 1) cs db1 = Inr (ajs', db')"
  proof (cases "room \<le> 0")
    case False
    then obtain turn where rest: "(case turn of None \<Rightarrow> claim_heads st cf b rep uid rt now room cs db
        | Some (tid, members) \<Rightarrow>
           (case filter (\<lambda>j. j_id j = cc_id c \<and> j_status j = JobPending) (db_jobs db) of
              [j] \<Rightarrow> bind_result (claim_head b rep rt now j tid members db) (\<lambda>(aj, db1).
                bind_result (claim_heads st cf b rep uid rt now (room - 1) cs db1) (\<lambda>(ajs, db2).
                  Inr (aj # ajs, db2)))
            | _ \<Rightarrow> claim_heads st cf b rep uid rt now room cs db)) = Inr (ajs, db')"
      using Cons.prems(3) by auto
    show ?thesis
    proof (cases "\<exists>tid mems j. turn = Some (tid, mems) \<and>
        filter (\<lambda>j. j_id j = cc_id c \<and> j_status j = JobPending) (db_jobs db) = [j]")
      case True
      then show ?thesis using rest that(3) by fastforce
    next
      case False
      then have "claim_heads st cf b rep uid rt now room cs db = Inr (ajs, db')"
        using rest by (auto split: option.split_asm list.split_asm)
      then show ?thesis by (rule that(1))
    qed
  qed (use Cons.prems(3) that(2) in simp)
  then show ?case
  proof cases
    case take
    have "j \<in> set (filter (\<lambda>j. j_id j = cc_id c \<and> j_status j = JobPending) (db_jobs db))" using take(1) by simp
    then have j: "j \<in> set (db_jobs db)" "j_status j = JobPending" "j_id j = cc_id c" by auto
    then have u: "unblocked db j" using Cons.prems(2) by (auto simp: cand_ok_def)
    have ok: "queue_ok db db1" by (rule claim_head_ok[OF Cons.prems(1) j(1,2) u take(2)])
    moreover have "\<forall>c\<in>set cs. cand_ok db1 c"
      using Cons.prems(2) claim_head_cands[OF Cons.prems(1) j(1,2) u take(2)] by auto
    moreover have "jobs_inv db1" using ok by (simp add: queue_ok_def)
    ultimately have "queue_ok db1 db'" using Cons.IH take(3) by blast
    with ok show ?thesis by (rule queue_ok_trans)
  qed (use Cons in \<open>auto simp: queue_ok_refl\<close>)
qed (simp add: queue_ok_refl)

lemma loadClaimCandidates_id: "c \<in> set (loadClaimCandidates db js) \<Longrightarrow> \<exists>j\<in>set js. cc_id c = j_id j \<and>
    cc_event_id c = j_event_id j \<and> cc_conversation_id c = j_conversation_id j \<and> cc_turn_id c = j_turn_id j"
  by (auto simp: loadClaimCandidates_def)

lemma claimCoalesced_ok:
  assumes inv: "jobs_inv db" and run: "claimCoalesced st cf b rep uid rt limit now db = Inr (ajs, db')"
  shows "queue_ok db db'"
proof -
  let ?cands = "take claimCandidateScan (loadClaimCandidates db
     (sort_key claim_order (filter (claimable db now uid rt) (db_jobs db))))"
  have "cand_ok db c" if mem: "c \<in> set ?cands" for c
  proof -
    obtain j where "j \<in> set (db_jobs db)" "claimable db now uid rt j" "cc_id c = j_id j"
      using loadClaimCandidates_id[OF in_set_takeD[OF mem]] by auto
    then show ?thesis using jobs_inv_unique[OF inv] by (auto simp: cand_ok_def claimable_def)
  qed
  moreover obtain ajs' where "claim_heads st cf b rep uid rt now limit ?cands db = Inr (ajs', db')"
    using run by (cases "claim_heads st cf b rep uid rt now limit ?cands db") (auto simp: claimCoalesced_def Let_def)
  ultimately show ?thesis using claim_heads_ok[OF inv] by blast
qed

lemma queue_budget_notifications_same:
  "queue_budget_notifications st msg e now uids db = Inr db' \<Longrightarrow> same_queue db db'"
proof (induction uids arbitrary: db)
  case (Cons u uids)
  then obtain body where "queue_budget_notifications st msg e now uids
      (insert_notification u NotificationBudget None (Some body) now db) = Inr db'"
    by (auto split: sum.splits)
  from Cons.IH[OF this] show ?case by (simp add: same_queue_def insert_notification_def)
qed simp

lemma pauseForBudget_same: "pauseForBudget st uid scope e now db = Inr db' \<Longrightarrow> same_queue db db'"
  unfolding pauseForBudget_def Let_def
  by (drule queue_budget_notifications_same) (simp add: same_queue_def)

lemma reserveBudget_same: "reserveBudget st b uid limit now db = Inr (room, ev, db') \<Longrightarrow> same_queue db db'"
  by (auto simp: reserveBudget_def Let_def map_sum_def dest: pauseForBudget_same
      split: if_split_asm option.split_asm sum.split_asm)

lemma admit_same: "admit st uid rt limit mi now db = Inr (room, db') \<Longrightarrow> same_queue db db'"
  by (auto simp: admit_def Let_def map_sum_def dest: reserveBudget_same
      split: if_split_asm option.split_asm sum.split_asm)

lemma claimAgentJobs_ok:
  assumes inv: "jobs_inv db" and run: "claimAgentJobs st rep uid rt limit mi now db = Inr (ajs, db')"
  shows "queue_ok db db'"
proof -
  define b where "b = (if budgeted st rt mi then st_budget st else None)"
  obtain room db1 where adm: "admit st uid rt (if limit \<le> 0 then 1 else limit) mi now db = Inr (room, db1)"
    and rest: "(if room = 0 then Inr ([], db1)
          else case st_turn_cfg st of
              None \<Rightarrow> claim_each b rep uid rt room now db1
            | Some cf \<Rightarrow> claimCoalesced st cf b rep uid rt room now db1) = Inr (ajs, db')"
    using run unfolding claimAgentJobs_def Let_def b_def[symmetric] by (auto split: if_split_asm)
  have one: "queue_ok db db1" using inv admit_same[OF adm] by (rule queue_ok_same)
  then have "jobs_inv db1" by (simp add: queue_ok_def)
  then have "queue_ok db1 db'"
    using rest by (auto split: if_split_asm option.split_asm intro: queue_ok_refl claim_each_ok claimCoalesced_ok)
  with one show ?thesis by (rule queue_ok_trans)
qed

end
