(* ===== verification/ActionInv.thy ===== *)
theory ActionInv
  imports Actions JobInv
begin

text \<open>
  The state machine of an action as the store enforces it: the documented transitions, a random id that
  is set once and never changes, and no way back to a draft. Every operation of the store moves action
  rows along this machine.
\<close>

section \<open>The machine of an action\<close>

definition same_action :: "action \<Rightarrow> action \<Rightarrow> bool" where
  "same_action a a' \<longleftrightarrow> ac_id a' = ac_id a \<and> ac_user_id a' = ac_user_id a \<and> ac_job_id a' = ac_job_id a \<and>
     ac_conversation_id a' = ac_conversation_id a \<and> ac_type a' = ac_type a"

fun next_status :: "action_status \<Rightarrow> action_status set" where
  "next_status ActionProposed = {ActionPendingApproval, ActionDenied, ActionApproved}"
| "next_status ActionPendingApproval = {ActionApproved, ActionRejected, ActionDenied, ActionExpired}"
| "next_status ActionApproved = {ActionExecuting, ActionDenied}"
| "next_status ActionExecuting = {ActionDenied, ActionExecuted, ActionDeliveryUnknown}"
| "next_status ActionDeliveryUnknown = {ActionExecuted}"
| "next_status _ = {}"

inductive action_step :: "action \<Rightarrow> action \<Rightarrow> bool" where
  same: "same_action a a' \<Longrightarrow> ac_status a' = ac_status a \<Longrightarrow> ac_random_id a' = ac_random_id a \<Longrightarrow> action_step a a'"
| move: "same_action a a' \<Longrightarrow> ac_status a' \<in> next_status (ac_status a) \<Longrightarrow> ac_random_id a' = ac_random_id a \<Longrightarrow>
    action_step a a'"
| reserve: "same_action a a' \<Longrightarrow> ac_status a = ActionApproved \<Longrightarrow> ac_status a' = ActionExecuting \<Longrightarrow> action_step a a'"

inductive_cases action_stepE: "action_step a a'"

definition draft_clean :: "action \<Rightarrow> bool" where
  "draft_clean a \<longleftrightarrow> (ac_status a \<in> drafts \<longrightarrow> ac_random_id a = None)"

lemma same_action_refl [simp]: "same_action a a"
  by (simp add: same_action_def)

lemma same_action_trans: "same_action a b \<Longrightarrow> same_action b c \<Longrightarrow> same_action a c"
  by (simp add: same_action_def)

lemma action_step_refl [simp]: "action_step a a"
  by (rule same) auto

lemma action_steps_same: "action_step\<^sup>*\<^sup>* a a' \<Longrightarrow> same_action a a'"
  by (induction rule: rtranclp_induct) (auto intro: same_action_trans elim: action_stepE)

lemma action_step_clean: "action_step a a' \<Longrightarrow> draft_clean a \<Longrightarrow> draft_clean a'"
  by (erule action_stepE; cases "ac_status a") (auto simp: draft_clean_def drafts_def)

lemma action_steps_clean: "action_step\<^sup>*\<^sup>* a a' \<Longrightarrow> draft_clean a \<Longrightarrow> draft_clean a'"
  by (induction rule: rtranclp_induct) (auto dest: action_step_clean)

lemma action_step_no_draft: "action_step a a' \<Longrightarrow> ac_status a \<notin> drafts \<Longrightarrow> ac_status a' \<notin> drafts"
  by (erule action_stepE; cases "ac_status a") (auto simp: drafts_def)

lemma action_steps_no_draft: "action_step\<^sup>*\<^sup>* a a' \<Longrightarrow> ac_status a \<notin> drafts \<Longrightarrow> ac_status a' \<notin> drafts"
  by (induction rule: rtranclp_induct) (auto dest: action_step_no_draft)

lemma action_step_random:
  "action_step a a' \<Longrightarrow> draft_clean a \<Longrightarrow> ac_random_id a = Some r \<Longrightarrow> ac_random_id a' = Some r"
  by (erule action_stepE) (auto simp: draft_clean_def drafts_def)

lemma action_steps_random:
  "action_step\<^sup>*\<^sup>* a a' \<Longrightarrow> draft_clean a \<Longrightarrow> ac_random_id a = Some r \<Longrightarrow> ac_random_id a' = Some r"
  by (induction rule: rtranclp_induct) (auto dest: action_step_random action_steps_clean)

section \<open>The action table\<close>

definition actions_inv :: "agent_db \<Rightarrow> bool" where
  "actions_inv db \<longleftrightarrow> keyed ac_id (db_action_seq db) (db_actions db) \<and> list_all draft_clean (db_actions db)"

definition new_row :: "action \<Rightarrow> bool" where
  "new_row a \<longleftrightarrow> ac_random_id a = None \<and> ac_executed_msg a = None"

definition action_rel :: "agent_db \<Rightarrow> agent_db \<Rightarrow> bool" where
  "action_rel db db' \<longleftrightarrow> db_action_seq db \<le> db_action_seq db' \<and>
     (\<forall>a'\<in>set (db_actions db'). (\<exists>a\<in>set (db_actions db). action_step\<^sup>*\<^sup>* a a') \<or>
        (ac_id a' > db_action_seq db \<and> (\<exists>a0. new_row a0 \<and> action_step\<^sup>*\<^sup>* a0 a')))"

definition action_ok :: "agent_db \<Rightarrow> agent_db \<Rightarrow> bool" where
  "action_ok db db' \<longleftrightarrow> actions_inv db' \<and> action_rel db db'"

definition same_actions :: "agent_db \<Rightarrow> agent_db \<Rightarrow> bool" where
  "same_actions db db' \<longleftrightarrow> db_actions db' = db_actions db \<and> db_action_seq db' = db_action_seq db"

lemma action_rel_refl [simp]: "action_rel db db"
  by (auto simp: action_rel_def)

lemma action_rel_trans:
  assumes ab: "action_rel a b" and bc: "action_rel b c"
  shows "action_rel a c"
proof -
  have "(\<exists>x\<in>set (db_actions a). action_step\<^sup>*\<^sup>* x y) \<or>
      (ac_id y > db_action_seq a \<and> (\<exists>x0. new_row x0 \<and> action_step\<^sup>*\<^sup>* x0 y))" if "y \<in> set (db_actions c)" for y
  proof -
    consider (old) x where "x \<in> set (db_actions b)" "action_step\<^sup>*\<^sup>* x y"
      | (new) "ac_id y > db_action_seq b" "\<exists>x0. new_row x0 \<and> action_step\<^sup>*\<^sup>* x0 y"
      using bc \<open>y \<in> set (db_actions c)\<close> unfolding action_rel_def by blast
    then show ?thesis
    proof cases
      case old
      then have "ac_id y = ac_id x" using action_steps_same by (auto simp: same_action_def)
      then show ?thesis using ab old unfolding action_rel_def by (metis rtranclp_trans)
    next
      case new
      then show ?thesis using ab unfolding action_rel_def by auto
    qed
  qed
  then show ?thesis using ab bc by (auto simp: action_rel_def)
qed

lemma action_ok_refl: "actions_inv db \<Longrightarrow> action_ok db db"
  by (simp add: action_ok_def)

lemma action_ok_trans: "action_ok a b \<Longrightarrow> action_ok b c \<Longrightarrow> action_ok a c"
  by (auto simp: action_ok_def intro: action_rel_trans)

lemma action_ok_same: "actions_inv db \<Longrightarrow> same_actions db db' \<Longrightarrow> action_ok db db'"
  by (auto simp: action_ok_def action_rel_def same_actions_def actions_inv_def)

lemma action_ok_rows:
  assumes inv: "actions_inv db" and move: "list_all2 action_step\<^sup>*\<^sup>* (db_actions db) (db_actions db')"
    and sq: "db_action_seq db' = db_action_seq db"
  shows "action_ok db db'"
proof -
  have ids: "map ac_id (db_actions db') = map ac_id (db_actions db)"
    using list_all2_mono[OF move, of "\<lambda>a b. ac_id a = ac_id b"] action_steps_same
    by (auto simp: same_action_def list.rel_eq list_all2_map1 list_all2_map2 list_eq_iff_nth_eq list_all2_conv_all_nth)
  have clean: "list_all draft_clean (db_actions db')"
    using inv move action_steps_clean unfolding actions_inv_def list_all2_conv_all_nth list_all_length by auto
  have origin: "\<exists>a\<in>set (db_actions db). action_step\<^sup>*\<^sup>* a a'" if "a' \<in> set (db_actions db')" for a'
    using that move unfolding list_all2_conv_all_nth by (metis in_set_conv_nth)
  have "keyed ac_id (db_action_seq db') (db_actions db')"
    using inv keyed_cong[OF ids] by (simp add: actions_inv_def sq)
  then show ?thesis using clean origin by (auto simp: action_ok_def actions_inv_def action_rel_def sq)
qed

lemma action_ok_update:
  assumes inv: "actions_inv db" and rows: "db_actions db' = update_where P f (db_actions db)"
    and sq: "db_action_seq db' = db_action_seq db"
    and step: "\<And>a. P a \<Longrightarrow> action_step a (f a)"
  shows "action_ok db db'"
proof (rule action_ok_rows[OF inv _ sq])
  show "list_all2 action_step\<^sup>*\<^sup>* (db_actions db) (db_actions db')"
    unfolding rows using step by (intro list_all2_update_where) auto
qed

lemma action_ok_insert:
  assumes inv: "actions_inv db" and row: "new_row a" "ac_id a = db_action_seq db + 1"
  shows "action_ok db (db\<lparr>db_actions := db_actions db @ [a], db_action_seq := db_action_seq db + 1\<rparr>)"
proof -
  have "keyed ac_id (db_action_seq db + 1) (db_actions db @ [a])"
    using inv row by (intro keyed_insert) (auto simp: actions_inv_def)
  moreover have "draft_clean a" using row by (simp add: draft_clean_def new_row_def)
  ultimately show ?thesis
    using inv row by (auto simp: action_ok_def actions_inv_def action_rel_def)
qed

section \<open>Operations on actions\<close>

lemma update_actions_simps [simp]:
  "db_actions (update_actions P f db) = update_where P f (db_actions db)"
  "db_action_seq (update_actions P f db) = db_action_seq db"
  by (simp_all add: update_actions_def)

lemma release_code_simps [simp]:
  "ac_status (release_code a) = ac_status a" "ac_random_id (release_code a) = ac_random_id a"
  "same_action a (release_code a)" "ac_id (release_code a) = ac_id a" "ac_user_id (release_code a) = ac_user_id a"
  "ac_job_id (release_code a) = ac_job_id a" "ac_conversation_id (release_code a) = ac_conversation_id a"
  "ac_type (release_code a) = ac_type a"
  by (simp_all add: release_code_def same_action_def)

lemma deny_step: "ActionDenied \<in> next_status (ac_status a) \<Longrightarrow> action_step a (deny_action why now a)"
  by (rule move) (auto simp: deny_action_def same_action_def)

lemma draft_denied: "s \<in> drafts \<Longrightarrow> ActionDenied \<in> next_status s"
  by (cases s) (auto simp: drafts_def)

lemma allowed_next: "to_st \<in> allowedActionTransitions from_st \<Longrightarrow> to_st \<in> next_status from_st"
  by (cases from_st) auto

lemma cas_action_acts:
  assumes "actions_inv db" and "\<And>a. P a \<Longrightarrow> action_step a (f a)"
  shows "action_ok db (snd (cas_action P f db))"
  using assms by (intro action_ok_update[where P = P and f = f]) (auto simp: cas_action_def)

lemma UpdateAgentActionStatus_acts:
  assumes "actions_inv db" and "UpdateAgentActionStatus uid aid from_st to_st now db = Inr (won, db')"
  shows "action_ok db db'"
proof -
  define f where "f = (\<lambda>a. (if isTerminalActionStatus to_st then release_code a else a)\<lparr>ac_status := to_st, ac_updated_at := now\<rparr>)"
  have "to_st \<in> next_status from_st" and eq: "(won, db') = cas_action (in_status uid aid from_st) f db"
    using assms(2) by (auto simp: UpdateAgentActionStatus_def f_def intro: allowed_next split: if_split_asm)
  then have "action_step a (f a)" if "in_status uid aid from_st a" for a
    using that by (intro move) (auto simp: f_def in_status_def same_action_def)
  then show ?thesis using cas_action_acts[OF assms(1), of "in_status uid aid from_st" f] by (simp flip: eq)
qed

lemma deny_cas_acts:
  assumes "actions_inv db" and "ActionDenied \<in> allowedActionTransitions from_st"
  shows "action_ok db (snd (cas_action (in_status uid aid from_st) (deny_action why now) db))"
  using assms by (intro cas_action_acts deny_step) (auto simp: in_status_def allowed_next)

lemma DenyAgentAction_acts:
  "actions_inv db \<Longrightarrow> DenyAgentAction uid aid from_st why now db = Inr (won, db') \<Longrightarrow> action_ok db db'"
  using deny_cas_acts[of db from_st uid aid why now] by (auto simp: DenyAgentAction_def split: if_split_asm)

lemma DenyAgentActionWithReason_acts:
  "actions_inv db \<Longrightarrow> DenyAgentActionWithReason uid aid from_st why now db = Inr (won, db') \<Longrightarrow> action_ok db db'"
  using deny_cas_acts[of db from_st uid aid why now] by (auto simp: DenyAgentActionWithReason_def split: if_split_asm)

lemma begin_send_step: "ac_status a = ActionApproved \<Longrightarrow> action_step a (begin_send rid body now a)"
  by (rule reserve) (auto simp: begin_send_def same_action_def)

text \<open>The row a reservation matches, and everything that held when it succeeded.\<close>

definition send_row :: "action \<Rightarrow> int \<Rightarrow> action \<Rightarrow> bool" where
  "send_row act cid a \<longleftrightarrow> in_status (ac_user_id act) (ac_id act) ActionApproved a \<and> ac_conversation_id a = Some cid"

lemma ReserveAgentActionSend_won:
  assumes "ReserveAgentActionSend st act rid body mt mm w enforce now db = Inr (True, db')"
  obtains cid conv sealed where
    "ac_conversation_id act = Some cid" "0 < cid" "0 < ac_user_id act" "rid \<noteq> 0"
    "GetConversation db (ac_user_id act) cid = Inr conv"
    "enforce \<and> 0 < mt \<longrightarrow> c_autonomous_turns conv < mt"
    "enforce \<and> 0 < mm \<longrightarrow> recent_sends db cid w < mm"
    "\<And>j. ac_job_id act = Some j \<Longrightarrow> j \<noteq> 0 \<Longrightarrow> jobSourceSuperseded db (ac_user_id act) j = []"
    "count_where (send_row act cid) (db_actions db) \<noteq> 0"
    "db' = (update_actions (send_row act cid) (begin_send rid sealed now) db)
       \<lparr>db_conversations := update_where (\<lambda>c. c_id c = cid \<and> c_user_id c = ac_user_id act)
          (\<lambda>c. c\<lparr>c_autonomous_turns := c_autonomous_turns c + 1, c_updated_at := now\<rparr>) (db_conversations db)\<rparr>"
proof -
  obtain cid where cid: "ac_conversation_id act = Some cid"
    using assms by (cases "ac_conversation_id act") (auto simp: ReserveAgentActionSend_def Let_def split: if_split_asm)
  have P: "(\<lambda>a. in_status (ac_user_id act) (ac_id act) ActionApproved a \<and> ac_conversation_id a = Some cid) = send_row act cid"
    by (simp add: send_row_def fun_eq_iff)
  obtain sealed conv where seal: "seal_body st body (ac_user_id act) = Inr sealed"
    and conv: "GetConversation db (ac_user_id act) cid = Inr conv"
    using assms by (auto simp: ReserveAgentActionSend_def Let_def cid bind_result_def split: if_split_asm sum.split_asm)
  note [simp] = ReserveAgentActionSend_def Let_def cid P seal conv bind_result_def
  show ?thesis
    using assms by (intro that[of cid conv sealed]) (auto simp: cid split: if_split_asm option.split_asm)
qed

lemma ReserveAgentActionSend_lost:
  "ReserveAgentActionSend st act rid body mt mm w enforce now db = Inr (False, db') \<Longrightarrow> db' = db"
  by (auto simp: ReserveAgentActionSend_def Let_def bind_result_def split: if_split_asm sum.split_asm)

lemma ReserveAgentActionSend_acts:
  assumes inv: "actions_inv db"
    and res: "ReserveAgentActionSend st act rid body mt mm w e now db = Inr (won, db')"
  shows "action_ok db db'"
proof (cases won)
  case True
  with res have won: "ReserveAgentActionSend st act rid body mt mm w e now db = Inr (True, db')" by simp
  obtain cid sealed where acts: "db_actions db' = update_where (send_row act cid) (begin_send rid sealed now) (db_actions db)"
    and sq: "db_action_seq db' = db_action_seq db"
    by (rule ReserveAgentActionSend_won[OF won]) simp
  then show ?thesis
    by (intro action_ok_update[OF inv acts sq] begin_send_step) (auto simp: send_row_def in_status_def)
next
  case False
  then have "db' = db" using res by (intro ReserveAgentActionSend_lost) simp
  then show ?thesis using inv by (simp add: action_ok_refl)
qed

lemma BeginExecutingAgentAction_acts:
  "actions_inv db \<Longrightarrow> BeginExecutingAgentAction st uid aid rid now db = Inr (won, db') \<Longrightarrow> action_ok db db'"
  by (auto simp: BeginExecutingAgentAction_def bind_result_def intro: ReserveAgentActionSend_acts split: sum.split_asm)

lemma SetAgentActionExecuted_acts:
  "actions_inv db \<Longrightarrow> action_ok db (snd (SetAgentActionExecuted uid aid msg now db))"
  unfolding SetAgentActionExecuted_def
  by (rule cas_action_acts, assumption, rule move) (auto simp: in_status_def same_action_def)

lemma mark_executed_step:
  "ac_status a \<in> {ActionExecuting, ActionDeliveryUnknown} \<Longrightarrow> action_step a (mark_executed msg now a)"
  by (rule move) (auto simp: mark_executed_def same_action_def)

lemma insert_message_simps [simp]:
  "db_actions (insert_message cid dir msg eid body db_now db) = db_actions db"
  "db_action_seq (insert_message cid dir msg eid body db_now db) = db_action_seq db"
  by (simp_all add: insert_message_def)

lemma recordAgentActionSent_acts:
  assumes inv: "actions_inv db" and from_st: "from_st \<in> {ActionExecuting, ActionDeliveryUnknown}"
    and res: "recordAgentActionSent st from_st uid aid cid msg txt db_now now db = Inr (won, db')"
  shows "action_ok db db'"
proof -
  consider "db' = db"
    | m where "db_actions db' = update_where (in_status uid aid from_st) (mark_executed m now) (db_actions db)"
        "db_action_seq db' = db_action_seq db"
    using res unfolding recordAgentActionSent_def
    by (auto simp: Let_def bind_result_def split: sum.split_asm option.split_asm)
  then show ?thesis
  proof cases
    case 2
    then show ?thesis using from_st
      by (intro action_ok_update[OF inv 2] mark_executed_step) (auto simp: in_status_def)
  qed (simp add: inv action_ok_refl)
qed

lemma keep_step:
  "same_action a a' \<Longrightarrow> ac_status a' = ac_status a \<Longrightarrow> ac_random_id a' = ac_random_id a \<Longrightarrow> action_step a a'"
  by (rule same)

lemma NoteAgentActionSendAttempt_acts:
  "actions_inv db \<Longrightarrow> action_ok db (snd (NoteAgentActionSendAttempt uid aid db))"
  by (auto simp: NoteAgentActionSendAttempt_def action_ok_refl same_action_def split: option.split
      intro!: action_ok_update[where P = "in_status uid aid ActionExecuting"] keep_step)

lemma UnnoteAgentActionSendAttempt_acts:
  "actions_inv db \<Longrightarrow> action_ok db (snd (UnnoteAgentActionSendAttempt uid aid t db))"
  by (auto simp: UnnoteAgentActionSendAttempt_def action_ok_refl same_action_def split: option.split
      intro!: action_ok_update[where P = "in_status uid aid ActionExecuting"] keep_step)

lemma same_actions_refl [simp]: "same_actions db db"
  by (simp add: same_actions_def)

lemma same_actions_trans: "same_actions a b \<Longrightarrow> same_actions b c \<Longrightarrow> same_actions a c"
  by (simp add: same_actions_def)

lemma action_ok_same_trans: "action_ok a b \<Longrightarrow> same_actions b c \<Longrightarrow> action_ok a c"
  by (auto simp: action_ok_def action_rel_def same_actions_def actions_inv_def)

lemma insert_notification_acts [simp]: "same_actions db (insert_notification uid k a b db_now db)"
  by (simp add: insert_notification_def same_actions_def)

lemma MarkAgentActionDeliveryUnknown_acts:
  assumes inv: "actions_inv db"
    and res: "MarkAgentActionDeliveryUnknown st uid aid why alert db_now now db = Inr (won, db')"
  shows "action_ok db db'"
proof -
  define P where "P = (\<lambda>a. in_status uid aid ActionExecuting a \<and> ac_executed_msg a = None)"
  define f where "f = (\<lambda>a. (release_code a)\<lparr>ac_status := ActionDeliveryUnknown, ac_reasons := why, ac_updated_at := now\<rparr>)"
  define db1 where "db1 = snd (cas_action P f db)"
  have ok: "action_ok db db1" unfolding db1_def
    by (rule cas_action_acts[OF inv], rule move) (auto simp: P_def f_def in_status_def same_action_def)
  have "db' = db \<or> same_actions db1 db'"
    using res unfolding MarkAgentActionDeliveryUnknown_def P_def[symmetric] f_def[symmetric]
    by (auto simp: bind_result_def db1_def cas_action_def split: sum.split_asm if_split_asm option.splits)
  then show ?thesis using ok inv by (auto intro: action_ok_refl action_ok_same_trans)
qed

lemma MatchUnconfirmedAgentSend_acts:
  assumes inv: "actions_inv db"
    and res: "MatchUnconfirmedAgentSend st uid peer msg txt since db_now now db = (hit, err, db')"
  shows "action_ok db db'"
proof -
  define note_id where "note_id = (\<lambda>x :: action. x\<lparr>ac_executed_msg := Some msg\<rparr>)"
  define fill_id where "fill_id = (\<lambda>x :: action. x\<lparr>ac_executed_msg := Some msg, ac_send_body := None\<rparr>)"
  have step: "action_step a (note_id a)" "action_step a (fill_id a)" for a
    by (auto simp: note_id_def fill_id_def same_action_def intro!: keep_step)
  have upd: "action_ok db (update_actions Q note_id db)" "action_ok db (update_actions Q fill_id db)" for Q
    using step by (auto intro!: action_ok_update[OF inv])
  show ?thesis
    using res inv unfolding MatchUnconfirmedAgentSend_def fill_id_def[symmetric] unfolding note_id_def[symmetric]
    by (auto simp: Let_def upd split: if_split_asm sum.split_asm option.split_asm
        intro: action_ok_refl recordAgentActionSent_acts)
qed

lemma expire_step: "ac_status a = ActionPendingApproval \<Longrightarrow> action_step a (expire_action now a)"
  by (rule move) (auto simp: expire_action_def same_action_def)

lemma ExpireStaleAgentActions_acts: "actions_inv db \<Longrightarrow> action_ok db (snd (ExpireStaleAgentActions ttl now db))"
  by (auto simp: ExpireStaleAgentActions_def Let_def action_ok_refl intro!: action_ok_update expire_step)

lemma ExpireAgentActionIfStale_acts: "actions_inv db \<Longrightarrow> action_ok db (snd (ExpireAgentActionIfStale uid aid ttl now db))"
  by (auto simp: ExpireAgentActionIfStale_def action_ok_refl in_status_def intro!: cas_action_acts expire_step)

lemma deny_drafts_acts:
  assumes "actions_inv db" and "\<And>a. P a \<Longrightarrow> ac_status a \<in> drafts"
  shows "action_ok db (update_actions P (deny_action why now) db)"
  using assms by (auto intro!: action_ok_update[where P = P] deny_step draft_denied)

lemma DenyPendingActionsForConversation_acts:
  "actions_inv db \<Longrightarrow> action_ok db (snd (DenyPendingActionsForConversation uid cid why now db))"
  by (auto simp: DenyPendingActionsForConversation_def Let_def intro!: deny_drafts_acts)

lemma drafts_of_draft: "drafts_of db uid heads a \<Longrightarrow> ac_status a \<in> drafts"
  by (simp add: drafts_of_def drafts_def)

lemma DenyPendingActionsForSourceMessage_acts:
  "actions_inv db \<Longrightarrow> action_ok db (snd (DenyPendingActionsForSourceMessage uid cid msg why now db))"
  by (auto simp: DenyPendingActionsForSourceMessage_def Let_def intro!: deny_drafts_acts dest: drafts_of_draft)

lemma DenyActionsFromEarlierInstalls_acts:
  "actions_inv db \<Longrightarrow> action_ok db (snd (DenyActionsFromEarlierInstalls uid why now db))"
  by (auto simp: DenyActionsFromEarlierInstalls_def Let_def drafts_def intro!: deny_drafts_acts)

section \<open>Inserts and retention\<close>

lemma outbox_only_actions: "outbox_only db db' \<Longrightarrow> same_actions db db'"
  by (auto simp: outbox_only_def same_actions_def)

lemma action_row_simps [simp]:
  "ac_id (action_row a codes payload jid rvn db_now db) = db_action_seq db + 1"
  "new_row (action_row a codes payload jid rvn db_now db)"
  by (simp_all add: action_row_def new_row_def)

lemma insert_action_acts:
  "actions_inv db \<Longrightarrow> insert_action (action_row a codes payload jid rvn db_now db) db = Inr db' \<Longrightarrow> action_ok db db'"
  by (auto simp: insert_action_def intro: action_ok_insert split: if_split_asm)

lemma insert_job_action_acts:
  assumes inv: "actions_inv db" and res: "insert_job_action st a codes payload db_now now db = Inr (i, db')"
  shows "action_ok db db'"
proof -
  have routed: "action_ok db db2"
    if "insert_action (action_row a codes payload jid rvn db_now db) db = Inr db1" "outbox_only db1 db2" for jid rvn db1 db2
    using that by (blast intro: action_ok_same_trans insert_action_acts[OF inv] outbox_only_actions)
  show ?thesis
    using res inv unfolding insert_job_action_def
    by (auto simp: Let_def bind_result_def intro: action_ok_refl insert_action_acts routed[OF _ routeJobEventTx_only]
        split: option.split_asm sum.split_asm if_split_asm)
qed

lemma InsertAgentAction_acts:
  "actions_inv db \<Longrightarrow> InsertAgentAction st a db_now now db = Inr (i, db') \<Longrightarrow> action_ok db db'"
  by (auto simp: InsertAgentAction_def bind_result_def intro: insert_job_action_acts insert_action_acts
      split: if_split_asm sum.split_asm)

lemma InsertStandaloneApproval_acts:
  "actions_inv db \<Longrightarrow> InsertStandaloneApprovalWithNotification st a body db_now db = Inr (i, db') \<Longrightarrow> action_ok db db'"
  by (auto simp: InsertStandaloneApprovalWithNotification_def bind_result_def
      intro: action_ok_same_trans[OF insert_action_acts] split: if_split_asm sum.split_asm prod.split_asm)

lemma SweepAgentMessageBodies_acts:
  assumes inv: "actions_inv db"
  shows "action_ok db (snd (SweepAgentMessageBodies retention now db))"
proof (cases "retention \<le> 0")
  case False
  define cutoff where "cutoff = now - retention"
  define retire :: "action \<Rightarrow> bool" where "retire = (\<lambda>a. ac_created_at a < cutoff \<and> ac_updated_at a < cutoff \<and> ac_status a \<in> drafts)"
  define wipe :: "action \<Rightarrow> action" where "wipe = (\<lambda>a. (release_code a)\<lparr>ac_payload := None, ac_send_body := None\<rparr>)"
  let ?db1 = "update_actions retire (deny_action ''content expired by retention sweep'' now) db"
  let ?db' = "snd (SweepAgentMessageBodies retention now db)"
  have ok: "action_ok db ?db1" using inv by (rule deny_drafts_acts) (simp add: retire_def)
  have "db_actions ?db' = update_where (clears cutoff) wipe (db_actions ?db1)" "db_action_seq ?db' = db_action_seq ?db1"
    using False by (simp_all add: SweepAgentMessageBodies_def Let_def cutoff_def retire_def wipe_def update_jobs_def)
  then have "action_ok ?db1 ?db'"
    using ok by (intro action_ok_update[where P = "clears cutoff" and f = wipe])
      (auto simp: action_ok_def wipe_def same_action_def intro!: keep_step)
  with ok show ?thesis by (rule action_ok_trans)
qed (simp add: SweepAgentMessageBodies_def action_ok_refl inv)

section \<open>Operations on the queue leave actions alone\<close>

lemma holdReservations_acts [simp]: "same_actions db (holdReservations ids now db)"
  by (induction ids arbitrary: db) (simp_all add: holdReservations_def same_actions_def)

lemma closeAttempts_acts [simp]: "same_actions db (closeAttempts ids why now db)"
  by (induction ids arbitrary: db) (simp_all add: closeAttempts_def same_actions_def)

lemma db_actions_simps [simp]:
  "same_actions db (update_jobs P f db)" "same_actions db (finishOpenAttempt jid s e now db)"
  "same_actions db (insert_attempt jid n now db)"
  "same_actions db (holdEndedReservations now db)" "same_actions db (snd (storeTurnContext aj db))"
  "same_actions db (snd (insert_event ev body db_now db))" "same_actions db (snd (insert_job eid uid c b db_now db))"
  "same_actions db (record_cost jid u now db)"
  by (auto simp: same_actions_def update_jobs_def finishOpenAttempt_def insert_attempt_def
      holdEndedReservations_def storeTurnContext_def insert_event_def insert_job_def record_cost_def Let_def
      split: option.split prod.split)

lemma same_actions_iff:
  "same_actions db db1 \<Longrightarrow> same_actions db1 db' = same_actions db db'"
  "same_actions db db1 \<Longrightarrow> same_actions db' db1 = same_actions db' db"
  by (auto simp: same_actions_def)

lemmas same_acts [simp] = same_actions_iff(1)[OF db_actions_simps(1)] same_actions_iff(1)[OF db_actions_simps(2)]
  same_actions_iff(2)[OF db_actions_simps(1)] same_actions_iff(2)[OF db_actions_simps(2)]
  same_actions_iff[OF holdReservations_acts] same_actions_iff[OF closeAttempts_acts]
  same_actions_iff[OF db_actions_simps(3)] same_actions_iff[OF db_actions_simps(4)]

lemma insert_event_acts: "insert_event ev body db_now db = (i, db') \<Longrightarrow> same_actions db db'"
  by (metis db_actions_simps(6) snd_conv)

lemma insert_job_acts: "insert_job eid uid c b db_now db = (i, db') \<Longrightarrow> same_actions db db'"
  by (metis db_actions_simps(7) snd_conv)

lemma InsertIncomingEvent_acts: "InsertIncomingEvent st ev db_now db = Inr (r, db') \<Longrightarrow> same_actions db db'"
  by (auto simp: InsertIncomingEvent_def bind_result_def dest: insert_event_acts
      split: option.split_asm sum.split_asm prod.split_asm)

lemma EnqueueAgentJob_acts: "EnqueueAgentJob eid uid cid db_now db = Inr (r, db') \<Longrightarrow> same_actions db db'"
  by (auto simp: EnqueueAgentJob_def bind_result_def dest: insert_job_acts
      split: if_split_asm option.split_asm sum.split_asm prod.split_asm)

lemma InsertEventAndEnqueueJob_acts:
  "InsertEventAndEnqueueJob st ev cid db_now db = Inr (r, db') \<Longrightarrow> same_actions db db'"
  by (auto simp: InsertEventAndEnqueueJob_def bind_result_def dest!: insert_event_acts insert_job_acts
      intro: same_actions_trans split: option.split_asm sum.split_asm prod.split_asm)

lemma applyPendingDeleteTx_acts: "same_actions db (applyPendingDeleteTx ev jid db_now now db)"
  by (auto simp: applyPendingDeleteTx_def Let_def same_actions_def update_jobs_def insert_event_def split: option.split)

lemma enqueue_ingested_acts: "enqueue_ingested ev cid db_now now db = (jid, db') \<Longrightarrow> same_actions db db'"
  using applyPendingDeleteTx_acts
  by (auto simp: enqueue_ingested_def Let_def ignoreInactiveConversationJobTx_def dest!: insert_job_acts
      intro: same_actions_trans split: prod.split_asm if_split_asm)

lemma insertOutboxTx_acts: "insertOutboxTx st ev now db = Inr (w, db') \<Longrightarrow> same_actions db db'"
  by (auto simp: insertOutboxTx_def dest: insertOutboxReasonTx_only outbox_only_actions)

lemma touch_conversation_acts: "touch_conversation uid cid now db = Inr db' \<Longrightarrow> same_actions db db'"
  by (auto simp: touch_conversation_def Let_def same_actions_def split: if_split_asm)

lemma InsertEventEnqueueJobAndTouch_acts:
  assumes "InsertEventEnqueueJobAndTouch st ev cid db_now now db = Inr (r, db')"
  shows "same_actions db db'"
  using assms
  by (auto simp: InsertEventEnqueueJobAndTouch_def bind_result_def Let_def
      dest!: insert_event_acts enqueue_ingested_acts insertOutboxTx_acts touch_conversation_acts
      intro: same_actions_trans split: option.split_asm sum.split_asm prod.split_asm if_split_asm)

lemma route_failed_acts: "route_failed st s jid now db = Inr (w, db') \<Longrightarrow> same_actions db db'"
  by (auto simp: route_failed_def dest: routeJobEventTx_only outbox_only_actions split: if_split_asm)

lemma CompleteAgentJob_acts: "CompleteAgentJob st jid n s note now db = Inr (w, db') \<Longrightarrow> same_actions db db'"
  by (auto simp: CompleteAgentJob_def Let_def dest!: route_failed_acts split: if_split_asm)

lemma CompleteAgentJobWithResult_acts:
  "CompleteAgentJobWithResult st uid jid n s note a l now db = Inr (w, db') \<Longrightarrow> same_actions db db'"
  by (auto simp: CompleteAgentJobWithResult_def Let_def dest!: route_failed_acts split: if_split_asm)

lemma RetryAgentJob_acts: "RetryAgentJob st jid n err now db = Inr (s, db') \<Longrightarrow> same_actions db db'"
  by (auto simp: RetryAgentJob_def Let_def bind_result_def dest!: routeJobEventTx_only outbox_only_actions
      split: if_split_asm option.split_asm sum.split_asm)

lemma ReleaseUnissuedClaim_acts: "ReleaseUnissuedClaim jid n rep now db = Inr db' \<Longrightarrow> same_actions db db'"
  by (auto simp: ReleaseUnissuedClaim_def Let_def same_actions_def update_jobs_def split: if_split_asm)

lemma requeueTransition_acts: "requeueTransition P f db = (ids, db') \<Longrightarrow> same_actions db db'"
  by (auto simp: requeueTransition_def)

lemma route_jobs_acts: "route_jobs st why now ids db = Inr (w, db') \<Longrightarrow> same_actions db db'"
  by (blast dest: route_jobs_only outbox_only_actions)

lemma RequeueStaleAgentJobs_acts: "RequeueStaleAgentJobs st vis now db = Inr (r, db') \<Longrightarrow> same_actions db db'"
  by (auto simp: RequeueStaleAgentJobs_def Let_def bind_result_def requeueTransition_def dest!: route_jobs_acts
      split: if_split_asm sum.split_asm prod.split_asm)

lemma map_sum_InrE: "map_sum f g x = Inr y \<Longrightarrow> (\<And>z. x = Inr z \<Longrightarrow> y = g z \<Longrightarrow> P) \<Longrightarrow> P"
  by (cases x) auto

lemma RouteUnclaimedAgentJobs_acts: "RouteUnclaimedAgentJobs st age now db = Inr (r, db') \<Longrightarrow> same_actions db db'"
  by (auto simp: RouteUnclaimedAgentJobs_def Let_def elim!: map_sum_InrE dest!: route_jobs_acts split: if_split_asm)

lemma RecordAgentJobUsage_acts: "RecordAgentJobUsage uid jid n u now db = Inr (r, db') \<Longrightarrow> same_actions db db'"
  by (auto simp: RecordAgentJobUsage_def Let_def same_actions_def record_cost_def update_jobs_def insert_usage_def
      bind_result_def split: if_split_asm option.split_asm sum.split_asm)

lemma purgeAgentJobs_acts: "same_actions db (purgeAgentJobs uid db)"
  by (simp add: purgeAgentJobs_def same_actions_def)


lemma insertReservation_acts: "insertReservation b j now db = Inr db' \<Longrightarrow> same_actions db db'"
  by (auto simp: insertReservation_def insert_usage_def same_actions_def split: if_split_asm)

lemma reserve_job_acts: "reserve_job b j now db = Inr db' \<Longrightarrow> same_actions db db'"
  by (auto simp: reserve_job_def dest: insertReservation_acts split: option.split_asm)

lemma storeTurnContext_acts: "storeTurnContext aj db = (aj', db') \<Longrightarrow> same_actions db db'"
  by (metis db_actions_simps(5) snd_conv)

lemma open_claims_acts: "open_claims b now js db = Inr (ajs, db') \<Longrightarrow> same_actions db db'"
proof (induction js arbitrary: db ajs)
  case (Cons j js)
  then show ?case
    by (auto simp: Let_def bind_result_def dest!: storeTurnContext_acts reserve_job_acts
        split: prod.split_asm sum.split_asm) (blast intro: same_actions_trans)
qed simp

lemma claim_each_acts: "claim_each b rep uid rt limit now db = Inr (ajs, db') \<Longrightarrow> same_actions db db'"
  by (auto simp: claim_each_def Let_def dest!: open_claims_acts)

lemma coalesce_members_acts: "coalesce_members h tid now mems db = Inr db' \<Longrightarrow> same_actions db db'"
proof (induction mems arbitrary: db)
  case (Cons m mems)
  from Cons.prems show ?case by (auto simp: Let_def dest!: Cons.IH split: if_split_asm)
qed simp

lemma claim_head_acts: "claim_head b rep rt now j tid mems db = Inr (aj, db') \<Longrightarrow> same_actions db db'"
  by (auto simp: claim_head_def Let_def bind_result_def
      dest!: coalesce_members_acts reserve_job_acts storeTurnContext_acts
      split: sum.split_asm) (blast intro: same_actions_trans)

lemma claim_heads_acts: "claim_heads st cf b rep uid rt now room cs db = Inr (ajs, db') \<Longrightarrow> same_actions db db'"
proof (induction cs arbitrary: db room ajs)
  case (Cons c cs)
  from Cons.prems show ?case
    by (auto simp: bind_result_def dest!: claim_head_acts
        split: if_split_asm sum.split_asm option.split_asm list.split_asm)
      (blast dest: Cons.IH intro: same_actions_trans)+
qed simp

lemma claimCoalesced_acts: "claimCoalesced st cf b rep uid rt limit now db = Inr (ajs, db') \<Longrightarrow> same_actions db db'"
  by (auto simp: claimCoalesced_def Let_def elim!: map_sum_InrE dest!: claim_heads_acts)

lemma queue_budget_notifications_acts:
  "queue_budget_notifications st scope e now ids db = Inr db' \<Longrightarrow> same_actions db db'"
proof (induction ids arbitrary: db)
  case (Cons i ids)
  then show ?case
    by (auto simp: bind_result_def Let_def intro: same_actions_trans[OF insert_notification_acts]
        split: sum.split_asm option.split_asm)
qed simp

lemma pauseForBudget_acts: "pauseForBudget st uid scope e now db = Inr db' \<Longrightarrow> same_actions db db'"
  by (auto simp: pauseForBudget_def Let_def same_actions_def dest!: queue_budget_notifications_acts)

lemma reserveBudget_acts: "reserveBudget st b uid limit now db = Inr (room, ev, db') \<Longrightarrow> same_actions db db'"
  by (auto simp: reserveBudget_def Let_def elim!: map_sum_InrE dest!: pauseForBudget_acts
      split: if_split_asm option.split_asm)

lemma admit_acts: "admit st uid rt limit mi now db = Inr (room, db') \<Longrightarrow> same_actions db db'"
  by (auto simp: admit_def Let_def elim!: map_sum_InrE dest!: reserveBudget_acts split: if_split_asm option.split_asm)

lemma claimAgentJobs_acts:
  "claimAgentJobs st rep uid rt limit mi now db = Inr (ajs, db') \<Longrightarrow> same_actions db db'"
  by (auto simp: claimAgentJobs_def Let_def bind_result_def dest!: admit_acts claim_each_acts claimCoalesced_acts
      intro: same_actions_trans split: if_split_asm sum.split_asm option.split_asm)

lemma recordMessageDeleteInChat_acts:
  assumes inv: "actions_inv db"
  shows "action_ok db (snd (recordMessageDeleteInChat uid self chat msg db_now now db))"
proof (cases "insert_event (delete_event uid self chat msg) None db_now db")
  case (Pair i db1)
  have ok: "action_ok db db1" using inv insert_event_acts[OF Pair] by (rule action_ok_same)
  define P where "P = drafts_of db1 uid (heads_of_events db1 (\<lambda>j. j_user_id j = uid) (\<lambda>e. e_chat_tg_id e = chat \<and> e_message_id e = msg))"
  define db2 where "db2 = update_actions P (deny_action ReasonSourceDeleted now) db1"
  have "action_ok db1 db2" unfolding db2_def
    using ok drafts_of_draft by (intro deny_drafts_acts) (auto simp: action_ok_def P_def)
  then have *: "action_ok db db2" using ok by (blast intro: action_ok_trans)
  show ?thesis
    using * inv unfolding recordMessageDeleteInChat_def Pair
    by (auto simp: Let_def db2_def P_def update_actions_def action_ok_refl split: option.split
        intro: action_ok_same_trans)
qed

lemma record_deletes_acts:
  "actions_inv db \<Longrightarrow> record_deletes uid self chats msg db_now now out db = (out', db') \<Longrightarrow> action_ok db db'"
proof (induction chats arbitrary: db out)
  case (Cons chat chats)
  obtain r db1 where r: "recordMessageDeleteInChat uid self chat msg db_now now db = (r, db1)" by force
  have "action_ok db db1" using recordMessageDeleteInChat_acts[OF Cons.prems(1), of uid self chat msg db_now now] r by simp
  moreover from this have "action_ok db1 db'"
    using Cons.IH[of db1] Cons.prems(2) by (simp add: r Let_def action_ok_def)
  ultimately show ?case by (rule action_ok_trans)
qed (simp add: action_ok_refl)

lemma RecordMessageDelete_acts:
  "actions_inv db \<Longrightarrow> RecordMessageDelete uid self msg db_now now db = Inr (r, db') \<Longrightarrow> action_ok db db'"
  by (auto simp: RecordMessageDelete_def Let_def same_actions_def intro: record_deletes_acts action_ok_same
      split: if_split_asm)


section \<open>Operations on actions leave the queue alone\<close>

lemma update_actions_queue [simp]: "same_queue db (update_actions P f db)"
  by (simp add: update_actions_def same_queue_def)

lemma cas_action_queue [simp]: "same_queue db (snd (cas_action P f db))"
  by (simp add: cas_action_def)

lemma cas_action_queue_eq: "cas_action P f db = (won, db') \<Longrightarrow> same_queue db db'"
  by (metis cas_action_queue snd_conv)

lemma insert_notification_queue [simp]: "same_queue db (insert_notification uid k a b db_now db)"
  by (simp add: insert_notification_def same_queue_def)

lemma insert_action_queue: "insert_action a db = Inr db' \<Longrightarrow> same_queue db db'"
  by (auto simp: insert_action_def same_queue_def split: if_split_asm)

lemma insert_job_action_queue: "insert_job_action st a codes payload db_now now db = Inr (i, db') \<Longrightarrow> same_queue db db'"
  by (auto simp: insert_job_action_def Let_def bind_result_def
      dest!: insert_action_queue routeJobEventTx_only outbox_only_queue intro: same_queue_trans
      split: option.split_asm sum.split_asm if_split_asm)

lemma InsertAgentAction_queue: "InsertAgentAction st a db_now now db = Inr (i, db') \<Longrightarrow> same_queue db db'"
  by (auto simp: InsertAgentAction_def bind_result_def dest: insert_job_action_queue insert_action_queue
      split: if_split_asm sum.split_asm)

lemma InsertStandaloneApproval_queue:
  "InsertStandaloneApprovalWithNotification st a body db_now db = Inr (i, db') \<Longrightarrow> same_queue db db'"
  by (auto simp: InsertStandaloneApprovalWithNotification_def bind_result_def dest!: insert_action_queue
      intro: same_queue_trans split: if_split_asm sum.split_asm prod.split_asm)

lemma UpdateAgentActionStatus_queue: "UpdateAgentActionStatus uid aid f t now db = Inr (won, db') \<Longrightarrow> same_queue db db'"
  by (auto simp: UpdateAgentActionStatus_def dest: cas_action_queue_eq split: if_split_asm)

lemma DenyAgentAction_queue: "DenyAgentAction uid aid f why now db = Inr (won, db') \<Longrightarrow> same_queue db db'"
  by (auto simp: DenyAgentAction_def dest: cas_action_queue_eq split: if_split_asm)

lemma DenyAgentActionWithReason_queue:
  "DenyAgentActionWithReason uid aid f why now db = Inr (won, db') \<Longrightarrow> same_queue db db'"
  by (auto simp: DenyAgentActionWithReason_def dest: cas_action_queue_eq split: if_split_asm)

lemma same_queue_conversations [simp]:
  "same_queue db (db'\<lparr>db_conversations := cs\<rparr>) = same_queue db db'"
  "same_queue db (insert_message cid dir msg eid body db_now db') = same_queue db db'"
  by (simp_all add: same_queue_def insert_message_def)


lemma ReserveAgentActionSend_queue:
  "ReserveAgentActionSend st act rid body mt mm w e now db = Inr (won, db') \<Longrightarrow> same_queue db db'"
  by (auto simp: ReserveAgentActionSend_def Let_def bind_result_def split: if_split_asm sum.split_asm)

lemma BeginExecutingAgentAction_queue:
  "BeginExecutingAgentAction st uid aid rid now db = Inr (won, db') \<Longrightarrow> same_queue db db'"
  by (auto simp: BeginExecutingAgentAction_def bind_result_def dest: ReserveAgentActionSend_queue split: sum.split_asm)

lemma recordAgentActionSent_queue:
  "recordAgentActionSent st f uid aid cid msg txt db_now now db = Inr (won, db') \<Longrightarrow> same_queue db db'"
  by (auto simp: recordAgentActionSent_def Let_def bind_result_def split: option.split_asm sum.split_asm)

lemma MarkAgentActionDeliveryUnknown_queue:
  "MarkAgentActionDeliveryUnknown st uid aid why alert db_now now db = Inr (won, db') \<Longrightarrow> same_queue db db'"
  by (auto simp: MarkAgentActionDeliveryUnknown_def bind_result_def cas_action_def Let_def
      intro: same_queue_trans[OF update_actions_queue insert_notification_queue]
      split: sum.split_asm if_split_asm option.split)

lemma MatchUnconfirmedAgentSend_queue:
  "MatchUnconfirmedAgentSend st uid peer msg txt since db_now now db = (hit, err, db') \<Longrightarrow> same_queue db db'"
  by (auto simp: MatchUnconfirmedAgentSend_def Let_def dest: recordAgentActionSent_queue
      split: if_split_asm sum.split_asm option.split_asm prod.split_asm)

lemma sweeps_queue [simp]:
  "same_queue db (snd (SetAgentActionExecuted uid aid msg now db))"
  "same_queue db (snd (NoteAgentActionSendAttempt uid aid db))"
  "same_queue db (snd (UnnoteAgentActionSendAttempt uid aid t db))"
  "same_queue db (snd (ExpireStaleAgentActions ttl now db))"
  "same_queue db (snd (ExpireAgentActionIfStale uid aid ttl now db))"
  "same_queue db (snd (DenyPendingActionsForConversation uid cid why now db))"
  "same_queue db (snd (DenyPendingActionsForSourceMessage uid cid m why now db))"
  "same_queue db (snd (DenyActionsFromEarlierInstalls uid why now db))"
  by (auto simp: SetAgentActionExecuted_def NoteAgentActionSendAttempt_def UnnoteAgentActionSendAttempt_def
      ExpireStaleAgentActions_def ExpireAgentActionIfStale_def DenyPendingActionsForConversation_def
      DenyPendingActionsForSourceMessage_def DenyActionsFromEarlierInstalls_def Let_def split: option.split)

lemma SweepAgentMessageBodies_ok:
  assumes inv: "jobs_inv db"
  shows "queue_ok db (snd (SweepAgentMessageBodies retention now db))"
proof (cases "retention \<le> 0")
  case False
  define P :: "job \<Rightarrow> bool" where "P = (\<lambda>j. j_status j = JobPending \<and>
    (\<exists>e\<in>set (db_events db). (e_created_at e < now - retention \<and> e_body e \<noteq> None) \<and> e_event_id e = j_event_id j))"
  let ?db1 = "update_jobs P (ignore_job ''payload expired by retention sweep'' now) db"
  have "queue_ok db ?db1" using inv by (intro queue_ok_ignore) (auto simp: P_def)
  moreover have "same_queue ?db1 (snd (SweepAgentMessageBodies retention now db))"
    using False by (simp add: SweepAgentMessageBodies_def Let_def P_def same_queue_def update_jobs_def)
  ultimately show ?thesis by (rule queue_ok_same_trans)
qed (simp add: SweepAgentMessageBodies_def queue_ok_refl inv)

end
