(* ===== verification/Domain.thy ===== *)
theory Domain
  imports Actions
begin

text \<open>
  Profiles, conversations, the message history and owner notifications (\<open>agent_domain.go\<close> and the last
  part of \<open>agent_actions.go\<close>), and the purge of an account. The foreign keys of the schema cascade on
  PostgreSQL only; the purge is modelled by the statements it runs on both databases.
\<close>

section \<open>Conversations\<close>

definition OwnerEngagementWindow :: duration where "OwnerEngagementWindow = 30 * 24 * 60 * minute"

definition OwnerEngaged :: "conversation \<Rightarrow> instant \<Rightarrow> bool" where
  "OwnerEngaged c now = (case c_owner_engaged_at c of None \<Rightarrow> False
     | Some t \<Rightarrow> time_sub now t \<le> OwnerEngagementWindow)"

definition of_peer :: "int \<Rightarrow> int \<Rightarrow> conversation \<Rightarrow> bool" where
  "of_peer uid peer c \<longleftrightarrow> c_user_id c = uid \<and> c_peer_tg_id c = peer"

definition coalesce :: "'a option \<Rightarrow> 'a option \<Rightarrow> 'a option" where
  "coalesce a b = (case a of None \<Rightarrow> b | Some x \<Rightarrow> Some x)"

definition new_conversation ::
  "agent_db \<Rightarrow> int \<Rightarrow> int \<Rightarrow> string option \<Rightarrow> string option \<Rightarrow> instant \<Rightarrow> conversation" where
  "new_conversation db uid peer username display db_now =
     \<lparr>c_id = db_conversation_seq db + 1, c_user_id = uid, c_peer_tg_id = peer, c_peer_username = username,
      c_peer_display_name = display, c_peer_access_hash = 0, c_state = ConversationActive, c_autonomous_turns = 0,
      c_last_incoming_at = None, c_last_agent_reply_at = None, c_owner_engaged_at = None, c_peer_contact = [],
      c_created_at = db_now, c_updated_at = db_now\<rparr>"

definition EnsureConversation ::
  "int \<Rightarrow> int \<Rightarrow> string \<Rightarrow> string \<Rightarrow> instant \<Rightarrow> instant \<Rightarrow> agent_db \<Rightarrow> (db_error, conversation \<times> agent_db) result" where
  "EnsureConversation uid peer username display db_now now db =
     (if uid \<le> 0 \<or> peer = 0 then Inl PeerIdRequired
      else let db' = (if \<exists>c\<in>set (db_conversations db). of_peer uid peer c
             then db\<lparr>db_conversations := update_where (of_peer uid peer)
               (\<lambda>c. c\<lparr>c_peer_username := coalesce (nullable username) (c_peer_username c),
                      c_peer_display_name := coalesce (nullable display) (c_peer_display_name c),
                      c_updated_at := now\<rparr>) (db_conversations db)\<rparr>
             else db\<lparr>db_conversations := db_conversations db @
                       [new_conversation db uid peer (nullable username) (nullable display) db_now],
                     db_conversation_seq := db_conversation_seq db + 1\<rparr>) in
        map_sum id (\<lambda>c. (c, db')) (GetConversationByPeer db' uid peer))"

definition PeerContactYes :: string where "PeerContactYes = ''contact''"
definition PeerContactNo :: string where "PeerContactNo = ''non_contact''"

definition update_conversations :: "(conversation \<Rightarrow> bool) \<Rightarrow> (conversation \<Rightarrow> conversation) \<Rightarrow> agent_db \<Rightarrow> agent_db" where
  "update_conversations P f db = db\<lparr>db_conversations := update_where P f (db_conversations db)\<rparr>"

definition SetConversationPeerContact :: "int \<Rightarrow> int \<Rightarrow> string \<Rightarrow> agent_db \<Rightarrow> (db_error, agent_db) result" where
  "SetConversationPeerContact uid peer contact db =
     (if contact = [] then Inr db
      else if contact \<noteq> PeerContactYes \<and> contact \<noteq> PeerContactNo then Inl PeerContactInvalid
      else Inr (update_conversations (of_peer uid peer) (\<lambda>c. c\<lparr>c_peer_contact := contact\<rparr>) db))"

definition conversation_less :: "conversation \<Rightarrow> instant \<times> int" where
  "conversation_less c = (- c_updated_at c, - c_id c)"

definition GetConversationByUsername :: "agent_db \<Rightarrow> int \<Rightarrow> string \<Rightarrow> (db_error, conversation) result" where
  "GetConversationByUsername db uid username =
     (case sort_key conversation_less (filter (\<lambda>c. c_user_id c = uid \<and>
             (case c_peer_username c of None \<Rightarrow> False
              | Some u \<Rightarrow> map ascii_lower u = map ascii_lower username)) (db_conversations db)) of
        [] \<Rightarrow> Inl ErrConversationNotFound | c # _ \<Rightarrow> Inr c)"

text \<open>Rows with the same \<open>updated_at\<close> are in no order SQL names; the model keeps table order.\<close>

definition ListConversations :: "agent_db \<Rightarrow> int \<Rightarrow> int \<Rightarrow> conversation list" where
  "ListConversations db uid limit = take (nat (if limit \<le> 0 then 20 else limit))
     (sort_key (\<lambda>c. - c_updated_at c) (filter (\<lambda>c. c_user_id c = uid) (db_conversations db)))"

definition later_stamp :: "instant option \<Rightarrow> instant \<Rightarrow> bool" where
  "later_stamp old t = (case old of None \<Rightarrow> True | Some t0 \<Rightarrow> t0 < t)"

definition MarkConversationOwnerEngaged :: "int \<Rightarrow> int \<Rightarrow> instant \<Rightarrow> agent_db \<Rightarrow> agent_db" where
  "MarkConversationOwnerEngaged uid peer t db =
     update_conversations (\<lambda>c. of_peer uid peer c \<and> later_stamp (c_owner_engaged_at c) t)
       (\<lambda>c. c\<lparr>c_owner_engaged_at := Some t\<rparr>) db"

definition SetConversationPeerAccessHash :: "int \<Rightarrow> int \<Rightarrow> int \<Rightarrow> instant \<Rightarrow> agent_db \<Rightarrow> agent_db" where
  "SetConversationPeerAccessHash uid peer accessHash now db =
     (if accessHash = 0 then db
      else update_conversations (of_peer uid peer)
        (\<lambda>c. c\<lparr>c_peer_access_hash := accessHash, c_updated_at := now\<rparr>) db)"

text \<open>An update of one conversation by id, which must exist.\<close>

definition update_conversation ::
  "int \<Rightarrow> int \<Rightarrow> (conversation \<Rightarrow> conversation) \<Rightarrow> agent_db \<Rightarrow> (db_error, agent_db) result" where
  "update_conversation uid cid f db =
     (let P = (\<lambda>c. c_id c = cid \<and> c_user_id c = uid) in
      if count_where P (db_conversations db) = 0 then Inl ErrConversationNotFound
      else Inr (update_conversations P f db))"

definition SetConversationState :: "int \<Rightarrow> int \<Rightarrow> string \<Rightarrow> instant \<Rightarrow> agent_db \<Rightarrow> (db_error, agent_db) result" where
  "SetConversationState uid cid state now = update_conversation uid cid
     (\<lambda>c. c\<lparr>c_state := state, c_updated_at := now\<rparr>)"

definition IncrementAutonomousTurns :: "int \<Rightarrow> int \<Rightarrow> instant \<Rightarrow> agent_db \<Rightarrow> (db_error, agent_db) result" where
  "IncrementAutonomousTurns uid cid now = update_conversation uid cid
     (\<lambda>c. c\<lparr>c_autonomous_turns := c_autonomous_turns c + 1, c_last_agent_reply_at := Some now, c_updated_at := now\<rparr>)"

definition ResetAutonomousTurns :: "int \<Rightarrow> int \<Rightarrow> instant \<Rightarrow> agent_db \<Rightarrow> (db_error, agent_db) result" where
  "ResetAutonomousTurns uid cid now = update_conversation uid cid
     (\<lambda>c. c\<lparr>c_autonomous_turns := 0, c_updated_at := now\<rparr>)"

definition TouchConversationIncoming :: "int \<Rightarrow> int \<Rightarrow> instant \<Rightarrow> agent_db \<Rightarrow> (db_error, agent_db) result" where
  "TouchConversationIncoming uid cid now = update_conversation uid cid
     (\<lambda>c. c\<lparr>c_last_incoming_at := Some now, c_updated_at := now\<rparr>)"

section \<open>Messages\<close>

text \<open>\<open>ConversationMessage\<close> with its plaintext body.\<close>

record conversation_message =
  cm_id :: int
  cm_conversation_id :: int
  cm_direction :: string
  cm_tg_message_id :: int
  cm_event_id :: string
  cm_body :: string
  cm_created_at :: instant

definition InsertConversationMessage ::
  "store \<Rightarrow> int \<Rightarrow> conversation_message \<Rightarrow> instant \<Rightarrow> agent_db \<Rightarrow> (db_error, int \<times> agent_db) result" where
  "InsertConversationMessage st uid m db_now db =
     (if cm_conversation_id m \<le> 0 then Inl ConversationIdRequired
      else if cm_direction m = [] then Inl DirectionRequired
      else bind_result (GetConversation db uid (cm_conversation_id m)) (\<lambda>conv.
           bind_result (seal_body st (cm_body m) (c_user_id conv)) (\<lambda>body.
             Inr (db_message_seq db + 1, insert_message (cm_conversation_id m) (cm_direction m)
               (nullableInt (cm_tg_message_id m)) (nullable (cm_event_id m)) body db_now db))))"

definition listRecentAgentOutgoingTimestamps ::
  "agent_db \<Rightarrow> int \<Rightarrow> int \<Rightarrow> instant \<Rightarrow> int \<Rightarrow> (db_error, instant list) result" where
  "listRecentAgentOutgoingTimestamps db uid cid since excluded =
     map_sum id (\<lambda>_. sort
       (map m_created_at (filter (\<lambda>m. m_conversation_id m = cid \<and> m_direction m = DirectionAgentOutgoing \<and>
          m_created_at m > since) (db_messages db)) @
        map ac_updated_at (filter (\<lambda>a. ac_conversation_id a = Some cid \<and>
          ac_status a \<in> {ActionExecuting, ActionDenied, ActionDeliveryUnknown} \<and>
          ac_random_id a \<noteq> None \<and> ac_updated_at a > since \<and> (excluded = 0 \<or> ac_id a \<noteq> excluded)) (db_actions db))))
       (GetConversation db uid cid)"

definition ListRecentAgentOutgoingTimestamps ::
  "agent_db \<Rightarrow> int \<Rightarrow> int \<Rightarrow> instant \<Rightarrow> (db_error, instant list) result" where
  "ListRecentAgentOutgoingTimestamps db uid cid since = listRecentAgentOutgoingTimestamps db uid cid since 0"

definition ListRecentAgentOutgoingTimestampsExcludingAction ::
  "agent_db \<Rightarrow> int \<Rightarrow> int \<Rightarrow> instant \<Rightarrow> int \<Rightarrow> (db_error, instant list) result" where
  "ListRecentAgentOutgoingTimestampsExcludingAction = listRecentAgentOutgoingTimestamps"

definition open_body :: "store \<Rightarrow> string option \<Rightarrow> int \<Rightarrow> (db_error, string) result" where
  "open_body st sealed uid = (case sealed of None \<Rightarrow> Inr []
     | Some s \<Rightarrow> if s = [] then Inr []
        else (case OpenForUser (st_crypt st) s uid of Inl _ \<Rightarrow> Inl OpenFailed | Inr pt \<Rightarrow> Inr pt))"

definition open_message :: "store \<Rightarrow> int \<Rightarrow> message \<Rightarrow> (db_error, conversation_message) result" where
  "open_message st uid m = map_sum id (\<lambda>pt.
     \<lparr>cm_id = m_id m, cm_conversation_id = m_conversation_id m, cm_direction = m_direction m,
      cm_tg_message_id = (case m_tg_message_id m of None \<Rightarrow> 0 | Some n \<Rightarrow> n),
      cm_event_id = (case m_event_id m of None \<Rightarrow> [] | Some e \<Rightarrow> e),
      cm_body = pt, cm_created_at = m_created_at m\<rparr>) (open_body st (m_body m) uid)"

definition ListConversationMessages ::
  "store \<Rightarrow> agent_db \<Rightarrow> int \<Rightarrow> int \<Rightarrow> int \<Rightarrow> (db_error, conversation_message list) result" where
  "ListConversationMessages st db uid cid limit =
     bind_result (GetConversation db uid cid) (\<lambda>conv.
       map_sum id rev (map_result (open_message st (c_user_id conv))
         (take (nat (if limit \<le> 0 then 50 else limit))
           (sort_key (\<lambda>m. - m_id m) (filter (\<lambda>m. m_conversation_id m = cid) (db_messages db))))))"

section \<open>Profiles\<close>

definition AgentModeObserve :: string where "AgentModeObserve = ''observe''"
definition AgentModeGuarded :: string where "AgentModeGuarded = ''guarded''"
definition AgentModeOff :: string where "AgentModeOff = ''off''"

definition NeedsManagedReconsent :: "profile \<Rightarrow> bool" where
  "NeedsManagedReconsent p \<longleftrightarrow> p_runtime p = RuntimeManaged \<and> p_consent_version p \<noteq> ManagedConsentCurrent"

text \<open>A row as the table's column defaults fill it.\<close>

definition default_profile :: "int \<Rightarrow> instant \<Rightarrow> profile" where
  "default_profile uid db_now =
     \<lparr>p_user_id = uid, p_mode = AgentModeObserve, p_autopilot_paused = False, p_listener_enabled = False,
      p_disclosure_text = [], p_disclosure_disabled = False, p_max_autonomous_turns = 6, p_max_msgs_per_minute = 2,
      p_max_reply_chars = 1200, p_intent_allowlist = [], p_intent_denylist = [], p_working_hours = [],
      p_audience_excludes = [], p_installed_at = None, p_install_revision = 1, p_definition_digest = [],
      p_assistant_name = ''hr-recruiter'', p_assistant_version = ''0.1.0'', p_install = None, p_owner_profile = None,
      p_owner_profile_imported_at = None, p_blocked_senders = [], p_sender_allowlist = [],
      p_runtime = RuntimeOwn, p_consent_version = [], p_consent_at = None, p_paused_until = None,
      p_budget_day = None, p_budget_month = None, p_created_at = db_now, p_updated_at = db_now\<rparr>"

definition positive_or :: "int \<Rightarrow> int \<Rightarrow> int" where
  "positive_or v d = (if v \<le> 0 then d else v)"

text \<open>The columns the upsert writes, from the profile the caller passed.\<close>

definition upsert_columns :: "profile \<Rightarrow> instant \<Rightarrow> profile \<Rightarrow> profile" where
  "upsert_columns p now row = row\<lparr>
     p_mode := (if p_mode p = [] then AgentModeObserve else p_mode p), p_autopilot_paused := p_autopilot_paused p,
     p_listener_enabled := p_listener_enabled p, p_disclosure_text := p_disclosure_text p,
     p_disclosure_disabled := p_disclosure_disabled p,
     p_max_autonomous_turns := positive_or (p_max_autonomous_turns p) 6,
     p_max_msgs_per_minute := positive_or (p_max_msgs_per_minute p) 2,
     p_max_reply_chars := positive_or (p_max_reply_chars p) 1200,
     p_intent_allowlist := p_intent_allowlist p, p_intent_denylist := p_intent_denylist p,
     p_working_hours := p_working_hours p, p_audience_excludes := p_audience_excludes p,
     p_blocked_senders := p_blocked_senders p, p_sender_allowlist := p_sender_allowlist p, p_updated_at := now\<rparr>"

definition has_profile :: "agent_db \<Rightarrow> int \<Rightarrow> bool" where
  "has_profile db uid \<longleftrightarrow> uid \<in> p_user_id ` set (db_profiles db)"

definition update_profiles :: "(profile \<Rightarrow> bool) \<Rightarrow> (profile \<Rightarrow> profile) \<Rightarrow> agent_db \<Rightarrow> agent_db" where
  "update_profiles P f db = db\<lparr>db_profiles := update_where P f (db_profiles db)\<rparr>"

definition UpsertAgentProfile :: "profile \<Rightarrow> instant \<Rightarrow> instant \<Rightarrow> agent_db \<Rightarrow> (db_error, agent_db) result" where
  "UpsertAgentProfile p db_now now db =
     (if p_user_id p \<le> 0 then Inl UserIdRequired
      else if has_profile db (p_user_id p)
        then Inr (update_profiles (\<lambda>r. p_user_id r = p_user_id p) (upsert_columns p now) db)
      else Inr (db\<lparr>db_profiles := db_profiles db @ [upsert_columns p now (default_profile (p_user_id p) db_now)]\<rparr>))"

definition GetAgentProfile :: "agent_db \<Rightarrow> int \<Rightarrow> (db_error, profile) result" where
  "GetAgentProfile db uid = (case profile_of db uid of None \<Rightarrow> Inl ErrAgentProfileNotFound | Some p \<Rightarrow> Inr p)"

definition EnsureAgentProfile :: "int \<Rightarrow> instant \<Rightarrow> agent_db \<Rightarrow> (db_error, agent_db) result" where
  "EnsureAgentProfile uid db_now db =
     (if uid \<le> 0 then Inl UserIdRequired
      else if has_profile db uid then Inr db
      else Inr (db\<lparr>db_profiles := db_profiles db @ [(default_profile uid db_now)\<lparr>p_autopilot_paused := True\<rparr>]\<rparr>))"

text \<open>\<open>AgentProfileUpdate\<close>: an absent field leaves its column alone. The two documents are plaintext here;
  an empty document clears the column.\<close>

record profile_update =
  u_mode :: "string option"
  u_autopilot_paused :: "bool option"
  u_listener_enabled :: "bool option"
  u_disclosure_text :: "string option"
  u_disclosure_disabled :: "bool option"
  u_max_autonomous_turns :: "int option"
  u_max_msgs_per_minute :: "int option"
  u_max_reply_chars :: "int option"
  u_intent_allowlist :: "string option"
  u_intent_denylist :: "string option"
  u_working_hours :: "string option"
  u_audience_excludes :: "string option"
  u_mark_installed_at :: "instant option"
  u_reset_installed_at :: "instant option"
  u_bump_install_revision :: bool
  u_expected_install_revision :: "int option"
  u_assistant_digest :: "string option"
  u_blocked_senders :: "string option"
  u_sender_allowlist :: "string option"
  u_assistant_name :: "string option"
  u_assistant_version :: "string option"
  u_install :: "string option"
  u_owner_profile :: "string option"
  u_runtime :: "string option"
  u_consent_version :: "string option"
  u_consent_at :: "instant option"
  u_clear_consent :: bool
  u_budget_day :: "rat option"
  u_budget_month :: "rat option"
  u_clear_budget_day :: bool
  u_clear_budget_month :: bool
  u_managed_quota :: "int option"

definition no_update :: profile_update where
  "no_update = \<lparr>u_mode = None, u_autopilot_paused = None, u_listener_enabled = None, u_disclosure_text = None,
     u_disclosure_disabled = None, u_max_autonomous_turns = None, u_max_msgs_per_minute = None,
     u_max_reply_chars = None, u_intent_allowlist = None, u_intent_denylist = None, u_working_hours = None,
     u_audience_excludes = None, u_mark_installed_at = None, u_reset_installed_at = None,
     u_bump_install_revision = False, u_expected_install_revision = None, u_assistant_digest = None,
     u_blocked_senders = None, u_sender_allowlist = None, u_assistant_name = None, u_assistant_version = None,
     u_install = None, u_owner_profile = None, u_runtime = None, u_consent_version = None, u_consent_at = None,
     u_clear_consent = False, u_budget_day = None, u_budget_month = None, u_clear_budget_day = False,
     u_clear_budget_month = False, u_managed_quota = None\<rparr>"

text \<open>The guards of the UPDATE do not write a column.\<close>

definition writes_nothing :: "profile_update \<Rightarrow> bool" where
  "writes_nothing u \<longleftrightarrow> u\<lparr>u_expected_install_revision := None, u_managed_quota := None\<rparr> = no_update"

definition set_or :: "'a option \<Rightarrow> 'a \<Rightarrow> 'a" where
  "set_or v old = (case v of None \<Rightarrow> old | Some x \<Rightarrow> x)"

definition set_opt :: "'a option \<Rightarrow> 'a option \<Rightarrow> 'a option" where
  "set_opt v old = (case v of None \<Rightarrow> old | Some x \<Rightarrow> Some x)"

text \<open>A document column: outer \<open>None\<close> leaves it, inner \<open>None\<close> clears it.\<close>

definition seal_document :: "store \<Rightarrow> string option \<Rightarrow> int \<Rightarrow> (db_error, string option option) result" where
  "seal_document st doc uid = (case doc of None \<Rightarrow> Inr None
     | Some d \<Rightarrow> map_sum id Some (seal_body st d uid))"

text \<open>The assignments of the UPDATE. Where two of them name one column the right-most counts, so the
  clear flags override a value and a mark overrides a reset.\<close>

definition apply_update ::
  "profile_update \<Rightarrow> string option option \<Rightarrow> string option option \<Rightarrow> instant \<Rightarrow> profile \<Rightarrow> profile" where
  "apply_update u install owner now p = p\<lparr>
     p_mode := set_or (u_mode u) (p_mode p),
     p_autopilot_paused := set_or (u_autopilot_paused u) (p_autopilot_paused p),
     p_listener_enabled := set_or (u_listener_enabled u) (p_listener_enabled p),
     p_disclosure_text := set_or (u_disclosure_text u) (p_disclosure_text p),
     p_disclosure_disabled := set_or (u_disclosure_disabled u) (p_disclosure_disabled p),
     p_max_autonomous_turns := set_or (u_max_autonomous_turns u) (p_max_autonomous_turns p),
     p_max_msgs_per_minute := set_or (u_max_msgs_per_minute u) (p_max_msgs_per_minute p),
     p_max_reply_chars := set_or (u_max_reply_chars u) (p_max_reply_chars p),
     p_intent_allowlist := set_or (u_intent_allowlist u) (p_intent_allowlist p),
     p_intent_denylist := set_or (u_intent_denylist u) (p_intent_denylist p),
     p_working_hours := set_or (u_working_hours u) (p_working_hours p),
     p_audience_excludes := set_or (u_audience_excludes u) (p_audience_excludes p),
     p_runtime := set_or (u_runtime u) (p_runtime p),
     p_consent_version := (if u_clear_consent u then [] else set_or (u_consent_version u) (p_consent_version p)),
     p_consent_at := (if u_clear_consent u then None else set_opt (u_consent_at u) (p_consent_at p)),
     p_budget_day := (if u_clear_budget_day u then None else set_opt (u_budget_day u) (p_budget_day p)),
     p_budget_month := (if u_clear_budget_month u then None else set_opt (u_budget_month u) (p_budget_month p)),
     p_installed_at := (case u_mark_installed_at u of Some t \<Rightarrow> coalesce (p_installed_at p) (Some t)
        | None \<Rightarrow> set_opt (u_reset_installed_at u) (p_installed_at p)),
     p_definition_digest := set_or (u_assistant_digest u) (p_definition_digest p),
     p_install_revision := (if u_bump_install_revision u then p_install_revision p + 1 else p_install_revision p),
     p_blocked_senders := set_or (u_blocked_senders u) (p_blocked_senders p),
     p_sender_allowlist := set_or (u_sender_allowlist u) (p_sender_allowlist p),
     p_assistant_name := set_or (u_assistant_name u) (p_assistant_name p),
     p_assistant_version := set_or (u_assistant_version u) (p_assistant_version p),
     p_install := set_or install (p_install p),
     p_owner_profile := set_or owner (p_owner_profile p),
     p_owner_profile_imported_at := (if u_owner_profile u = None then p_owner_profile_imported_at p else Some now),
     p_updated_at := now\<rparr>"

definition other_managed :: "agent_db \<Rightarrow> int \<Rightarrow> int" where
  "other_managed db uid = count_where (\<lambda>p. p_runtime p = RuntimeManaged \<and> p_user_id p \<noteq> uid) (db_profiles db)"

definition CountManagedAccounts :: "agent_db \<Rightarrow> int" where
  "CountManagedAccounts db = count_where (\<lambda>p. p_runtime p = RuntimeManaged) (db_profiles db)"

definition update_guard :: "agent_db \<Rightarrow> int \<Rightarrow> profile_update \<Rightarrow> profile \<Rightarrow> bool" where
  "update_guard db uid u p \<longleftrightarrow> p_user_id p = uid \<and>
     (case u_expected_install_revision u of None \<Rightarrow> True | Some r \<Rightarrow> p_install_revision p = r) \<and>
     (case u_managed_quota u of None \<Rightarrow> True | Some q \<Rightarrow> other_managed db uid < q)"

definition installRevisionMiss :: "agent_db \<Rightarrow> int \<Rightarrow> db_error" where
  "installRevisionMiss db uid = (case profile_of db uid of
     None \<Rightarrow> ErrAgentProfileNotFound | Some p \<Rightarrow> InstallRevisionConflict (p_install_revision p))"

definition update_miss :: "agent_db \<Rightarrow> int \<Rightarrow> profile_update \<Rightarrow> db_error" where
  "update_miss db uid u =
     (case profile_of db uid of
        Some p \<Rightarrow> if u_managed_quota u \<noteq> None \<and>
              (case u_expected_install_revision u of None \<Rightarrow> True | Some r \<Rightarrow> p_install_revision p = r)
            then ErrManagedQuota
            else if u_expected_install_revision u = None then ErrAgentProfileNotFound else installRevisionMiss db uid
      | None \<Rightarrow> if u_expected_install_revision u = None then ErrAgentProfileNotFound else installRevisionMiss db uid)"

definition UpdateAgentProfileFields ::
  "store \<Rightarrow> int \<Rightarrow> profile_update \<Rightarrow> instant \<Rightarrow> agent_db \<Rightarrow> (db_error, agent_db) result" where
  "UpdateAgentProfileFields st uid u now db =
     (if uid \<le> 0 then Inl UserIdRequired
      else bind_result (seal_document st (u_install u) uid) (\<lambda>install.
           bind_result (seal_document st (u_owner_profile u) uid) (\<lambda>owner.
        if writes_nothing u then Inr db
        else if count_where (update_guard db uid u) (db_profiles db) = 0 then Inl (update_miss db uid u)
        else Inr (update_profiles (update_guard db uid u) (apply_update u install owner now) db))))"

definition SetAgentOwnerProfile ::
  "store \<Rightarrow> int \<Rightarrow> string \<Rightarrow> instant \<Rightarrow> agent_db \<Rightarrow> (db_error, agent_db) result" where
  "SetAgentOwnerProfile st uid doc now db =
     (if doc = [] then Inl OwnerProfileRequired
      else UpdateAgentProfileFields st uid (no_update\<lparr>u_owner_profile := Some doc\<rparr>) now db)"

definition ClearAgentOwnerProfile :: "store \<Rightarrow> int \<Rightarrow> instant \<Rightarrow> agent_db \<Rightarrow> (db_error, agent_db) result" where
  "ClearAgentOwnerProfile st uid now db =
     UpdateAgentProfileFields st uid (no_update\<lparr>u_owner_profile := Some []\<rparr>) now db"

definition SetAgentOwnerProfileIfMissing ::
  "store \<Rightarrow> int \<Rightarrow> string \<Rightarrow> instant \<Rightarrow> agent_db \<Rightarrow> (db_error, bool \<times> agent_db) result" where
  "SetAgentOwnerProfileIfMissing st uid doc now db =
     (if uid \<le> 0 then Inl UserIdRequired
      else if doc = [] then Inl OwnerProfileRequired
      else case SealForUser (st_crypt st) doc uid of Inl m \<Rightarrow> Inl (SealFailed m)
        | Inr sealed \<Rightarrow>
           let P = (\<lambda>p. p_user_id p = uid \<and> p_owner_profile p = None \<and> p_owner_profile_imported_at p = None \<and>
                       uid \<notin> set (db_import_tombstones db)) in
           Inr (count_where P (db_profiles db) = 1, update_profiles P
             (\<lambda>p. p\<lparr>p_owner_profile := Some sealed, p_owner_profile_imported_at := Some now, p_updated_at := now\<rparr>) db))"

definition GetAgentOwnerProfile :: "store \<Rightarrow> agent_db \<Rightarrow> int \<Rightarrow> (db_error, string) result" where
  "GetAgentOwnerProfile st db uid =
     (if uid \<le> 0 then Inl UserIdRequired
      else case profile_of db uid of None \<Rightarrow> Inl OwnerProfileNotFound
        | Some p \<Rightarrow> (case p_owner_profile p of None \<Rightarrow> Inl OwnerProfileNotFound
            | Some s \<Rightarrow> if s = [] then Inl OwnerProfileNotFound
                else (case OpenForUser (st_crypt st) s uid of Inl _ \<Rightarrow> Inl OpenFailed | Inr pt \<Rightarrow> Inr pt)))"

definition SetAgentAutopilotPaused :: "int \<Rightarrow> bool \<Rightarrow> instant \<Rightarrow> agent_db \<Rightarrow> (db_error, agent_db) result" where
  "SetAgentAutopilotPaused uid paused now db =
     (if count_where (\<lambda>p. p_user_id p = uid) (db_profiles db) = 0 then Inl ErrAgentProfileNotFound
      else Inr (update_profiles (\<lambda>p. p_user_id p = uid)
             (\<lambda>p. p\<lparr>p_autopilot_paused := paused, p_updated_at := now\<rparr>) db))"

definition ListListenerEnabledProfiles :: "agent_db \<Rightarrow> profile list" where
  "ListListenerEnabledProfiles db = filter p_listener_enabled (db_profiles db)"

section \<open>Owner notifications\<close>

definition ListPendingOwnerNotifications :: "store \<Rightarrow> instant \<Rightarrow> int \<Rightarrow> agent_db \<Rightarrow> (notification \<times> string) list" where
  "ListPendingOwnerNotifications st now limit db = List.map_filter (\<lambda>n.
       case open_body st (n_body n) (n_user_id n) of Inl _ \<Rightarrow> None | Inr pt \<Rightarrow> Some (n, pt))
     (take (nat (if limit \<le> 0 then 50 else limit)) (sort_key n_created_at
       (filter (\<lambda>n. n_status n = NotificationPending \<and>
          (case n_claimed_until n of None \<Rightarrow> True | Some t \<Rightarrow> t < now)) (db_notifications db))))"

definition HasOwnerNotificationSince :: "int \<Rightarrow> string \<Rightarrow> instant \<Rightarrow> agent_db \<Rightarrow> (db_error, bool) result" where
  "HasOwnerNotificationSince uid kind since db =
     (if uid \<le> 0 then Inl UserIdRequired
      else Inr (\<exists>n\<in>set (db_notifications db). n_user_id n = uid \<and> n_kind n = kind \<and> n_created_at n \<ge> since))"

definition InsertOwnerNotification ::
  "store \<Rightarrow> int \<Rightarrow> string \<Rightarrow> int \<Rightarrow> string \<Rightarrow> instant \<Rightarrow> agent_db \<Rightarrow> (db_error, int \<times> agent_db) result" where
  "InsertOwnerNotification st uid kind aid body db_now db =
     (if uid \<le> 0 then Inl UserIdRequired
      else if kind = [] then Inl NotificationKindRequired
      else bind_result (if aid \<noteq> 0 then map_sum id (\<lambda>_. ()) (GetAgentAction st db uid aid) else Inr ()) (\<lambda>_.
           bind_result (seal_body st body uid) (\<lambda>sealed.
        if aid \<noteq> 0 \<and> (\<exists>n\<in>set (db_notifications db). n_action_id n = Some aid)
        then (case List.find (\<lambda>n. n_user_id n = uid \<and> n_action_id n = Some aid) (db_notifications db) of
                None \<Rightarrow> Inl ErrOwnerNotificationNotFound | Some n \<Rightarrow> Inr (n_id n, db))
        else Inr (db_notification_seq db + 1, insert_notification uid kind (nullableInt aid) sealed db_now db))))"

definition update_notifications :: "(notification \<Rightarrow> bool) \<Rightarrow> (notification \<Rightarrow> notification) \<Rightarrow> agent_db \<Rightarrow> agent_db" where
  "update_notifications P f db = db\<lparr>db_notifications := update_where P f (db_notifications db)\<rparr>"

definition pending_note :: "int \<Rightarrow> int \<Rightarrow> notification \<Rightarrow> bool" where
  "pending_note uid nid n \<longleftrightarrow> n_id n = nid \<and> n_user_id n = uid \<and> n_status n = NotificationPending"

definition ClaimOwnerNotification ::
  "int \<Rightarrow> int \<Rightarrow> int \<Rightarrow> duration \<Rightarrow> instant \<Rightarrow> agent_db \<Rightarrow> (db_error, int option \<times> agent_db) result" where
  "ClaimOwnerNotification uid nid candidate lease now db =
     (if candidate = 0 then Inl RandomIdRequired
      else let P = (\<lambda>n. pending_note uid nid n \<and> (case n_claimed_until n of None \<Rightarrow> True | Some t \<Rightarrow> t < now));
               f = (\<lambda>n. n\<lparr>n_claimed_until := Some (now + lease),
                          n_random_id := coalesce (n_random_id n) (Some candidate)\<rparr>) in
        Inr (case List.find P (db_notifications db) of
               None \<Rightarrow> (None, db) | Some n \<Rightarrow> (n_random_id (f n), update_notifications P f db)))"

definition MarkOwnerNotificationSent ::
  "int \<Rightarrow> int \<Rightarrow> int \<Rightarrow> instant \<Rightarrow> agent_db \<Rightarrow> (db_error, agent_db) result" where
  "MarkOwnerNotificationSent uid nid msg now db =
     (if count_where (pending_note uid nid) (db_notifications db) = 0 then Inl ErrOwnerNotificationNotFound
      else Inr (update_notifications (pending_note uid nid)
             (\<lambda>n. n\<lparr>n_status := NotificationSent, n_tg_message_id := nullableInt msg, n_sent_at := Some now\<rparr>) db))"

definition MarkOwnerNotificationFailed :: "int \<Rightarrow> int \<Rightarrow> agent_db \<Rightarrow> (db_error, agent_db) result" where
  "MarkOwnerNotificationFailed uid nid db =
     (if count_where (pending_note uid nid) (db_notifications db) = 0 then Inl ErrOwnerNotificationNotFound
      else Inr (update_notifications (pending_note uid nid) (\<lambda>n. n\<lparr>n_status := NotificationFailed\<rparr>) db))"

section \<open>Purging an account\<close>

definition purgeAgentData :: "int \<Rightarrow> agent_db \<Rightarrow> agent_db" where
  "purgeAgentData uid db =
     (let db1 = purgeAgentJobs uid db;
          convs = c_id ` set (filter (\<lambda>c. c_user_id c = uid) (db_conversations db1)) in
      db1\<lparr>db_import_tombstones := (if uid \<in> set (db_import_tombstones db1) then db_import_tombstones db1
                                  else db_import_tombstones db1 @ [uid]),
          db_notifications := delete_where (\<lambda>n. n_user_id n = uid) (db_notifications db1),
          db_actions := delete_where (\<lambda>a. ac_user_id a = uid) (db_actions db1),
          db_pending_deletes := delete_where (\<lambda>d. pd_user_id d = uid) (db_pending_deletes db1),
          db_leads := delete_where (\<lambda>l. l_user_id l = uid) (db_leads db1),
          db_messages := delete_where (\<lambda>m. m_conversation_id m \<in> convs) (db_messages db1),
          db_conversations := delete_where (\<lambda>c. c_user_id c = uid) (db_conversations db1),
          db_events := delete_where (\<lambda>e. e_user_id e = uid) (db_events db1),
          db_profiles := delete_where (\<lambda>p. p_user_id p = uid) (db_profiles db1)\<rparr>)"

end
