(* ===== verification/StoreMachine.thy ===== *)
theory StoreMachine
  imports ActionInv Domain
begin

text \<open>
  The store as one machine: every operation that writes a table of the agent, in any order and from any
  caller, as an operation of \<open>store_step\<close>. An operation that returns an error has rolled its transaction
  back. The outputs of a run are the sends it reserved.
\<close>

section \<open>Operations\<close>

datatype queue_op =
    OpInsertEvent incoming_event instant
  | OpEnqueue string int int instant
  | OpInsertEnqueue incoming_event int instant
  | OpIngest incoming_event int instant instant
  | OpDelete int int int instant instant
  | OpSweepPendingDeletes instant
  | OpClaim string int string int instant
  | OpClaimManaged string int int int instant
  | OpComplete int int job_status string instant
  | OpCompleteResult int int int job_status string int int instant
  | OpRetry int int string instant
  | OpRelease int int string instant
  | OpRequeueStale duration instant
  | OpRouteUnclaimed duration instant
  | OpUsage int int int usage_report instant
  | OpCost int int int rat instant

datatype outbox_op =
    OpAcquireLease string instant duration
  | OpReleaseLease string
  | OpPublished int instant
  | OpPublishFailed int string
  | OpPurgeOutbox instant

datatype action_op =
    OpInsertAction new_action instant instant
  | OpInsertApproval new_action string instant
  | OpUpdateStatus int int action_status action_status instant
  | OpDeny int int action_status string instant
  | OpDenyReason int int action_status string instant
  | OpReserve action int string int int instant bool instant
  | OpBegin int int int instant
  | OpSetExecuted int int int instant
  | OpRecordSent int int int int string instant instant
  | OpNoteAttempt int int
  | OpUnnoteAttempt int int "instant option"
  | OpUnknown int int string string instant instant
  | OpMatchEcho int int int string instant instant instant
  | OpExpireStale duration instant
  | OpExpireOne int int duration instant
  | OpDenyConversation int int string instant
  | OpDenySource int int int string instant
  | OpDenyInstalls int string instant
  | OpRetention duration instant

datatype domain_op =
    OpEnsureConversation int int string string instant instant
  | OpPeerContact int int string
  | OpOwnerEngaged int int instant
  | OpAccessHash int int int instant
  | OpConversationState int int string instant
  | OpIncrementTurns int int instant
  | OpResetTurns int int instant
  | OpTouchIncoming int int instant
  | OpInsertMessage int conversation_message instant
  | OpUpsertProfile profile instant instant
  | OpEnsureProfile int instant
  | OpUpdateProfile int profile_update instant
  | OpOwnerProfileIfMissing int string instant
  | OpPause int bool instant
  | OpInsertNotification int string int string instant
  | OpClaimNotification int int int duration instant
  | OpNotificationSent int int int instant
  | OpNotificationFailed int int
  | OpPurge int

datatype store_op = Queue queue_op | Outbox outbox_op | Action action_op | Domain domain_op

text \<open>The database after a transaction: an error leaves it as it was.\<close>

fun committed :: "agent_db \<Rightarrow> (db_error, 'a \<times> agent_db) result \<Rightarrow> agent_db" where
  "committed db (Inl _) = db"
| "committed db (Inr (_, db')) = db'"

fun written :: "agent_db \<Rightarrow> (db_error, agent_db) result \<Rightarrow> agent_db" where
  "written db (Inl _) = db"
| "written db (Inr db') = db'"

fun queue_write :: "store \<Rightarrow> agent_db \<Rightarrow> queue_op \<Rightarrow> agent_db" where
  "queue_write st db (OpInsertEvent ev dn) = committed db (InsertIncomingEvent st ev dn db)"
| "queue_write st db (OpEnqueue eid uid cid dn) = committed db (EnqueueAgentJob eid uid cid dn db)"
| "queue_write st db (OpInsertEnqueue ev cid dn) = committed db (InsertEventAndEnqueueJob st ev cid dn db)"
| "queue_write st db (OpIngest ev cid dn now) = committed db (InsertEventEnqueueJobAndTouch st ev cid dn now db)"
| "queue_write st db (OpDelete uid self msg dn now) = committed db (RecordMessageDelete uid self msg dn now db)"
| "queue_write st db (OpSweepPendingDeletes now) = SweepExpiredPendingDeletes now db"
| "queue_write st db (OpClaim rep uid rt limit now) = committed db (ClaimAgentJobs st rep uid rt limit now db)"
| "queue_write st db (OpClaimManaged rep uid limit mi now) = committed db (ClaimManagedAgentJobs st rep uid limit mi now db)"
| "queue_write st db (OpComplete jid n s note now) = committed db (CompleteAgentJob st jid n s note now db)"
| "queue_write st db (OpCompleteResult uid jid n s note a l now) =
     committed db (CompleteAgentJobWithResult st uid jid n s note a l now db)"
| "queue_write st db (OpRetry jid n err now) = committed db (RetryAgentJob st jid n err now db)"
| "queue_write st db (OpRelease jid n rep now) = written db (ReleaseUnissuedClaim jid n rep now db)"
| "queue_write st db (OpRequeueStale vis now) = committed db (RequeueStaleAgentJobs st vis now db)"
| "queue_write st db (OpRouteUnclaimed age now) = committed db (RouteUnclaimedAgentJobs st age now db)"
| "queue_write st db (OpUsage uid jid n u now) = committed db (RecordAgentJobUsage uid jid n u now db)"
| "queue_write st db (OpCost uid jid n c now) = written db (RecordAgentJobCost uid jid n c now db)"

fun outbox_write :: "store \<Rightarrow> agent_db \<Rightarrow> outbox_op \<Rightarrow> agent_db" where
  "outbox_write st db (OpAcquireLease h now ttl) = committed db (AcquireOutboxLease h now ttl db)"
| "outbox_write st db (OpReleaseLease h) = ReleaseOutboxLease h db"
| "outbox_write st db (OpPublished rid t) = MarkOutboxPublished rid t db"
| "outbox_write st db (OpPublishFailed rid why) = MarkOutboxFailed rid why db"
| "outbox_write st db (OpPurgeOutbox t) = snd (PurgePublishedOutbox t db)"

fun action_write :: "store \<Rightarrow> agent_db \<Rightarrow> action_op \<Rightarrow> agent_db" where
  "action_write st db (OpInsertAction a dn now) = committed db (InsertAgentAction st a dn now db)"
| "action_write st db (OpInsertApproval a body dn) = committed db (InsertStandaloneApprovalWithNotification st a body dn db)"
| "action_write st db (OpUpdateStatus uid aid f t now) = committed db (UpdateAgentActionStatus uid aid f t now db)"
| "action_write st db (OpDeny uid aid f why now) = committed db (DenyAgentAction uid aid f why now db)"
| "action_write st db (OpDenyReason uid aid f why now) = committed db (DenyAgentActionWithReason uid aid f why now db)"
| "action_write st db (OpReserve act rid body mt mm w e now) =
     committed db (ReserveAgentActionSend st act rid body mt mm w e now db)"
| "action_write st db (OpBegin uid aid rid now) = committed db (BeginExecutingAgentAction st uid aid rid now db)"
| "action_write st db (OpSetExecuted uid aid msg now) = snd (SetAgentActionExecuted uid aid msg now db)"
| "action_write st db (OpRecordSent uid aid cid msg txt dn now) =
     committed db (RecordAgentActionSent st uid aid cid msg txt dn now db)"
| "action_write st db (OpNoteAttempt uid aid) = snd (NoteAgentActionSendAttempt uid aid db)"
| "action_write st db (OpUnnoteAttempt uid aid t) = snd (UnnoteAgentActionSendAttempt uid aid t db)"
| "action_write st db (OpUnknown uid aid why alert dn now) =
     committed db (MarkAgentActionDeliveryUnknown st uid aid why alert dn now db)"
| "action_write st db (OpMatchEcho uid peer msg txt since dn now) =
     snd (snd (MatchUnconfirmedAgentSend st uid peer msg txt since dn now db))"
| "action_write st db (OpExpireStale ttl now) = snd (ExpireStaleAgentActions ttl now db)"
| "action_write st db (OpExpireOne uid aid ttl now) = snd (ExpireAgentActionIfStale uid aid ttl now db)"
| "action_write st db (OpDenyConversation uid cid why now) = snd (DenyPendingActionsForConversation uid cid why now db)"
| "action_write st db (OpDenySource uid cid msg why now) = snd (DenyPendingActionsForSourceMessage uid cid msg why now db)"
| "action_write st db (OpDenyInstalls uid why now) = snd (DenyActionsFromEarlierInstalls uid why now db)"
| "action_write st db (OpRetention r now) = snd (SweepAgentMessageBodies r now db)"

fun domain_write :: "store \<Rightarrow> agent_db \<Rightarrow> domain_op \<Rightarrow> agent_db" where
  "domain_write st db (OpEnsureConversation uid peer un dn t now) = committed db (EnsureConversation uid peer un dn t now db)"
| "domain_write st db (OpPeerContact uid peer s) = written db (SetConversationPeerContact uid peer s db)"
| "domain_write st db (OpOwnerEngaged uid peer t) = MarkConversationOwnerEngaged uid peer t db"
| "domain_write st db (OpAccessHash uid peer h now) = SetConversationPeerAccessHash uid peer h now db"
| "domain_write st db (OpConversationState uid cid s now) = written db (SetConversationState uid cid s now db)"
| "domain_write st db (OpIncrementTurns uid cid now) = written db (IncrementAutonomousTurns uid cid now db)"
| "domain_write st db (OpResetTurns uid cid now) = written db (ResetAutonomousTurns uid cid now db)"
| "domain_write st db (OpTouchIncoming uid cid now) = written db (TouchConversationIncoming uid cid now db)"
| "domain_write st db (OpInsertMessage uid m dn) = committed db (InsertConversationMessage st uid m dn db)"
| "domain_write st db (OpUpsertProfile p dn now) = written db (UpsertAgentProfile p dn now db)"
| "domain_write st db (OpEnsureProfile uid dn) = written db (EnsureAgentProfile uid dn db)"
| "domain_write st db (OpUpdateProfile uid u now) = written db (UpdateAgentProfileFields st uid u now db)"
| "domain_write st db (OpOwnerProfileIfMissing uid doc now) = committed db (SetAgentOwnerProfileIfMissing st uid doc now db)"
| "domain_write st db (OpPause uid b now) = written db (SetAgentAutopilotPaused uid b now db)"
| "domain_write st db (OpInsertNotification uid k aid body dn) = committed db (InsertOwnerNotification st uid k aid body dn db)"
| "domain_write st db (OpClaimNotification uid nid r l now) = committed db (ClaimOwnerNotification uid nid r l now db)"
| "domain_write st db (OpNotificationSent uid nid msg now) = written db (MarkOwnerNotificationSent uid nid msg now db)"
| "domain_write st db (OpNotificationFailed uid nid) = written db (MarkOwnerNotificationFailed uid nid db)"
| "domain_write st db (OpPurge uid) = purgeAgentData uid db"

fun store_write :: "store \<Rightarrow> agent_db \<Rightarrow> store_op \<Rightarrow> agent_db" where
  "store_write st db (Queue x) = queue_write st db x"
| "store_write st db (Outbox x) = outbox_write st db x"
| "store_write st db (Action x) = action_write st db x"
| "store_write st db (Domain x) = domain_write st db x"

text \<open>The action and the random id a successful reservation hands to the executor.\<close>

definition reserved :: "int \<Rightarrow> int \<Rightarrow> (db_error, bool \<times> agent_db) result \<Rightarrow> (int \<times> int) list" where
  "reserved aid rid r = (case r of Inr (True, _) \<Rightarrow> [(aid, rid)] | _ \<Rightarrow> [])"

fun store_sends :: "store \<Rightarrow> agent_db \<Rightarrow> store_op \<Rightarrow> (int \<times> int) list" where
  "store_sends st db (Action (OpReserve act rid body mt mm w e now)) =
     reserved (ac_id act) rid (ReserveAgentActionSend st act rid body mt mm w e now db)"
| "store_sends st db (Action (OpBegin uid aid rid now)) = reserved aid rid (BeginExecutingAgentAction st uid aid rid now db)"
| "store_sends st db _ = []"

definition store_step :: "store \<Rightarrow> agent_db \<Rightarrow> store_op \<Rightarrow> agent_db \<times> (int \<times> int) list" where
  "store_step st db x = (store_write st db x, store_sends st db x)"

fun store_run :: "store \<Rightarrow> agent_db \<Rightarrow> store_op list \<Rightarrow> agent_db \<times> (int \<times> int) list" where
  "store_run st db [] = (db, [])"
| "store_run st db (x # xs) =
     (let (db1, o1) = store_step st db x; (db2, o2) = store_run st db1 xs in (db2, o1 @ o2))"

section \<open>The invariant\<close>

definition store_inv :: "agent_db \<Rightarrow> bool" where
  "store_inv db \<longleftrightarrow> jobs_inv db \<and> actions_inv db"

definition store_ok :: "agent_db \<Rightarrow> agent_db \<Rightarrow> bool" where
  "store_ok db db' \<longleftrightarrow> queue_ok db db' \<and> action_ok db db'"

lemma store_ok_refl: "store_inv db \<Longrightarrow> store_ok db db"
  by (simp add: store_inv_def store_ok_def queue_ok_refl action_ok_refl)

lemma store_ok_inv: "store_ok db db' \<Longrightarrow> store_inv db'"
  by (simp add: store_ok_def store_inv_def queue_ok_def action_ok_def)

lemma store_okI: "queue_ok db db' \<Longrightarrow> action_ok db db' \<Longrightarrow> store_ok db db'"
  by (simp add: store_ok_def)

lemma store_ok_queue: "store_inv db \<Longrightarrow> queue_ok db db' \<Longrightarrow> same_actions db db' \<Longrightarrow> store_ok db db'"
  by (simp add: store_ok_def store_inv_def action_ok_same)

lemma store_ok_actions: "store_inv db \<Longrightarrow> same_queue db db' \<Longrightarrow> action_ok db db' \<Longrightarrow> store_ok db db'"
  by (simp add: store_ok_def store_inv_def queue_ok_same)

lemma store_ok_same: "store_inv db \<Longrightarrow> same_queue db db' \<Longrightarrow> same_actions db db' \<Longrightarrow> store_ok db db'"
  by (simp add: store_ok_def store_inv_def queue_ok_same action_ok_same)

lemma committed_ok:
  assumes "store_inv db" and "\<And>x db'. r = Inr (x, db') \<Longrightarrow> store_ok db db'"
  shows "store_ok db (committed db r)"
  using assms by (cases "(db, r)" rule: committed.cases) (auto intro: store_ok_refl)

lemma written_ok:
  assumes "store_inv db" and "\<And>db'. r = Inr db' \<Longrightarrow> store_ok db db'"
  shows "store_ok db (written db r)"
  using assms by (cases r) (auto intro: store_ok_refl)

lemma claim_entry_ok:
  assumes inv: "store_inv db" and run: "claimAgentJobs st rep uid rt limit mi now db = Inr (ajs, db')"
  shows "store_ok db db'"
  using inv run by (auto simp: store_inv_def intro: store_ok_queue[OF inv] claimAgentJobs_ok claimAgentJobs_acts)

lemma queue_write_ok:
  assumes inv: "store_inv db"
  shows "store_ok db (queue_write st db x)"
proof -
  have ji: "jobs_inv db" and ai: "actions_inv db" using inv by (simp_all add: store_inv_def)
  note q = store_ok_queue[OF inv]
  note steps = q[OF InsertIncomingEvent_ok[OF ji] InsertIncomingEvent_acts]
    q[OF EnqueueAgentJob_ok[OF ji] EnqueueAgentJob_acts]
    q[OF InsertEventAndEnqueueJob_ok[OF ji] InsertEventAndEnqueueJob_acts]
    q[OF InsertEventEnqueueJobAndTouch_ok[OF ji] InsertEventEnqueueJobAndTouch_acts]
    store_okI[OF RecordMessageDelete_ok[OF ji] RecordMessageDelete_acts[OF ai]]
    q[OF CompleteAgentJob_ok[OF ji] CompleteAgentJob_acts]
    q[OF CompleteAgentJobWithResult_ok[OF ji] CompleteAgentJobWithResult_acts]
    q[OF RetryAgentJob_ok[OF ji] RetryAgentJob_acts] q[OF ReleaseUnissuedClaim_ok[OF ji] ReleaseUnissuedClaim_acts]
    q[OF RequeueStaleAgentJobs_ok[OF ji] RequeueStaleAgentJobs_acts]
    q[OF RouteUnclaimedAgentJobs_ok[OF ji] RouteUnclaimedAgentJobs_acts]
    q[OF RecordAgentJobUsage_ok[OF ji] RecordAgentJobUsage_acts] claim_entry_ok[OF inv]
  show ?thesis
    by (cases x) (auto intro!: committed_ok[OF inv] written_ok[OF inv] intro: steps store_ok_same[OF inv]
        simp: ClaimAgentJobs_def ClaimManagedAgentJobs_def RecordAgentJobCost_def SweepExpiredPendingDeletes_def
          same_queue_def same_actions_def elim!: map_sum_InrE split: if_split_asm)
qed

lemma outbox_write_ok:
  assumes inv: "store_inv db"
  shows "store_ok db (outbox_write st db x)"
  by (cases x) (auto intro!: committed_ok[OF inv] store_ok_same[OF inv]
      simp: AcquireOutboxLease_def ReleaseOutboxLease_def MarkOutboxPublished_def MarkOutboxFailed_def
        PurgePublishedOutbox_def Let_def same_queue_def same_actions_def split: if_split_asm option.split)

lemma action_write_ok:
  assumes inv: "store_inv db"
  shows "store_ok db (action_write st db x)"
proof -
  have ji: "jobs_inv db" and ai: "actions_inv db" using inv by (simp_all add: store_inv_def)
  note a = store_ok_actions[OF inv]
  note steps = a[OF InsertAgentAction_queue InsertAgentAction_acts[OF ai]]
    a[OF InsertStandaloneApproval_queue InsertStandaloneApproval_acts[OF ai]]
    a[OF UpdateAgentActionStatus_queue UpdateAgentActionStatus_acts[OF ai]]
    a[OF DenyAgentAction_queue DenyAgentAction_acts[OF ai]]
    a[OF DenyAgentActionWithReason_queue DenyAgentActionWithReason_acts[OF ai]]
    a[OF ReserveAgentActionSend_queue ReserveAgentActionSend_acts[OF ai]]
    a[OF BeginExecutingAgentAction_queue BeginExecutingAgentAction_acts[OF ai]]
    a[OF recordAgentActionSent_queue recordAgentActionSent_acts[OF ai]]
    a[OF MarkAgentActionDeliveryUnknown_queue MarkAgentActionDeliveryUnknown_acts[OF ai]]
  note sweeps = a[OF sweeps_queue(1) SetAgentActionExecuted_acts[OF ai]]
    a[OF sweeps_queue(2) NoteAgentActionSendAttempt_acts[OF ai]] a[OF sweeps_queue(3) UnnoteAgentActionSendAttempt_acts[OF ai]]
    a[OF sweeps_queue(4) ExpireStaleAgentActions_acts[OF ai]] a[OF sweeps_queue(5) ExpireAgentActionIfStale_acts[OF ai]]
    a[OF sweeps_queue(6) DenyPendingActionsForConversation_acts[OF ai]]
    a[OF sweeps_queue(7) DenyPendingActionsForSourceMessage_acts[OF ai]]
    a[OF sweeps_queue(8) DenyActionsFromEarlierInstalls_acts[OF ai]]
    store_okI[OF SweepAgentMessageBodies_ok[OF ji] SweepAgentMessageBodies_acts[OF ai]]
  have echo: "store_ok db (snd (snd (MatchUnconfirmedAgentSend st uid peer msg body since dn now db)))"
    for uid peer msg body since dn now
    using a[OF MatchUnconfirmedAgentSend_queue MatchUnconfirmedAgentSend_acts[OF ai]] by (metis prod.exhaust_sel)
  show ?thesis
    by (cases x) (auto intro!: committed_ok[OF inv] intro: steps sweeps echo simp: RecordAgentActionSent_def)
qed

lemma update_conversation_same:
  "update_conversation uid cid f db = Inr db' \<Longrightarrow> same_queue db db' \<and> same_actions db db'"
  by (auto simp: update_conversation_def Let_def update_conversations_def same_queue_def same_actions_def split: if_split_asm)

lemma UpdateAgentProfileFields_same:
  "UpdateAgentProfileFields st uid u now db = Inr db' \<Longrightarrow> same_queue db db' \<and> same_actions db db'"
  by (auto simp: UpdateAgentProfileFields_def update_profiles_def same_queue_def same_actions_def bind_result_def
      split: if_split_asm sum.split_asm)

lemma purgeAgentData_ok:
  assumes inv: "store_inv db"
  shows "store_ok db (purgeAgentData uid db)"
proof (rule store_okI)
  have "same_queue (purgeAgentJobs uid db) (purgeAgentData uid db)"
    by (simp add: purgeAgentData_def Let_def same_queue_def)
  then show "queue_ok db (purgeAgentData uid db)"
    using purgeAgentJobs_ok inv by (auto simp: store_inv_def intro: queue_ok_same_trans)
  have "db_actions (purgeAgentData uid db) = delete_where (\<lambda>a. ac_user_id a = uid) (db_actions db)"
    "db_action_seq (purgeAgentData uid db) = db_action_seq db"
    by (simp_all add: purgeAgentData_def purgeAgentJobs_def Let_def)
  then show "action_ok db (purgeAgentData uid db)"
    using inv keyed_delete[of ac_id "db_action_seq db" "db_actions db" "\<lambda>a. ac_user_id a = uid"]
    by (auto simp: action_ok_def actions_inv_def action_rel_def store_inv_def list_all_iff in_delete_where)
qed

lemma domain_write_ok:
  assumes inv: "store_inv db"
  shows "store_ok db (domain_write st db x)"
  using purgeAgentData_ok[OF inv] update_conversation_same UpdateAgentProfileFields_same
  by (cases x) (auto intro!: committed_ok[OF inv] written_ok[OF inv] intro: store_ok_same[OF inv] elim!: map_sum_InrE
      simp: EnsureConversation_def SetConversationPeerContact_def MarkConversationOwnerEngaged_def
        SetConversationPeerAccessHash_def SetConversationState_def IncrementAutonomousTurns_def ResetAutonomousTurns_def
        TouchConversationIncoming_def InsertConversationMessage_def UpsertAgentProfile_def EnsureAgentProfile_def
        SetAgentOwnerProfileIfMissing_def SetAgentAutopilotPaused_def
        InsertOwnerNotification_def ClaimOwnerNotification_def MarkOwnerNotificationSent_def
        MarkOwnerNotificationFailed_def update_conversations_def update_profiles_def update_notifications_def
        insert_message_def insert_notification_def bind_result_def Let_def same_queue_def same_actions_def
      split: if_split_asm sum.split_asm option.split_asm)

lemma store_write_ok: "store_inv db \<Longrightarrow> store_ok db (store_write st db x)"
  by (cases x) (simp_all add: queue_write_ok outbox_write_ok action_write_ok domain_write_ok)

section \<open>Runs\<close>

definition store_rel :: "agent_db \<Rightarrow> agent_db \<Rightarrow> bool" where
  "store_rel db db' \<longleftrightarrow> queue_rel db db' \<and> action_rel db db'"

text \<open>An action id is spent once no draft carries it and the sequence has passed it.\<close>

definition spent_action :: "agent_db \<Rightarrow> int \<Rightarrow> bool" where
  "spent_action db aid \<longleftrightarrow> aid \<le> db_action_seq db \<and>
     (\<forall>a\<in>set (db_actions db). ac_id a = aid \<longrightarrow> ac_status a \<notin> drafts)"

interpretation store_machine: machine "store_step st" "store_run st" store_inv for st
proof
  show "store_inv (fst (store_step st db x))" if "store_inv db" for db x
    using store_ok_inv[OF store_write_ok[OF that]] by (simp add: store_step_def)
qed simp_all

interpretation store_forward: monotone_machine "store_step st" "store_run st" store_inv store_rel for st
proof
  show "store_rel db (fst (store_step st db x))" if "store_inv db" for db x
    using store_write_ok[OF that, of st x] by (simp add: store_step_def store_rel_def store_ok_def queue_ok_def action_ok_def)
qed (auto simp: store_rel_def intro: queue_rel_trans action_rel_trans)

lemma action_rel_spent:
  assumes rel: "action_rel db db'" and spent: "spent_action db aid"
  shows "spent_action db' aid"
proof -
  have "ac_status a' \<notin> drafts" if a': "a' \<in> set (db_actions db')" and aid: "ac_id a' = aid" for a'
  proof -
    have "\<not> ac_id a' > db_action_seq db" using spent aid by (simp add: spent_action_def)
    then obtain a where a: "a \<in> set (db_actions db)" "action_step\<^sup>*\<^sup>* a a'"
      using rel a' unfolding action_rel_def by blast
    then have "ac_status a \<notin> drafts"
      using spent aid action_steps_same[OF a(2)] by (simp add: spent_action_def same_action_def)
    then show ?thesis using a(2) action_steps_no_draft by blast
  qed
  then show ?thesis using rel spent by (auto simp: spent_action_def action_rel_def)
qed

lemma reserve_spends:
  assumes inv: "actions_inv db" and res: "ReserveAgentActionSend st act rid body mt mm w e now db = Inr (True, db')"
  shows "\<not> spent_action db (ac_id act) \<and> spent_action db' (ac_id act)"
proof -
  obtain cid sealed where some: "count_where (send_row act cid) (db_actions db) \<noteq> 0"
    and acts: "db_actions db' = update_where (send_row act cid) (begin_send rid sealed now) (db_actions db)"
    and sq: "db_action_seq db' = db_action_seq db"
    by (rule ReserveAgentActionSend_won[OF res]) simp
  obtain a where a: "a \<in> set (db_actions db)" "send_row act cid a"
    using some by (auto simp: count_where_pos)
  have bound: "ac_id act \<le> db_action_seq db" and uniq: "b = a" if "b \<in> set (db_actions db)" "ac_id b = ac_id act" for b
    using inv a that keyed_unique[of ac_id "db_action_seq db" "db_actions db" b a]
    by (auto simp: actions_inv_def keyed_def send_row_def in_status_def)
  have "\<not> spent_action db (ac_id act)"
    using a by (auto simp: spent_action_def send_row_def in_status_def drafts_def)
  moreover have "ac_status b \<notin> drafts" if mem: "b \<in> set (db_actions db')" and idb: "ac_id b = ac_id act" for b
  proof -
    obtain x where x: "x \<in> set (db_actions db)" and b: "b = (if send_row act cid x then begin_send rid sealed now x else x)"
      using mem unfolding acts by (auto simp: in_update_where)
    have "ac_id x = ac_id act" using idb b by (simp add: begin_send_def split: if_split_asm)
    then have "x = a" using x by (intro uniq)
    then show ?thesis using a(2) b by (simp add: begin_send_def drafts_def)
  qed
  ultimately show ?thesis using bound[OF a(1)] a(2) by (auto simp: spent_action_def sq send_row_def in_status_def)
qed

lemma reserved_in: "y \<in> set (reserved aid rid r) \<Longrightarrow> y = (aid, rid) \<and> (\<exists>db'. r = Inr (True, db'))"
  by (cases r) (auto simp: reserved_def split: bool.split_asm)

lemma store_sends_spend:
  assumes inv: "store_inv db" and y: "y \<in> set (store_sends st db x)"
  shows "\<not> spent_action db (fst y) \<and> spent_action (store_write st db x) (fst y)"
proof -
  have ai: "actions_inv db" using inv by (simp add: store_inv_def)
  show ?thesis using y
  proof (cases "(st, db, x)" rule: store_sends.cases)
    case (1 _ _ act rid body mt mm w e now)
    obtain db' where res: "ReserveAgentActionSend st act rid body mt mm w e now db = Inr (True, db')"
      and y1: "y = (ac_id act, rid)"
      using 1 y by (auto dest: reserved_in)
    then show ?thesis using reserve_spends[OF ai res] 1 by simp
  next
    case (2 _ _ uid aid rid now)
    obtain db' where won: "BeginExecutingAgentAction st uid aid rid now db = Inr (True, db')" and y2: "y = (aid, rid)"
      using 2 y by (auto dest: reserved_in)
    then obtain act where act: "GetAgentAction st db uid aid = Inr act"
      and res: "ReserveAgentActionSend st act rid [] 0 0 zero_time False now db = Inr (True, db')"
      by (auto simp: BeginExecutingAgentAction_def bind_result_def split: sum.split_asm)
    have "ac_id act = aid"
      using act by (auto simp: GetAgentAction_def getAgentAction_def dest!: find_SomeD split: option.split_asm if_split_asm)
    then show ?thesis using reserve_spends[OF ai res] 2 won y2 by simp
  qed simp_all
qed

interpretation store_once: once_machine "store_step st" "store_run st" store_inv fst spent_action for st
proof
  show "distinct (map fst (snd (store_step st db x)))" for db x
    by (cases "(st, db, x)" rule: store_sends.cases)
      (auto simp: store_step_def reserved_def split: sum.split prod.split bool.split)
  show "\<not> spent_action db (fst y) \<and> spent_action (fst (store_step st db x)) (fst y)"
    if "store_inv db" "y \<in> set (snd (store_step st db x))" for db x y
    using store_sends_spend[of db y st x] that by (simp add: store_step_def)
  show "spent_action (fst (store_step st db x)) k" if "store_inv db" "spent_action db k" for db x k
    using store_write_ok[OF that(1), of st x] that(2) action_rel_spent
    by (auto simp: store_step_def store_ok_def action_ok_def)
qed

end
