(* ===== verification/StoreProps.thy ===== *)
theory StoreProps
  imports StoreMachine
begin

text \<open>
  What holds of the store in every state it can reach from an empty database, whatever the order of the
  operations, and the concrete run on which the claims are witnessed.
\<close>

section \<open>An empty database and a sample run\<close>

definition empty_db :: agent_db where
  "empty_db = \<lparr>db_jobs = [], db_job_seq = 0, db_attempts = [], db_attempt_seq = 0, db_usage = [], db_usage_seq = 0,
     db_events = [], db_event_seq = 0, db_profiles = [], db_conversations = [], db_conversation_seq = 0,
     db_messages = [], db_message_seq = 0, db_actions = [], db_action_seq = 0, db_notifications = [],
     db_notification_seq = 0, db_outbox = [], db_outbox_seq = 0, db_lease = None, db_pending_deletes = [],
     db_lead_results = [], db_leads = [], db_import_tombstones = []\<rparr>"

lemma empty_db_inv: "store_inv empty_db"
  by (simp add: store_inv_def jobs_inv_def actions_inv_def empty_db_def keyed_def one_processing_def ledger_ok_def)

definition demo_crypt :: crypt where
  "demo_crypt = \<lparr>SealForUser = (\<lambda>s _. Inr s), OpenForUser = (\<lambda>s _. Inr s),
     BlindIndexForUser = (\<lambda>_ s _. Inr s), sha256_hex = (\<lambda>s. s)\<rparr>"

definition demo_store :: store where
  "demo_store = \<lparr>st_crypt = demo_crypt, st_turn_cfg = None, st_budget = None, st_operator_routing = False,
     st_outbox = None\<rparr>"

definition demo_message :: "string \<Rightarrow> int \<Rightarrow> incoming_event" where
  "demo_message eid msg = \<lparr>ie_event_id = eid, ie_user_id = 7, ie_kind = EventKindPrivateMessage, ie_chat_tg_id = 42,
     ie_sender_tg_id = 42, ie_message_id = msg, ie_body = ''hello'', ie_meta = []\<rparr>"

definition demo_reply :: new_action where
  "demo_reply = \<lparr>na_user_id = 7, na_code = [], na_job_id = 1, na_attempt = 1, na_conversation_id = 1,
     na_type = ActionTypeReply, na_intent = ''greeting'', na_payload = ''hi'', na_decision = ''allow'',
     na_reasons = [], na_status = Some ActionApproved\<rparr>"

text \<open>Two messages of one chat, the claim of the first, and a reply approved for it.\<close>

definition demo_ingest :: "store_op list" where
  "demo_ingest = [Domain (OpEnsureConversation 7 42 ''bob'' ''Bob'' 0 0),
     Queue (OpIngest (demo_message ''a'' 1) 1 10 10), Queue (OpIngest (demo_message ''b'' 2) 1 20 20)]"

definition demo_claimed :: agent_db where
  "demo_claimed = fst (store_run demo_store empty_db (demo_ingest @ [Queue (OpClaim ''w'' 7 RuntimeOwn 5 30)]))"

definition demo_drafted :: agent_db where
  "demo_drafted = fst (store_run demo_store demo_claimed [Action (OpInsertAction demo_reply 40 40)])"

definition demo_act :: action where
  "demo_act = action_row demo_reply (None, None) (Some ''hi'') (Some 1) 1 40 demo_claimed"

definition demo_send :: store_op where
  "demo_send = Action (OpReserve demo_act 99 ''hi'' 6 2 0 True 50)"

lemma demo_inv: "store_inv demo_claimed" "store_inv demo_drafted"
  unfolding demo_drafted_def demo_claimed_def by (intro store_machine.run_inv empty_db_inv)+

section \<open>The queue\<close>

lemma reached_inv: "store_inv (fst (store_run st empty_db ops))"
  by (intro store_machine.run_inv empty_db_inv)

text \<open>Claim C1. In every state the store can reach, a conversation has at most one job being processed,
  however claims, sweeps, deletes, completions and account operations interleave: messages of one dialog are
  never answered concurrently.\<close>

theorem one_job_per_conversation:
  assumes "db = fst (store_run st empty_db ops)" and "j \<in> set (db_jobs db)" and "k \<in> set (db_jobs db)"
    and "j_status j = JobProcessing" and "j_status k = JobProcessing"
    and "j_conversation_id j = Some c" and "j_conversation_id k = Some c"
  shows "j = k"
proof -
  have inv: "jobs_inv db" using reached_inv assms(1) by (simp add: store_inv_def)
  then have "one_processing (db_jobs db)" by (simp add: jobs_inv_def)
  then have "j_id j = j_id k" unfolding one_processing_def using assms(2-) by (metis option.distinct(1))
  then show ?thesis using inv assms(2,3) jobs_inv_unique by blast
qed

theorem one_job_per_conversation_witness:
  "\<exists>j. j \<in> set (db_jobs demo_claimed) \<and> j_status j = JobProcessing \<and> j_conversation_id j = Some 1 \<and>
    (\<forall>k. k \<in> set (db_jobs demo_claimed) \<and> j_status k = JobProcessing \<and> j_conversation_id k = Some 1 \<longrightarrow> j = k)"
proof -
  have "\<exists>j\<in>set (db_jobs demo_claimed). j_status j = JobProcessing \<and> j_conversation_id j = Some 1" by code_simp
  then show ?thesis
    using one_job_per_conversation[OF demo_claimed_def, where c = 1] by metis
qed

text \<open>Claim C3. In every reachable state the attempt ledger matches the queue: a job being processed has exactly
  one open attempt row, which carries its current attempt number, every other job has none, and a queued job
  still has an attempt left.\<close>

theorem attempt_ledger:
  assumes "db = fst (store_run st empty_db ops)" and "j \<in> set (db_jobs db)"
  shows "map t_attempt (filter (\<lambda>a. t_job_id a = j_id j \<and> t_finished_at a = None) (db_attempts db)) =
      (if j_status j = JobProcessing then [j_attempts j] else []) \<and>
    (j_status j = JobPending \<longrightarrow> 0 \<le> j_attempts j \<and> j_attempts j < j_max_attempts j) \<and>
    (j_status j = JobProcessing \<longrightarrow> 1 \<le> j_attempts j \<and> j_attempts j \<le> j_max_attempts j)"
proof -
  have inv: "jobs_inv db" using reached_inv assms(1) by (simp add: store_inv_def)
  then have led: "open_attempts (db_attempts db) (j_id j) = expected_open j" and ok: "attempts_ok j"
    using assms(2) by (auto simp: jobs_inv_def ledger_ok_def list_all_iff)
  show ?thesis
    using led ok unfolding open_attempts_def expected_open_def open_of_def attempts_ok_def by simp
qed

theorem attempt_ledger_witness:
  "map t_attempt (filter (\<lambda>a. t_job_id a = 1 \<and> t_finished_at a = None) (db_attempts demo_claimed)) = [1] \<and>
   j_attempts (hd (db_jobs demo_claimed)) \<le> 5"
proof -
  have j: "hd (db_jobs demo_claimed) \<in> set (db_jobs demo_claimed)" "j_status (hd (db_jobs demo_claimed)) = JobProcessing"
    "j_id (hd (db_jobs demo_claimed)) = 1" "j_attempts (hd (db_jobs demo_claimed)) = 1" "j_max_attempts (hd (db_jobs demo_claimed)) = 5"
    by code_simp+
  show ?thesis using attempt_ledger[OF demo_claimed_def j(1)] j(2-5) by simp
qed

lemma queue_forward:
  assumes inv: "store_inv db" and j: "j \<in> set (db_jobs db)"
    and j': "j' \<in> set (db_jobs (fst (store_run st db ops)))" "j_id j' = j_id j"
  shows "job_step\<^sup>*\<^sup>* j j'"
proof -
  have rel: "queue_rel db (fst (store_run st db ops))" using store_forward.run_rel[OF inv] by (simp add: store_rel_def)
  have ji: "jobs_inv db" using inv by (simp add: store_inv_def)
  then have "j_id j \<le> db_job_seq db" using j by (auto simp: jobs_inv_def keyed_def)
  then obtain j0 where j0: "j0 \<in> set (db_jobs db)" "job_step\<^sup>*\<^sup>* j0 j'"
    using rel j' unfolding queue_rel_def by fastforce
  then have "j0 = j" using jobs_inv_unique[OF ji j0(1) j] job_steps_identity[OF j0(2)] j'(2) by (simp add: same_identity_def)
  then show ?thesis using j0 by simp
qed

text \<open>Claim C6. A job never leaves a terminal status, and whatever happens to it later it stays the job of the
  same event, account and conversation: no operation reuses or reopens a finished job.\<close>

theorem finished_job_stays:
  assumes "store_inv db" and "j \<in> set (db_jobs db)" and "j_status j \<notin> {JobPending, JobProcessing}"
    and "j' \<in> set (db_jobs (fst (store_run st db ops)))" and "j_id j' = j_id j"
  shows "j_status j' = j_status j \<and> j_event_id j' = j_event_id j \<and> j_user_id j' = j_user_id j \<and>
    j_conversation_id j' = j_conversation_id j"
proof -
  have "job_step\<^sup>*\<^sup>* j j'" using queue_forward assms(1,2,4,5) .
  then show ?thesis using job_steps_terminal[of j j'] job_steps_identity[of j j'] assms(3)
    by (simp add: terminal_def same_identity_def)
qed

definition demo_done :: agent_db where
  "demo_done = fst (store_run demo_store demo_claimed [Queue (OpComplete 1 1 JobIgnored ''spam'' 60)])"

theorem finished_job_stays_witness:
  "j_status (hd (db_jobs (fst (store_run demo_store demo_done
     [Queue (OpRetry 1 1 ''late'' 70), Queue (OpRequeueStale 1 1000), Queue (OpClaim ''w'' 7 RuntimeOwn 5 2000)])))) = JobIgnored"
proof -
  let ?ops = "[Queue (OpRetry 1 1 ''late'' 70), Queue (OpRequeueStale 1 1000), Queue (OpClaim ''w'' 7 RuntimeOwn 5 2000)]"
  have inv: "store_inv demo_done" unfolding demo_done_def by (intro store_machine.run_inv demo_inv)
  have j: "hd (db_jobs demo_done) \<in> set (db_jobs demo_done)" "j_status (hd (db_jobs demo_done)) = JobIgnored"
    "hd (db_jobs (fst (store_run demo_store demo_done ?ops))) \<in> set (db_jobs (fst (store_run demo_store demo_done ?ops)))"
    "j_id (hd (db_jobs (fst (store_run demo_store demo_done ?ops)))) = j_id (hd (db_jobs demo_done))"
    by code_simp+
  show ?thesis using finished_job_stays[OF inv j(1) _ j(3,4)] j(2) by simp
qed

section \<open>Actions\<close>

text \<open>Claim C2. Over any run from an empty database, at most one reservation of each action ever succeeds: a
  reply is handed to the Telegram client under one random id, so retries after a crash are the same send.\<close>

theorem action_reserved_once: "distinct (map fst (snd (store_run st empty_db ops)))"
  by (rule store_once.run_once[OF empty_db_inv])

lemma action_forward:
  assumes inv: "store_inv db" and a: "a \<in> set (db_actions db)"
    and a': "a' \<in> set (db_actions (fst (store_run st db ops)))" "ac_id a' = ac_id a"
  shows "action_step\<^sup>*\<^sup>* a a'"
proof -
  have rel: "action_rel db (fst (store_run st db ops))" using store_forward.run_rel[OF inv] by (simp add: store_rel_def)
  have ai: "keyed ac_id (db_action_seq db) (db_actions db)" using inv by (simp add: store_inv_def actions_inv_def)
  then have "ac_id a \<le> db_action_seq db" using a by (auto simp: keyed_def)
  then obtain a0 where a0: "a0 \<in> set (db_actions db)" "action_step\<^sup>*\<^sup>* a0 a'"
    using rel a' unfolding action_rel_def by fastforce
  then have "a0 = a" using keyed_unique[OF ai a0(1) a] action_steps_same[OF a0(2)] a'(2) by (simp add: same_action_def)
  then show ?thesis using a0 by simp
qed

text \<open>Claim C4. The random id of a reserved send never changes and never goes away, and the action can never
  return to a draft: recovery always retries with the id Telegram deduplicates on.\<close>

theorem random_id_kept:
  assumes "store_inv db" and "a \<in> set (db_actions db)" and "ac_random_id a = Some r"
    and "a' \<in> set (db_actions (fst (store_run st db ops)))" and "ac_id a' = ac_id a"
  shows "ac_random_id a' = Some r \<and> ac_status a' \<notin> {ActionProposed, ActionPendingApproval, ActionApproved}"
proof -
  have steps: "action_step\<^sup>*\<^sup>* a a'" using action_forward assms(1,2,4,5) .
  have "draft_clean a" using assms(1,2) by (auto simp: store_inv_def actions_inv_def list_all_iff)
  then have "ac_random_id a' = Some r" "ac_status a \<notin> drafts"
    using action_steps_random[OF steps] assms(3) by (auto simp: draft_clean_def)
  then show ?thesis using action_steps_no_draft[OF steps] by (simp add: drafts_def)
qed

definition demo_sending :: agent_db where
  "demo_sending = fst (store_run demo_store demo_drafted [demo_send])"

theorem random_id_kept_witness:
  "ac_random_id (hd (db_actions (fst (store_run demo_store demo_sending
     [Action (OpUnknown 7 1 ''timeout'' [] 60 60), Action (OpReserve demo_act 100 ''hi'' 6 2 0 True 70)])))) = Some 99"
proof -
  let ?ops = "[Action (OpUnknown 7 1 ''timeout'' [] 60 60), Action (OpReserve demo_act 100 ''hi'' 6 2 0 True 70)]"
  have inv: "store_inv demo_sending" unfolding demo_sending_def by (intro store_machine.run_inv demo_inv)
  have a: "hd (db_actions demo_sending) \<in> set (db_actions demo_sending)" "ac_random_id (hd (db_actions demo_sending)) = Some 99"
    "hd (db_actions (fst (store_run demo_store demo_sending ?ops))) \<in> set (db_actions (fst (store_run demo_store demo_sending ?ops)))"
    "ac_id (hd (db_actions (fst (store_run demo_store demo_sending ?ops)))) = ac_id (hd (db_actions demo_sending))"
    by code_simp+
  show ?thesis by (rule random_id_kept[OF inv a, THEN conjunct1])
qed

lemma action_steps_status:
  "action_step\<^sup>*\<^sup>* a a' \<Longrightarrow> (\<lambda>s t. t \<in> next_status s)\<^sup>*\<^sup>* (ac_status a) (ac_status a')"
  by (induction rule: rtranclp_induct) (auto elim!: action_stepE intro: rtranclp.rtrancl_into_rtrancl)

text \<open>Claim C5. The status of an action only ever moves along the lifecycle documented in \<open>agent_actions.go\<close>
  (\<open>next_status\<close>), and an executed, rejected, expired or denied action keeps its status, its owner and its
  conversation for good.\<close>

theorem action_lifecycle:
  assumes "store_inv db" and "a \<in> set (db_actions db)"
    and "a' \<in> set (db_actions (fst (store_run st db ops)))" and "ac_id a' = ac_id a"
  shows "(\<lambda>s t. t \<in> next_status s)\<^sup>*\<^sup>* (ac_status a) (ac_status a') \<and> ac_user_id a' = ac_user_id a \<and>
    ac_conversation_id a' = ac_conversation_id a \<and>
    (next_status (ac_status a) = {} \<longrightarrow> ac_status a' = ac_status a)"
proof -
  have steps: "action_step\<^sup>*\<^sup>* a a'" using action_forward assms .
  have path: "(\<lambda>s t. t \<in> next_status s)\<^sup>*\<^sup>* (ac_status a) (ac_status a')" using action_steps_status[OF steps] .
  moreover have "ac_status a' = ac_status a" if "next_status (ac_status a) = {}"
    using path that by (auto elim: converse_rtranclpE)
  ultimately show ?thesis using action_steps_same[OF steps] by (simp add: same_action_def)
qed

theorem action_lifecycle_witness:
  "(\<lambda>s t. t \<in> next_status s)\<^sup>*\<^sup>* ActionApproved
     (ac_status (hd (db_actions (fst (store_run demo_store demo_drafted
        [demo_send, Action (OpRecordSent 7 1 1 500 ''hi'' 60 60)])))))"
proof -
  let ?ops = "[demo_send, Action (OpRecordSent 7 1 1 500 ''hi'' 60 60)]"
  have a: "hd (db_actions demo_drafted) \<in> set (db_actions demo_drafted)"
    "hd (db_actions (fst (store_run demo_store demo_drafted ?ops))) \<in> set (db_actions (fst (store_run demo_store demo_drafted ?ops)))"
    "ac_id (hd (db_actions (fst (store_run demo_store demo_drafted ?ops)))) = ac_id (hd (db_actions demo_drafted))"
    "ac_status (hd (db_actions demo_drafted)) = ActionApproved"
    by code_simp+
  show ?thesis unfolding a(4)[symmetric] by (rule action_lifecycle[OF demo_inv(2) a(1-3), THEN conjunct1])
qed

end
