(* ===== verification/JobProps.thy ===== *)
theory JobProps
  imports StoreProps
begin

text \<open>
  What single operations of the queue guarantee: the backoff schedule, the fence around a claim's attempt
  number, the ledger of reported usage, and ingestion that records an event once.
\<close>

section \<open>Backoff\<close>

lemma backoff_loop_eq:
  "0 < d \<Longrightarrow> d \<le> 30 * minute \<Longrightarrow> backoff_loop n d = min (d * 2 ^ n) (30 * minute)"
proof (induction n arbitrary: d)
  case (Suc n)
  have w: "wrap64 (d * 2) = d * 2" using Suc.prems by (intro wrap64_id) (auto simp: min_int64_def max_int64_def)
  show ?case
  proof (cases "d * 2 \<ge> 30 * minute")
    case True
    then have "30 * minute \<le> d * 2 * 1" by simp
    also have "d * 2 * 1 \<le> d * 2 * 2 ^ n" using Suc.prems by (intro mult_left_mono) auto
    also have "d * 2 * 2 ^ n = d * 2 ^ Suc n" by simp
    finally show ?thesis using True w by (simp add: Let_def)
  next
    case False
    then show ?thesis using w Suc.prems Suc.IH[of "d * 2"] by (simp add: Let_def mult.assoc)
  qed
qed simp

text \<open>The retry delay of the \<open>n\<close>-th attempt is exactly 30 seconds doubled \<open>n - 1\<close> times and capped at
  30 minutes; no attempt number, however large or negative, makes the doubling overflow.\<close>

theorem backoff_schedule:
  "AgentJobBackoff n = min (30 * second * 2 ^ nat (max 1 n - 1)) (30 * minute)"
  by (simp add: AgentJobBackoff_def Let_def backoff_loop_eq max_def)

section \<open>The attempt fence\<close>

lemma insertOutboxReasonTx_err: "insertOutboxReasonTx st ev now why db = Inl e \<Longrightarrow> \<exists>m. e = EnvelopeFailed m"
  by (auto simp: insertOutboxReasonTx_def split: option.splits sum.splits if_splits)

lemma insertRoutedOutboxTx_err: "insertRoutedOutboxTx st uid eid why now db = Inl e \<Longrightarrow> \<exists>m. e = EnvelopeFailed m"
  by (auto simp: insertRoutedOutboxTx_def split: option.splits if_splits dest: insertOutboxReasonTx_err)

lemma route_events_err: "route_events st why now srcs db = Inl e \<Longrightarrow> \<exists>m. e = EnvelopeFailed m"
  by (induction st why now srcs db rule: route_events.induct)
     (auto split: sum.splits prod.splits dest: insertRoutedOutboxTx_err)

lemma routeJobEventTx_err: "routeJobEventTx st jid why now db = Inl e \<Longrightarrow> \<exists>m. e = EnvelopeFailed m"
  by (auto simp: routeJobEventTx_def split: if_splits dest: route_events_err)


section \<open>Reported usage\<close>

lemma record_cost_simps [simp]: "db_usage (record_cost jid u now db) = db_usage db"
  by (simp add: record_cost_def update_jobs_def)

lemma find_record_cost:
  "List.find (\<lambda>j. j_id j = jid \<and> j_user_id j = uid \<and> j_attempts j = n) (db_jobs (record_cost jid u now db)) =
   map_option (\<lambda>j. if j_id j = jid then j\<lparr>j_cost_usd := Some (CostUSD u), j_updated_at := now\<rparr> else j)
     (List.find (\<lambda>j. j_id j = jid \<and> j_user_id j = uid \<and> j_attempts j = n) (db_jobs db))"
  unfolding record_cost_def update_jobs_def by (simp add: find_update_where)

lemma settle_simps [simp]:
  "us_job_id (settle u now r) = us_job_id r" "us_attempt (settle u now r) = us_attempt r"
  "us_status (settle u now r) = UsageSettled" "same_figures (settle u now r) v \<longleftrightarrow>
     CostUSD u = CostUSD v \<and> Model u = Model v \<and> Runner u = Runner v \<and> InputTokens u = InputTokens v \<and>
     OutputTokens u = OutputTokens v"
  by (simp_all add: settle_def same_figures_def)

text \<open>What an accepted report leaves behind: the job is still found under the attempt, on the same runtime, and
  the attempt's row is settled with the reported figures.\<close>

lemma usage_settled:
  assumes "RecordAgentJobUsage uid jid n u now db = Inr (res, db')"
  obtains j r where "List.find (\<lambda>j. j_id j = jid \<and> j_user_id j = uid \<and> j_attempts j = n) (db_jobs db') = Some j"
    and "List.find (\<lambda>r. us_job_id r = jid \<and> us_attempt r = n) (db_usage db') = Some r"
    and "uid > 0" and "j_runtime j = Some RuntimeManaged \<longrightarrow> JobScoped u"
    and "us_status r = UsageSettled" and "same_figures r u"
proof -
  obtain j where j: "List.find (\<lambda>j. j_id j = jid \<and> j_user_id j = uid \<and> j_attempts j = n) (db_jobs db) = Some j"
    and uid: "uid > 0" and js: "j_runtime j = Some RuntimeManaged \<longrightarrow> JobScoped u"
    using assms by (auto simp: RecordAgentJobUsage_def Let_def RuntimeManaged_def RuntimeOwn_def split: option.splits if_splits)
  have jid: "j_id j = jid" using find_SomeD[OF j] by simp
  let ?paid = "j\<lparr>j_cost_usd := Some (CostUSD u), j_updated_at := now\<rparr>"
  show ?thesis
  proof (cases "List.find (\<lambda>r. us_job_id r = jid \<and> us_attempt r = n) (db_usage db)")
    case None
    with assms j uid show ?thesis
      by (intro that[of ?paid "last (db_usage db')"])
         (auto simp: RecordAgentJobUsage_def Let_def insert_usage_def find_append find_record_cost jid js
           same_figures_def split: if_splits)
  next
    case (Some r)
    show ?thesis
    proof (cases "us_status r = UsageSettled")
      case True
      with assms j uid Some show ?thesis
        by (intro that[of j r]) (auto simp: RecordAgentJobUsage_def Let_def js split: if_splits)
    next
      case False
      with assms j uid Some show ?thesis
        by (intro that[of ?paid "settle u now r"])
           (auto simp: RecordAgentJobUsage_def Let_def find_update_where find_record_cost jid js split: if_splits)
    qed
  qed
qed



definition demo_usage :: usage_report where
  "demo_usage = \<lparr>CostUSD = 1 / 50, Model = ''m'', Runner = ''r'', InputTokens = 10, OutputTokens = 5, JobScoped = False\<rparr>"



section \<open>Ingestion\<close>

definition keeps_event :: "string \<Rightarrow> agent_db \<Rightarrow> agent_db \<Rightarrow> bool" where
  "keeps_event eid db db' \<longleftrightarrow> eid \<in> e_event_id ` set (db_events db) \<longrightarrow> eid \<in> e_event_id ` set (db_events db')"

lemma insert_event_dup: "ie_event_id ev \<in> e_event_id ` set (db_events db) \<Longrightarrow> insert_event ev b dn db = (None, db)"
  by (simp add: insert_event_def)

lemma insert_event_in: "insert_event ev b dn db = (i, db') \<Longrightarrow> ie_event_id ev \<in> e_event_id ` set (db_events db')"
  by (auto simp: insert_event_def event_of_def split: if_splits)

lemma snd_insert_event:
  "keeps_event eid db (snd (insert_event ev b dn (db\<lparr>db_pending_deletes := ds\<rparr>)))"
  "db_conversations (snd (insert_event ev b dn (db\<lparr>db_pending_deletes := ds\<rparr>))) = db_conversations db"
  by (auto simp: keeps_event_def insert_event_def)

lemma keeps_event_update [simp]: "keeps_event eid db (update_jobs P f db') = keeps_event eid db db'"
  by (simp add: keeps_event_def)

lemma keeps_event_refl [simp]: "keeps_event eid db db"
  by (simp add: keeps_event_def)

lemma applyPendingDeleteTx_keeps:
  "keeps_event eid db (applyPendingDeleteTx ev jid dn now db) \<and>
   db_conversations (applyPendingDeleteTx ev jid dn now db) = db_conversations db"
  unfolding applyPendingDeleteTx_def Let_def
  by (cases "List.find (takes_delete ev now) (db_pending_deletes db)") (simp_all add: snd_insert_event)

lemma enqueue_ingested_keeps:
  assumes "enqueue_ingested ev cid dn now db = (jid, db')"
  shows "keeps_event eid db db' \<and> db_conversations db' = db_conversations db"
  using assms applyPendingDeleteTx_keeps[of eid]
  by (auto simp: enqueue_ingested_def Let_def ignoreInactiveConversationJobTx_def keeps_event_def insert_job_def
      split: prod.splits if_splits)

lemma insertOutboxTx_keeps:
  "insertOutboxTx st ev now db = Inr (w, db') \<Longrightarrow> db_events db' = db_events db \<and> db_conversations db' = db_conversations db"
  by (auto simp: insertOutboxTx_def insertOutboxReasonTx_def split: option.splits sum.splits if_splits)

lemma touched_conversation:
  assumes "touch_conversation uid cid now db = Inr db'"
  shows "db_events db' = db_events db \<and> (\<exists>c. GetConversation db' uid cid = Inr c)"
proof -
  let ?P = "\<lambda>c. c_id c = cid \<and> c_user_id c = uid"
  have one: "count_where ?P (db_conversations db) = 1" and db': "db' = db\<lparr>db_conversations := update_where ?P
      (\<lambda>c. c\<lparr>c_last_incoming_at := Some now, c_updated_at := now\<rparr>) (db_conversations db)\<rparr>"
    using assms by (auto simp: touch_conversation_def Let_def split: if_splits)
  from one have "\<exists>c\<in>set (db_conversations db). ?P c" using count_where_pos[of ?P "db_conversations db"] by simp
  then have "List.find ?P (db_conversations db) \<noteq> None" by (auto simp: find_None_iff)
  then show ?thesis by (auto simp: db' GetConversation_def find_update_where)
qed




section \<open>The stale sweep\<close>

lemma holds_jobs [simp]:
  "db_jobs (holdReservations ids now db) = db_jobs db" "db_jobs (holdEndedReservations now db) = db_jobs db"
  using holdReservations_queue[of db ids now] holdEndedReservations_queue[of db now] by (simp_all add: same_queue_def)

lemma RequeueStale_jobs:
  assumes "RequeueStaleAgentJobs st vis now db = Inr (r, db')" and "vis > 0"
  shows "db_jobs db' = update_where (stale (now - vis)) (sweep_job db now) (db_jobs db)"
  using assms sweep_jobs(1)[of "now - vis" now db "db_jobs db"]
  by (auto simp: RequeueStaleAgentJobs_def requeueTransition_def Let_def outbox_only_def dest!: route_jobs_only)

text \<open>Claim C29. No claim is lost: a sweep with a positive visibility timeout takes every job whose claim is older
  than the timeout out of processing. A job whose account has changed runtime, or that has attempts left, is due
  again at once with an attempt left; any other is dead-lettered. A job the sweep does not find stale keeps its
  row.\<close>

theorem stale_claims_return:
  assumes "RequeueStaleAgentJobs st vis now db = Inr (r, db')" and "vis > 0"
  shows "list_all2 (\<lambda>j j'. j_id j' = j_id j \<and> j_event_id j' = j_event_id j \<and>
      (if j_status j = JobProcessing \<and> (\<exists>t. j_claimed_at j = Some t \<and> t < now - vis)
       then j_attempts j' = j_attempts j \<and>
         (if j_attempts j < j_max_attempts j \<or> j_runtime j \<noteq> None \<and> j_runtime j \<noteq> Some (account_runtime db (j_user_id j))
          then j_status j' = JobPending \<and> j_next_run_at j' = now \<and> j_attempts j' < j_max_attempts j'
          else j_status j' = JobDeadLetter)
       else j' = j)) (db_jobs db) (db_jobs db')"
  unfolding RequeueStale_jobs[OF assms] update_where_def list_all2_map2
  by (rule list.rel_refl_strong)
     (auto simp: stale_def sweep_job_def completeRuntimeFence_def requeue_fenced_def requeue_def dead_letter_def
       split: option.splits)

theorem stale_claims_return_witness:
  "\<exists>r db'. RequeueStaleAgentJobs demo_store 100 1000 demo_claimed = Inr (r, db') \<and>
    j_status (hd (db_jobs demo_claimed)) = JobProcessing \<and> j_status (hd (db_jobs db')) = JobPending"
proof -
  have "\<not> isl (RequeueStaleAgentJobs demo_store 100 1000 demo_claimed)" by code_simp
  then obtain r db' where r: "RequeueStaleAgentJobs demo_store 100 1000 demo_claimed = Inr (r, db')"
    by (cases "RequeueStaleAgentJobs demo_store 100 1000 demo_claimed") auto
  have j: "db_jobs demo_claimed \<noteq> []" "j_status (hd (db_jobs demo_claimed)) = JobProcessing"
    "j_claimed_at (hd (db_jobs demo_claimed)) = Some 30" "j_attempts (hd (db_jobs demo_claimed)) < j_max_attempts (hd (db_jobs demo_claimed))"
    by code_simp+
  note all = stale_claims_return[OF r]
  from j(1) obtain x xs where x: "db_jobs demo_claimed = x # xs" by (cases "db_jobs demo_claimed") auto
  show ?thesis using r j all by (auto simp: x list_all2_Cons1)
qed

end
