(* ===== verification/ClaimProps.thy ===== *)
theory ClaimProps
  imports JobProps
begin

text \<open>
  What a claim guarantees, with and without turn coalescing: which jobs it hands out and in which state, how many
  of them, the in-flight cap, and the budget it reserves. \<open>claims\<close> is the contract of one batch; batches compose,
  so the head-by-head loop of the coalesced claim needs only the contract of one head.
\<close>

section \<open>The contract of a batch\<close>

definition claim_of :: "string \<Rightarrow> string \<Rightarrow> instant \<Rightarrow> job \<Rightarrow> job \<Rightarrow> bool" where
  "claim_of rep rt now j r \<longleftrightarrow> same_identity j r \<and> j_status j = JobPending \<and> j_status r = JobProcessing \<and>
     j_attempts r = j_attempts j + 1 \<and> j_claimed_by r = Some rep \<and> j_claimed_at r = Some now \<and> j_runtime r = Some rt"

definition reservations :: "managed_budget option \<Rightarrow> nat \<Rightarrow> usage_row list \<Rightarrow> bool" where
  "reservations budget n us = (case budget of None \<Rightarrow> us = []
     | Some b \<Rightarrow> length us = n \<and> list_all (\<lambda>u. us_status u = UsageReserved \<and> us_reserved_usd u = PerJobUSD b) us)"

definition row_ids :: "agent_job list \<Rightarrow> int set" where
  "row_ids ajs = (\<lambda>aj. j_id (job_row aj)) ` set ajs"

definition claim_row :: "int set \<Rightarrow> job \<Rightarrow> job \<Rightarrow> bool" where
  "claim_row ids x x' \<longleftrightarrow> same_identity x x' \<and> (j_status x' = JobPending \<longrightarrow> x' = x) \<and>
     (j_status x' = JobProcessing \<longrightarrow> j_status x = JobProcessing \<or> j_id x \<in> ids)"

definition claims :: "managed_budget option \<Rightarrow> string \<Rightarrow> string \<Rightarrow> instant \<Rightarrow> agent_job list \<Rightarrow> agent_db \<Rightarrow> agent_db \<Rightarrow> bool" where
  "claims budget rep rt now ajs db db' \<longleftrightarrow>
     list_all2 (claim_row (row_ids ajs)) (db_jobs db) (db_jobs db') \<and>
     (\<forall>aj\<in>set ajs. \<exists>j\<in>set (db_jobs db). claim_of rep rt now j (job_row aj)) \<and>
     (\<exists>us. db_usage db' = db_usage db @ us \<and> reservations budget (length ajs) us) \<and>
     db_profiles db' = db_profiles db"

text \<open>Storing the turn context touches only the claimed rows and no status.\<close>

definition context_row :: "int set \<Rightarrow> job \<Rightarrow> job \<Rightarrow> bool" where
  "context_row ids x x' \<longleftrightarrow> same_identity x x' \<and> j_status x' = j_status x \<and> (j_id x \<notin> ids \<longrightarrow> x' = x)"

lemma reservations_Nil [simp]: "reservations budget 0 []"
  by (simp add: reservations_def split: option.splits)

lemma reservations_append: "reservations b n us \<Longrightarrow> reservations b m vs \<Longrightarrow> reservations b (n + m) (us @ vs)"
  by (auto simp: reservations_def split: option.splits)

lemma row_ids_simps [simp]: "row_ids [] = {}" "row_ids (a # as) = insert (j_id (job_row a)) (row_ids as)"
  "row_ids (as @ bs) = row_ids as \<union> row_ids bs"
  by (auto simp: row_ids_def)

lemma claim_row_refl [simp]: "claim_row ids x x"
  by (simp add: claim_row_def)

lemma claim_row_trans: "claim_row A x y \<Longrightarrow> claim_row B y z \<Longrightarrow> claim_row (A \<union> B) x z"
  unfolding claim_row_def by (metis UnCI same_identity_def same_identity_trans)

lemma claim_row_context:
  "claim_row A x y \<Longrightarrow> context_row A y z \<Longrightarrow> j_id x \<in> A \<longrightarrow> j_status y \<noteq> JobPending \<Longrightarrow> claim_row A x z"
  unfolding claim_row_def context_row_def by (metis same_identity_def same_identity_trans)

lemma claims_refl: "claims budget rep rt now [] db db"
  by (auto simp: claims_def list.rel_refl intro!: exI[of _ "[]"])

lemma claims_trans:
  assumes a: "claims b rep rt now xs db0 db1" and c: "claims b rep rt now ys db1 db2"
  shows "claims b rep rt now (xs @ ys) db0 db2"
proof -
  note ra = a[unfolded claims_def] and rc = c[unfolded claims_def]
  have "list_all2 (claim_row (row_ids (xs @ ys))) (db_jobs db0) (db_jobs db2)"
    unfolding row_ids_simps
    by (rule list_all2_trans[OF _ ra[THEN conjunct1] rc[THEN conjunct1]]) (erule (1) claim_row_trans)
  moreover have "\<exists>j\<in>set (db_jobs db0). claim_of rep rt now j (job_row aj)" if mem: "aj \<in> set ys" for aj
  proof -
    obtain j where j: "j \<in> set (db_jobs db1)" "claim_of rep rt now j (job_row aj)"
      using bspec[OF rc[THEN conjunct2, THEN conjunct1] mem] by blast
    obtain x where "x \<in> set (db_jobs db0)" "claim_row (row_ids xs) x j"
      using list_all2_in_set2[OF ra[THEN conjunct1] j(1)] .
    then show ?thesis using j(2) by (auto simp: claim_row_def claim_of_def)
  qed
  moreover have "\<exists>us. db_usage db2 = db_usage db0 @ us \<and> reservations b (length (xs @ ys)) us"
    using ra rc reservations_append by (metis append.assoc length_append)
  ultimately show ?thesis using ra rc unfolding claims_def by auto
qed

section \<open>One head\<close>

lemma context_row_refl [simp]: "context_row ids x x"
  by (simp add: context_row_def)

lemma storeTurnContext_rows:
  "list_all2 (context_row {j_id (job_row aj)}) (db_jobs db) (db_jobs (snd (storeTurnContext aj db)))"
  "db_usage (snd (storeTurnContext aj db)) = db_usage db" "db_profiles (snd (storeTurnContext aj db)) = db_profiles db"
  "job_row (fst (storeTurnContext aj db)) = job_row aj"
  by (auto simp: storeTurnContext_def Let_def context_row_def same_identity_def intro!: list_all2_update_where
      split: option.splits)

lemma reserve_job_rows:
  assumes "reserve_job b j now db = Inr db'"
  shows "db_jobs db' = db_jobs db" "db_profiles db' = db_profiles db"
    "\<exists>us. db_usage db' = db_usage db @ us \<and> reservations b 1 us"
  using assms by (auto simp: reserve_job_def insertReservation_def insert_usage_def reservations_def
      split: option.splits if_splits)

lemma insert_attempt_rows [simp]:
  "db_jobs (insert_attempt i n now db) = db_jobs db" "db_usage (insert_attempt i n now db) = db_usage db"
  "db_profiles (insert_attempt i n now db) = db_profiles db"
  by (simp_all add: insert_attempt_def)

lemma coalesce_members_rows:
  "coalesce_members h tid now mems db = Inr db' \<Longrightarrow>
    list_all2 (claim_row {}) (db_jobs db) (db_jobs db') \<and> db_usage db' = db_usage db \<and> db_profiles db' = db_profiles db"
proof (induction mems arbitrary: db)
  case (Cons m mems)
  let ?U = "update_jobs (\<lambda>j. j_id j = cc_id m \<and> j_status j = JobPending) (\<lambda>j. j\<lparr>j_status := JobCoalesced,
     j_coalesced_into := Some h, j_turn_id := Some tid, j_updated_at := now\<rparr>) db"
  have one: "list_all2 (claim_row {}) (db_jobs db) (db_jobs ?U)"
    by (simp, rule list_all2_update_where) (auto simp: claim_row_def same_identity_def)
  have "coalesce_members h tid now mems ?U = Inr db'" using Cons.prems by (auto simp: Let_def split: if_splits)
  note rest = Cons.IH[OF this]
  have "list_all2 (claim_row {}) (db_jobs db) (db_jobs db')"
    by (rule list_all2_trans[OF _ one rest[THEN conjunct1]]) (auto simp: claim_row_def intro: same_identity_trans)
  then show ?case using rest by simp
qed (simp add: list.rel_refl)

lemma claim_head_claims:
  assumes j: "j \<in> set (db_jobs db)" "j_status j = JobPending"
    and run: "claim_head b rep rt now j tid mems db = Inr (aj, db')"
  shows "claims b rep rt now [aj] db db'"
proof -
  let ?P = "\<lambda>x. j_id x = j_id j \<and> j_status x = JobPending"
  let ?f = "\<lambda>x. (mark_claimed db rep rt now x)\<lparr>j_turn_id := Some tid\<rparr>"
  let ?U = "update_jobs ?P ?f db"
  obtain db2 db3 where two: "coalesce_members (j_id j) tid now mems ?U = Inr db2"
    and three: "reserve_job b (?f j) now (insert_attempt (j_id j) (j_attempts j + 1) now db2) = Inr db3"
    and four: "(aj, db') = storeTurnContext \<lparr>job_row = ?f j, SourceEventIDs = fillSourceEvents db3 (?f j)\<rparr> db3"
    using run by (auto simp: claim_head_def Let_def)
  have row: "job_row aj = ?f j" using storeTurnContext_rows(4)[of "\<lparr>job_row = ?f j, SourceEventIDs = fillSourceEvents db3 (?f j)\<rparr>" db3] four
    by (metis agent_job.select_convs(1) fst_conv)
  have marked: "list_all2 (\<lambda>x x'. claim_row {j_id j} x x' \<and> (j_id x = j_id j \<longrightarrow> j_status x' \<noteq> JobPending)) (db_jobs db) (db_jobs ?U)"
    unfolding update_jobs_simps update_where_def list_all2_map2
    by (rule list.rel_refl_strong) (auto simp: claim_row_def same_identity_def mark_claimed_def)
  note members = coalesce_members_rows[OF two]
  have joined: "list_all2 (\<lambda>x x'. claim_row {j_id j} x x' \<and> (j_id x = j_id j \<longrightarrow> j_status x' \<noteq> JobPending)) (db_jobs db) (db_jobs db2)"
    by (rule list_all2_trans[OF _ marked members[THEN conjunct1]])
       (auto dest: claim_row_trans[of "{j_id j}" _ _ "{}"] simp: claim_row_def[of "{}"])
  have stored: "list_all2 (context_row {j_id j}) (db_jobs db3) (db_jobs db')"
    using storeTurnContext_rows(1)[of "\<lparr>job_row = ?f j, SourceEventIDs = fillSourceEvents db3 (?f j)\<rparr>" db3]
    by (simp add: four[symmetric])
  have "list_all2 (claim_row {j_id j}) (db_jobs db) (db_jobs db')"
    by (rule list_all2_trans[OF _ joined stored[unfolded reserve_job_rows(1)[OF three] insert_attempt_rows]])
       (auto intro: claim_row_context)
  moreover have "db_usage db' = db_usage db3" "db_profiles db' = db_profiles db3"
    using storeTurnContext_rows(2,3)[of "\<lparr>job_row = ?f j, SourceEventIDs = fillSourceEvents db3 (?f j)\<rparr>" db3]
    by (simp_all add: four[symmetric])
  moreover have "claim_of rep rt now j (?f j)"
    using j(2) by (simp add: claim_of_def same_identity_def mark_claimed_def)
  ultimately show ?thesis
    using reserve_job_rows[OF three] members j(1) unfolding claims_def by (auto simp: row)
qed


lemma claim_head_row: "claim_head b rep rt now j tid mems db = Inr (aj, db') \<Longrightarrow> j_id (job_row aj) = j_id j"
  by (auto simp: claim_head_def Let_def storeTurnContext_def mark_claimed_def split: option.splits)

section \<open>The whole claim\<close>

text \<open>A step of the loop over heads skips the head, ends, or claims it and goes on with less room.\<close>

lemma claim_heads_ConsE:
  assumes "claim_heads st cf b rep uid rt now room (c # cs) db = Inr (ajs, db')"
  obtains (skip) "claim_heads st cf b rep uid rt now room cs db = Inr (ajs, db')"
    | (stop) "ajs = []" "db' = db"
    | (head) j tid mems aj db1 ajs' where "j \<in> set (db_jobs db)" "j_id j = cc_id c" "j_status j = JobPending"
        "claim_head b rep rt now j tid mems db = Inr (aj, db1)" "room > 0" "ajs = aj # ajs'"
        "claim_heads st cf b rep uid rt now (room - 1) cs db1 = Inr (ajs', db')"
proof (cases "room \<le> 0")
  case False
  let ?heads = "filter (\<lambda>j. j_id j = cc_id c \<and> j_status j = JobPending) (db_jobs db)"
  obtain turn where rest: "(case turn of None \<Rightarrow> claim_heads st cf b rep uid rt now room cs db
      | Some (tid, members) \<Rightarrow>
         (case ?heads of
            [j] \<Rightarrow> bind_result (claim_head b rep rt now j tid members db) (\<lambda>(aj, db1).
              bind_result (claim_heads st cf b rep uid rt now (room - 1) cs db1) (\<lambda>(ajs, db2).
                Inr (aj # ajs, db2)))
          | _ \<Rightarrow> claim_heads st cf b rep uid rt now room cs db)) = Inr (ajs, db')"
    using assms False by auto
  show ?thesis
  proof (cases "\<exists>tid mems j. turn = Some (tid, mems) \<and> ?heads = [j]")
    case True
    then obtain tid mems j where t: "turn = Some (tid, mems)" "?heads = [j]" by blast
    then have "j \<in> set ?heads" by simp
    then have "j \<in> set (db_jobs db)" "j_id j = cc_id c" "j_status j = JobPending" by auto
    then show ?thesis using rest t False by (auto intro: head)
  next
    case False
    then have "claim_heads st cf b rep uid rt now room cs db = Inr (ajs, db')"
      using rest by (auto split: option.split_asm list.split_asm)
    then show ?thesis by (rule skip)
  qed
qed (use assms stop in simp)

lemma claim_heads_claims:
  "claim_heads st cf b rep uid rt now room cs db = Inr (ajs, db') \<Longrightarrow>
    claims b rep rt now ajs db db' \<and> length ajs \<le> nat room \<and> row_ids ajs \<subseteq> cc_id ` set cs"
proof (induction cs arbitrary: room db ajs)
  case (Cons c cs)
  from Cons.prems show ?case
  proof (cases rule: claim_heads_ConsE)
    case skip
    from Cons.IH[OF this] show ?thesis by auto
  next
    case (head j tid mems aj db1 ajs')
    have one: "claims b rep rt now [aj] db db1" using claim_head_claims head by blast
    then have "j_id (job_row aj) = cc_id c"
      using head claim_head_row[OF head(4)] by simp
    then show ?thesis using claims_trans[OF one, of ajs' db'] Cons.IH[OF head(7)] head(5,6) by auto
  qed (simp add: claims_refl)
qed (simp add: claims_refl)

lemma open_claims_rows2:
  "open_claims b now js db = Inr (ajs, db') \<Longrightarrow>
    list_all2 (context_row (j_id ` set js)) (db_jobs db) (db_jobs db') \<and> db_profiles db' = db_profiles db \<and>
    (\<exists>us. db_usage db' = db_usage db @ us \<and> reservations b (length js) us)"
proof (induction js arbitrary: db ajs)
  case (Cons j js)
  let ?db1 = "insert_attempt (j_id j) (j_attempts j) now db"
  let ?aj = "\<lparr>job_row = j, SourceEventIDs = [j_event_id j]\<rparr>"
  obtain db3 ajs' where r: "reserve_job b j now (snd (storeTurnContext ?aj ?db1)) = Inr db3"
    and o: "open_claims b now js db3 = Inr (ajs', db')"
    using Cons.prems by (auto simp: Let_def split_beta)
  note rest = Cons.IH[OF o] and res = reserve_job_rows[OF r] and ctx = storeTurnContext_rows[of ?aj ?db1]
  have "list_all2 (context_row {j_id j}) (db_jobs db) (db_jobs db3)" using ctx(1) res(1) by simp
  from list_all2_trans[OF _ this rest[THEN conjunct1], of "context_row (j_id ` set (j # js))"]
  have "list_all2 (context_row (j_id ` set (j # js))) (db_jobs db) (db_jobs db')"
    by (auto simp: context_row_def same_identity_def)
  moreover have "\<exists>us. db_usage db' = db_usage db @ us \<and> reservations b (length (j # js)) us"
  proof -
    obtain us vs where "db_usage db3 = db_usage db @ us" "reservations b 1 us"
      "db_usage db' = db_usage db3 @ vs" "reservations b (length js) vs" using res(3) rest ctx(2) by auto
    then show ?thesis using reservations_append[of b 1 us "length js" vs] by (intro exI[of _ "us @ vs"]) simp
  qed
  ultimately show ?case using rest res(2) ctx(3) by simp
qed (auto simp: list.rel_refl intro!: exI[of _ "[]"])

lemma claim_each_claims:
  assumes inv: "jobs_inv db" and run: "claim_each b rep uid rt limit now db = Inr (ajs, db')"
  shows "claims b rep rt now ajs db db' \<and> length ajs \<le> nat limit \<and>
    row_ids ajs \<subseteq> j_id ` set (filter (claimable db now uid rt) (db_jobs db))"
proof -
  define K where "K = j_id ` set (due db now uid rt limit)"
  let ?P = "\<lambda>j. j_status j = JobPending \<and> j_id j \<in> K" and ?f = "mark_claimed db rep rt now"
  let ?claimed = "sort_key claim_order (map ?f (filter ?P (db_jobs db)))"
  have run': "open_claims b now ?claimed (update_jobs ?P ?f db) = Inr (ajs, db')"
    using run by (simp add: claim_each_def K_def Let_def)
  note rows = open_claims_rows[OF run'] and open_rows = open_claims_rows2[OF run']
  have mem: "set (map job_row ajs) = ?f ` set (filter ?P (db_jobs db))" using rows by simp
  have "row_ids ajs = j_id ` set (map job_row ajs)" by (simp add: row_ids_def image_image)
  then have ids: "row_ids ajs = j_id ` set (filter ?P (db_jobs db))" unfolding mem image_image by simp
  have "length (filter ?P (db_jobs db)) \<le> card K"
    using inv by (intro length_filter_ids[where key = j_id]) (auto simp: jobs_inv_def keyed_def K_def)
  also have "card K \<le> nat limit"
    unfolding K_def by (rule order_trans[OF card_image_le]) (auto simp: due_def intro: order_trans[OF card_length])
  finally have len: "length ajs \<le> nat limit" using arg_cong[OF rows, of length] by simp
  have "list_all2 (\<lambda>x x'. claim_row (row_ids ajs) x x' \<and> (j_id x \<in> row_ids ajs \<longrightarrow> j_status x' \<noteq> JobPending))
      (db_jobs db) (db_jobs (update_jobs ?P ?f db))"
    unfolding update_jobs_simps update_where_def list_all2_map2 ids
    by (rule list.rel_refl_strong) (auto simp: claim_row_def same_identity_def mark_claimed_def)
  moreover have "j_id ` set ?claimed = row_ids ajs" by (simp add: ids image_image)
  ultimately have "list_all2 (claim_row (row_ids ajs)) (db_jobs db) (db_jobs db')"
    by (intro list_all2_trans[OF _ _ open_rows[THEN conjunct1]]) (auto intro: claim_row_context)
  moreover have "\<exists>j\<in>set (db_jobs db). claim_of rep rt now j (job_row aj)" if "aj \<in> set ajs" for aj
  proof -
    have "job_row aj \<in> ?f ` set (filter ?P (db_jobs db))" using mem that by (metis image_eqI set_map)
    then show ?thesis by (auto simp: claim_of_def same_identity_def mark_claimed_def)
  qed
  moreover have "length ?claimed = length ajs" using rows by (metis length_map)
  ultimately have "claims b rep rt now ajs db db'" using open_rows unfolding claims_def by auto
  moreover have "row_ids ajs \<subseteq> j_id ` set (filter (claimable db now uid rt) (db_jobs db))"
    unfolding ids K_def by (auto dest!: due_claimable)
  ultimately show ?thesis using len by blast
qed


lemma row_ids_perm: "set xs = set ys \<Longrightarrow> row_ids xs = row_ids ys"
  by (simp add: row_ids_def)

lemma claimCoalesced_claims:
  assumes run: "claimCoalesced st cf b rep uid rt limit now db = Inr (ajs, db')"
  shows "claims b rep rt now ajs db db' \<and> length ajs \<le> nat limit \<and>
    row_ids ajs \<subseteq> j_id ` set (filter (claimable db now uid rt) (db_jobs db))"
proof -
  let ?cands = "take claimCandidateScan (loadClaimCandidates db
     (sort_key claim_order (filter (claimable db now uid rt) (db_jobs db))))"
  obtain ajs' where h: "claim_heads st cf b rep uid rt now limit ?cands db = Inr (ajs', db')"
    and ajs: "ajs = sort_key (\<lambda>aj. claim_order (job_row aj)) ajs'"
    using run by (cases "claim_heads st cf b rep uid rt now limit ?cands db") (auto simp: claimCoalesced_def Let_def)
  note heads = claim_heads_claims[OF h]
  have "row_ids ajs = row_ids ajs'" by (rule row_ids_perm) (simp add: ajs)
  moreover have "cc_id ` set ?cands \<subseteq> j_id ` set (filter (claimable db now uid rt) (db_jobs db))"
    by (auto dest!: in_set_takeD loadClaimCandidates_id)
  moreover have "claims b rep rt now ajs db db'"
    using heads unfolding claims_def \<open>row_ids ajs = row_ids ajs'\<close> by (simp add: ajs)
  ultimately show ?thesis using heads by (auto simp: ajs)
qed

text \<open>The claim as its parts: what admission left, and the batch taken from it.\<close>

lemma claimAgentJobs_batch:
  assumes inv: "jobs_inv db" and run: "claimAgentJobs st rep uid rt limit mi now db = Inr (ajs, db')"
  obtains room db1 where "admit st uid rt (max 1 limit) mi now db = Inr (room, db1)" and "room = 0 \<longrightarrow> ajs = [] \<and> db' = db1"
    and "claims (if budgeted st rt mi then st_budget st else None) rep rt now ajs db1 db'" and "length ajs \<le> nat room"
    and "row_ids ajs \<subseteq> j_id ` set (filter (claimable db1 now uid rt) (db_jobs db1))"
proof -
  define b where "b = (if budgeted st rt mi then st_budget st else None)"
  obtain room db1 where adm: "admit st uid rt (if limit \<le> 0 then 1 else limit) mi now db = Inr (room, db1)"
    and rest: "(if room = 0 then Inr ([], db1)
          else case st_turn_cfg st of
              None \<Rightarrow> claim_each b rep uid rt room now db1
            | Some cf \<Rightarrow> claimCoalesced st cf b rep uid rt room now db1) = Inr (ajs, db')"
    using run unfolding claimAgentJobs_def Let_def b_def[symmetric] by (auto split: if_split_asm)
  have adm': "admit st uid rt (max 1 limit) mi now db = Inr (room, db1)" using adm by (simp add: max_def split: if_splits)
  have inv1: "jobs_inv db1" using inv admit_same[OF adm] by (rule jobs_inv_same)
  show ?thesis
  proof (cases "room = 0")
    case True
    then have "ajs = []" "db' = db1" using rest by simp_all
    then show ?thesis by (intro that[OF adm']) (simp_all add: claims_refl)
  next
    case False
    then have "claims b rep rt now ajs db1 db' \<and> length ajs \<le> nat room \<and>
        row_ids ajs \<subseteq> j_id ` set (filter (claimable db1 now uid rt) (db_jobs db1))"
      using rest claim_each_claims[OF inv1] claimCoalesced_claims by (cases "st_turn_cfg st") simp_all
    then show ?thesis using that[OF adm'] False by (simp add: b_def)
  qed
qed

lemma admit_profiles:
  assumes "admit st uid rt limit mi now db = Inr (room, db1)" and "room \<noteq> 0"
  shows "db1 = db"
  using assms by (auto simp: admit_def reserveBudget_def Let_def map_sum_def split: if_splits option.splits sum.splits)

lemma fold_min_le: "fold (\<lambda>w r. min r (f w)) ws (k::int) \<le> k"
proof (induction ws arbitrary: k)
  case (Cons w ws)
  show ?case using Cons.IH[of "min k (f w)"] by simp
qed simp

lemma fold_min_each: "w \<in> set ws \<Longrightarrow> fold (\<lambda>w r. min r (f w)) ws (k::int) \<le> f w"
proof (induction ws arbitrary: k)
  case (Cons v ws)
  then show ?case using fold_min_le[of f ws "min k (f v)"] by auto
qed simp

lemma reserveBudget_room: "reserveBudget st b uid limit now db = Inr (room, ev, db') \<Longrightarrow> 0 \<le> limit \<Longrightarrow> room \<le> limit"
  using fold_min_le[of "\<lambda>w. slots w (PerJobUSD b) True" "budget_windows b db uid now" limit]
  by (auto simp: reserveBudget_def Let_def map_sum_def split: if_splits option.splits sum.splits)

lemma reserveInflight_room: "0 \<le> limit \<Longrightarrow> reserveInflight db uid limit mi \<in> {0..limit}"
  by (simp add: reserveInflight_def Let_def)

lemma admit_room: "admit st uid rt limit mi now db = Inr (room, db1) \<Longrightarrow> 0 \<le> limit \<Longrightarrow> room \<le> limit"
  using reserveInflight_room[of limit db uid mi]
  by (auto simp: admit_def Let_def map_sum_def split: if_splits option.splits sum.splits
      dest!: reserveBudget_room)

text \<open>Claim C7. Every job a claim hands out was, when the claim began, a pending job of that account, due, and not
  blocked: no other job of its conversation was being processed and no earlier one was waiting. The account was
  on the claiming runtime, and the row handed out is that job under its next attempt number, claimed by this
  replica. A claim hands out at most the requested number of jobs.\<close>

theorem claim_sound:
  assumes "jobs_inv db" and "claimAgentJobs st rep uid rt limit mi now db = Inr (ajs, db')"
  shows "length ajs \<le> nat (max 1 limit) \<and>
    (\<forall>aj\<in>set ajs. \<exists>j\<in>set (db_jobs db). j_id (job_row aj) = j_id j \<and> j_user_id j = uid \<and> j_status j = JobPending \<and>
      j_next_run_at j \<le> now \<and> account_runtime db uid = rt \<and>
      (\<forall>p\<in>set (db_jobs db). j_conversation_id j \<noteq> None \<and> j_conversation_id p = j_conversation_id j \<longrightarrow>
        j_status p \<noteq> JobProcessing \<and> (j_id p < j_id j \<longrightarrow> j_status p \<noteq> JobPending)) \<and>
      j_status (job_row aj) = JobProcessing \<and> j_attempts (job_row aj) = j_attempts j + 1 \<and>
      j_claimed_by (job_row aj) = Some rep \<and> j_runtime (job_row aj) = Some rt)"
proof (rule claimAgentJobs_batch[OF assms])
  fix room db1 assume adm: "admit st uid rt (max 1 limit) mi now db = Inr (room, db1)"
    and none: "room = 0 \<longrightarrow> ajs = [] \<and> db' = db1"
    and cl: "claims (if budgeted st rt mi then st_budget st else None) rep rt now ajs db1 db'"
    and len: "length ajs \<le> nat room" and ids: "row_ids ajs \<subseteq> j_id ` set (filter (claimable db1 now uid rt) (db_jobs db1))"
  have room: "room \<le> max 1 limit" by (rule admit_room[OF adm]) simp
  have ok: "\<exists>j\<in>set (db_jobs db). claimable db now uid rt j \<and> claim_of rep rt now j (job_row aj)" if mem: "aj \<in> set ajs" for aj
  proof -
    have "db1 = db" using admit_profiles[OF adm] none mem by auto
    obtain j where j: "j \<in> set (db_jobs db)" "claim_of rep rt now j (job_row aj)"
      using bspec[OF cl[unfolded claims_def, THEN conjunct2, THEN conjunct1] mem] \<open>db1 = db\<close> by auto
    have "j_id (job_row aj) \<in> row_ids ajs" using mem by (simp add: row_ids_def)
    then obtain k where k: "k \<in> set (db_jobs db)" "claimable db now uid rt k" "j_id k = j_id (job_row aj)"
      using ids \<open>db1 = db\<close> by auto
    then have "k = j" using jobs_inv_unique[OF assms(1) k(1) j(1)] j(2) by (simp add: claim_of_def same_identity_def)
    then show ?thesis using j k by blast
  qed
  then show ?thesis using room len
    by (fastforce simp: claimable_def claim_of_def same_identity_def unblocked_def blocked_by_def)
qed


section \<open>Caps\<close>

text \<open>The number of an account's jobs being processed grows by at most the batch.\<close>

abbreviation processing_of :: "agent_db \<Rightarrow> int \<Rightarrow> int" where
  "processing_of db uid \<equiv> count_where (\<lambda>j. j_user_id j = uid \<and> j_status j = JobProcessing) (db_jobs db)"

lemma length_filter_claim:
  assumes "list_all2 (claim_row ids) js js'" and "distinct (map j_id js)" and "finite ids"
  shows "length (filter (\<lambda>j. j_user_id j = uid \<and> j_status j = JobProcessing) js') \<le>
    length (filter (\<lambda>j. j_user_id j = uid \<and> j_status j = JobProcessing) js) + card ids"
proof -
  let ?Q = "\<lambda>j. j_user_id j = uid \<and> j_status j = JobProcessing"
  have "length (filter ?Q js') \<le> length (filter (\<lambda>j. ?Q j \<or> j_id j \<in> ids) js)"
    using assms(1) by (induction rule: list_all2_induct) (auto simp: claim_row_def same_identity_def)
  also have "\<dots> \<le> length (filter ?Q js) + length (filter (\<lambda>j. j_id j \<in> ids) js)"
    by (induction js) auto
  also have "length (filter (\<lambda>j. j_id j \<in> ids) js) \<le> card ids"
    by (rule length_filter_ids[OF assms(2) _ assms(3)])
  finally show ?thesis by simp
qed

lemma claims_processing:
  assumes "claims b rep rt now ajs db db'" and "jobs_inv db"
  shows "processing_of db' uid \<le> processing_of db uid + int (length ajs)"
proof -
  have "card (row_ids ajs) \<le> length ajs"
    unfolding row_ids_def by (rule order_trans[OF card_image_le]) (auto simp: card_length)
  then show ?thesis
    using length_filter_claim[of "row_ids ajs" "db_jobs db" "db_jobs db'" uid] assms
    by (auto simp: claims_def jobs_inv_def keyed_def count_where_def row_ids_def)
qed

lemma admit_inflight:
  assumes "admit st uid rt limit mi now db = Inr (room, db1)" and "mi > 0" and "room \<noteq> 0" and "0 \<le> limit"
  shows "processing_of db uid + room \<le> mi"
  using assms reserveInflight_room[OF assms(4), of db uid mi]
  by (auto simp: admit_def reserveInflight_def Let_def map_sum_def split: if_splits option.splits sum.splits
      dest!: reserveBudget_room)

text \<open>A managed claim never takes an account over its in-flight cap: afterwards the account has at most
  \<open>maxInflight\<close> jobs being processed, unless it already had more, and then none is added.\<close>

theorem inflight_cap:
  assumes "jobs_inv db" and "ClaimManagedAgentJobs st rep uid limit mi now db = Inr (ajs, db')"
  shows "count_where (\<lambda>j. j_user_id j = uid \<and> j_status j = JobProcessing) (db_jobs db') \<le>
    max mi (count_where (\<lambda>j. j_user_id j = uid \<and> j_status j = JobProcessing) (db_jobs db))"
proof -
  have mi: "mi > 0" and run: "claimAgentJobs st rep uid RuntimeManaged limit mi now db = Inr (ajs, db')"
    using assms(2) by (auto simp: ClaimManagedAgentJobs_def split: if_splits)
  show ?thesis
  proof (rule claimAgentJobs_batch[OF assms(1) run])
    fix room db1 assume adm: "admit st uid RuntimeManaged (max 1 limit) mi now db = Inr (room, db1)"
      and none: "room = 0 \<longrightarrow> ajs = [] \<and> db' = db1"
      and cl: "claims (if budgeted st RuntimeManaged mi then st_budget st else None) rep RuntimeManaged now ajs db1 db'"
      and len: "length ajs \<le> nat room"
    show ?thesis
    proof (cases "room = 0")
      case True
      then show ?thesis using none admit_same[OF adm] by (simp add: same_queue_def)
    next
      case False
      have "processing_of db' uid \<le> processing_of db uid + int (length ajs)"
        using claims_processing[OF cl] admit_profiles[OF adm False] assms(1) by simp
      moreover have "processing_of db uid + room \<le> mi" by (rule admit_inflight[OF adm mi False]) simp
      ultimately show ?thesis using len by linarith
    qed
  qed
qed

lemma slots_spent:
  assumes "slots w p True \<ge> n" and "n > 0" and "p > 0"
  shows "w_durable w + w_inflight w + of_int n * p \<le> w_cap w + p / 1000000000"
proof -
  have "of_int n \<le> (w_cap w - (w_durable w + w_inflight w)) / p + 1 / 1000000000"
    using assms by (simp add: slots_def Let_def le_floor_iff split: if_splits)
  then have "of_int n - 1 / 1000000000 \<le> (w_cap w - (w_durable w + w_inflight w)) / p" by simp
  then have "(of_int n - 1 / 1000000000) * p \<le> w_cap w - (w_durable w + w_inflight w)"
    using assms(3) by (simp only: pos_le_divide_eq)
  then show ?thesis by (simp add: left_diff_distrib)
qed

lemma usageSums_reserved:
  assumes "db_usage db' = db_usage db @ us" and "reservations (Some b) n us" and "PerJobUSD b \<ge> 0"
  shows "fst (usageSums db' since uid) = fst (usageSums db since uid)"
    and "snd (usageSums db' since uid) \<le> snd (usageSums db since uid) + of_nat n * PerJobUSD b"
proof -
  have res: "list_all (\<lambda>u. us_status u = UsageReserved \<and> us_reserved_usd u = PerJobUSD b) us" "length us = n"
    using assms(2) by (auto simp: reservations_def)
  have "sum_list (map durable_usd (filter (in_window since uid) us)) = 0"
    using res(1) by (induction us) (auto simp: durable_usd_def)
  then show "fst (usageSums db' since uid) = fst (usageSums db since uid)"
    using assms(1) by (simp add: usageSums_def Let_def)
  have "sum_list (map inflight_usd (filter (in_window since uid) us)) \<le> of_nat (length us) * PerJobUSD b"
    using res(1) assms(3) by (induction us) (auto simp: inflight_usd_def algebra_simps)
  then show "snd (usageSums db' since uid) \<le> snd (usageSums db since uid) + of_nat n * PerJobUSD b"
    using assms(1) res(2) by (simp add: usageSums_def Let_def)
qed

lemma budget_windows_reserved:
  assumes "db_usage db' = db_usage db @ us" and "reservations (Some b) n us" and "PerJobUSD b \<ge> 0"
    and "db_profiles db' = db_profiles db"
  shows "list_all2 (\<lambda>w w'. w_cap w' = w_cap w \<and> w_durable w' = w_durable w \<and>
      w_inflight w' \<le> w_inflight w + of_nat n * PerJobUSD b) (budget_windows b db uid now) (budget_windows b db' uid now)"
proof -
  have "budget_caps b db' uid = budget_caps b db uid" using assms(4) by (simp add: budget_caps_def profile_of_def)
  then show ?thesis using usageSums_reserved[OF assms(1-3)]
    by (simp add: budget_windows_def Let_def split: prod.splits)
qed

lemma admit_slots:
  assumes "admit st uid rt limit mi now db = Inr (room, db1)" and "budgeted st rt mi" and "st_budget st = Some b"
    and "room \<noteq> 0" and "w \<in> set (budget_windows b db uid now)"
  shows "room \<le> slots w (PerJobUSD b) True"
  using assms fold_min_each[OF assms(5), of "\<lambda>w. slots w (PerJobUSD b) True"]
  by (auto simp: admit_def reserveBudget_def Let_def map_sum_def split: if_splits option.splits sum.splits)

text \<open>Claim C8. A managed claim under a budget never reserves past a cap: after a claim that hands out jobs, in each
  window (the platform's day, the account's month, the account's day) what was spent, what is held and what is
  reserved in flight stays within the cap, up to a billionth of one job's price that absorbs rounding.\<close>

theorem budget_cap:
  assumes "jobs_inv db" and "ClaimManagedAgentJobs st rep uid limit mi now db = Inr (ajs, db')"
    and "ajs \<noteq> []" and "st_budget st = Some b" and "PerJobUSD b > 0" and "w \<in> set (budget_windows b db' uid now)"
  shows "w_durable w + w_inflight w \<le> w_cap w + PerJobUSD b / 1000000000"
proof -
  have run: "claimAgentJobs st rep uid RuntimeManaged limit mi now db = Inr (ajs, db')"
    and bud: "budgeted st RuntimeManaged mi"
    using assms(2,4) by (auto simp: ClaimManagedAgentJobs_def budgeted_def split: if_splits)
  show ?thesis
  proof (rule claimAgentJobs_batch[OF assms(1) run])
    fix room db1 assume adm: "admit st uid RuntimeManaged (max 1 limit) mi now db = Inr (room, db1)"
      and none: "room = 0 \<longrightarrow> ajs = [] \<and> db' = db1"
      and cl: "claims (if budgeted st RuntimeManaged mi then st_budget st else None) rep RuntimeManaged now ajs db1 db'"
      and len: "length ajs \<le> nat room"
    have room: "room \<noteq> 0" using none assms(3) by auto
    then have db1: "db1 = db" by (rule admit_profiles[OF adm])
    obtain us where us: "db_usage db' = db_usage db @ us" "reservations (Some b) (length ajs) us"
      "db_profiles db' = db_profiles db" using cl bud assms(4) db1 by (auto simp: claims_def)
    obtain v where v: "v \<in> set (budget_windows b db uid now)" and w: "w_cap w = w_cap v" "w_durable w = w_durable v"
      "w_inflight w \<le> w_inflight v + of_nat (length ajs) * PerJobUSD b"
      using list_all2_in_set2[OF budget_windows_reserved[OF us(1,2) less_imp_le[OF assms(5)] us(3)] assms(6)] by metis
    have pos: "room > 0" "int (length ajs) \<le> room" using len assms(3) by (cases ajs; auto)+
    have "w_durable v + w_inflight v + of_int room * PerJobUSD b \<le> w_cap v + PerJobUSD b / 1000000000"
      using slots_spent[OF admit_slots[OF adm bud assms(4) room v] pos(1) assms(5)] .
    moreover have "of_nat (length ajs) * PerJobUSD b \<le> of_int room * PerJobUSD b"
      using pos(2) assms(5) by (intro mult_right_mono) (simp_all add: of_int_le_iff[symmetric, where 'a = rat] del: of_int_le_iff)
    ultimately show ?thesis using w by simp
  qed
qed


section \<open>Sample claims\<close>

definition demo_queued :: agent_db where
  "demo_queued = fst (store_run demo_store empty_db (demo_ingest @ [Domain (OpEnsureProfile 7 0)]))"

text \<open>The same account on the managed runtime, under a budget that pays for one job a day.\<close>

definition demo_managed :: agent_db where
  "demo_managed = demo_queued\<lparr>db_profiles := map (\<lambda>p. p\<lparr>p_runtime := RuntimeManaged\<rparr>) (db_profiles demo_queued)\<rparr>"

definition demo_budget :: managed_budget where
  "demo_budget = \<lparr>PerJobUSD = 1 / 10, AccountDayUSD = 15 / 100, AccountMonthUSD = 1, GlobalDayUSD = 10, ClaimNotAfter = None\<rparr>"

definition managed_store :: store where
  "managed_store = demo_store\<lparr>st_budget := Some demo_budget\<rparr>"

lemma demo_queued_inv: "jobs_inv demo_queued" "jobs_inv demo_managed"
proof -
  show q: "jobs_inv demo_queued"
    unfolding demo_queued_def using store_machine.run_inv[OF empty_db_inv] by (simp only: store_inv_def)
  show "jobs_inv demo_managed" by (rule jobs_inv_same[OF q]) (simp add: demo_managed_def same_queue_def)
qed

theorem claim_sound_witness:
  "\<exists>ajs db'. claimAgentJobs demo_store ''w'' 7 RuntimeOwn 5 0 30 demo_queued = Inr (ajs, db') \<and> ajs \<noteq> [] \<and>
    length ajs \<le> 5 \<and> j_claimed_by (job_row (hd ajs)) = Some ''w''"
proof -
  have "case claimAgentJobs demo_store ''w'' 7 RuntimeOwn 5 0 30 demo_queued of Inl _ \<Rightarrow> False | Inr (ajs, _) \<Rightarrow> ajs \<noteq> []"
    by code_simp
  then obtain ajs db' where r: "claimAgentJobs demo_store ''w'' 7 RuntimeOwn 5 0 30 demo_queued = Inr (ajs, db')" "ajs \<noteq> []"
    by (auto split: sum.splits)
  then show ?thesis using claim_sound[OF demo_queued_inv(1) r(1)] by fastforce
qed

theorem inflight_cap_witness:
  "case ClaimManagedAgentJobs managed_store ''w'' 7 5 1 30 demo_managed of Inl _ \<Rightarrow> False
   | Inr (ajs, db') \<Rightarrow> ajs \<noteq> [] \<and> count_where (\<lambda>j. j_user_id j = 7 \<and> j_status j = JobProcessing) (db_jobs db') \<le> 1"
proof -
  have "case ClaimManagedAgentJobs managed_store ''w'' 7 5 1 30 demo_managed of Inl _ \<Rightarrow> False | Inr (ajs, _) \<Rightarrow> ajs \<noteq> []"
    "count_where (\<lambda>j. j_user_id j = 7 \<and> j_status j = JobProcessing) (db_jobs demo_managed) = 0"
    by code_simp+
  then show ?thesis
    using inflight_cap[OF demo_queued_inv(2), of managed_store "''w''" 7 5 1 30] by (fastforce split: sum.splits)
qed

theorem budget_cap_witness:
  "case ClaimManagedAgentJobs managed_store ''w'' 7 5 3 30 demo_managed of Inl _ \<Rightarrow> False
   | Inr (ajs, db') \<Rightarrow> w_inflight (budget_windows demo_budget db' 7 30 ! 2) > 0 \<and>
       w_durable (budget_windows demo_budget db' 7 30 ! 2) + w_inflight (budget_windows demo_budget db' 7 30 ! 2) \<le>
       w_cap (budget_windows demo_budget db' 7 30 ! 2) + 1 / 10000000000"
proof -
  have "case ClaimManagedAgentJobs managed_store ''w'' 7 5 3 30 demo_managed of Inl _ \<Rightarrow> False
    | Inr (ajs, db') \<Rightarrow> ajs \<noteq> [] \<and> w_inflight (budget_windows demo_budget db' 7 30 ! 2) > 0"
    by code_simp
  then obtain ajs db' where r: "ClaimManagedAgentJobs managed_store ''w'' 7 5 3 30 demo_managed = Inr (ajs, db')" "ajs \<noteq> []"
    and p: "w_inflight (budget_windows demo_budget db' 7 30 ! 2) > 0"
    by (auto split: sum.splits)
  have w: "budget_windows demo_budget db' 7 30 ! 2 \<in> set (budget_windows demo_budget db' 7 30)"
    by (simp add: budget_windows_def Let_def split: prod.splits)
  have b: "st_budget managed_store = Some demo_budget" "PerJobUSD demo_budget > 0" "PerJobUSD demo_budget = 1 / 10"
    by (simp_all add: managed_store_def demo_budget_def)
  show ?thesis using budget_cap[OF demo_queued_inv(2) r b(1,2) w] p by (simp add: r(1) b(3))
qed


section \<open>Progress\<close>

lemma open_claims_unbudgeted: "\<exists>ajs db'. open_claims None now js db = Inr (ajs, db')"
  by (induction js arbitrary: db) (force simp: Let_def reserve_job_def split: prod.splits)+

text \<open>Claim C30. A claim without a budget or coalescing never fails and takes all it may: as many jobs as are due,
  unblocked and on the runtime, up to the limit, and if there are more, those due first.\<close>

theorem claim_takes_all_due:
  assumes "jobs_inv db" and "st_turn_cfg st = None" and "uid > 0" and "rt = RuntimeOwn \<or> rt = RuntimeManaged"
  shows "\<exists>ajs db'. ClaimAgentJobs st rep uid rt limit now db = Inr (ajs, db') \<and>
    int (length ajs) = min (max 1 limit) (count_where (claimable db now uid rt) (db_jobs db)) \<and>
    (\<forall>aj\<in>set ajs. \<forall>k\<in>set (db_jobs db). claimable db now uid rt k \<and> k \<notin> set (due db now uid rt (max 1 limit)) \<longrightarrow>
      (\<exists>j\<in>set (db_jobs db). j_id j = j_id (job_row aj) \<and> claim_order j \<le> claim_order k))"
proof -
  let ?lim = "max 1 limit"
  have lim: "(if limit \<le> 0 then 1 else limit) = ?lim" by simp
  have claim: "ClaimAgentJobs st rep uid rt limit now db = claim_each None rep uid rt ?lim now db"
    using assms(2-4) by (auto simp: ClaimAgentJobs_def claimAgentJobs_def Let_def admit_def lim budgeted_def split: option.splits)
  let ?due = "due db now uid rt ?lim" and ?sorted = "sort_key claim_order (filter (claimable db now uid rt) (db_jobs db))"
  let ?P = "\<lambda>j. j_status j = JobPending \<and> j_id j \<in> j_id ` set ?due"
  have keys: "distinct (map j_id (db_jobs db))" using assms(1) by (simp add: jobs_inv_def keyed_def)
  then have djobs: "distinct (db_jobs db)" by (simp add: distinct_map)
  have P: "?P j \<longleftrightarrow> j \<in> set ?due" if "j \<in> set (db_jobs db)" for j
    using that due_claimable[of _ db now uid rt ?lim] jobs_inv_unique[OF assms(1) that] by (auto simp: claimable_def)
  have "set (filter ?P (db_jobs db)) = set ?due" using P due_claimable[of _ db now uid rt ?lim] by auto
  moreover have "distinct ?due" using djobs by (simp add: due_def)
  ultimately have len: "length (filter ?P (db_jobs db)) = length ?due"
    using distinct_card[OF distinct_filter[OF djobs, of ?P]] distinct_card[of ?due] by presburger
  obtain ajs db' where run: "claim_each None rep uid rt ?lim now db = Inr (ajs, db')"
    unfolding claim_each_def Let_def using open_claims_unbudgeted by blast
  have rows: "map job_row ajs = sort_key claim_order (map (mark_claimed db rep rt now) (filter ?P (db_jobs db)))"
    using run by (auto simp: claim_each_def Let_def dest: open_claims_rows)
  have "length ajs = length ?due" using arg_cong[OF rows, of length] len by simp
  moreover have "int (length ?due) = min ?lim (count_where (claimable db now uid rt) (db_jobs db))"
    unfolding due_def count_where_def length_take length_sort by linarith
  moreover have "\<exists>j\<in>set (db_jobs db). j_id j = j_id (job_row aj) \<and> claim_order j \<le> claim_order k"
    if aj: "aj \<in> set ajs" and k: "k \<in> set (db_jobs db)" "claimable db now uid rt k" "k \<notin> set ?due" for aj k
  proof -
    have "job_row aj \<in> set (map job_row ajs)" using aj by simp
    then obtain j where j: "j \<in> set (db_jobs db)" "?P j" "job_row aj = mark_claimed db rep rt now j"
      unfolding rows by auto
    then have "j \<in> set ?due" using P by blast
    moreover have "k \<in> set (drop (nat ?lim) ?sorted)"
    proof -
      have "k \<in> set (take (nat ?lim) ?sorted @ drop (nat ?lim) ?sorted)" using k by simp
      then show ?thesis using k(3) unfolding due_def set_append by blast
    qed
    moreover have "sorted (map claim_order (take (nat ?lim) ?sorted @ drop (nat ?lim) ?sorted))" by simp
    ultimately have "claim_order j \<le> claim_order k"
      unfolding due_def map_append sorted_append set_map by blast
    then show ?thesis using j by auto
  qed
  ultimately show ?thesis using claim run by auto
qed

theorem claim_takes_all_due_witness:
  "\<exists>ajs db'. ClaimAgentJobs demo_store ''w'' 7 RuntimeOwn 5 30 demo_queued = Inr (ajs, db') \<and> length ajs = 1"
proof -
  have "st_turn_cfg demo_store = None" "count_where (claimable demo_queued 30 7 RuntimeOwn) (db_jobs demo_queued) = 1" by code_simp+
  then show ?thesis using claim_takes_all_due[OF demo_queued_inv(1), of demo_store 7 RuntimeOwn "''w''" 5 30] by auto
qed

end
