(* ===== verification/SendProps.thy ===== *)
theory SendProps
  imports StoreProps
begin

text \<open>
  What stands between an approved draft and a message on Telegram: the conditions under which a send is reserved,
  and the effect of deleting the message a draft answers.
\<close>

section \<open>Reservation\<close>

lemma begin_send_simps [simp]:
  "ac_id (begin_send rid b now a) = ac_id a" "ac_user_id (begin_send rid b now a) = ac_user_id a"
  "ac_status (begin_send rid b now a) = ActionExecuting" "ac_random_id (begin_send rid b now a) = Some rid"
  by (simp_all add: begin_send_def)

text \<open>Claim C9. A send is reserved only for an action that is approved, belongs to the caller's account and
  conversation, and whose conversation is under its limits when they are enforced: fewer than \<open>maxTurns\<close>
  autonomous turns and fewer than \<open>maxPerMinute\<close> sends in the window. No message of the turn it answers has been
  edited or deleted since. The action then carries the caller's random id, and the turn is counted.\<close>

theorem reserve_guarded:
  assumes "ReserveAgentActionSend st act rid body maxTurns maxPerMinute since enforce now db = Inr (True, db')"
  shows "\<exists>cid conv a a'. ac_conversation_id act = Some cid \<and> GetConversation db (ac_user_id act) cid = Inr conv \<and>
    a \<in> set (db_actions db) \<and> a' \<in> set (db_actions db') \<and> ac_id a = ac_id act \<and> ac_id a' = ac_id act \<and>
    ac_user_id a = ac_user_id act \<and> ac_status a = ActionApproved \<and> ac_conversation_id a = Some cid \<and>
    ac_status a' = ActionExecuting \<and> ac_random_id a' = Some rid \<and> rid \<noteq> 0 \<and>
    (enforce \<and> 0 < maxTurns \<longrightarrow> c_autonomous_turns conv < maxTurns) \<and>
    (enforce \<and> 0 < maxPerMinute \<longrightarrow> recent_sends db cid since < maxPerMinute) \<and>
    (\<forall>j. ac_job_id act = Some j \<longrightarrow> jobSourceSuperseded db (ac_user_id act) j = []) \<and>
    map_sum id c_autonomous_turns (GetConversation db' (ac_user_id act) cid) = Inr (c_autonomous_turns conv + 1)"
proof (rule ReserveAgentActionSend_won[OF assms])
  fix cid conv sealed
  assume cid: "ac_conversation_id act = Some cid" and rid: "rid \<noteq> 0"
    and conv: "GetConversation db (ac_user_id act) cid = Inr conv"
    and lims: "enforce \<and> 0 < maxTurns \<longrightarrow> c_autonomous_turns conv < maxTurns"
      "enforce \<and> 0 < maxPerMinute \<longrightarrow> recent_sends db cid since < maxPerMinute"
    and src: "\<And>j. ac_job_id act = Some j \<Longrightarrow> j \<noteq> 0 \<Longrightarrow> jobSourceSuperseded db (ac_user_id act) j = []"
    and row: "count_where (send_row act cid) (db_actions db) \<noteq> 0"
    and db': "db' = (update_actions (send_row act cid) (begin_send rid sealed now) db)
       \<lparr>db_conversations := update_where (\<lambda>c. c_id c = cid \<and> c_user_id c = ac_user_id act)
          (\<lambda>c. c\<lparr>c_autonomous_turns := c_autonomous_turns c + 1, c_updated_at := now\<rparr>) (db_conversations db)\<rparr>"
  obtain a where a: "a \<in> set (db_actions db)" "send_row act cid a" using count_where_ex[OF row] by blast
  then have "begin_send rid sealed now a \<in> set (db_actions db')" by (force simp: db' in_update_where)
  moreover have "map_sum id c_autonomous_turns (GetConversation db' (ac_user_id act) cid) = Inr (c_autonomous_turns conv + 1)"
    using conv by (auto simp: db' GetConversation_def find_update_where split: option.splits dest: find_SomeD)
  moreover have "jobSourceSuperseded db (ac_user_id act) 0 = []" by (simp add: jobSourceSuperseded_def)
  ultimately show ?thesis
    using a cid conv lims src rid
    by (intro exI[of _ cid] exI[of _ conv] exI[of _ a] exI[of _ "begin_send rid sealed now a"])
       (auto simp: send_row_def in_status_def)
qed


theorem reserve_guarded_witness:
  "\<exists>cid conv a'. GetConversation demo_drafted 7 cid = Inr conv \<and> c_autonomous_turns conv < 6 \<and>
    jobSourceSuperseded demo_drafted 7 1 = [] \<and> a' \<in> set (db_actions demo_sending) \<and> ac_random_id a' = Some 99"
proof -
  have "case ReserveAgentActionSend demo_store demo_act 99 ''hi'' 6 2 0 True 50 demo_drafted of Inr (True, _) \<Rightarrow> True | _ \<Rightarrow> False"
    by code_simp
  then obtain db' where r: "ReserveAgentActionSend demo_store demo_act 99 ''hi'' 6 2 0 True 50 demo_drafted = Inr (True, db')"
    by (auto split: sum.splits bool.splits)
  have db': "demo_sending = db'"
    by (simp add: demo_sending_def demo_send_def store_step_def r)
  have "ac_user_id demo_act = 7" "ac_job_id demo_act = Some 1" by code_simp+
  then show ?thesis using reserve_guarded[OF r] unfolding db' by force
qed

section \<open>Deleted messages\<close>

lemma deleteEventID_inject: "deleteEventID s c m = deleteEventID s c' m \<Longrightarrow> c = c'"
  by (simp add: deleteEventID_def)

lemma insert_event_events:
  "insert_event ev b dn db = (i, db') \<Longrightarrow> set (db_events db) \<subseteq> set (db_events db') \<and> db_event_seq db \<le> db_event_seq db' \<and>
    db_jobs db' = db_jobs db"
  by (auto simp: insert_event_def split: if_splits)

text \<open>The turn a job belongs to, as far as the supersession check reads it.\<close>

definition turn_row :: "job \<Rightarrow> int \<times> int \<times> string \<times> int option" where
  "turn_row j = (j_id j, j_user_id j, j_event_id j, j_coalesced_into j)"

definition delete_row :: "int \<Rightarrow> int \<Rightarrow> int \<Rightarrow> event_row \<Rightarrow> bool" where
  "delete_row uid chat msg e \<longleftrightarrow> e_kind e = EventKindMessageDelete \<and> e_user_id e = uid \<and> e_chat_tg_id e = chat \<and>
     e_message_id e = msg"

lemma turn_row_ignored: "map turn_row (update_where Q (ignore_job why now) js) = map turn_row js"
  by (rule map_update_where) (simp add: turn_row_def ignore_job_def)

lemma recordMessageDeleteInChat_cases:
  assumes "recordMessageDeleteInChat uid self chat msg dn now db = (r, db')"
  obtains (known) "deleteEventID self chat msg \<in> e_event_id ` set (db_events db)" "db' = db"
    | (fresh) e where "db_events db' = db_events db @ [e]" "e_event_id e = deleteEventID self chat msg"
        "delete_row uid chat msg e" "e_id e = db_event_seq db + 1" "db_event_seq db' = db_event_seq db + 1"
        "map turn_row (db_jobs db') = map turn_row (db_jobs db)"
proof (cases "deleteEventID self chat msg \<in> e_event_id ` set (db_events db)")
  case True
  then have "insert_event (delete_event uid self chat msg) None dn db = (None, db)"
    by (simp add: insert_event_def delete_event_def)
  with assms have "db' = db" by (simp add: recordMessageDeleteInChat_def)
  with True show ?thesis by (rule known)
next
  case False
  let ?e = "event_of db (delete_event uid self chat msg) None dn"
  let ?db1 = "db\<lparr>db_events := db_events db @ [?e], db_event_seq := db_event_seq db + 1\<rparr>"
  have ins: "insert_event (delete_event uid self chat msg) None dn db = (Some (db_event_seq db + 1), ?db1)"
    using False by (simp add: insert_event_def delete_event_def)
  obtain Q A where "db' = update_jobs Q (ignore_job ReasonSourceDeleted now) (?db1\<lparr>db_actions := A\<rparr>)"
    using assms unfolding recordMessageDeleteInChat_def ins prod.case option.case Let_def prod.inject
    by (elim conjE) (rule that, erule sym)
  then have "db_events db' = db_events db @ [?e]" "db_event_seq db' = db_event_seq db + 1"
    "map turn_row (db_jobs db') = map turn_row (db_jobs db)"
    by (simp_all add: turn_row_ignored update_jobs_def)
  then show ?thesis by (intro fresh) (auto simp: event_of_def delete_event_def delete_row_def)
qed

lemma recordMessageDeleteInChat_keeps:
  assumes "recordMessageDeleteInChat uid self chat msg dn now db = (r, db')"
  shows "set (db_events db) \<subseteq> set (db_events db') \<and> db_event_seq db \<le> db_event_seq db' \<and>
    map turn_row (db_jobs db') = map turn_row (db_jobs db)"
  using assms by (cases rule: recordMessageDeleteInChat_cases) auto

lemma record_deletes_keeps:
  "record_deletes uid self chats msg dn now out db = (r, db') \<Longrightarrow>
    set (db_events db) \<subseteq> set (db_events db') \<and> db_event_seq db \<le> db_event_seq db' \<and>
    map turn_row (db_jobs db') = map turn_row (db_jobs db)"
proof (induction chats arbitrary: out db)
  case (Cons chat chats)
  obtain r1 db1 where one: "recordMessageDeleteInChat uid self chat msg dn now db = (r1, db1)" by fastforce
  from Cons.prems obtain out1 where "record_deletes uid self chats msg dn now out1 db1 = (r, db')"
    by (auto simp: one Let_def)
  from Cons.IH[OF this] recordMessageDeleteInChat_keeps[OF one] show ?case by auto
qed simp

lemma record_deletes_each:
  assumes "record_deletes uid self chats msg dn now out db = (r, db')" and "chat \<in> set chats"
    and "deleteEventID self chat msg \<notin> e_event_id ` set (db_events db)"
  shows "\<exists>e\<in>set (db_events db'). delete_row uid chat msg e \<and> e_id e > db_event_seq db"
  using assms
proof (induction chats arbitrary: out db)
  case (Cons c chats)
  obtain r1 db1 where one: "recordMessageDeleteInChat uid self c msg dn now db = (r1, db1)" by fastforce
  from Cons.prems obtain out1 where rest: "record_deletes uid self chats msg dn now out1 db1 = (r, db')"
    by (auto simp: one Let_def)
  note keeps = record_deletes_keeps[OF rest]
  from one show ?case
  proof (cases rule: recordMessageDeleteInChat_cases)
    case known
    then show ?thesis using Cons.IH[OF rest] Cons.prems(2,3) by auto
  next
    case (fresh e)
    show ?thesis
    proof (cases "c = chat")
      case True
      then show ?thesis using fresh keeps by (intro bexI[of _ e]) auto
    next
      case False
      then have "deleteEventID self chat msg \<notin> e_event_id ` set (db_events db1)"
        using fresh Cons.prems(3) by (auto dest: deleteEventID_inject)
      then show ?thesis using Cons.IH[OF rest] Cons.prems(2) False fresh(5) by force
    qed
  qed
qed simp

lemma superseded_by_delete:
  assumes "j \<in> set (db_jobs db)" and "of_turn uid jid j" and "jid \<noteq> 0" and "v \<in> set (job_events db j)"
    and "e \<in> set (db_events db)" and "delete_row (e_user_id v) (e_chat_tg_id v) (e_message_id v) e" and "e_id e > e_id v"
  shows "jobSourceSuperseded db uid jid = SourceDeleted"
proof -
  let ?vs = "concat (map (job_events db) (filter (of_turn uid jid) (db_jobs db)))"
  have "v \<in> set ?vs" using assms(1,2,4) by auto
  moreover have "later_version v e" using assms(6,7) by (auto simp: later_version_def delete_row_def message_key_def)
  ultimately have "superseded_kind db ?vs = SourceDeleted"
    using assms(5,6) by (auto simp: superseded_kind_def Let_def delete_row_def)
  then show ?thesis using assms(3) by (simp add: jobSourceSuperseded_def)
qed


definition demo_bob :: event_row where
  "demo_bob = hd (db_events demo_drafted)"


end
