(* ===== verification/Relay.thy ===== *)
theory Relay
  imports StoreProps
begin

text \<open>
  The outbox relay (\<open>internal/events/relay.go\<close>): one pass of \<open>Drain\<close>, which publishes pending rows in order under
  the database lease, and one round of the loop in \<open>Run\<close> around it. The world outside the process is a parameter:
  the clock, what other processes do to the database before each call and whether the call fails (before or
  after taking effect), and whether an append to Valkey fails. The log collects the rows appended to their
  stream. Metrics and log lines are left out; a cancelled context shows as failing calls.
\<close>

section \<open>The pass\<close>

definition AuditStream :: string where "AuditStream = ''mctl:events:audit''"
definition streamMaxLen :: int where "streamMaxLen = 10000"
definition auditMaxLen :: int where "auditMaxLen = 10000"
definition batchSize :: int where "batchSize = 100"
definition safetyInterval :: duration where "safetyInterval = 30 * second"
definition maxBackoff :: duration where "maxBackoff = minute"
definition publishedRetention :: duration where "publishedRetention = 7 * 24 * 60 * minute"
definition leaseTTL :: duration where "leaseTTL = minute"
definition leaseRetry :: duration where "leaseRetry = second"
definition leaseRenewEvery :: duration where "leaseRenewEvery = leaseTTL sdiv 3"

datatype relay_error = ErrLeaseHeld | StoreFailed string | StoreError db_error | PublishFailed string

record 'w world =
  world_now :: "'w \<Rightarrow> instant \<times> 'w"
  world_others :: "'w \<Rightarrow> agent_db \<Rightarrow> agent_db \<times> 'w"
  world_fails :: "'w \<Rightarrow> (string \<times> bool) option \<times> 'w" \<comment> \<open>error, and whether the call took effect\<close>
  world_xadd :: "string \<Rightarrow> int \<Rightarrow> string list \<Rightarrow> 'w \<Rightarrow> string option \<times> 'w"

record 'w relay =
  r_db :: agent_db
  r_world :: 'w
  r_log :: "outbox_row list"
  r_renewed_at :: instant
  r_audit_ok :: bool

definition relay_now :: "'w world \<Rightarrow> 'w relay \<Rightarrow> instant \<times> 'w relay" where
  "relay_now W s = (let (t, w) = world_now W (r_world s) in (t, s\<lparr>r_world := w\<rparr>))"

definition store_call ::
  "'w world \<Rightarrow> (agent_db \<Rightarrow> (db_error, 'a \<times> agent_db) result) \<Rightarrow> 'w relay \<Rightarrow> (relay_error, 'a) result \<times> 'w relay" where
  "store_call W f s =
     (let (db1, w1) = world_others W (r_world s) (r_db s); (failure, w2) = world_fails W w1;
          s1 = s\<lparr>r_db := db1, r_world := w2\<rparr> in
      case failure of
        None \<Rightarrow> (case f db1 of Inl e \<Rightarrow> (Inl (StoreError e), s1) | Inr (x, db2) \<Rightarrow> (Inr x, s1\<lparr>r_db := db2\<rparr>))
      | Some (m, applied) \<Rightarrow> (Inl (StoreFailed m),
          if applied then (case f db1 of Inl _ \<Rightarrow> s1 | Inr (_, db2) \<Rightarrow> s1\<lparr>r_db := db2\<rparr>) else s1))"

definition xadd :: "'w world \<Rightarrow> string \<Rightarrow> int \<Rightarrow> string list \<Rightarrow> 'w relay \<Rightarrow> string option \<times> 'w relay" where
  "xadd W stream maxLen fs s = (let (err, w) = world_xadd W stream maxLen fs (r_world s) in (err, s\<lparr>r_world := w\<rparr>))"

definition renew :: "'w world \<Rightarrow> string \<Rightarrow> bool \<Rightarrow> 'w relay \<Rightarrow> relay_error option \<times> 'w relay" where
  "renew W holder force s =
     (let (now, s1) = relay_now W s in
      if \<not> force \<and> time_sub now (r_renewed_at s1) < leaseRenewEvery then (None, s1)
      else case store_call W (AcquireOutboxLease holder now leaseTTL) s1 of
          (Inl e, s2) \<Rightarrow> (Some e, s2)
        | (Inr owned, s2) \<Rightarrow> if owned then (None, s2\<lparr>r_renewed_at := now\<rparr>) else (Some ErrLeaseHeld, s2))"

definition markFailed :: "'w world \<Rightarrow> int \<Rightarrow> string \<Rightarrow> 'w relay \<Rightarrow> 'w relay" where
  "markFailed W rid reason s = snd (store_call W (\<lambda>db. Inr ((), MarkOutboxFailed rid reason db)) s)"

definition relay_audit :: "'w world \<Rightarrow> outbox_row \<Rightarrow> instant \<Rightarrow> 'w relay \<Rightarrow> bool \<times> 'w relay" where
  "relay_audit W row t s =
     (let eid = ''telegram:'' @ o_event_id row;
          (err, s1) = xadd W AuditStream auditMaxLen [''stage'', ''published'', ''component'', ''mctl-telegram'',
            ''event_id'', eid, ''correlation_id'', eid, ''stream'', o_stream row,
            ''attempt'', FormatInt (o_attempts row + 1),
            ''latency_ms'', FormatInt (time_sub t (o_created_at row) sdiv 1000000)] s in
      (err = None, s1))"

definition relay_error_text :: "relay_error \<Rightarrow> string" where
  "relay_error_text e = (case e of StoreFailed m \<Rightarrow> m | PublishFailed m \<Rightarrow> m | _ \<Rightarrow> [])"

definition publish_row :: "'w world \<Rightarrow> string \<Rightarrow> outbox_row \<Rightarrow> 'w relay \<Rightarrow> relay_error option \<times> 'w relay" where
  "publish_row W holder row s =
     (case renew W holder False s of
        (Some e, s1) \<Rightarrow> (Some e, s1)
      | (None, s1) \<Rightarrow>
         (case xadd W (o_stream row) streamMaxLen [''envelope'', o_envelope row] s1 of
            (Some m, s2) \<Rightarrow> (Some (PublishFailed m), markFailed W (o_id row) m s2)
          | (None, s2) \<Rightarrow>
             let (published, s3) = relay_now W (s2\<lparr>r_log := r_log s2 @ [row]\<rparr>);
                 s4 = (if r_audit_ok s3 then (let (ok, s) = relay_audit W row published s3 in s\<lparr>r_audit_ok := ok\<rparr>) else s3) in
             (case store_call W (\<lambda>db. Inr ((), MarkOutboxPublished (o_id row) published db)) s4 of
                (Inl e, s5) \<Rightarrow> (Some e, markFailed W (o_id row) (''published but not marked: '' @ relay_error_text e) s5)
              | (Inr _, s5) \<Rightarrow> (None, s5))))"

fun publish_rows :: "'w world \<Rightarrow> string \<Rightarrow> outbox_row list \<Rightarrow> 'w relay \<Rightarrow> relay_error option \<times> 'w relay" where
  "publish_rows W holder [] s = (None, s)"
| "publish_rows W holder (row # rows) s =
     (case publish_row W holder row s of
        (Some e, s1) \<Rightarrow> (Some e, s1)
      | (None, s1) \<Rightarrow> publish_rows W holder rows s1)"

text \<open>The loop over batches; \<open>None\<close> when the fuel runs out, which only new rows arriving faster than they are
  published can cause.\<close>

fun drain_loop :: "'w world \<Rightarrow> string \<Rightarrow> nat \<Rightarrow> 'w relay \<Rightarrow> (relay_error option \<times> 'w relay) option" where
  "drain_loop W holder 0 s = None"
| "drain_loop W holder (Suc n) s =
     (case renew W holder True s of
        (Some e, s1) \<Rightarrow> Some (Some e, s1)
      | (None, s1) \<Rightarrow>
         (case store_call W (\<lambda>db. map_sum id (\<lambda>rows. (rows, db)) (PendingOutbox batchSize db)) s1 of
            (Inl e, s2) \<Rightarrow> Some (Some e, s2)
          | (Inr rows, s2) \<Rightarrow>
              if rows = [] then Some (None, s2)
              else case publish_rows W holder rows s2 of
                  (Some e, s3) \<Rightarrow> Some (Some e, s3)
                | (None, s3) \<Rightarrow> if int (length rows) < batchSize then Some (None, s3) else drain_loop W holder n s3))"

definition Drain :: "'w world \<Rightarrow> string \<Rightarrow> nat \<Rightarrow> 'w relay \<Rightarrow> (relay_error option \<times> 'w relay) option" where
  "Drain W holder fuel s =
     map_option (\<lambda>(e, s1). (e, snd (store_call W (\<lambda>db. Inr ((), ReleaseOutboxLease holder db)) s1)))
       (drain_loop W holder fuel (s\<lparr>r_renewed_at := zero_time, r_audit_ok := True\<rparr>))"

section \<open>The round\<close>

record round_state =
  rs_backoff :: duration
  rs_last_purge :: instant
  rs_retry_at :: instant

definition round_init :: round_state where
  "round_init = \<lparr>rs_backoff = second, rs_last_purge = zero_time, rs_retry_at = zero_time\<rparr>"

text \<open>Whether a wake-up starts a pass: a timer does, a notification only once the backoff is over.\<close>

definition starts_pass :: "bool \<Rightarrow> instant \<Rightarrow> round_state \<Rightarrow> bool" where
  "starts_pass notified now rs \<longleftrightarrow> \<not> (notified \<and> now < rs_retry_at rs)"

definition after_drain :: "relay_error option \<Rightarrow> instant \<Rightarrow> round_state \<Rightarrow> duration \<times> round_state" where
  "after_drain err now rs = (case err of
       None \<Rightarrow> (safetyInterval, rs\<lparr>rs_retry_at := zero_time, rs_backoff := second\<rparr>)
     | Some ErrLeaseHeld \<Rightarrow> (leaseRetry, rs\<lparr>rs_retry_at := now + leaseRetry\<rparr>)
     | Some _ \<Rightarrow> (rs_backoff rs, rs\<lparr>rs_retry_at := now + rs_backoff rs,
         rs_backoff := (if wrap64 (rs_backoff rs * 2) > maxBackoff then maxBackoff else wrap64 (rs_backoff rs * 2))\<rparr>))"

definition purge_due :: "instant \<Rightarrow> round_state \<Rightarrow> bool" where
  "purge_due now rs \<longleftrightarrow> time_sub now (rs_last_purge rs) > 60 * minute"

definition purge_round :: "'w world \<Rightarrow> round_state \<Rightarrow> 'w relay \<Rightarrow> round_state \<times> 'w relay" where
  "purge_round W rs s =
     (let (now, s1) = relay_now W s in
      if purge_due now rs then
        (case store_call W (\<lambda>db. Inr (PurgePublishedOutbox (now - publishedRetention) db)) s1 of
           (Inl _, s2) \<Rightarrow> (rs, s2)
         | (Inr _, s2) \<Rightarrow> (rs\<lparr>rs_last_purge := now\<rparr>, s2))
      else (rs, s1))"

text \<open>One round after a pass was started: the pass, the backlog query, the timer and the hourly purge.\<close>

definition run_round ::
  "'w world \<Rightarrow> string \<Rightarrow> nat \<Rightarrow> round_state \<Rightarrow> 'w relay \<Rightarrow> (duration \<times> round_state \<times> 'w relay) option" where
  "run_round W holder fuel rs s =
     map_option (\<lambda>(err, s1).
       let s2 = snd (store_call W (\<lambda>db. Inr (OutboxBacklog db, db)) s1);
           (now, s3) = (if err = None then (zero_time, s2) else relay_now W s2);
           (wait, rs1) = after_drain err now rs;
           (rs2, s4) = purge_round W rs1 s3 in
       (wait, rs2, s4)) (Drain W holder fuel s)"


section \<open>Delivery\<close>

text \<open>No other process touches the database during the pass; and nothing fails either.\<close>

definition quiet :: "'w world \<Rightarrow> bool" where
  "quiet W \<longleftrightarrow> (\<forall>w db. fst (world_others W w db) = db)"

definition healthy :: "'w world \<Rightarrow> bool" where
  "healthy W \<longleftrightarrow> quiet W \<and> (\<forall>w. fst (world_fails W w) = None) \<and> (\<forall>st n fs w. fst (world_xadd W st n fs w) = None)"

text \<open>What matters of the outbox for delivery: each row's id and whether it is published.\<close>

definition outbox_view :: "agent_db \<Rightarrow> (int \<times> bool) list" where
  "outbox_view db = map (\<lambda>r. (o_id r, o_published_at r \<noteq> None)) (db_outbox db)"

definition mark :: "int \<Rightarrow> (int \<times> bool) list \<Rightarrow> (int \<times> bool) list" where
  "mark i v = map (\<lambda>(j, b). (j, b \<or> j = i)) v"

definition waiting :: "(int \<times> bool) list \<Rightarrow> int list" where
  "waiting v = sort (map fst (filter (\<lambda>p. \<not> snd p) v))"

lemma map_sort_key: "map key (sort_key key xs) = sort (map key xs)" for key :: "'a \<Rightarrow> int"
  by (rule properties_for_sort[symmetric]) simp_all

lemma waiting_fold_mark: "waiting (fold mark is v) = filter (\<lambda>i. i \<notin> set is) (waiting v)"
proof -
  have "map fst (filter (\<lambda>p. \<not> snd p) (fold mark is v)) = filter (\<lambda>i. i \<notin> set is) (map fst (filter (\<lambda>p. \<not> snd p) v))"
  proof (induction "is" arbitrary: v)
    case (Cons i "is")
    have "map fst (filter (\<lambda>p. \<not> snd p) (mark i v)) = filter (\<lambda>j. j \<noteq> i) (map fst (filter (\<lambda>p. \<not> snd p) v))"
      by (induction v) (auto simp: mark_def)
    then show ?case by (simp add: Cons.IH conj_commute)
  qed simp
  then show ?thesis by (simp add: waiting_def filter_sort[symmetric])
qed

lemma fold_mark_ids [simp]: "map fst (fold mark is v) = map fst v"
proof (induction "is" arbitrary: v)
  case (Cons i "is")
  have "map fst (mark i v) = map fst v" by (induction v) (auto simp: mark_def)
  then show ?case by (simp add: Cons.IH)
qed simp

lemma distinct_waiting: "distinct (map fst v) \<Longrightarrow> distinct (waiting v)"
  by (simp add: waiting_def distinct_map_filter)

lemma filter_not_take: "distinct xs \<Longrightarrow> filter (\<lambda>x. x \<notin> set (take n xs)) xs = drop n xs"
proof -
  assume "distinct xs"
  then have "distinct (take n xs @ drop n xs)" by simp
  then have "filter (\<lambda>x. x \<notin> set (take n xs)) (take n xs @ drop n xs) = drop n xs"
    unfolding distinct_append filter_append by (auto simp: filter_id_conv)
  then show ?thesis by simp
qed

lemma store_call_quiet:
  assumes "quiet W" and "store_call W f s = (r, s')"
  shows "r_log s' = r_log s" and "r = Inr x \<Longrightarrow> f (r_db s) = Inr (x, r_db s')"
    and "r_db s' = r_db s \<or> (\<exists>x. f (r_db s) = Inr (x, r_db s'))"
proof -
  have "fst (world_others W (r_world s) (r_db s)) = r_db s" using assms(1) by (simp add: quiet_def)
  then obtain w1 where o: "world_others W (r_world s) (r_db s) = (r_db s, w1)" by (metis prod.collapse)
  obtain failure w2 where f: "world_fails W w1 = (failure, w2)" by fastforce
  note [simp] = store_call_def o f Let_def
  show "r_log s' = r_log s" "r = Inr x \<Longrightarrow> f (r_db s) = Inr (x, r_db s')"
    "r_db s' = r_db s \<or> (\<exists>x. f (r_db s) = Inr (x, r_db s'))"
    using assms(2) by (auto split: option.splits sum.splits prod.splits if_splits)
qed

lemma relay_now_keeps:
  "relay_now W s = (t, s') \<Longrightarrow> r_log s' = r_log s" "relay_now W s = (t, s') \<Longrightarrow> r_db s' = r_db s"
  by (auto simp: relay_now_def split: prod.splits)

lemma xadd_keeps:
  "xadd W st n fs s = (e, s') \<Longrightarrow> r_log s' = r_log s" "xadd W st n fs s = (e, s') \<Longrightarrow> r_db s' = r_db s"
  by (auto simp: xadd_def split: prod.splits)

lemma outbox_view_failed [simp]: "outbox_view (MarkOutboxFailed i why db) = outbox_view db"
  by (auto simp: outbox_view_def MarkOutboxFailed_def update_where_def)

lemma outbox_view_published [simp]: "outbox_view (MarkOutboxPublished i t db) = mark i (outbox_view db)"
  by (auto simp: outbox_view_def MarkOutboxPublished_def update_where_def mark_def)

lemma outbox_view_lease:
  "AcquireOutboxLease h now ttl db = Inr (b, db') \<Longrightarrow> outbox_view db' = outbox_view db"
  "outbox_view (ReleaseOutboxLease h db) = outbox_view db"
  by (auto simp: outbox_view_def AcquireOutboxLease_def ReleaseOutboxLease_def split: if_splits option.splits)

abbreviation view_of :: "'w relay \<Rightarrow> (int \<times> bool) list" where
  "view_of s \<equiv> outbox_view (r_db s)"

lemma renew_keeps:
  assumes "quiet W" and "renew W holder force s = (e, s')"
  shows "r_log s' = r_log s \<and> view_of s' = view_of s"
proof -
  obtain now s1 where n: "relay_now W s = (now, s1)" by fastforce
  obtain r s2 where c: "store_call W (AcquireOutboxLease holder now leaseTTL) s1 = (r, s2)" by fastforce
  have "r_log s2 = r_log s" "view_of s2 = view_of s"
    using store_call_quiet(1,3)[OF assms(1) c] relay_now_keeps[OF n] by (auto dest: outbox_view_lease(1))
  then show ?thesis using assms(2) relay_now_keeps[OF n] by (auto simp: renew_def n c split: if_splits sum.splits)
qed

lemma markFailed_keeps: "quiet W \<Longrightarrow> r_log (markFailed W i why s) = r_log s \<and> view_of (markFailed W i why s) = view_of s"
  using store_call_quiet[of W "\<lambda>db. Inr ((), MarkOutboxFailed i why db)" s]
  unfolding markFailed_def by (metis outbox_view_failed prod.collapse prod.inject sum.inject(2))

lemma publish_row_effect:
  assumes q: "quiet W" and run: "publish_row W holder row s = (e, s')"
  shows "e = None \<Longrightarrow> r_log s' = r_log s @ [row] \<and> view_of s' = mark (o_id row) (view_of s)"
    and "e \<noteq> None \<Longrightarrow> (r_log s' = r_log s \<and> view_of s' = view_of s) \<or>
      (r_log s' = r_log s @ [row] \<and> view_of s' \<in> {view_of s, mark (o_id row) (view_of s)})"
proof -
  obtain e1 s1 where r: "renew W holder False s = (e1, s1)" by fastforce
  obtain e2 s2 where x: "xadd W (o_stream row) streamMaxLen [''envelope'', o_envelope row] s1 = (e2, s2)" by fastforce
  obtain t s3 where n: "relay_now W (s2\<lparr>r_log := r_log s2 @ [row]\<rparr>) = (t, s3)" by fastforce
  define s4 where "s4 = (if r_audit_ok s3 then (let (ok, s) = relay_audit W row t s3 in s\<lparr>r_audit_ok := ok\<rparr>) else s3)"
  obtain r5 s5 where m: "store_call W (\<lambda>db. Inr ((), MarkOutboxPublished (o_id row) t db)) s4 = (r5, s5)" by fastforce
  have before: "r_log s1 = r_log s" "view_of s1 = view_of s" using renew_keeps[OF q r] by auto
  have four: "r_log s4 = r_log s @ [row]" "view_of s4 = view_of s"
    using before xadd_keeps[OF x] relay_now_keeps[OF n] by (auto simp: s4_def relay_audit_def Let_def split: prod.splits dest: xadd_keeps)
  have five: "r_log s5 = r_log s @ [row]" "view_of s5 \<in> {view_of s, mark (o_id row) (view_of s)}"
    using store_call_quiet(1,3)[OF q m] four outbox_view_published[of "o_id row" t "r_db s4"]
    by (auto simp del: outbox_view_published)
  have marked: "view_of s5 = mark (o_id row) (view_of s)" if "r5 = Inr u" for u
    using store_call_quiet(2)[OF q m that] four outbox_view_published[of "o_id row" t "r_db s4"]
    by (auto simp del: outbox_view_published)
  note cases = run[unfolded publish_row_def r prod.case]
  have "e = None \<Longrightarrow> e1 = None \<and> e2 = None \<and> (\<exists>u. r5 = Inr u) \<and> s' = s5"
    using cases by (auto simp: x n m s4_def[symmetric] split: option.splits sum.splits)
  then show "e = None \<Longrightarrow> r_log s' = r_log s @ [row] \<and> view_of s' = mark (o_id row) (view_of s)"
    using five marked by blast
  consider "s' = s1" | why where "s' = markFailed W (o_id row) why s2" | why where "s' = markFailed W (o_id row) why s5" | "s' = s5"
    using cases by (auto simp: x n m s4_def[symmetric] split: option.splits sum.splits)
  then show "(r_log s' = r_log s \<and> view_of s' = view_of s) \<or>
      (r_log s' = r_log s @ [row] \<and> view_of s' \<in> {view_of s, mark (o_id row) (view_of s)})"
    by cases (use before xadd_keeps[OF x] five markFailed_keeps[OF q] in auto)
qed


lemma publish_rows_effect:
  assumes q: "quiet W"
  shows "publish_rows W holder rows s = (e, s') \<Longrightarrow>
    (\<exists>new. r_log s' = r_log s @ new \<and> prefix new rows \<and> (e = None \<longrightarrow> new = rows) \<and>
      (\<exists>is. set is \<subseteq> o_id ` set new \<and> view_of s' = fold mark is (view_of s) \<and> (e = None \<longrightarrow> is = map o_id rows)))"
proof (induction rows arbitrary: s)
  case Nil
  then show ?case by (auto intro!: exI[of _ "[]"])
next
  case (Cons row rows)
  obtain e1 s1 where one: "publish_row W holder row s = (e1, s1)" by fastforce
  show ?case
  proof (cases e1)
    case None
    note first = publish_row_effect(1)[OF q one None]
    have "publish_rows W holder rows s1 = (e, s')" using Cons.prems one None by simp
    from Cons.IH[OF this] obtain new "is" where "r_log s' = r_log s1 @ new" "prefix new rows" "e = None \<longrightarrow> new = rows"
      "set is \<subseteq> o_id ` set new" "view_of s' = fold mark is (view_of s1)" "e = None \<longrightarrow> is = map o_id rows" by blast
    then show ?thesis using first by (intro exI[of _ "row # new"] conjI exI[of _ "o_id row # is"]) auto
  next
    case (Some err)
    then have es: "e = Some err" "s' = s1" using Cons.prems one by auto
    consider "r_log s1 = r_log s" "view_of s1 = view_of s" | "r_log s1 = r_log s @ [row]" "view_of s1 = view_of s"
      | "r_log s1 = r_log s @ [row]" "view_of s1 = mark (o_id row) (view_of s)"
      using publish_row_effect(2)[OF q one] Some by auto
    then show ?thesis
    proof cases
      case 1
      then show ?thesis using es by (intro exI[of _ "[]"] conjI) auto
    next
      case 2
      then show ?thesis using es by (intro exI[of _ "[row]"] conjI exI[of _ "[]"]) auto
    next
      case 3
      then show ?thesis using es by (intro exI[of _ "[row]"] conjI exI[of _ "[o_id row]"]) auto
    qed
  qed
qed

lemma pending_ids:
  assumes "PendingOutbox batchSize db = Inr rows"
  shows "map o_id rows = take 100 (waiting (outbox_view db))"
proof -
  have "map fst (filter (\<lambda>p. \<not> snd p) (outbox_view db)) = map o_id (filter (\<lambda>r. o_published_at r = None) (db_outbox db))"
    unfolding outbox_view_def by (induction "db_outbox db") (auto simp: filter_map comp_def)
  then show ?thesis using assms
    by (auto simp: PendingOutbox_def batchSize_def waiting_def take_map map_sort_key[symmetric])
qed

lemma drain_loop_effect:
  assumes q: "quiet W"
  shows "drain_loop W holder fuel s = Some (e, s') \<Longrightarrow> distinct (map fst (view_of s)) \<Longrightarrow>
    \<exists>new. r_log s' = r_log s @ new \<and> prefix (map o_id new) (waiting (view_of s)) \<and>
      (e = None \<longrightarrow> map o_id new = waiting (view_of s)) \<and>
      (\<exists>is. set is \<subseteq> o_id ` set new \<and> view_of s' = fold mark is (view_of s) \<and> (e = None \<longrightarrow> is = waiting (view_of s)))"
proof (induction fuel arbitrary: s)
  case (Suc fuel)
  let ?pend = "\<lambda>db. map_sum id (\<lambda>rows. (rows, db)) (PendingOutbox batchSize db)"
  obtain e1 s1 where r: "renew W holder True s = (e1, s1)" by fastforce
  obtain r2 s2 where c: "store_call W ?pend s1 = (r2, s2)" by fastforce
  have one: "r_log s1 = r_log s" "view_of s1 = view_of s" using renew_keeps[OF q r] by auto
  have keep: "?pend db = Inr (x, db') \<Longrightarrow> db' = db \<and> PendingOutbox batchSize db = Inr x" for db x db'
    by (cases "PendingOutbox batchSize db") auto
  have two: "r_log s2 = r_log s" "view_of s2 = view_of s"
    using store_call_quiet(1,3)[OF q c] one by (auto dest: keep)
  have rows: "PendingOutbox batchSize (r_db s1) = Inr rows" if "r2 = Inr rows" for rows
    using store_call_quiet(2)[OF q c that] keep by blast
  note run = Suc.prems(1)[simplified, unfolded r prod.case]
  show ?case
  proof (cases "e1 = None \<and> (\<exists>rows. r2 = Inr rows \<and> rows \<noteq> [])")
    case False
    then consider "e \<noteq> None" "s' = s1" | "e \<noteq> None" "s' = s2" | "e = None" "s' = s2" "r2 = Inr []"
      using run by (auto simp: c split: option.splits sum.splits)
    then show ?thesis
    proof cases
      case 3
      then have "waiting (view_of s) = []"
        using pending_ids[OF rows[OF 3(3)]] one by (auto dest: arg_cong[where f = length] simp: min_def split: if_splits)
      then show ?thesis using 3 two by (auto intro!: exI[of _ "[]"])
    qed (use one two in \<open>auto intro!: exI[of _ "[]"]\<close>)
  next
    case True
    then obtain rows where rw: "e1 = None" "r2 = Inr rows" "rows \<noteq> []" by blast
    obtain e3 s3 where p: "publish_rows W holder rows s2 = (e3, s3)" by fastforce
    have ids: "map o_id rows = take 100 (waiting (view_of s))" using pending_ids[OF rows[OF rw(2)]] one by simp
    obtain new "is" where batch: "r_log s3 = r_log s @ new" "prefix new rows" "e3 = None \<longrightarrow> new = rows"
      "set is \<subseteq> o_id ` set new" "view_of s3 = fold mark is (view_of s)" "e3 = None \<longrightarrow> is = map o_id rows"
      using publish_rows_effect[OF q p] two by auto
    have pre: "prefix (map o_id new) (waiting (view_of s))"
      using map_mono_prefix[OF batch(2), of o_id] take_is_prefix[of 100] unfolding ids by (rule prefix_order.trans)
    show ?thesis
    proof (cases e3)
      case (Some err)
      then show ?thesis using run rw pre batch by (auto simp: c p intro!: exI[of _ new])
    next
      case None
      then have b: "new = rows" "is = map o_id rows" using batch(3,6) by auto
      have len: "length rows = min 100 (length (waiting (view_of s)))"
        using arg_cong[OF ids, of length] by (simp add: min.commute)
      show ?thesis
      proof (cases "int (length rows) < batchSize")
        case True
        then have "waiting (view_of s) = map o_id rows" using len ids by (simp add: batchSize_def)
        then show ?thesis using True run rw None batch b by (auto simp: c p intro!: exI[of _ rows] exI[of _ "map o_id rows"])
      next
        case False
        then have rest: "drain_loop W holder fuel s3 = Some (e, s')" using run rw None by (simp add: c p)
        have v3: "view_of s3 = fold mark (map o_id rows) (view_of s)" using batch(5) b by simp
        have w3: "waiting (view_of s3) = drop 100 (waiting (view_of s))"
          unfolding v3 waiting_fold_mark ids by (rule filter_not_take[OF distinct_waiting[OF Suc.prems(2)]])
        have split: "waiting (view_of s) = map o_id rows @ waiting (view_of s3)" by (simp add: ids w3)
        from Suc.IH[OF rest] obtain new2 is2 where "r_log s' = r_log s3 @ new2"
          "prefix (map o_id new2) (waiting (view_of s3))" "e = None \<longrightarrow> map o_id new2 = waiting (view_of s3)"
          "set is2 \<subseteq> o_id ` set new2" "view_of s' = fold mark is2 (view_of s3)" "e = None \<longrightarrow> is2 = waiting (view_of s3)"
          using Suc.prems(2) v3 by auto
        then show ?thesis
          using batch(1) b v3 by (intro exI[of _ "rows @ new2"] conjI exI[of _ "map o_id rows @ is2"]) (auto simp: split)
      qed
    qed
  qed
qed simp


lemma in_fold_mark: "(i, b) \<in> set (fold mark is v) \<Longrightarrow> (i, b) \<in> set v \<or> b \<and> i \<in> set is"
proof (induction "is" arbitrary: v)
  case (Cons j "is")
  then have "(i, b) \<in> set (mark j v) \<or> b \<and> i \<in> set is" by simp
  then show ?case by (auto simp: mark_def)
qed simp

lemma waiting_view: "waiting (outbox_view db) = map o_id (sort_key o_id (filter (\<lambda>r. o_published_at r = None) (db_outbox db)))"
proof -
  have "map fst (filter (\<lambda>p. \<not> snd p) (outbox_view db)) = map o_id (filter (\<lambda>r. o_published_at r = None) (db_outbox db))"
    unfolding outbox_view_def by (induction "db_outbox db") (auto simp: filter_map comp_def)
  then show ?thesis by (simp add: waiting_def map_sort_key)
qed

lemma Drain_loop:
  assumes "quiet W" and "Drain W holder fuel s = Some (e, s')"
  obtains s0 s1 where "drain_loop W holder fuel s0 = Some (e, s1)" "r_log s0 = r_log s" "r_db s0 = r_db s"
    "r_log s' = r_log s1" "view_of s' = view_of s1"
proof -
  let ?s0 = "s\<lparr>r_renewed_at := zero_time, r_audit_ok := True\<rparr>" and ?rel = "\<lambda>db. Inr ((), ReleaseOutboxLease holder db)"
  obtain s1 where l: "drain_loop W holder fuel ?s0 = Some (e, s1)" "s' = snd (store_call W ?rel s1)"
    using assms(2) by (auto simp: Drain_def)
  obtain r where "store_call W ?rel s1 = (r, s')" using l(2) by (metis prod.collapse)
  from store_call_quiet(1,3)[OF assms(1) this] have "r_log s' = r_log s1" "view_of s' = view_of s1"
    using outbox_view_lease(2)[of holder "r_db s1"] by auto
  then show ?thesis using that[OF l(1)] by simp
qed

lemma Relay_drain:
  assumes "quiet W" and "distinct (map o_id (db_outbox (r_db s)))" and "Drain W holder fuel s = Some (e, s')"
  shows "\<exists>new. r_log s' = r_log s @ new \<and>
    prefix (map o_id new) (map o_id (sort_key o_id (filter (\<lambda>r. o_published_at r = None) (db_outbox (r_db s))))) \<and>
    (e = None \<longrightarrow> length new = length (filter (\<lambda>r. o_published_at r = None) (db_outbox (r_db s))) \<and>
       list_all (\<lambda>r. o_published_at r \<noteq> None) (db_outbox (r_db s'))) \<and>
    (\<forall>r'\<in>set (db_outbox (r_db s')). o_published_at r' \<noteq> None \<longrightarrow>
      o_id r' \<in> o_id ` set new \<or> (\<exists>r\<in>set (db_outbox (r_db s)). o_id r = o_id r' \<and> o_published_at r \<noteq> None))"
proof (rule Drain_loop[OF assms(1,3)])
  fix s0 s1
  assume loop: "drain_loop W holder fuel s0 = Some (e, s1)" and s0: "r_log s0 = r_log s" "r_db s0 = r_db s"
    and s1: "r_log s' = r_log s1" "view_of s' = view_of s1"
  have dist: "distinct (map fst (view_of s0))" using assms(2) by (simp add: s0 outbox_view_def comp_def)
  obtain new "is" where n: "r_log s' = r_log s @ new" "prefix (map o_id new) (waiting (view_of s))"
    "e = None \<longrightarrow> map o_id new = waiting (view_of s)" "set is \<subseteq> o_id ` set new"
    "view_of s' = fold mark is (view_of s)" "e = None \<longrightarrow> is = waiting (view_of s)"
    using drain_loop_effect[OF assms(1) loop dist] s0 s1 by auto
  have "list_all (\<lambda>r. o_published_at r \<noteq> None) (db_outbox (r_db s'))" if "e = None"
  proof -
    have "waiting (view_of s') = []" using n(5,6) that by (simp add: waiting_fold_mark)
    then have "sort_key o_id (filter (\<lambda>r. o_published_at r = None) (db_outbox (r_db s'))) = []" unfolding waiting_view by simp
    then have "set (filter (\<lambda>r. o_published_at r = None) (db_outbox (r_db s'))) = {}" by (metis set_sort set_empty)
    then show ?thesis by (auto simp: list_all_iff)
  qed
  moreover have "length new = length (filter (\<lambda>r. o_published_at r = None) (db_outbox (r_db s)))" if "e = None"
    using arg_cong[OF n(3)[rule_format, OF that], of length] unfolding waiting_view by simp
  moreover have "o_id r' \<in> o_id ` set new \<or> (\<exists>r\<in>set (db_outbox (r_db s)). o_id r = o_id r' \<and> o_published_at r \<noteq> None)"
    if "r' \<in> set (db_outbox (r_db s'))" "o_published_at r' \<noteq> None" for r'
  proof -
    have "(o_id r', True) \<in> set (view_of s')" using that by (auto simp: outbox_view_def)
    then have "(o_id r', True) \<in> set (view_of s) \<or> o_id r' \<in> set is" unfolding n(5) by (auto dest: in_fold_mark)
    then show ?thesis using n(4) by (auto simp: outbox_view_def)
  qed
  ultimately show ?thesis using n(1,2) unfolding waiting_view by blast
qed


section \<open>Progress\<close>

definition may_lead :: "string \<Rightarrow> agent_db \<Rightarrow> bool" where
  "may_lead holder db \<longleftrightarrow> (case db_lease db of None \<Rightarrow> True | Some l \<Rightarrow> lease_holder l = holder)"

lemma store_call_healthy:
  assumes "healthy W" and "f (r_db s) = Inr (x, db')"
  shows "\<exists>w. store_call W f s = (Inr x, s\<lparr>r_world := w, r_db := db'\<rparr>)"
proof -
  obtain w1 where o: "world_others W (r_world s) (r_db s) = (r_db s, w1)"
    using assms(1) by (metis healthy_def quiet_def prod.collapse)
  obtain w2 where f: "world_fails W w1 = (None, w2)" using assms(1) by (metis healthy_def prod.collapse)
  show ?thesis using assms(2) by (auto simp: store_call_def o f)
qed

lemma renew_healthy:
  assumes "healthy W" and "holder \<noteq> []" and "may_lead holder (r_db s)"
  shows "\<exists>s'. renew W holder force s = (None, s') \<and> may_lead holder (r_db s')"
proof -
  obtain now s1 where n: "relay_now W s = (now, s1)" by fastforce
  then have acq: "AcquireOutboxLease holder now leaseTTL (r_db s1) =
      Inr (True, (r_db s1)\<lparr>db_lease := Some \<lparr>lease_holder = holder, lease_expires_at = now + leaseTTL\<rparr>\<rparr>)"
    using assms(2,3) relay_now_keeps(2)[OF n] by (auto simp: AcquireOutboxLease_def leaseTTL_def may_lead_def split: option.splits)
  show ?thesis using store_call_healthy[OF assms(1), of "AcquireOutboxLease holder now leaseTTL", OF acq] relay_now_keeps(2)[OF n] assms(3)
    by (auto simp: renew_def n may_lead_def)
qed

lemma publish_row_healthy:
  assumes "healthy W" and "holder \<noteq> []" and "may_lead holder (r_db s)"
  shows "\<exists>s'. publish_row W holder row s = (None, s') \<and> may_lead holder (r_db s')"
proof -
  obtain s1 where r: "renew W holder False s = (None, s1)" "may_lead holder (r_db s1)" using renew_healthy[OF assms] by blast
  obtain s2 where x: "xadd W (o_stream row) streamMaxLen [''envelope'', o_envelope row] s1 = (None, s2)"
  proof -
    let ?x = "world_xadd W (o_stream row) streamMaxLen [''envelope'', o_envelope row] (r_world s1)"
    have "fst ?x = None" using assms(1) by (simp add: healthy_def)
    then obtain w where "?x = (None, w)" by (metis prod.collapse)
    then show ?thesis using that[of "s1\<lparr>r_world := w\<rparr>"] by (simp add: xadd_def)
  qed
  obtain t s3 where n: "relay_now W (s2\<lparr>r_log := r_log s2 @ [row]\<rparr>) = (t, s3)" by fastforce
  define s4 where "s4 = (if r_audit_ok s3 then (let (ok, s) = relay_audit W row t s3 in s\<lparr>r_audit_ok := ok\<rparr>) else s3)"
  have db4: "r_db s4 = r_db s1" using xadd_keeps[OF x] relay_now_keeps[OF n]
    by (auto simp: s4_def relay_audit_def Let_def split: prod.splits dest: xadd_keeps)
  obtain w where m: "store_call W (\<lambda>db. Inr ((), MarkOutboxPublished (o_id row) t db)) s4 =
      (Inr (), s4\<lparr>r_world := w, r_db := MarkOutboxPublished (o_id row) t (r_db s4)\<rparr>)"
    using store_call_healthy[OF assms(1), of "\<lambda>db. Inr ((), MarkOutboxPublished (o_id row) t db)" s4] by blast
  have "may_lead holder (MarkOutboxPublished (o_id row) t (r_db s4))"
    using r(2) by (simp add: db4 may_lead_def MarkOutboxPublished_def)
  then show ?thesis by (simp add: publish_row_def r(1) x n s4_def[symmetric] m)
qed

lemma publish_rows_healthy:
  assumes "healthy W" and "holder \<noteq> []"
  shows "may_lead holder (r_db s) \<Longrightarrow> \<exists>s'. publish_rows W holder rows s = (None, s') \<and> may_lead holder (r_db s')"
proof (induction rows arbitrary: s)
  case (Cons row rows)
  then show ?case using publish_row_healthy[OF assms Cons.prems, of row] by fastforce
qed simp

lemma drain_loop_healthy:
  assumes h: "healthy W" and "holder \<noteq> []"
  shows "may_lead holder (r_db s) \<Longrightarrow> distinct (map fst (view_of s)) \<Longrightarrow> length (waiting (view_of s)) < 100 * fuel \<Longrightarrow>
    \<exists>s'. drain_loop W holder fuel s = Some (None, s')"
proof (induction fuel arbitrary: s)
  case (Suc fuel)
  have q: "quiet W" using h by (simp add: healthy_def)
  obtain s1 where r: "renew W holder True s = (None, s1)" "may_lead holder (r_db s1)"
    using renew_healthy[OF assms Suc.prems(1)] by blast
  have one: "view_of s1 = view_of s" using renew_keeps[OF q r(1)] by simp
  obtain rows where p: "PendingOutbox batchSize (r_db s1) = Inr rows" by (simp add: PendingOutbox_def batchSize_def)
  obtain w where c: "store_call W (\<lambda>db. map_sum id (\<lambda>rows. (rows, db)) (PendingOutbox batchSize db)) s1 =
      (Inr rows, s1\<lparr>r_world := w, r_db := r_db s1\<rparr>)"
    using store_call_healthy[OF h, of "\<lambda>db. map_sum id (\<lambda>rows. (rows, db)) (PendingOutbox batchSize db)" s1 rows "r_db s1"] p by auto
  let ?s2 = "s1\<lparr>r_world := w, r_db := r_db s1\<rparr>"
  obtain s3 where b: "publish_rows W holder rows ?s2 = (None, s3)" "may_lead holder (r_db s3)"
    using publish_rows_healthy[OF assms, of ?s2 rows] r(2) by auto
  have ids: "map o_id rows = take 100 (waiting (view_of s))" using pending_ids[OF p] one by simp
  have v3: "view_of s3 = fold mark (map o_id rows) (view_of s)" using publish_rows_effect[OF q b(1)] one by auto
  have w3: "waiting (view_of s3) = drop 100 (waiting (view_of s))"
    unfolding v3 waiting_fold_mark ids by (rule filter_not_take[OF distinct_waiting[OF Suc.prems(2)]])
  show ?case
  proof (cases "rows = [] \<or> int (length rows) < batchSize")
    case False
    have "length rows = min (length (waiting (view_of s))) 100" using arg_cong[OF ids, of length] by simp
    then have "100 \<le> length (waiting (view_of s))" using False by (simp add: batchSize_def min_def split: if_splits)
    then have "length (waiting (view_of s3)) < 100 * fuel" using Suc.prems(3) w3 by simp
    then have "\<exists>s'. drain_loop W holder fuel s3 = Some (None, s')" using Suc.IH[OF b(2)] Suc.prems(2) v3 by simp
    then show ?thesis using False by (simp add: r(1) c b(1)[simplified])
  next
    case True
    then show ?thesis by (cases "rows = []") (simp_all add: r(1) c b(1)[simplified])
  qed
qed simp

lemma prefix_same_length: "prefix xs ys \<Longrightarrow> length xs = length ys \<Longrightarrow> xs = ys"
  by (auto simp: prefix_def)



section \<open>Lease and backoff\<close>

text \<open>An operation of another replica that happens before the lease expires, or of no replica.\<close>

fun foreign :: "string \<Rightarrow> instant \<Rightarrow> outbox_op \<Rightarrow> bool" where
  "foreign holder expires (OpAcquireLease h now ttl) \<longleftrightarrow> h \<noteq> holder \<and> now \<le> expires"
| "foreign holder expires (OpReleaseLease h) \<longleftrightarrow> h \<noteq> holder"
| "foreign holder expires _ \<longleftrightarrow> True"

lemma outbox_write_lease:
  assumes "db_lease db = Some \<lparr>lease_holder = holder, lease_expires_at = expires\<rparr>" and "foreign holder expires x"
  shows "db_lease (outbox_write st db x) = Some \<lparr>lease_holder = holder, lease_expires_at = expires\<rparr>"
  using assms
  by (cases x) (auto simp: AcquireOutboxLease_def ReleaseOutboxLease_def MarkOutboxPublished_def MarkOutboxFailed_def
      PurgePublishedOutbox_def Let_def)

text \<open>Claim C32. At most one replica owns the outbox at a time: while a lease has not expired and its holder has not
  given it up, whatever other replicas do to the outbox, each of their attempts to take the lease fails.\<close>

theorem lease_exclusive:
  assumes "db_lease db = Some \<lparr>lease_holder = holder, lease_expires_at = expires\<rparr>"
    and "list_all (foreign holder expires) ops"
    and "h \<noteq> holder" and "h \<noteq> []" and "ttl > 0" and "now \<le> expires"
  shows "AcquireOutboxLease h now ttl (fold (\<lambda>x db. outbox_write st db x) ops db) =
    Inr (False, fold (\<lambda>x db. outbox_write st db x) ops db)"
proof -
  have "db_lease (fold (\<lambda>x db. outbox_write st db x) ops db) = Some \<lparr>lease_holder = holder, lease_expires_at = expires\<rparr>"
    using assms(1,2) by (induction ops arbitrary: db) (auto simp: outbox_write_lease)
  then show ?thesis using assms(3-6) by (auto simp: AcquireOutboxLease_def)
qed

definition leased_db :: agent_db where
  "leased_db = empty_db\<lparr>db_lease := Some \<lparr>lease_holder = ''a'', lease_expires_at = 100\<rparr>\<rparr>"

theorem lease_exclusive_witness:
  "AcquireOutboxLease ''b'' 90 60 (fold (\<lambda>x db. outbox_write demo_store db x)
     [OpAcquireLease ''c'' 50 60, OpReleaseLease ''b''] leased_db) =
   Inr (False, fold (\<lambda>x db. outbox_write demo_store db x) [OpAcquireLease ''c'' 50 60, OpReleaseLease ''b''] leased_db)"
  by (rule lease_exclusive[where holder = "''a''" and expires = 100]) (simp_all add: leased_db_def)

text \<open>The rounds of \<open>Run\<close> as far as the timer goes: the outcome of each pass and the time it ended.\<close>

fun rounds :: "(relay_error option \<times> instant) list \<Rightarrow> round_state \<Rightarrow> duration list \<times> round_state" where
  "rounds [] rs = ([], rs)"
| "rounds ((err, now) # xs) rs =
     (let (wait, rs1) = after_drain err now rs; (waits, rs2) = rounds xs rs1 in (wait # waits, rs2))"

definition backoff_ok :: "round_state \<Rightarrow> bool" where
  "backoff_ok rs \<longleftrightarrow> second \<le> rs_backoff rs \<and> rs_backoff rs \<le> minute"

lemma after_drain_ok:
  assumes "backoff_ok rs" and "after_drain err now rs = (wait, rs')"
  shows "backoff_ok rs' \<and> second \<le> wait \<and> wait \<le> minute \<and>
    (err \<noteq> None \<longrightarrow> rs_retry_at rs' = now + wait) \<and> (err = None \<longrightarrow> rs_backoff rs' = second)"
proof -
  have "wrap64 (rs_backoff rs * 2) = rs_backoff rs * 2"
    using assms(1) by (intro wrap64_id) (auto simp: backoff_ok_def min_int64_def max_int64_def)
  then show ?thesis using assms
    by (auto simp: after_drain_def backoff_ok_def safetyInterval_def leaseRetry_def maxBackoff_def
        split: option.splits relay_error.splits)
qed

text \<open>However passes end, the relay neither spins nor stalls: from its start, every wait between passes is
  at least a second and at most a minute.\<close>

theorem relay_waits_bounded:
  assumes "w \<in> set (fst (rounds outcomes round_init))"
  shows "second \<le> w \<and> w \<le> minute"
proof -
  have "\<forall>w\<in>set (fst (rounds outcomes rs)). second \<le> w \<and> w \<le> minute" if "backoff_ok rs" for rs
    using that
  proof (induction outcomes arbitrary: rs)
    case (Cons x xs)
    obtain err now wait rs1 where "x = (err, now)" "after_drain err now rs = (wait, rs1)" by (metis surj_pair)
    then show ?case using Cons.IH[of rs1] after_drain_ok[OF Cons.prems] by (auto split: prod.splits)
  qed simp
  moreover have "backoff_ok round_init" by (simp add: round_init_def backoff_ok_def)
  ultimately show ?thesis using assms by blast
qed

theorem relay_waits_bounded_witness:
  "\<exists>w\<in>set (fst (rounds [(Some (PublishFailed ''down''), 0), (Some (PublishFailed ''down''), 5)] round_init)).
     w = 2 * second \<and> w \<le> minute"
proof -
  have "2 * second \<in> set (fst (rounds [(Some (PublishFailed ''down''), 0), (Some (PublishFailed ''down''), 5)] round_init))"
    by (simp add: after_drain_def round_init_def wrap64_def maxBackoff_def)
  from relay_waits_bounded[OF this] this show ?thesis by blast
qed

section \<open>A sample pass\<close>

text \<open>The state of the sample world counts appends; the append with number \<open>bad\<close> fails.\<close>

definition sample_world :: "nat option \<Rightarrow> nat world" where
  "sample_world bad = \<lparr>world_now = (\<lambda>w. (1000, w)), world_others = (\<lambda>w db. (db, w)), world_fails = (\<lambda>w. (None, w)),
     world_xadd = (\<lambda>_ _ _ w. (if bad = Some w then Some ''down'' else None, w + 1))\<rparr>"

definition sample_row :: "int \<Rightarrow> outbox_row" where
  "sample_row i = \<lparr>o_id = i, o_event_id = ''e'', o_user_id = 7, o_stream = ''s'', o_envelope = ''{}'', o_attempts = 0,
     o_last_error = [], o_created_at = 10, o_published_at = None\<rparr>"

definition sample_relay :: "nat relay" where
  "sample_relay = \<lparr>r_db = empty_db\<lparr>db_outbox := [sample_row 1, sample_row 2, sample_row 3], db_outbox_seq := 3\<rparr>, r_world = 0,
     r_log = [], r_renewed_at = 0, r_audit_ok = True\<rparr>"



end
