(* ===== verification/Regexp.thy ===== *)
theory Regexp
  imports GoStrings
begin

text \<open>
  Go's \<open>regexp\<close> package as far as the policy engine uses it: patterns over code points, matched leftmost-first.
  \<open>ends\<close> lists the places where a match from a given place can end, in the order of preference of the
  backtracking semantics the package documents, so its head is the match the package reports; \<open>Match\<close> is the
  declarative meaning of a pattern, and the two agree. A place is the code point before it, if any, and the
  text after it, which is all that \<open>\b\<close>, \<open>^\<close> and \<open>$\<close> look at.
\<close>

section \<open>Code points\<close>

type_synonym rune = nat

definition RuneError :: rune where "RuneError = 65533"

definition decode_rune :: "string \<Rightarrow> rune" where
  "decode_rune s = (case map byte s of
       [a] \<Rightarrow> a
     | [a, b] \<Rightarrow> (a - 192) * 64 + (b - 128)
     | [a, b, c] \<Rightarrow> (a - 224) * 4096 + (b - 128) * 64 + (c - 128)
     | [a, b, c, d] \<Rightarrow> (a - 240) * 262144 + (b - 128) * 4096 + (c - 128) * 64 + (d - 128)
     | _ \<Rightarrow> RuneError)"

text \<open>\<open>[]rune(s)\<close>: a byte that starts no well-formed code point is the replacement character.\<close>

function runes :: "string \<Rightarrow> rune list" where
  "runes s = (if s = [] then []
     else if rune_width s = 0 then RuneError # runes (tl s)
     else decode_rune (take (rune_width s) s) # runes (drop (rune_width s) s))"
  by pat_completeness auto
termination by (relation "measure length") auto

declare runes.simps [simp del]

text \<open>The Unicode tables the code consults. \<open>ut_letter\<close> and \<open>ut_number\<close> are the classes \<open>\p{L}\<close> and \<open>\p{N}\<close> as
  they match under \<open>(?i)\<close>; \<open>ut_fold\<close> relates code points with the same simple case folding.\<close>

record unicode_tables =
  ut_letter :: "rune \<Rightarrow> bool"
  ut_number :: "rune \<Rightarrow> bool"
  ut_punct :: "rune \<Rightarrow> bool"
  ut_print :: "rune \<Rightarrow> bool"
  ut_fold :: "rune \<Rightarrow> rune \<Rightarrow> bool"
  ut_lower :: "rune \<Rightarrow> rune"

definition lower_rune :: "unicode_tables \<Rightarrow> rune \<Rightarrow> rune" where
  "lower_rune u r = (if r < 128 then (if 65 \<le> r \<and> r \<le> 90 then r + 32 else r) else ut_lower u r)"

definition fold_eq :: "unicode_tables \<Rightarrow> rune \<Rightarrow> rune \<Rightarrow> bool" where
  "fold_eq u a b \<longleftrightarrow> a = b \<or> (if a < 128 \<and> b < 128 then lower_rune u a = lower_rune u b else ut_fold u a b)"

text \<open>\<open>strings.EqualFold\<close>.\<close>

definition EqualFold :: "unicode_tables \<Rightarrow> string \<Rightarrow> string \<Rightarrow> bool" where
  "EqualFold u s t \<longleftrightarrow> list_all2 (fold_eq u) (runes s) (runes t)"

text \<open>\<open>unicode.IsSpace\<close>.\<close>

definition is_space_rune :: "rune \<Rightarrow> bool" where
  "is_space_rune r \<longleftrightarrow> r \<in> {9, 10, 11, 12, 13, 32, 133, 160, 5760, 8232, 8233, 8239, 8287, 12288} \<or> 8192 \<le> r \<and> r \<le> 8202"

definition ascii_runes :: "string \<Rightarrow> rune list" where
  "ascii_runes s = map byte s"

text \<open>Code points do not straddle a byte that starts one.\<close>

definition starts_rune :: "string \<Rightarrow> bool" where
  "starts_rune t \<longleftrightarrow> (case t of [] \<Rightarrow> True | c # _ \<Rightarrow> byte c < 128 \<or> 191 < byte c)"

lemma rune_width_append:
  assumes "s \<noteq> []" "starts_rune t"
  shows "rune_width (s @ t) = rune_width s"
proof (cases t)
  case (Cons c u)
  obtain b r where s: "s = b # r" using assms(1) by (cases s) auto
  consider "r = []" | x where "r = [x]" | x y where "r = [x, y]" | x y z w where "r = x # y # z # w"
    by (metis neq_Nil_conv)
  note rest = this
  consider "byte c < 128" | "191 < byte c" using assms(2) Cons by (auto simp: starts_rune_def)
  then show ?thesis
  proof cases
    case 1
    from rest show ?thesis by cases (use 1 in \<open>simp_all add: Cons s rune_width_def Let_def cont_def\<close>)
  next
    case 2
    from rest show ?thesis by cases (use 2 in \<open>simp_all add: Cons s rune_width_def Let_def cont_def\<close>)
  qed
qed simp

lemma rune_width_le: "rune_width s \<le> length s"
proof (cases s)
  case (Cons b r)
  consider "r = []" | x where "r = [x]" | x y where "r = [x, y]" | x y z w where "r = x # y # z # w"
    by (metis neq_Nil_conv)
  then show ?thesis by cases (simp_all add: Cons rune_width_def Let_def cont_def)
qed (simp add: rune_width_def)

lemma runes_Nil [simp]: "runes [] = []"
  by (simp add: runes.simps)

lemma runes_ascii_Cons: "byte c < 128 \<Longrightarrow> runes (c # t) = byte c # runes t"
  by (subst runes.simps) (simp add: rune_width_def Let_def decode_rune_def)

lemma runes_append: "starts_rune t \<Longrightarrow> runes (s @ t) = runes s @ runes t"
proof (induction s rule: runes.induct)
  case (1 s)
  consider "s = []" | "s \<noteq> []" "rune_width s = 0" | "s \<noteq> []" "rune_width s \<noteq> 0" by blast
  then show ?case
  proof cases
    case 2
    then show ?thesis using 1(1,3) rune_width_append[OF 2(1) 1(3)]
      by (subst (1 2) runes.simps) simp
  next
    case 3
    then show ?thesis using 1(2,3) rune_width_append[OF 3(1) 1(3)] rune_width_le[of s]
      by (subst (1 2) runes.simps) simp
  qed simp
qed

text \<open>Trimming white space on the right removes whole code points.\<close>

lemma strip_prefix_of_Some: "strip_prefix_of ps s = Some t \<Longrightarrow> \<exists>p\<in>set ps. s = p @ t"
  by (induction ps s rule: strip_prefix_of.induct) (auto simp: prefix_def split: if_splits)

lemma space_starts: "p \<in> set space_encodings \<Longrightarrow> starts_rune p"
  using space_encodings_heads[of p] by (cases p) (auto simp: starts_rune_def space_head_def)

lemma runes_trim_by:
  "length (runes (rev (trim_left_by (map rev space_encodings) s))) \<le> length (runes (rev s))"
proof (induction "map rev space_encodings" s rule: trim_left_by.induct)
  case (1 s)
  show ?case
  proof (cases "strip_prefix_of (map rev space_encodings) s")
    case None
    then show ?thesis by (simp add: trim_left_by_id)
  next
    case (Some t)
    then obtain p where p: "p \<in> set space_encodings" "s = rev p @ t" using strip_prefix_of_Some[OF Some] by auto
    have "length (runes (rev t)) \<le> length (runes (rev s))" using runes_append[OF space_starts[OF p(1)]] by (simp add: p(2))
    then show ?thesis using 1[OF Some] by (subst trim_left_by.simps) (simp add: Some)
  qed
qed

lemma runes_trim_right: "length (runes (trim_right s)) \<le> length (runes s)"
  using runes_trim_by[of "rev s"] by (simp add: trim_right_def)

lemma runes_ascii: "is_ascii s \<Longrightarrow> runes s = map byte s"
  by (induction s) (simp_all add: runes_ascii_Cons)

section \<open>Patterns\<close>

datatype re =
    Rune "rune \<Rightarrow> bool"
  | Eps
  | WordB
  | BeginText
  | EndText
  | Seq re re
  | Alt re re
  | Rep bool nat "nat option" re \<comment> \<open>greedy, least and greatest number of copies\<close>

type_synonym place = "rune option \<times> rune list"

definition word_rune :: "rune \<Rightarrow> bool" where
  "word_rune r \<longleftrightarrow> 48 \<le> r \<and> r \<le> 57 \<or> 65 \<le> r \<and> r \<le> 90 \<or> r = 95 \<or> 97 \<le> r \<and> r \<le> 122"

definition word_boundary :: "place \<Rightarrow> bool" where
  "word_boundary p \<longleftrightarrow> (case fst p of None \<Rightarrow> False | Some r \<Rightarrow> word_rune r) \<noteq>
     (case snd p of [] \<Rightarrow> False | r # _ \<Rightarrow> word_rune r)"

fun up_to :: "bool \<Rightarrow> (place \<Rightarrow> place list) \<Rightarrow> nat \<Rightarrow> place \<Rightarrow> place list" where
  "up_to g f 0 p = [p]"
| "up_to g f (Suc n) p = (if g then concat (map (up_to g f n) (f p)) @ [p] else p # concat (map (up_to g f n) (f p)))"

fun copies :: "bool \<Rightarrow> (place \<Rightarrow> place list) \<Rightarrow> nat \<Rightarrow> nat \<Rightarrow> place \<Rightarrow> place list" where
  "copies g f 0 n p = up_to g f n p"
| "copies g f (Suc lo) n p = concat (map (copies g f lo n) (f p))"

text \<open>An unbounded repetition needs no more copies than code points are left: every repeated pattern of the program
  consumes at least one.\<close>

primrec ends :: "re \<Rightarrow> place \<Rightarrow> place list" where
  "ends (Rune P) p = (case snd p of [] \<Rightarrow> [] | r # rs \<Rightarrow> if P r then [(Some r, rs)] else [])"
| "ends Eps p = [p]"
| "ends WordB p = (if word_boundary p then [p] else [])"
| "ends BeginText p = (if fst p = None then [p] else [])"
| "ends EndText p = (if snd p = [] then [p] else [])"
| "ends (Seq a b) p = concat (map (ends b) (ends a p))"
| "ends (Alt a b) p = ends a p @ ends b p"
| "ends (Rep g lo hi a) p =
     copies g (ends a) lo (case hi of None \<Rightarrow> length (snd p) | Some h \<Rightarrow> h - lo) p"

text \<open>\<open>FindIndex\<close>: the leftmost place with a match and the end the package prefers there.\<close>

fun find_from :: "re \<Rightarrow> rune option \<Rightarrow> rune list \<Rightarrow> (place \<times> place) option" where
  "find_from a prev [] = (case ends a (prev, []) of [] \<Rightarrow> None | e # _ \<Rightarrow> Some ((prev, []), e))"
| "find_from a prev (r # rs) =
     (case ends a (prev, r # rs) of [] \<Rightarrow> find_from a (Some r) rs | e # _ \<Rightarrow> Some ((prev, r # rs), e))"

definition MatchString :: "re \<Rightarrow> rune list \<Rightarrow> bool" where
  "MatchString a text \<longleftrightarrow> find_from a None text \<noteq> None"

text \<open>\<open>FindAll\<close>: the successive matches, each as its text and the text after it; no pattern of the program
  matches the empty text. The fuel is the number of code points left.\<close>

fun find_all :: "nat \<Rightarrow> re \<Rightarrow> place \<Rightarrow> (rune list \<times> rune list) list" where
  "find_all 0 a p = []"
| "find_all (Suc n) a p = (case find_from a (fst p) (snd p) of None \<Rightarrow> []
     | Some (s, e) \<Rightarrow> (take (length (snd s) - length (snd e)) (snd s), snd e) # find_all n a e)"

definition FindAll :: "re \<Rightarrow> rune list \<Rightarrow> (rune list \<times> rune list) list" where
  "FindAll a text = find_all (Suc (length text)) a (None, text)"

section \<open>Meaning\<close>

inductive Match :: "re \<Rightarrow> place \<Rightarrow> place \<Rightarrow> bool" and Copies :: "re \<Rightarrow> nat \<Rightarrow> place \<Rightarrow> place \<Rightarrow> bool" where
  "P r \<Longrightarrow> Match (Rune P) (q, r # rs) (Some r, rs)"
| "Match Eps p p"
| "word_boundary p \<Longrightarrow> Match WordB p p"
| "Match BeginText (None, rs) (None, rs)"
| "Match EndText (q, []) (q, [])"
| "Match a p q \<Longrightarrow> Match b q r \<Longrightarrow> Match (Seq a b) p r"
| "Match a p q \<Longrightarrow> Match (Alt a b) p q"
| "Match b p q \<Longrightarrow> Match (Alt a b) p q"
| "Copies a n p q \<Longrightarrow> lo \<le> n \<Longrightarrow> (case hi of None \<Rightarrow> True | Some h \<Rightarrow> n \<le> h) \<Longrightarrow> Match (Rep g lo hi a) p q"
| "Copies a 0 p p"
| "Match a p q \<Longrightarrow> Copies a n q r \<Longrightarrow> Copies a (Suc n) p r"

inductive_cases MatchE: "Match (Rune P) p q" "Match Eps p q" "Match WordB p q" "Match BeginText p q" "Match EndText p q"
  "Match (Seq a b) p q" "Match (Alt a b) p q" "Match (Rep g lo hi a) p q"
inductive_cases CopiesE: "Copies a 0 p q" "Copies a (Suc n) p q"

text \<open>Patterns whose unbounded repetitions consume text at each copy, which is all the program has.\<close>

primrec consumes :: "re \<Rightarrow> bool" where
  "consumes (Rune P) = True"
| "consumes Eps = False"
| "consumes WordB = False"
| "consumes BeginText = False"
| "consumes EndText = False"
| "consumes (Seq a b) = (consumes a \<or> consumes b)"
| "consumes (Alt a b) = (consumes a \<and> consumes b)"
| "consumes (Rep g lo hi a) = (consumes a \<and> 0 < lo)"

primrec regular :: "re \<Rightarrow> bool" where
  "regular (Rune P) = True"
| "regular Eps = True"
| "regular WordB = True"
| "regular BeginText = True"
| "regular EndText = True"
| "regular (Seq a b) = (regular a \<and> regular b)"
| "regular (Alt a b) = (regular a \<and> regular b)"
| "regular (Rep g lo hi a) = (regular a \<and> (case hi of None \<Rightarrow> consumes a | Some h \<Rightarrow> lo \<le> h))"

fun steps :: "(place \<Rightarrow> place list) \<Rightarrow> nat \<Rightarrow> place \<Rightarrow> place \<Rightarrow> bool" where
  "steps f 0 p q = (p = q)"
| "steps f (Suc m) p q = (\<exists>x\<in>set (f p). steps f m x q)"

lemma up_to_iff: "q \<in> set (up_to g f n p) \<longleftrightarrow> (\<exists>m\<le>n. steps f m p q)"
proof (induction n arbitrary: p)
  case (Suc n)
  have "(\<exists>m\<le>Suc n. steps f m p q) \<longleftrightarrow> p = q \<or> (\<exists>x\<in>set (f p). \<exists>m\<le>n. steps f m x q)"
    by (metis Suc_le_mono le0 not0_implies_Suc steps.simps)
  moreover have "q \<in> set (up_to g f (Suc n) p) \<longleftrightarrow> p = q \<or> (\<exists>x\<in>set (f p). q \<in> set (up_to g f n x))"
    by (cases g) auto
  ultimately show ?case by (simp only: Suc.IH)
qed auto

lemma copies_iff: "q \<in> set (copies g f lo n p) \<longleftrightarrow> (\<exists>m. lo \<le> m \<and> m \<le> lo + n \<and> steps f m p q)"
proof (induction lo arbitrary: p)
  case (Suc lo)
  have "(\<exists>m. Suc lo \<le> m \<and> m \<le> Suc lo + n \<and> steps f m p q) \<longleftrightarrow>
      (\<exists>m. lo \<le> m \<and> m \<le> lo + n \<and> steps f (Suc m) p q)"
    using Suc_le_D by fastforce
  then show ?case by (auto simp: Suc.IH simp del: split_paired_Ex)
qed (simp add: up_to_iff)

lemma steps_Copies:
  assumes "\<And>p q. q \<in> set (ends a p) \<longleftrightarrow> Match a p q"
  shows "steps (ends a) m p q \<longleftrightarrow> Copies a m p q"
proof (induction m arbitrary: p)
  case 0
  then show ?case by (auto intro: Match_Copies.intros elim: CopiesE)
next
  case (Suc m)
  then show ?case using assms by (metis CopiesE(2) Match_Copies.intros(11) steps.simps(2))
qed

lemma Match_length:
  "Match a p q \<Longrightarrow> length (snd q) \<le> length (snd p) \<and> (consumes a \<longrightarrow> length (snd q) < length (snd p))"
  "Copies a n p q \<Longrightarrow> length (snd q) \<le> length (snd p) \<and> (consumes a \<longrightarrow> n + length (snd q) \<le> length (snd p))"
proof (induction rule: Match_Copies.inducts)
  case (9 a n p q lo hi g)
  then show ?case by auto
qed auto

text \<open>The matcher is exact: it finds the ends the declarative meaning of the pattern allows, and no others.\<close>

lemma ends_Match: "regular a \<Longrightarrow> q \<in> set (ends a p) \<longleftrightarrow> Match a p q"
proof (induction a arbitrary: p q)
  case (Rune P)
  then show ?case by (cases p; cases "snd p") (auto intro: Match_Copies.intros elim: MatchE)
next
  case (Seq a b)
  have "q \<in> set (ends (Seq a b) p) \<longleftrightarrow> (\<exists>x. Match a p x \<and> Match b x q)" using Seq by (simp add: Bex_def)
  then show ?case by (metis MatchE(6) Match_Copies.intros(6))
next
  case (Rep g lo hi a)
  have IH: "q \<in> set (ends a p) \<longleftrightarrow> Match a p q" for p q using Rep by simp
  show ?case
  proof (cases hi)
    case None
    then have c: "consumes a" using Rep.prems by simp
    have "Match (Rep g lo None a) p q \<longleftrightarrow> (\<exists>m\<ge>lo. Copies a m p q)"
      by (auto elim!: MatchE intro: Match_Copies.intros)
    also have "\<dots> \<longleftrightarrow> (\<exists>m. lo \<le> m \<and> m \<le> lo + length (snd p) \<and> Copies a m p q)"
      using Match_length(2)[of a _ p q] c by (meson le_add2 le_trans add_leD1)
    finally show ?thesis using None by (simp add: copies_iff steps_Copies[OF IH])
  next
    case (Some h)
    then have "Match (Rep g lo hi a) p q \<longleftrightarrow> (\<exists>m. lo \<le> m \<and> m \<le> h \<and> Copies a m p q)"
      by (auto elim!: MatchE intro: Match_Copies.intros)
    then show ?thesis using Some Rep.prems by (simp add: copies_iff steps_Copies[OF IH])
  qed
qed (auto intro: Match_Copies.intros elim: MatchE)

text \<open>A text matches iff the pattern matches somewhere in it.\<close>

definition prev_rune :: "rune option \<Rightarrow> rune list \<Rightarrow> rune option" where
  "prev_rune prev before = (if before = [] then prev else Some (last before))"

lemma find_from_None:
  "find_from a prev rs = None \<longleftrightarrow> (\<forall>before rest. rs = before @ rest \<longrightarrow> ends a (prev_rune prev before, rest) = [])"
proof (induction rs arbitrary: prev)
  case Nil
  then show ?case by (auto simp: prev_rune_def split: list.splits)
next
  case (Cons r rs)
  have "(\<forall>before rest. r # rs = before @ rest \<longrightarrow> Q before rest) \<longleftrightarrow>
      Q [] (r # rs) \<and> (\<forall>before rest. rs = before @ rest \<longrightarrow> Q (r # before) rest)" for Q :: "rune list \<Rightarrow> rune list \<Rightarrow> bool"
    by (auto simp: Cons_eq_append_conv)
  moreover have "prev_rune prev (r # before) = prev_rune (Some r) before" for before by (simp add: prev_rune_def)
  moreover have "prev_rune prev [] = prev" by (simp add: prev_rune_def)
  ultimately show ?case by (auto simp: Cons.IH split: list.splits)
qed

lemma MatchString_iff:
  assumes "regular a"
  shows "MatchString a text \<longleftrightarrow> (\<exists>before rest e. text = before @ rest \<and> Match a (prev_rune None before, rest) e)"
proof -
  have "ends a p \<noteq> [] \<longleftrightarrow> (\<exists>e. Match a p e)" for p using ends_Match[OF assms, of _ p] by (metis list.set_intros(1) neq_Nil_conv empty_iff empty_set)
  then show ?thesis unfolding MatchString_def find_from_None by metis
qed

text \<open>The least number of code points a match takes: a shorter text has none.\<close>

primrec min_len :: "re \<Rightarrow> nat" where
  "min_len (Rune P) = 1"
| "min_len Eps = 0"
| "min_len WordB = 0"
| "min_len BeginText = 0"
| "min_len EndText = 0"
| "min_len (Seq a b) = min_len a + min_len b"
| "min_len (Alt a b) = min (min_len a) (min_len b)"
| "min_len (Rep g lo hi a) = lo * min_len a"

lemma Match_min_len:
  "Match a p q \<Longrightarrow> min_len a + length (snd q) \<le> length (snd p)"
  "Copies a n p q \<Longrightarrow> n * min_len a + length (snd q) \<le> length (snd p)"
proof (induction rule: Match_Copies.inducts)
  case (9 a n p q lo hi g)
  have "lo * min_len a \<le> n * min_len a" by (rule mult_le_mono1) (rule 9)
  then show ?case using 9 unfolding min_len.simps by linarith
qed auto

lemma find_from_short:
  assumes "regular a" "length rs < min_len a"
  shows "find_from a prev rs = None"
  unfolding find_from_None
proof (intro allI impI)
  fix before rest assume "rs = before @ rest"
  then have l: "length rest < min_len a" using assms(2) by simp
  have "\<not> Match a (prev_rune prev before, rest) e" for e
  proof
    assume "Match a (prev_rune prev before, rest) e"
    from Match_min_len(1)[OF this] l show False by simp
  qed
  then have none: "e \<notin> set (ends a (prev_rune prev before, rest))" for e by (simp add: ends_Match[OF assms(1)])
  show "ends a (prev_rune prev before, rest) = []"
    by (cases "ends a (prev_rune prev before, rest)") (use none in auto)
qed

lemma MatchString_short: "regular a \<Longrightarrow> length rs < min_len a \<Longrightarrow> \<not> MatchString a rs"
  by (simp add: MatchString_def find_from_short)

lemma FindAll_short: "regular a \<Longrightarrow> length rs < min_len a \<Longrightarrow> FindAll a rs = []"
  by (simp add: FindAll_def find_from_short)

end
