(* ===== verification/Patterns.thy ===== *)
theory Patterns
  imports Regexp
begin

text \<open>
  The pieces the program's patterns are written with: sequences and alternatives of patterns, literals with and without
  case folding, classes of code points, and the shape facts of each that the matcher's lemmas ask for.
\<close>

section \<open>Building patterns\<close>

definition in_order :: "re list \<Rightarrow> re" where "in_order xs = foldr Seq xs Eps"

fun one_of :: "re list \<Rightarrow> re" where
  "one_of [] = Rune (\<lambda>_. False)"
| "one_of [a] = a"
| "one_of (a # b # xs) = Alt a (one_of (b # xs))"

definition opt :: "re \<Rightarrow> re" where "opt a = Rep True 0 (Some 1) a"
definition many :: "re \<Rightarrow> re" where "many a = Rep True 0 None a"
definition many1 :: "re \<Rightarrow> re" where "many1 a = Rep True 1 None a"
definition between :: "nat \<Rightarrow> nat \<Rightarrow> re \<Rightarrow> re" where "between lo hi a = Rep True lo (Some hi) a"
definition at_least :: "nat \<Rightarrow> re \<Rightarrow> re" where "at_least lo a = Rep True lo None a"

lemmas pattern_defs = opt_def many_def many1_def between_def at_least_def

definition digit_rune :: "rune \<Rightarrow> bool" where "digit_rune r \<longleftrightarrow> 48 \<le> r \<and> r \<le> 57"
definition re_space_rune :: "rune \<Rightarrow> bool" where "re_space_rune r \<longleftrightarrow> r \<in> {9, 10, 12, 13, 32}"

definition lit :: "unicode_tables \<Rightarrow> rune list \<Rightarrow> re" where
  "lit u rs = in_order (map (\<lambda>r. Rune (fold_eq u r)) rs)"

definition exact :: "string \<Rightarrow> re" where
  "exact s = in_order (map (\<lambda>r. Rune (\<lambda>x. x = r)) (ascii_runes s))"

definition word :: "unicode_tables \<Rightarrow> string \<Rightarrow> re" where
  "word u s = lit u (ascii_runes s)"

definition words :: "unicode_tables \<Rightarrow> string list \<Rightarrow> re" where
  "words u ss = one_of (map (word u) ss)"

definition chars :: "string \<Rightarrow> rune \<Rightarrow> bool" where
  "chars s r \<longleftrightarrow> r \<in> set (ascii_runes s)"

definition alpha_i :: "unicode_tables \<Rightarrow> rune \<Rightarrow> bool" where
  "alpha_i u r \<longleftrightarrow> list_ex (\<lambda>c. fold_eq u c r) [97..<123]"

definition alnum :: "rune \<Rightarrow> bool" where
  "alnum r \<longleftrightarrow> 48 \<le> r \<and> r \<le> 57 \<or> 65 \<le> r \<and> r \<le> 90 \<or> 97 \<le> r \<and> r \<le> 122"

definition upper_digit :: "rune \<Rightarrow> bool" where
  "upper_digit r \<longleftrightarrow> 48 \<le> r \<and> r \<le> 57 \<or> 65 \<le> r \<and> r \<le> 90"

definition letter_or_number :: "unicode_tables \<Rightarrow> rune \<Rightarrow> bool" where
  "letter_or_number u r \<longleftrightarrow> ut_letter u r \<or> ut_number u r"

text \<open>Shape of the patterns: they are regular, and a match takes a least number of code points.\<close>

lemma in_order_shape [simp]:
  "regular (in_order xs) = list_all regular xs" "consumes (in_order xs) = list_ex consumes xs"
  "min_len (in_order xs) = sum_list (map min_len xs)"
  by (induction xs) (simp_all add: in_order_def)

lemma one_of_regular [simp]: "regular (one_of xs) = list_all regular xs"
  by (induction xs rule: one_of.induct) auto

lemma one_of_min_len: "xs \<noteq> [] \<Longrightarrow> n \<le> min_len (one_of xs) \<longleftrightarrow> list_all (\<lambda>a. n \<le> min_len a) xs"
  by (induction xs rule: one_of.induct) auto

lemma literal_shape [simp]:
  "regular (lit u rs)" "regular (exact s)" "regular (word u s)" "regular (words u ss)"
  "consumes (exact s) = (s \<noteq> [])" "min_len (lit u rs) = length rs" "min_len (exact s) = length s" "min_len (word u s) = length s"
  by (simp_all add: lit_def exact_def word_def words_def ascii_runes_def list_all_iff list_ex_iff comp_def sum_list_triv ex_in_conv)

end
