(* ===== verification/Policy.thy ===== *)
theory Policy
  imports Patterns Schedule Domain
begin

text \<open>
  The policy engine (\<open>internal/agent/policy/policy.go\<close>): whether a proposed action may be sent, needs the owner's
  approval, or is refused. \<open>Evaluate\<close> performs no I/O, so it is a function of its input. The Unicode tables and the
  time zone database are parameters. Cyrillic literals of the patterns are written as their code points.
\<close>

section \<open>Links\<close>

definition riskyTLD :: "string list" where
  "riskyTLD =
    [
     ''com'', ''net'', ''org'', ''io'', ''ru'', ''me'', ''dev'', ''co'', ''ai'', ''app'', ''xyz'', ''zip'',
     ''link'', ''click'', ''top'', ''info'', ''biz'', ''site'', ''online'', ''live'', ''shop'', ''store'',
     ''cloud'', ''tech'', ''space'', ''website'', ''fun'', ''icu'', ''cc'', ''tv'', ''ly'', ''sh'', ''to'',
     ''gg'', ''fm'', ''gl'', ''be'', ''us'', ''uk'', ''de'', ''fr'', ''es'', ''it'', ''nl'', ''pl'', ''cz'',
     ''eu'', ''in'', ''id'', ''ua'', ''by'', ''kz'', ''tr'', ''cn'', ''jp'', ''br'', ''mx'', ''ca'', ''au'',
     ''nz'', ''jobs'', ''agency'', ''careers'', ''career'', ''work'', ''works'', ''team'', ''company'',
     ''group'', ''consulting'', ''solutions'', ''network'', ''community'', ''recruiting'', ''staffing'', ''hr'']"

definition idnTLD :: "rune list list" where
  "idnTLD = [[1088, 1092], [1091, 1082, 1088], [1073, 1077, 1083], [1089, 1088, 1073], [1084, 1082, 1076], [1077, 1102], [1073, 1075], [1179, 1072, 1079], [1084, 1086, 1085]]"

definition explicitURLPattern :: "unicode_tables \<Rightarrow> re" where
  "explicitURLPattern u = one_of
     [in_order [WordB, Rune (alpha_i u), many (Rune (\<lambda>r. alpha_i u r \<or> digit_rune r \<or> chars ''+.-'' r)),
        exact ''://'', many1 (Rune (\<lambda>r. \<not> re_space_rune r))],
      in_order [WordB, word u ''www.'', many1 (Rune (\<lambda>r. \<not> re_space_rune r))]]"

definition bareDomainPattern :: "unicode_tables \<Rightarrow> re" where
  "bareDomainPattern u =
     (let an = (\<lambda>r. alpha_i u r \<or> digit_rune r); anh = (\<lambda>r. an r \<or> chars ''-'' r);
          ln = letter_or_number u; lnh = (\<lambda>r. ln r \<or> chars ''-'' r) in
      one_of
       [in_order [WordB, Rune an, many (Rune anh), many (in_order [exact ''.'', many1 (Rune anh)]), exact ''.'',
          words u riskyTLD, WordB],
        in_order [Rune ln, many (Rune lnh), many (in_order [exact ''.'', many1 (Rune lnh)]), exact ''.'',
          one_of ([in_order [word u ''xn--'', at_least 2 (Rune anh)]] @ map (lit u) idnTLD @ map (word u) riskyTLD),
          one_of [EndText, Rune (\<lambda>r. \<not> ln r)]]])"

definition ipv4LinkPattern :: re where
  "ipv4LinkPattern = in_order [WordB, between 1 3 (Rune digit_rune),
     between 3 3 (in_order [exact ''.'', between 1 3 (Rune digit_rune)]),
     one_of [in_order [exact '':'', between 1 5 (Rune digit_rune)],
             in_order [exact ''/'', many1 (Rune (\<lambda>r. \<not> re_space_rune r))]]]"

definition techNames :: "string list" where
  "techNames = [''asp.net'', ''vb.net'', ''ado.net'', ''socket.io'', ''angular.io'', ''material.io'']"

text \<open>\<open>net.ParseIP\<close> on a host of digits and dots: four fields of at most 255 without leading zeros.\<close>

definition rune_value :: "rune list \<Rightarrow> nat" where
  "rune_value ds = foldl (\<lambda>n r. n * 10 + (r - 48)) 0 ds"

definition ipv4_field :: "rune list \<Rightarrow> bool" where
  "ipv4_field ds \<longleftrightarrow> ds \<noteq> [] \<and> list_all digit_rune ds \<and> rune_value ds \<le> 255 \<and> (length ds > 1 \<longrightarrow> hd ds \<noteq> 48)"

definition ParseIPv4 :: "rune list \<Rightarrow> bool" where
  "ParseIPv4 host \<longleftrightarrow> (let fs = split_on 46 host in length fs = 4 \<and> list_all ipv4_field fs)"

definition trim_right_runes :: "(rune \<Rightarrow> bool) \<Rightarrow> rune list \<Rightarrow> rune list" where
  "trim_right_runes P rs = rev (dropWhile P (rev rs))"

definition queryOrFragmentHasValue :: "unicode_tables \<Rightarrow> rune list \<Rightarrow> bool" where
  "queryOrFragmentHasValue u rs = (case rs of [] \<Rightarrow> False
     | r # _ \<Rightarrow> r = RuneError \<or> \<not> is_space_rune r \<and> \<not> ut_punct u r)"

definition ipv4_link :: "rune list \<Rightarrow> bool" where
  "ipv4_link token \<longleftrightarrow> ParseIPv4 (takeWhile (\<lambda>r. \<not> chars '':/'' r) token)"

definition domain_link :: "unicode_tables \<Rightarrow> rune list \<times> rune list \<Rightarrow> bool" where
  "domain_link u m =
     (let (raw, suffix) = m; host = map (lower_rune u) (trim_right_runes (chars ''.,;:!?'') raw) in
      if host \<notin> set (map ascii_runes techNames) then True
      else case suffix of [] \<Rightarrow> False
        | c # rest \<Rightarrow>
            if c = 47 then True
            else if c = 58 then (case rest of [] \<Rightarrow> False | d # _ \<Rightarrow> digit_rune d)
            else if c = 63 \<or> c = 35 then queryOrFragmentHasValue u rest
            else False)"

definition containsURL :: "unicode_tables \<Rightarrow> rune list \<Rightarrow> bool" where
  "containsURL u text \<longleftrightarrow> MatchString (explicitURLPattern u) text \<or>
     list_ex (\<lambda>m. ipv4_link (fst m)) (FindAll ipv4LinkPattern text) \<or>
     list_ex (domain_link u) (FindAll (bareDomainPattern u) text)"


section \<open>Credentials and phone numbers\<close>

definition lbound :: "unicode_tables \<Rightarrow> re" where
  "lbound u = one_of [BeginText, Rune (\<lambda>r. \<not> letter_or_number u r)]"

definition rbound :: "unicode_tables \<Rightarrow> re" where
  "rbound u = one_of [EndText, Rune (\<lambda>r. \<not> letter_or_number u r)]"

text \<open>The Russian words for password and code, the em dash, white space and a run of digits.\<close>

definition cyr_password :: "rune list" where "cyr_password = [1087, 1072, 1088, 1086, 1083, 1100]"
definition cyr_code :: "rune list" where "cyr_code = [1082, 1086, 1076]"
definition em_dash :: re where "em_dash = Rune (\<lambda>r. r = 8212)"
definition ws :: re where "ws = Rune re_space_rune"
definition digits :: "nat \<Rightarrow> nat \<Rightarrow> re" where "digits lo hi = between lo hi (Rune digit_rune)"

definition cardPattern :: re where
  "cardPattern = in_order [WordB, at_least 12 (in_order [Rune digit_rune, opt (Rune (chars '' -''))]), Rune digit_rune, WordB]"

definition digitsBeforeLabel :: "unicode_tables \<Rightarrow> re" where
  "digitsBeforeLabel u = in_order [WordB, digits 4 8, many ws, opt (one_of [exact ''-'', em_dash, exact '':'']), many ws,
     opt (one_of [in_order [word u ''is'', many1 ws], in_order [word u ''are'', many1 ws], in_order [lit u [1101, 1090, 1086], many1 ws]]),
     opt (one_of [in_order [word u ''the'', many1 ws], in_order [word u ''your'', many1 ws], in_order [word u ''my'', many1 ws]]),
     one_of (map (word u) [''code'', ''otp'', ''pin'', ''password'', ''passcode''] @ [lit u cyr_password, lit u cyr_code]),
     rbound u]"

definition digitsAfterLabel :: "unicode_tables \<Rightarrow> re" where
  "digitsAfterLabel u = in_order [lbound u,
     one_of (map (word u) [''otp'', ''pin'', ''password'', ''passcode''] @ [lit u cyr_password]),
     Rune (\<lambda>r. \<not> letter_or_number u r), Rep False 0 (Some 19) (Rune (\<lambda>r. \<not> chars ''.!?'' r)), digits 4 8, WordB]"

definition cyrCodePattern :: "unicode_tables \<Rightarrow> re" where
  "cyrCodePattern u = in_order [lbound u, lit u cyr_code,
     opt (one_of [in_order [many1 ws, lit u [1076, 1086, 1089, 1090, 1091, 1087, 1072]], in_order [many1 ws, lit u [1087, 1086, 1076, 1090, 1074, 1077, 1088, 1078, 1076, 1077, 1085, 1080, 1103]]]), many ws,
     opt (one_of [word u ''is'', exact '':'', exact ''='', em_dash, exact ''-'']), many ws, digits 4 8, WordB]"

definition codePattern :: "unicode_tables \<Rightarrow> re" where
  "codePattern u = in_order [WordB, word u ''code'', many ws,
     one_of [word u ''is'', exact '':'', exact ''='', em_dash, exact ''-''], many ws, digits 4 8, WordB]"

definition qualifiedCodePattern :: "unicode_tables \<Rightarrow> re" where
  "qualifiedCodePattern u = in_order [WordB,
     words u [''verification'', ''security'', ''confirmation'', ''authentication'', ''access'', ''2fa'', ''two-factor''],
     many1 ws, word u ''code'', many1 ws, digits 4 8, WordB]"

definition seedPattern :: "unicode_tables \<Rightarrow> re" where
  "seedPattern u = in_order [WordB, one_of [in_order [word u ''seed'', many ws, word u ''phrase''], word u ''mnemonic''],
     WordB, many ws, one_of [word u ''is'', exact '':'', exact ''='', em_dash, exact ''-''], many ws,
     many1 (Rune (ut_letter u)), between 1 23 (in_order [many1 ws, many1 (Rune (ut_letter u))])]"

definition passwordPattern :: "unicode_tables \<Rightarrow> re" where
  "passwordPattern u = in_order [
     one_of [in_order [WordB, one_of [word u ''password'', word u ''passcode'', in_order [word u ''private'', many ws, word u ''key'']], WordB],
             in_order [lbound u, lit u [1087, 1072, 1088, 1086, 1083], many (Rune (ut_letter u))]],
     many ws, one_of [word u ''is'', exact '':'', exact ''='', em_dash, exact ''-''], many ws,
     at_least 4 (Rune (\<lambda>r. \<not> re_space_rune r))]"

definition machineCredentialPattern :: re where
  "machineCredentialPattern =
     (let tok = (\<lambda>r. alnum r \<or> chars ''_-'' r) in
      one_of
       [in_order [WordB, one_of
          [in_order [exact ''sk-'', at_least 16 (Rune tok)],
           in_order [exact ''gh'', Rune (chars ''pousr''), exact ''_'', at_least 20 (Rune alnum)],
           in_order [exact ''github_pat_'', at_least 20 (Rune (\<lambda>r. alnum r \<or> chars ''_'' r))],
           in_order [exact ''xox'', Rune (chars ''baprs''), exact ''-'', at_least 10 (Rune (\<lambda>r. alnum r \<or> chars ''-'' r))],
           in_order [exact ''AKIA'', between 16 16 (Rune upper_digit)],
           in_order [exact ''eyJ'', at_least 8 (Rune tok), exact ''.'', at_least 8 (Rune tok), exact ''.'', at_least 5 (Rune tok)]], WordB],
        in_order [WordB, exact ''Bearer'', many1 ws, at_least 20 (Rune (\<lambda>r. alnum r \<or> chars ''._+/=-'' r))]])"

definition labelledTokenPattern :: "unicode_tables \<Rightarrow> re" where
  "labelledTokenPattern u =
     (let sep = opt (Rune (\<lambda>r. re_space_rune r \<or> chars ''_-'' r)); dsep = opt (Rune (\<lambda>r. re_space_rune r \<or> chars ''-'' r));
          an = (\<lambda>r. alpha_i u r \<or> digit_rune r) in
      in_order [
        one_of
         [in_order [WordB, one_of
            [in_order [word u ''api'', sep, words u [''key'', ''token'', ''secret'']],
             in_order [word u ''access'', sep, word u ''token''], in_order [word u ''auth'', sep, word u ''token''],
             in_order [word u ''bearer'', sep, word u ''token''], in_order [word u ''refresh'', sep, word u ''token''],
             in_order [word u ''secret'', sep, word u ''key''], in_order [word u ''client'', sep, word u ''secret'']], WordB],
          in_order [lbound u, one_of
            [in_order [word u ''api'', dsep, lit u [1090, 1086, 1082, 1077, 1085]], in_order [lit u [1090, 1086, 1082, 1077, 1085], many1 ws, lit u [1076, 1086, 1089, 1090, 1091, 1087, 1072]],
             in_order [lit u [1089, 1077, 1082, 1088, 1077, 1090, 1085, 1099, 1081], many1 ws, lit u [1082, 1083, 1102, 1095]], in_order [lit u [1082, 1083, 1102, 1095], many1 ws, word u ''api'']]]],
        many ws, one_of [word u ''is'', exact '':'', exact ''='', em_dash], many ws,
        at_least 12 (Rune (\<lambda>r. an r \<or> chars ''._+/=-'' r))])"

definition credentialPatterns :: "unicode_tables \<Rightarrow> re list" where
  "credentialPatterns u = [cardPattern, digitsBeforeLabel u, digitsAfterLabel u, cyrCodePattern u, codePattern u,
     qualifiedCodePattern u, seedPattern u, passwordPattern u, machineCredentialPattern, labelledTokenPattern u]"

definition phoneCandidatePattern :: re where
  "phoneCandidatePattern = in_order [opt (exact ''+''), opt (exact ''(''), Rune digit_rune,
     at_least 7 (Rune (\<lambda>r. digit_rune r \<or> re_space_rune r \<or> chars ''().-'' r)), Rune digit_rune]"

text \<open>Maximal runs of digits; their concatenation is the digits of the text.\<close>

fun digit_groups :: "rune list \<Rightarrow> rune list \<Rightarrow> rune list list" where
  "digit_groups acc [] = (if acc = [] then [] else [acc])"
| "digit_groups acc (r # rs) =
     (if digit_rune r then digit_groups (acc @ [r]) rs
      else (if acc = [] then [] else [acc]) @ digit_groups [] rs)"

definition phoneDigitsAndGroups :: "rune list \<Rightarrow> rune list \<times> rune list list" where
  "phoneDigitsAndGroups s = (filter digit_rune s, digit_groups [] s)"

definition trim_runes :: "rune list \<Rightarrow> rune list" where
  "trim_runes rs = trim_right_runes is_space_rune (dropWhile is_space_rune rs)"

text \<open>\<open>strings.Fields\<close>.\<close>

definition fields_runes :: "rune list \<Rightarrow> rune list list" where
  "fields_runes rs = filter (\<lambda>f. f \<noteq> []) (split_on 32 (map (\<lambda>r. if is_space_rune r then 32 else r) rs))"

definition isThousandGrouped :: "rune list \<Rightarrow> bool" where
  "isThousandGrouped s \<longleftrightarrow> (case fields_runes s of
       f # g # gs \<Rightarrow> list_all (list_all digit_rune) (f # g # gs) \<and> 1 \<le> length f \<and> length f \<le> 3 \<and>
                     list_all (\<lambda>x. length x = 3) (g # gs)
     | _ \<Rightarrow> False)"

definition isSpaceGroupedRange :: "rune list \<Rightarrow> bool" where
  "isSpaceGroupedRange s = (case cut_on 45 s of None \<Rightarrow> False
     | Some (a, b) \<Rightarrow> isThousandGrouped (trim_runes a) \<and> isThousandGrouped (trim_runes b))"

definition hd_is :: "rune \<Rightarrow> rune list \<Rightarrow> bool" where
  "hd_is c rs = (case rs of [] \<Rightarrow> False | r # _ \<Rightarrow> r = c)"

definition phone_like :: "rune list \<Rightarrow> bool" where
  "phone_like candidate =
     (let (ds, groups) = phoneDigitsAndGroups candidate; trimmed = trim_runes candidate in
      if length ds < 10 \<or> length ds > 15 then False
      else if hd_is 43 trimmed \<or> list_ex (chars ''()'') trimmed then True
      else if length groups = 2 \<and> length (groups ! 0) \<ge> 4 \<and> length (groups ! 1) \<ge> 4 \<and>
              45 \<in> set trimmed \<and> \<not> list_ex (chars '' .()'') trimmed then False
      else if isSpaceGroupedRange trimmed then False
      else if map length groups = [3, 3, 4] then True
      else if ds ! 0 = 48 \<or> ds ! 0 = 56 then True
      else length groups = 1 \<and> length ds = 10)"

definition containsPhoneLike :: "rune list \<Rightarrow> bool" where
  "containsPhoneLike text \<longleftrightarrow> list_ex (\<lambda>m. phone_like (fst m)) (FindAll phoneCandidatePattern text)"

definition containsCredentialLike :: "unicode_tables \<Rightarrow> rune list \<Rightarrow> bool" where
  "containsCredentialLike u text \<longleftrightarrow>
     list_ex (\<lambda>a. MatchString a text) (credentialPatterns u) \<or> containsPhoneLike text"


section \<open>Lists of the profile\<close>

text \<open>\<open>strconv.Quote\<close>.\<close>

definition hex_digit :: "nat \<Rightarrow> char" where
  "hex_digit n = (if n < 10 then char_of (48 + n) else char_of (87 + n))"

fun hex_pad :: "nat \<Rightarrow> nat \<Rightarrow> string" where
  "hex_pad 0 n = []"
| "hex_pad (Suc k) n = hex_pad k (n div 16) @ [hex_digit (n mod 16)]"

definition quote_rune :: "unicode_tables \<Rightarrow> rune \<Rightarrow> string \<Rightarrow> string" where
  "quote_rune u r enc =
     (if r = 34 \<or> r = 92 then [CHR 0x5C] @ enc
      else if (if r < 128 then 32 \<le> r \<and> r < 127 else ut_print u r) then enc
      else if r = 7 then [CHR 0x5C, CHR ''a''] else if r = 8 then [CHR 0x5C, CHR ''b'']
      else if r = 12 then [CHR 0x5C, CHR ''f''] else if r = 10 then [CHR 0x5C, CHR ''n'']
      else if r = 13 then [CHR 0x5C, CHR ''r''] else if r = 9 then [CHR 0x5C, CHR ''t'']
      else if r = 11 then [CHR 0x5C, CHR ''v'']
      else if r < 32 \<or> r = 127 then [CHR 0x5C, CHR ''x''] @ hex_pad 2 r
      else if r < 65536 then [CHR 0x5C, CHR ''u''] @ hex_pad 4 r
      else [CHR 0x5C, CHR ''U''] @ hex_pad 8 r)"

function quote_body :: "unicode_tables \<Rightarrow> string \<Rightarrow> string" where
  "quote_body u s = (if s = [] then []
     else if rune_width s = 0 then [CHR 0x5C, CHR ''x''] @ hex_pad 2 (byte (hd s)) @ quote_body u (tl s)
     else quote_rune u (decode_rune (take (rune_width s) s)) (take (rune_width s) s) @
          quote_body u (drop (rune_width s) s))"
  by pat_completeness auto
termination by (relation "measure (\<lambda>(u, s). length s)") auto

declare quote_body.simps [simp del]

definition Quote :: "unicode_tables \<Rightarrow> string \<Rightarrow> string" where
  "Quote u s = [CHR 0x22] @ quote_body u s @ [CHR 0x22]"

text \<open>The entry is returned as configured.\<close>

definition allowlistEntry :: "unicode_tables \<Rightarrow> string \<Rightarrow> string \<Rightarrow> string option" where
  "allowlistEntry u csv intent =
     (let i = trim_space intent in
      if i = [] then None
      else List.find (\<lambda>part. EqualFold u part i) (map trim_space (split_on CHR '','' csv)))"

definition overRate :: "instant list \<Rightarrow> int \<Rightarrow> instant \<Rightarrow> bool" where
  "overRate sends maxPerMin now =
     (let m = (if maxPerMin \<le> 0 then 2 else maxPerMin) in
      int (length (filter (\<lambda>t. t > now - minute) sends)) \<ge> m)"

definition containsID :: "string \<Rightarrow> int \<Rightarrow> bool" where
  "containsID csv i =
     (if i = 0 \<or> trim_space csv = [] then False
      else list_ex (\<lambda>part. trim_space part = FormatInt i) (split_on CHR '','' csv))"

definition isBlocked :: "string \<Rightarrow> int \<Rightarrow> bool" where
  "isBlocked csv peer = containsID csv peer"

definition AudienceContacts :: string where "AudienceContacts = ''contacts''"
definition AudienceNonContacts :: string where "AudienceNonContacts = ''non_contacts''"
definition AudienceNewChats :: string where "AudienceNewChats = ''new_chats''"
definition AudienceExistingChats :: string where "AudienceExistingChats = ''existing_chats''"

definition audience_classes :: "string list" where
  "audience_classes = [AudienceContacts, AudienceNonContacts, AudienceNewChats, AudienceExistingChats]"

definition excluded_parts :: "string \<Rightarrow> string list" where
  "excluded_parts csv = filter (\<lambda>p. p \<noteq> []) (map trim_space (split_on CHR '','' csv))"

definition ValidAudienceExcludes :: "unicode_tables \<Rightarrow> string \<Rightarrow> bool \<Rightarrow> string option" where
  "ValidAudienceExcludes u csv installed =
     (let ex = excluded_parts csv in
      case List.find (\<lambda>p. p \<notin> set audience_classes) ex of
        Some p \<Rightarrow> Some (''unknown audience class '' @ Quote u p)
      | None \<Rightarrow>
          if AudienceContacts \<in> set ex \<and> AudienceNonContacts \<in> set ex
          then Some ''contacts and non_contacts are both excluded, so the assistant would answer nobody''
          else if AudienceNewChats \<in> set ex \<and> AudienceExistingChats \<in> set ex
          then Some ''new_chats and existing_chats are both excluded, so the assistant would answer nobody''
          else if (AudienceNewChats \<in> set ex \<or> AudienceExistingChats \<in> set ex) \<and> \<not> installed
          then Some ''new_chats and existing_chats need an assistant install to judge chats against''
          else None)"

definition AudienceExcluded :: "profile \<Rightarrow> conversation \<Rightarrow> string option" where
  "AudienceExcluded p c =
     (let ex = set (excluded_parts (p_audience_excludes p));
          known = (c_peer_contact c = PeerContactYes \<or> c_peer_contact c = PeerContactNo);
          contact = (c_peer_contact c = PeerContactYes);
          byContact = (if AudienceContacts \<in> ex \<or> AudienceNonContacts \<in> ex then
              (if \<not> known then Some ''audience: contact status unknown''
               else if contact \<and> AudienceContacts \<in> ex then Some ''audience: contacts are excluded''
               else if \<not> contact \<and> AudienceNonContacts \<in> ex then Some ''audience: non-contacts are excluded''
               else None) else None);
          byAge = (if AudienceNewChats \<in> ex \<or> AudienceExistingChats \<in> ex then
              (case p_installed_at p of None \<Rightarrow> Some ''audience: no install time to judge new chats against''
               | Some t \<Rightarrow>
                  let existing = (contact \<or> (c_created_at c \<noteq> zero_time \<and> c_created_at c < t)) in
                  if existing \<and> AudienceExistingChats \<in> ex then Some ''audience: existing chats are excluded''
                  else if \<not> existing \<and> \<not> known then Some ''audience: contact status unknown''
                  else if \<not> existing \<and> AudienceNewChats \<in> ex then Some ''audience: new chats are excluded''
                  else None) else None) in
      if ex = {} then None
      else if \<not> ex \<subseteq> set audience_classes then Some ''audience setting unreadable''
      else if byContact \<noteq> None then byContact else byAge)"

section \<open>The decision\<close>

datatype decision = Allow | RequireApproval | Deny

datatype deny_code =
    DenyGlobalKill | DenyUserMismatch | DenyModeOff | DenyModeUnrecognized | DenyAutopilotPaused | DenyConvTakenOver
  | DenyConvClosed | DenyConvPaused | DenyConvStateUnknown | DenySenderBlocked | DenyActionTypeUnknown
  | DenyPeerMismatch | DenyNoDisclosure | DenyEmptyReply | DenyReplyTooLong | DenyReplyURL | DenyReplyCredentials
  | DenyReplyNeverField | DenyIntentNever | DenyAudienceExcluded | DenyInstallChanged | DenySourceSuperseded
  | DenyToolNotAllowed | DenyUnknown

record policy_action =
  pa_type :: string
  pa_intent :: string
  pa_text :: string
  pa_peer :: int

record protected_field =
  pf_key :: string
  pf_never :: bool

record policy_input =
  in_profile :: profile
  in_conversation :: conversation
  in_action :: policy_action
  in_sends :: "instant list"
  in_kill :: bool
  in_now :: instant
  in_protected :: "protected_field option"
  in_superseded :: string
  in_revision :: int
  in_promoted :: bool

record policy_result =
  res_decision :: decision
  res_reasons :: "string list"
  res_code :: "deny_code option"

definition deny :: "deny_code \<Rightarrow> string \<Rightarrow> policy_result" where
  "deny code reason = \<lparr>res_decision = Deny, res_reasons = [reason], res_code = Some code\<rparr>"

definition result_DenyCode :: "policy_result \<Rightarrow> deny_code" where
  "result_DenyCode r = (case res_code r of None \<Rightarrow> DenyUnknown | Some c \<Rightarrow> c)"

definition telegramMaxMessageLen :: int where "telegramMaxMessageLen = 4096"
definition DisclosureSep :: string where "DisclosureSep = [CHR 10]"

definition EffectiveDisclosure :: "profile \<Rightarrow> string" where
  "EffectiveDisclosure p = (if p_disclosure_disabled p then [] else p_disclosure_text p)"

definition ActionTypeOwnerSummary :: string where "ActionTypeOwnerSummary = ''send_owner_summary''"
definition ActionTypeOwnerApproval :: string where "ActionTypeOwnerApproval = ''request_owner_approval''"
definition ConversationTakenOver :: string where "ConversationTakenOver = ''taken_over''"
definition ConversationClosed :: string where "ConversationClosed = ''closed''"
definition ConversationPaused :: string where "ConversationPaused = ''paused''"

definition ReasonAutopilotPaused :: string where "ReasonAutopilotPaused = ''autopilot paused for this account''"
definition ReasonInstallChanged :: string where
  "ReasonInstallChanged = ''the assistant install changed since this work began''"
definition ReasonObserveMode :: string where "ReasonObserveMode = ''observe mode: never auto-send''"
definition ReasonTurnBudget :: string where "ReasonTurnBudget = ''autonomous turn budget exhausted''"
definition ReasonIntentNotAllowed :: string where "ReasonIntentNotAllowed = ''intent not in allowlist''"
definition ReasonRateLimit :: string where "ReasonRateLimit = ''rate limit exceeded''"
definition ReasonWorkingHours :: string where "ReasonWorkingHours = ''within the owner'' @ [CHR 0x27] @ ''s working hours''"
definition ReasonScheduleUnreadable :: string where "ReasonScheduleUnreadable = ''working hours unreadable''"
definition protectedFieldReasonPrefix :: string where "protectedFieldReasonPrefix = ''reply echoes owner_profile field ''"
definition protectedFieldReasonSuffix :: string where "protectedFieldReasonSuffix = '' before the owner engaged''"

definition IsForkAssistant :: "string \<Rightarrow> bool" where
  "IsForkAssistant name \<longleftrightarrow> CHR ''~'' \<in> set name"

text \<open>What the code looks up outside its input: Unicode and time zones.\<close>

record policy_env =
  env_unicode :: unicode_tables
  env_case :: unicode
  env_zones :: "string \<rightharpoonup> location"

definition reply_limit :: "profile \<Rightarrow> int" where
  "reply_limit p = (let m = (if p_max_reply_chars p \<le> 0 then 1200 else p_max_reply_chars p) in
     if m > telegramMaxMessageLen then telegramMaxMessageLen else m)"

definition reply_length :: "profile \<Rightarrow> string \<Rightarrow> int" where
  "reply_length p txt = int (length (runes txt)) +
     (if EffectiveDisclosure p \<noteq> [] then int (length (runes DisclosureSep)) + int (length (runes (EffectiveDisclosure p))) else 0)"

text \<open>The checks in their order, the first that refuses deciding.\<close>

definition account_denial :: "policy_env \<Rightarrow> policy_input \<Rightarrow> policy_result option" where
  "account_denial e i =
     (let p = in_profile i; c = in_conversation i; a = in_action i; q = Quote (env_unicode e) in
      if in_kill i then Some (deny DenyGlobalKill ''global kill switch engaged'')
      else if pa_type a = ActionTypeReply \<and> (p_user_id p = 0 \<or> c_user_id c = 0 \<or> p_user_id p \<noteq> c_user_id c)
      then Some (deny DenyUserMismatch ''profile and conversation belong to different users'')
      else if in_revision i \<noteq> 0 \<and> in_revision i \<noteq> p_install_revision p
      then Some (deny DenyInstallChanged ReasonInstallChanged)
      else if p_mode p = AgentModeObserve \<or> p_mode p = AgentModeGuarded then None
      else if p_mode p = AgentModeOff then Some (deny DenyModeOff ''agent mode is off'')
      else Some (deny DenyModeUnrecognized (''unrecognized agent mode '' @ q (p_mode p))))"

definition conversation_denial :: "policy_env \<Rightarrow> policy_input \<Rightarrow> policy_result option" where
  "conversation_denial e i =
     (let p = in_profile i; c = in_conversation i; q = Quote (env_unicode e) in
      if c_state c = ConversationTakenOver then Some (deny DenyConvTakenOver ''conversation taken over by owner'')
      else if c_state c = ConversationClosed then Some (deny DenyConvClosed ''conversation closed'')
      else if c_state c = ConversationPaused then Some (deny DenyConvPaused ''conversation paused'')
      else if c_state c \<noteq> ConversationActive
      then Some (deny DenyConvStateUnknown (''unrecognized conversation state '' @ q (c_state c)))
      else if isBlocked (p_blocked_senders p) (c_peer_tg_id c) then Some (deny DenySenderBlocked ''sender is blocked'')
      else case AudienceExcluded p c of Some reason \<Rightarrow> Some (deny DenyAudienceExcluded reason)
      | None \<Rightarrow>
          if in_superseded i \<noteq> [] then Some (deny DenySourceSuperseded (SourceSupersededReason (in_superseded i)))
          else if p_autopilot_paused p then Some (deny DenyAutopilotPaused ReasonAutopilotPaused)
          else None)"

definition content_denial :: "policy_env \<Rightarrow> policy_input \<Rightarrow> policy_result option" where
  "content_denial e i =
     (let p = in_profile i; c = in_conversation i; a = in_action i; u = env_unicode e; q = Quote u; txt = pa_text a in
      if pa_type a \<noteq> ActionTypeReply then Some (deny DenyActionTypeUnknown (''unrecognized action type '' @ q (pa_type a)))
      else case allowlistEntry u (p_intent_denylist p) (pa_intent a) of
        Some denied \<Rightarrow> Some (deny DenyIntentNever (''intent '' @ q denied @ '' is never sent''))
      | None \<Rightarrow>
          if pa_peer a \<noteq> 0 \<and> pa_peer a \<noteq> c_peer_tg_id c
          then Some (deny DenyPeerMismatch ''reply peer does not match conversation'')
          else if \<not> p_disclosure_disabled p \<and> trim_space (p_disclosure_text p) = []
          then Some (deny DenyNoDisclosure ''no disclosure text configured'')
          else if trim_space txt = [] then Some (deny DenyEmptyReply ''empty reply'')
          else if reply_length p txt > reply_limit p
          then Some (deny DenyReplyTooLong ''reply exceeds max length once the disclosure is appended'')
          else if containsURL u (runes txt) then Some (deny DenyReplyURL ''reply contains a URL'')
          else if containsCredentialLike u (runes txt)
          then Some (deny DenyReplyCredentials ''reply contains credentials-like content'')
          else case in_protected i of
              None \<Rightarrow> None
            | Some f \<Rightarrow> if pf_never f
                then Some (deny DenyReplyNeverField (''reply echoes owner_profile field '' @ q (pf_key f) @ '' marked never''))
                else None)"

definition hold_reasons :: "policy_env \<Rightarrow> policy_input \<Rightarrow> string list" where
  "hold_reasons e i =
     (let p = in_profile i; c = in_conversation i;
          maxTurns = (if p_max_autonomous_turns p \<le> 0 then 6 else p_max_autonomous_turns p) in
      (if p_mode p = AgentModeObserve \<or>
          (p_mode p = AgentModeGuarded \<and> IsForkAssistant (p_assistant_name p) \<and> \<not> in_promoted i)
       then [ReasonObserveMode] else []) @
      (if c_autonomous_turns c \<ge> maxTurns then [ReasonTurnBudget] else []) @
      (if allowlistEntry (env_unicode e) (p_intent_allowlist p) (pa_intent (in_action i)) = None
       then [ReasonIntentNotAllowed] else []) @
      (if overRate (in_sends i) (p_max_msgs_per_minute p) (in_now i) then [ReasonRateLimit] else []) @
      (if p_working_hours p \<noteq> [] then
         (case ParseStored (env_case e) (env_zones e) (p_working_hours p) of
            Inl _ \<Rightarrow> [ReasonScheduleUnreadable]
          | Inr h \<Rightarrow> if Contains h (in_now i) then [ReasonWorkingHours] else []) else []) @
      (case in_protected i of None \<Rightarrow> []
       | Some f \<Rightarrow> [protectedFieldReasonPrefix @ Quote (env_unicode e) (pf_key f) @ protectedFieldReasonSuffix]))"

definition Evaluate :: "policy_env \<Rightarrow> policy_input \<Rightarrow> policy_result" where
  "Evaluate e i =
     (case account_denial e i of Some r \<Rightarrow> r
      | None \<Rightarrow>
         if pa_type (in_action i) = ActionTypeOwnerSummary \<or> pa_type (in_action i) = ActionTypeOwnerApproval
         then \<lparr>res_decision = Allow, res_reasons = [''owner-facing action''], res_code = None\<rparr>
         else case conversation_denial e i of Some r \<Rightarrow> r
         | None \<Rightarrow>
            (case content_denial e i of Some r \<Rightarrow> r
             | None \<Rightarrow>
                let rs = hold_reasons e i in
                if rs \<noteq> [] then \<lparr>res_decision = RequireApproval, res_reasons = rs, res_code = None\<rparr>
                else \<lparr>res_decision = Allow, res_reasons =
                   [''guarded: allowlisted '' @ (case allowlistEntry (env_unicode e) (p_intent_allowlist (in_profile i))
                       (pa_intent (in_action i)) of None \<Rightarrow> [] | Some a \<Rightarrow> a) @ '' intent''], res_code = None\<rparr>))"

section \<open>The owner's wording\<close>

fun split_str :: "string \<Rightarrow> string \<Rightarrow> string list" where
  "split_str sep [] = [[]]"
| "split_str sep (c # s) =
     (if sep \<noteq> [] \<and> prefix sep (c # s) then [] # split_str sep (drop (length sep) (c # s))
      else (case split_str sep s of [] \<Rightarrow> [[c]] | x # xs \<Rightarrow> (c # x) # xs))"

definition owner_reason :: "string \<Rightarrow> string option" where
  "owner_reason r =
     (if r = [] then None
      else Some (if r = ReasonObserveMode then ''observe mode is on, so every reply needs your approval''
        else if r = ReasonTurnBudget then ''the agent has used up its reply budget for this chat (/mctl continue resets it)''
        else if r = ReasonIntentNotAllowed then ''this kind of reply is not on your auto-send list''
        else if r = ReasonRateLimit then ''the agent already sent the most replies allowed per minute''
        else if r = ReasonWorkingHours then ''it is within your working hours, when you answer yourself''
        else if r = ReasonScheduleUnreadable then ''your working hours could not be read, so every reply waits for you''
        else if prefix protectedFieldReasonPrefix r \<and> suffix protectedFieldReasonSuffix r
        then (let t = drop (length protectedFieldReasonPrefix) r;
                  key = (if suffix protectedFieldReasonSuffix t
                         then take (length t - length protectedFieldReasonSuffix) t else t) in
              ''it repeats your profile field '' @ key @ '' to someone you have not been in touch with yet'')
        else r))"

definition OwnerHoldReasons :: "string \<Rightarrow> string list" where
  "OwnerHoldReasons stored = List.map_filter (\<lambda>r. owner_reason (trim_space r)) (split_str ''; '' stored)"


section \<open>What a decision guarantees\<close>

lemma deny_simps [simp]: "res_decision (deny c r) = Deny" "res_code (deny c r) = Some c"
  by (simp_all add: deny_def)

lemma account_denial_denies: "account_denial e i = Some r \<Longrightarrow> res_decision r = Deny \<and> res_code r \<noteq> None"
  by (auto simp: account_denial_def Let_def split: if_splits)

lemma conversation_denial_denies: "conversation_denial e i = Some r \<Longrightarrow> res_decision r = Deny \<and> res_code r \<noteq> None"
  by (auto simp: conversation_denial_def Let_def split: if_splits option.splits)

lemma content_denial_denies: "content_denial e i = Some r \<Longrightarrow> res_decision r = Deny \<and> res_code r \<noteq> None"
  by (auto simp: content_denial_def Let_def split: if_splits option.splits)

lemmas denials = account_denial_denies conversation_denial_denies content_denial_denies

lemma not_denied:
  assumes "res_decision (Evaluate e i) \<noteq> Deny"
    and "pa_type (in_action i) \<noteq> ActionTypeOwnerSummary" and "pa_type (in_action i) \<noteq> ActionTypeOwnerApproval"
  shows "account_denial e i = None" "conversation_denial e i = None" "content_denial e i = None"
  using assms by (auto simp: Evaluate_def dest: denials split: option.splits)

lemma allowed_reply:
  assumes "res_decision (Evaluate e i) = Allow"
    and "pa_type (in_action i) \<noteq> ActionTypeOwnerSummary" and "pa_type (in_action i) \<noteq> ActionTypeOwnerApproval"
  shows "account_denial e i = None" "conversation_denial e i = None" "content_denial e i = None" "hold_reasons e i = []"
  using assms by (auto simp: Evaluate_def Let_def dest: denials split: option.splits if_splits)

text \<open>Claim C39. A reply goes out without the owner's approval only if everything the owner set allows it: the kill
  switch is off; profile, conversation and install belong together; the mode is guarded and a private fork has been
  promoted; the conversation is active, its peer neither blocked nor outside the audience, autopilot not paused;
  the intent is on the allowlist and not on the denylist; turns and sends are under their limits; it is outside the
  owner's working hours, which could be read; the text is not empty, fits, holds no link, no credential and no
  protected profile field; and no message it answers has been edited or deleted.\<close>

theorem auto_send_guarded:
  assumes "res_decision (Evaluate e i) = Allow"
    and "pa_type (in_action i) \<noteq> ActionTypeOwnerSummary" and "pa_type (in_action i) \<noteq> ActionTypeOwnerApproval"
  shows "\<not> in_kill i \<and> pa_type (in_action i) = ActionTypeReply \<and>
    p_user_id (in_profile i) = c_user_id (in_conversation i) \<and> p_user_id (in_profile i) \<noteq> 0 \<and>
    (in_revision i = 0 \<or> in_revision i = p_install_revision (in_profile i)) \<and>
    p_mode (in_profile i) = AgentModeGuarded \<and> (in_promoted i \<or> \<not> IsForkAssistant (p_assistant_name (in_profile i))) \<and>
    c_state (in_conversation i) = ConversationActive \<and>
    \<not> isBlocked (p_blocked_senders (in_profile i)) (c_peer_tg_id (in_conversation i)) \<and>
    AudienceExcluded (in_profile i) (in_conversation i) = None \<and> \<not> p_autopilot_paused (in_profile i) \<and>
    allowlistEntry (env_unicode e) (p_intent_allowlist (in_profile i)) (pa_intent (in_action i)) \<noteq> None \<and>
    allowlistEntry (env_unicode e) (p_intent_denylist (in_profile i)) (pa_intent (in_action i)) = None \<and>
    c_autonomous_turns (in_conversation i) <
      (if p_max_autonomous_turns (in_profile i) \<le> 0 then 6 else p_max_autonomous_turns (in_profile i)) \<and>
    \<not> overRate (in_sends i) (p_max_msgs_per_minute (in_profile i)) (in_now i) \<and>
    (p_working_hours (in_profile i) = [] \<or>
      (\<exists>h. ParseStored (env_case e) (env_zones e) (p_working_hours (in_profile i)) = Inr h \<and> \<not> Contains h (in_now i))) \<and>
    trim_space (pa_text (in_action i)) \<noteq> [] \<and>
    reply_length (in_profile i) (pa_text (in_action i)) \<le> reply_limit (in_profile i) \<and>
    \<not> containsURL (env_unicode e) (runes (pa_text (in_action i))) \<and>
    \<not> containsCredentialLike (env_unicode e) (runes (pa_text (in_action i))) \<and>
    in_protected i = None \<and> in_superseded i = []"
proof -
  note acc = allowed_reply(1)[OF assms] and conv = allowed_reply(2)[OF assms] and cont = allowed_reply(3)[OF assms]
    and hold = allowed_reply(4)[OF assms]
  have "\<not> in_kill i \<and> (in_revision i = 0 \<or> in_revision i = p_install_revision (in_profile i)) \<and>
      p_mode (in_profile i) \<in> {AgentModeObserve, AgentModeGuarded} \<and>
      (pa_type (in_action i) = ActionTypeReply \<longrightarrow> p_user_id (in_profile i) \<noteq> 0 \<and>
        p_user_id (in_profile i) = c_user_id (in_conversation i))"
    using acc by (auto simp: account_denial_def Let_def split: if_splits)
  moreover have "c_state (in_conversation i) = ConversationActive \<and>
      \<not> isBlocked (p_blocked_senders (in_profile i)) (c_peer_tg_id (in_conversation i)) \<and>
      AudienceExcluded (in_profile i) (in_conversation i) = None \<and> \<not> p_autopilot_paused (in_profile i) \<and> in_superseded i = []"
    using conv by (auto simp: conversation_denial_def Let_def split: if_splits option.splits)
  moreover have "pa_type (in_action i) = ActionTypeReply \<and>
      allowlistEntry (env_unicode e) (p_intent_denylist (in_profile i)) (pa_intent (in_action i)) = None \<and>
      trim_space (pa_text (in_action i)) \<noteq> [] \<and>
      reply_length (in_profile i) (pa_text (in_action i)) \<le> reply_limit (in_profile i) \<and>
      \<not> containsURL (env_unicode e) (runes (pa_text (in_action i))) \<and>
      \<not> containsCredentialLike (env_unicode e) (runes (pa_text (in_action i)))"
    using cont by (auto simp: content_denial_def Let_def split: if_splits option.splits)
  moreover have "p_mode (in_profile i) \<noteq> AgentModeObserve \<and>
      (p_mode (in_profile i) = AgentModeGuarded \<longrightarrow> in_promoted i \<or> \<not> IsForkAssistant (p_assistant_name (in_profile i))) \<and>
      c_autonomous_turns (in_conversation i) <
        (if p_max_autonomous_turns (in_profile i) \<le> 0 then 6 else p_max_autonomous_turns (in_profile i)) \<and>
      allowlistEntry (env_unicode e) (p_intent_allowlist (in_profile i)) (pa_intent (in_action i)) \<noteq> None \<and>
      \<not> overRate (in_sends i) (p_max_msgs_per_minute (in_profile i)) (in_now i) \<and>
      (p_working_hours (in_profile i) = [] \<or>
        (\<exists>h. ParseStored (env_case e) (env_zones e) (p_working_hours (in_profile i)) = Inr h \<and> \<not> Contains h (in_now i))) \<and>
      in_protected i = None"
    using hold by (auto simp: hold_reasons_def Let_def split: if_splits option.splits sum.splits)
  ultimately show ?thesis by auto
qed

lemma Evaluate_denied_cong:
  assumes "account_denial e j = account_denial e i" and "conversation_denial e j = conversation_denial e i"
    and "content_denial e j = content_denial e i" and "in_action j = in_action i" and "res_decision (Evaluate e i) = Deny"
  shows "Evaluate e j = Evaluate e i"
proof (cases "account_denial e i = None \<and> conversation_denial e i = None \<and> content_denial e i = None")
  case True
  then have "res_decision (Evaluate e i) \<noteq> Deny" by (simp add: Evaluate_def Let_def)
  with assms(5) show ?thesis by simp
next
  case False
  then show ?thesis using assms(1-4) by (auto simp: Evaluate_def split: option.splits)
qed

text \<open>The checks read only what they name; changing the rest does not change them.\<close>

lemma AudienceExcluded_cong:
  assumes "p_audience_excludes p' = p_audience_excludes p" "p_installed_at p' = p_installed_at p"
    "c_peer_contact c' = c_peer_contact c" "c_created_at c' = c_created_at c"
  shows "AudienceExcluded p' c' = AudienceExcluded p c"
  by (simp only: AudienceExcluded_def assms)

lemma account_denial_cong:
  assumes "in_kill j = in_kill i" "in_action j = in_action i" "in_revision j = in_revision i"
    "p_user_id (in_profile j) = p_user_id (in_profile i)" "p_mode (in_profile j) = p_mode (in_profile i)"
    "p_install_revision (in_profile j) = p_install_revision (in_profile i)"
    "c_user_id (in_conversation j) = c_user_id (in_conversation i)"
  shows "account_denial e j = account_denial e i"
  by (simp only: account_denial_def assms Let_def)

lemma conversation_denial_cong:
  assumes "in_superseded j = in_superseded i" "c_state (in_conversation j) = c_state (in_conversation i)"
    "p_blocked_senders (in_profile j) = p_blocked_senders (in_profile i)"
    "c_peer_tg_id (in_conversation j) = c_peer_tg_id (in_conversation i)"
    "p_autopilot_paused (in_profile j) = p_autopilot_paused (in_profile i)"
    "AudienceExcluded (in_profile j) (in_conversation j) = AudienceExcluded (in_profile i) (in_conversation i)"
  shows "conversation_denial e j = conversation_denial e i"
  by (simp only: conversation_denial_def assms Let_def)

lemma content_denial_cong:
  assumes "in_action j = in_action i" "in_protected j = in_protected i"
    "p_intent_denylist (in_profile j) = p_intent_denylist (in_profile i)"
    "c_peer_tg_id (in_conversation j) = c_peer_tg_id (in_conversation i)"
    "p_disclosure_disabled (in_profile j) = p_disclosure_disabled (in_profile i)"
    "p_disclosure_text (in_profile j) = p_disclosure_text (in_profile i)"
    "p_max_reply_chars (in_profile j) = p_max_reply_chars (in_profile i)"
  shows "content_denial e j = content_denial e i"
  by (simp only: content_denial_def reply_limit_def reply_length_def EffectiveDisclosure_def assms Let_def)

text \<open>A refusal is final: it does not depend on anything time or the owner's limits could change. With
  the clock, the recent sends, the fork's promotion, the turn count, the limits, the allowlist and the working
  hours all set differently, a denied proposal is denied with the same reason and code, so an approval or a later
  retry never turns it into a send.\<close>

theorem denial_final:
  assumes "res_decision (Evaluate e i) = Deny"
  shows "Evaluate e (i\<lparr>in_now := t, in_sends := sends, in_promoted := promoted,
      in_profile := (in_profile i)\<lparr>p_max_autonomous_turns := maxTurns, p_max_msgs_per_minute := rate,
        p_intent_allowlist := allowed, p_working_hours := working\<rparr>,
      in_conversation := (in_conversation i)\<lparr>c_autonomous_turns := used\<rparr>\<rparr>) = Evaluate e i"
    (is "Evaluate e ?j = _")
proof -
  have "account_denial e ?j = account_denial e i" by (rule account_denial_cong) simp_all
  moreover have "conversation_denial e ?j = conversation_denial e i"
    by (rule conversation_denial_cong) (rule AudienceExcluded_cong | simp)+
  moreover have "content_denial e ?j = content_denial e i" by (rule content_denial_cong) simp_all
  ultimately show ?thesis by (rule Evaluate_denied_cong) (simp_all add: assms)
qed


section \<open>Shape of the patterns\<close>

lemma words_min_len: "ss \<noteq> [] \<Longrightarrow> n \<le> min_len (words u ss) \<longleftrightarrow> list_all (\<lambda>s. n \<le> length s) ss"
  by (simp add: words_def one_of_min_len list_all_iff)

lemma tld_min_len: "ss = riskyTLD \<Longrightarrow> 2 \<le> min_len (words u ss)" "rs \<in> set idnTLD \<Longrightarrow> 2 \<le> length rs"
    "t \<in> set riskyTLD \<Longrightarrow> 2 \<le> length t"
  by (simp add: words_min_len riskyTLD_def, auto simp: idnTLD_def riskyTLD_def)

lemma url_patterns_regular [simp]:
  "regular (explicitURLPattern u)" "regular ipv4LinkPattern" "regular (bareDomainPattern u)"
  by (simp_all add: explicitURLPattern_def ipv4LinkPattern_def bareDomainPattern_def pattern_defs list_all_iff Let_def
    ball_Un)

lemma url_patterns_min_len:
  "4 \<le> min_len (explicitURLPattern u)" "4 \<le> min_len ipv4LinkPattern" "4 \<le> min_len (bareDomainPattern u)"
proof -
  show "4 \<le> min_len (explicitURLPattern u)" by (simp add: explicitURLPattern_def pattern_defs)
  show "4 \<le> min_len ipv4LinkPattern" by (simp add: ipv4LinkPattern_def pattern_defs)
  have w: "2 \<le> min_len (words u riskyTLD)" by (rule tld_min_len) simp
  have "2 \<le> min_len (one_of ([in_order [word u ''xn--'', at_least 2 (Rune P)]] @ map (lit u) idnTLD @ map (word u) riskyTLD))" for P
    by (simp add: one_of_min_len list_all_iff ball_Un tld_min_len)
  then show "4 \<le> min_len (bareDomainPattern u)" using w
    by (simp add: bareDomainPattern_def pattern_defs Let_def)
qed

lemma credential_patterns_shape:
  "list_all regular (credentialPatterns u)" "list_all (\<lambda>a. 4 \<le> min_len a) (credentialPatterns u)"
  "regular phoneCandidatePattern" "4 \<le> min_len phoneCandidatePattern"
proof -
  show "list_all regular (credentialPatterns u)"
    by (simp add: credentialPatterns_def cardPattern_def digitsBeforeLabel_def digitsAfterLabel_def cyrCodePattern_def
      codePattern_def qualifiedCodePattern_def seedPattern_def passwordPattern_def machineCredentialPattern_def
      labelledTokenPattern_def lbound_def rbound_def em_dash_def ws_def digits_def pattern_defs Let_def list_all_iff)
  show "list_all (\<lambda>a. 4 \<le> min_len a) (credentialPatterns u)"
    by (simp add: credentialPatterns_def cardPattern_def digitsBeforeLabel_def digitsAfterLabel_def cyrCodePattern_def
      codePattern_def qualifiedCodePattern_def seedPattern_def passwordPattern_def machineCredentialPattern_def
      labelledTokenPattern_def lbound_def rbound_def em_dash_def ws_def digits_def pattern_defs Let_def
      words_def cyr_password_def cyr_code_def)
  show "regular phoneCandidatePattern" "4 \<le> min_len phoneCandidatePattern"
    by (simp_all add: phoneCandidatePattern_def pattern_defs)
qed

lemma short_text_plain:
  assumes "length rs < 4"
  shows "\<not> containsURL u rs" "\<not> containsCredentialLike u rs"
proof -
  have short: "length rs < min_len a" if "4 \<le> min_len a" for a using assms that by simp
  note url_short = url_patterns_min_len[THEN short]
  show "\<not> containsURL u rs"
    by (simp add: containsURL_def MatchString_short FindAll_short url_short)
  have "\<not> MatchString a rs" if "a \<in> set (credentialPatterns u)" for a
    by (rule MatchString_short) (use credential_patterns_shape(1,2)[of u] that short in \<open>auto simp: list_all_iff\<close>)
  then show "\<not> containsCredentialLike u rs"
    using FindAll_short[OF credential_patterns_shape(3) short[OF credential_patterns_shape(4)]]
    by (auto simp: containsCredentialLike_def containsPhoneLike_def list_ex_iff)
qed

section \<open>Secrets and links are never sent\<close>

lemma denied_content:
  assumes "containsURL (env_unicode e) (runes (pa_text (in_action i))) \<or>
      containsCredentialLike (env_unicode e) (runes (pa_text (in_action i)))"
    and "pa_type (in_action i) = ActionTypeReply"
  shows "res_decision (Evaluate e i) = Deny"
proof (rule ccontr)
  assume "res_decision (Evaluate e i) \<noteq> Deny"
  from not_denied(3)[OF this] assms(2) have "content_denial e i = None"
    by (simp add: ActionTypeReply_def ActionTypeOwnerSummary_def ActionTypeOwnerApproval_def)
  then show False using assms by (auto simp: content_denial_def Let_def split: if_splits option.splits)
qed

text \<open>Digits, each followed by at most one blank or hyphen.\<close>

definition card_run :: "(rune \<times> rune list) list \<Rightarrow> rune list" where
  "card_run ds = concat (map (\<lambda>(d, sep). d # sep) ds)"

definition card_digits :: "(rune \<times> rune list) list \<Rightarrow> bool" where
  "card_digits ds \<longleftrightarrow> (\<forall>(d, sep) \<in> set ds. digit_rune d \<and> sep \<in> {[], [32], [45]})"

abbreviation card_item :: re where
  "card_item \<equiv> in_order [Rune digit_rune, opt (Rune (chars '' -''))]"

lemma Match_Seq: "Match (Seq a b) p r \<longleftrightarrow> (\<exists>q. Match a p q \<and> Match b q r)"
  by (blast intro: Match_Copies.intros elim: MatchE)

lemma Match_in_order [simp]:
  "Match (in_order []) p q \<longleftrightarrow> p = q"
  "Match (in_order (a # as)) p r \<longleftrightarrow> (\<exists>q. Match a p q \<and> Match (in_order as) q r)"
  by (auto simp: in_order_def Match_Seq intro: Match_Copies.intros elim: MatchE)

lemma Match_card_item:
  assumes "digit_rune d" "sep \<in> {[], [32], [45]}"
  shows "Match card_item (prev, d # sep @ rs) (prev_rune (Some d) sep, rs)"
proof -
  have "Match (opt (Rune (chars '' -''))) (Some d, sep @ rs) (prev_rune (Some d) sep, rs)"
  proof (cases sep)
    case Nil
    then show ?thesis unfolding opt_def by (auto simp: prev_rune_def intro: Match_Copies.intros)
  next
    case (Cons x xs)
    then have "xs = []" "chars '' -'' x" using assms(2) by (auto simp: chars_def ascii_runes_def)
    then have "Copies (Rune (chars '' -'')) (Suc 0) (Some d, sep @ rs) (Some x, rs)"
      using Cons by (auto intro: Match_Copies.intros)
    then show ?thesis using Cons \<open>xs = []\<close> unfolding opt_def
      by (auto simp: prev_rune_def intro!: Match_Copies.intros(9)[of _ "Suc 0"])
  qed
  then show ?thesis using assms(1) by (auto intro: Match_Copies.intros simp del: split_paired_Ex intro!: exI)
qed

lemma Copies_card_run:
  "card_digits ds \<Longrightarrow> \<exists>prev'. Copies card_item (length ds) (prev, card_run ds @ rs) (prev', rs)"
proof (induction ds arbitrary: prev)
  case Nil
  then show ?case by (auto simp: card_run_def intro: Match_Copies.intros)
next
  case (Cons x ds)
  obtain d sep where x: "x = (d, sep)" by (cases x)
  have "Match card_item (prev, d # sep @ card_run ds @ rs) (prev_rune (Some d) sep, card_run ds @ rs)"
    using Cons.prems x by (intro Match_card_item) (auto simp: card_digits_def)
  moreover obtain prev' where "Copies card_item (length ds) (prev_rune (Some d) sep, card_run ds @ rs) (prev', rs)"
    using Cons.IH Cons.prems by (auto simp: card_digits_def)
  moreover have "card_run (x # ds) @ rs = d # sep @ card_run ds @ rs" by (simp add: card_run_def x)
  ultimately show ?case by (metis Match_Copies.intros(11) length_Cons)
qed


lemma digit_is_word: "digit_rune r \<Longrightarrow> word_rune r"
  by (simp add: digit_rune_def word_rune_def)

definition edge_before :: "rune list \<Rightarrow> bool" where
  "edge_before before \<longleftrightarrow> before = [] \<or> \<not> word_rune (last before)"

definition edge_after :: "rune list \<Rightarrow> bool" where
  "edge_after after \<longleftrightarrow> after = [] \<or> \<not> word_rune (hd after)"

lemma word_boundary_before: "edge_before before \<Longrightarrow> word_rune r \<Longrightarrow> word_boundary (prev_rune None before, r # rs)"
  by (auto simp: edge_before_def word_boundary_def prev_rune_def)

lemma word_boundary_after: "edge_after after \<Longrightarrow> word_rune r \<Longrightarrow> word_boundary (Some r, after)"
  by (cases after) (auto simp: edge_after_def word_boundary_def)

lemma card_run_match:
  assumes "card_digits ds" "12 \<le> length ds" "digit_rune d" "edge_before before" "edge_after after"
  shows "MatchString cardPattern (before @ card_run ds @ d # after)"
proof -
  obtain d0 sep ds' where "ds = (d0, sep) # ds'" "digit_rune d0"
    using assms(1,2) by (cases ds) (auto simp: card_digits_def)
  then have start: "Match WordB (prev_rune None before, card_run ds @ d # after) (prev_rune None before, card_run ds @ d # after)"
    using word_boundary_before[OF assms(4) digit_is_word] by (auto simp: card_run_def intro: Match_Copies.intros)
  obtain prev where "Copies card_item (length ds) (prev_rune None before, card_run ds @ d # after) (prev, d # after)"
    using Copies_card_run[OF assms(1)] by blast
  then have run: "Match (at_least 12 card_item) (prev_rune None before, card_run ds @ d # after) (prev, d # after)"
    unfolding at_least_def using assms(2) by (auto intro: Match_Copies.intros(9))
  have last: "Match (Rune digit_rune) (prev, d # after) (Some d, after)" "Match WordB (Some d, after) (Some d, after)"
    using assms(3) word_boundary_after[OF assms(5) digit_is_word] by (auto intro: Match_Copies.intros)
  have "Match cardPattern (prev_rune None before, card_run ds @ d # after) (Some d, after)"
    unfolding cardPattern_def Match_in_order using start run last by blast
  moreover have "regular cardPattern" using credential_patterns_shape(1) by (simp add: credentialPatterns_def)
  ultimately show ?thesis unfolding MatchString_iff[OF \<open>regular cardPattern\<close>] by blast
qed

text \<open>Claim C40. A reply that holds a card-like number is refused outright, whatever else the profile, the
  conversation or the clock say, so neither autopilot nor an approval sends it: thirteen digits or more, at most
  one blank or hyphen after each, not glued to a word character on either side, anywhere in the text.\<close>

theorem card_number_denied:
  assumes "runes (pa_text (in_action i)) = before @ card_run ds @ d # after" and "card_digits ds" and "12 \<le> length ds"
    and "digit_rune d" and "edge_before before" and "edge_after after" and "pa_type (in_action i) = ActionTypeReply"
  shows "res_decision (Evaluate e i) = Deny"
proof (rule denied_content[OF disjI2 assms(7)])
  show "containsCredentialLike (env_unicode e) (runes (pa_text (in_action i)))"
    using card_run_match[OF assms(2-6)] by (simp add: assms(1) containsCredentialLike_def credentialPatterns_def)
qed

text \<open>A scheme, \<open>://\<close> and one more character make a link.\<close>

definition scheme_runes :: "rune list \<Rightarrow> bool" where
  "scheme_runes s \<longleftrightarrow> (case s of [] \<Rightarrow> False | r # rs \<Rightarrow> 97 \<le> r \<and> r \<le> 122 \<and> list_all (\<lambda>x. 97 \<le> x \<and> x \<le> 122 \<or> digit_rune x) rs)"

lemma Copies_Rune: "list_all P rs \<Longrightarrow> Copies (Rune P) (length rs) (prev, rs @ rest) (prev_rune prev rs, rest)"
proof (induction rs arbitrary: prev)
  case (Cons r rs)
  then have "Match (Rune P) (prev, r # rs @ rest) (Some r, rs @ rest)" by (auto intro: Match_Copies.intros)
  then show ?case using Cons by (auto simp: prev_rune_def intro: Match_Copies.intros(11))
qed (simp add: prev_rune_def Match_Copies.intros(10))

lemma Match_exact: "Match (exact s) (prev, ascii_runes s @ rest) (prev_rune prev (ascii_runes s), rest)"
proof -
  have "Match (in_order (map (\<lambda>r. Rune (\<lambda>x. x = r)) rs)) (prev, rs @ rest) (prev_rune prev rs, rest)" for rs
  proof (induction rs arbitrary: prev)
    case (Cons r rs)
    have "Match (Rune (\<lambda>x. x = r)) (prev, r # rs @ rest) (Some r, rs @ rest)" by (rule Match_Copies.intros) simp
    then show ?case using Cons[of "Some r"] by (auto simp: prev_rune_def simp del: split_paired_Ex)
  qed (simp add: prev_rune_def)
  then show ?thesis unfolding exact_def .
qed

lemma link_match:
  assumes "scheme_runes s" "\<not> re_space_rune c" "edge_before before"
  shows "MatchString (explicitURLPattern u) (before @ s @ ascii_runes ''://'' @ c # after)"
proof -
  obtain r rs where s: "s = r # rs" "97 \<le> r" "r \<le> 122" "list_all (\<lambda>x. 97 \<le> x \<and> x \<le> 122 \<or> digit_rune x) rs"
    using assms(1) by (auto simp: scheme_runes_def split: list.splits)
  have low: "alpha_i u x" if "97 \<le> x" "x \<le> 122" for x
    unfolding alpha_i_def list_ex_iff by (rule bexI[of _ x]) (use that in \<open>simp_all add: fold_eq_def del: upt_rec_numeral\<close>)
  let ?rest = "ascii_runes ''://'' @ c # after"
  let ?p = "(prev_rune None before, s @ ?rest)"
  have "Match WordB ?p ?p" using word_boundary_before[OF assms(3), of r] s(1-3)
    by (auto simp: word_rune_def intro: Match_Copies.intros)
  moreover have "Match (Rune (alpha_i u)) ?p (Some r, rs @ ?rest)"
    using s low by (auto intro: Match_Copies.intros)
  moreover have "Match (many (Rune (\<lambda>r. alpha_i u r \<or> digit_rune r \<or> chars ''+.-'' r))) (Some r, rs @ ?rest) (prev_rune (Some r) rs, ?rest)"
    unfolding many_def using s(4) low
    by (intro Match_Copies.intros(9)[OF Copies_Rune]) (auto simp: list_all_iff)
  moreover obtain q where "Match (exact ''://'') (prev_rune (Some r) rs, ?rest) (q, c # after)"
    using Match_exact by blast
  moreover have "Match (many1 (Rune (\<lambda>r. \<not> re_space_rune r))) (q, c # after) (Some c, after)"
    unfolding many1_def using Copies_Rune[of "\<lambda>r. \<not> re_space_rune r" "[c]" q after] assms(2)
    by (auto simp: prev_rune_def intro: Match_Copies.intros(9))
  ultimately have "Match (explicitURLPattern u) ?p (Some c, after)"
    unfolding explicitURLPattern_def one_of.simps by (intro Match_Copies.intros(7)) (unfold Match_in_order, blast)
  then show ?thesis unfolding MatchString_iff[OF url_patterns_regular(1)] by blast
qed

text \<open>A reply that holds a link with a scheme is refused outright: a letter and letters or digits not glued
  to a word before them, \<open>://\<close>, and a character that is not white space, anywhere in the text.\<close>

theorem link_denied:
  assumes "runes (pa_text (in_action i)) = before @ scheme @ ascii_runes ''://'' @ c # after" and "scheme_runes scheme"
    and "\<not> re_space_rune c" and "edge_before before" and "pa_type (in_action i) = ActionTypeReply"
  shows "res_decision (Evaluate e i) = Deny"
proof (rule denied_content[OF disjI1 assms(5)])
  show "containsURL (env_unicode e) (runes (pa_text (in_action i)))"
    using link_match[OF assms(2-4)] by (simp add: assms(1) containsURL_def)
qed

section \<open>Samples\<close>

definition plain_tables :: unicode_tables where
  "plain_tables = \<lparr>ut_letter = (\<lambda>r. 65 \<le> r \<and> r \<le> 90 \<or> 97 \<le> r \<and> r \<le> 122), ut_number = digit_rune, ut_punct = (\<lambda>_. False),
     ut_print = (\<lambda>_. True), ut_fold = (\<lambda>a b. a = b), ut_lower = (\<lambda>r. r)\<rparr>"

definition plain_env :: policy_env where
  "plain_env = \<lparr>env_unicode = plain_tables, env_case = \<lparr>u_lower = (\<lambda>s. s), u_equal_fold = (=), u_word_rune = (\<lambda>_. False)\<rparr>,
     env_zones = Map.empty\<rparr>"

definition sample_profile :: profile where
  "sample_profile = \<lparr>p_user_id = 7, p_mode = AgentModeGuarded, p_autopilot_paused = False, p_listener_enabled = True,
     p_disclosure_text = ''AI'', p_disclosure_disabled = False, p_max_autonomous_turns = 6, p_max_msgs_per_minute = 2,
     p_max_reply_chars = 1200, p_intent_allowlist = ''hi,ok'', p_intent_denylist = ''pay'', p_working_hours = [],
     p_audience_excludes = [], p_installed_at = None, p_install_revision = 1, p_definition_digest = [],
     p_assistant_name = ''base'', p_assistant_version = [], p_install = None, p_owner_profile = None,
     p_owner_profile_imported_at = None, p_blocked_senders = [], p_sender_allowlist = [], p_runtime = RuntimeOwn,
     p_consent_version = [], p_consent_at = None, p_paused_until = None, p_budget_day = None, p_budget_month = None,
     p_created_at = 0, p_updated_at = 0\<rparr>"

definition sample_conversation :: conversation where
  "sample_conversation = \<lparr>c_id = 1, c_user_id = 7, c_peer_tg_id = 42, c_peer_username = None, c_peer_display_name = None,
     c_peer_access_hash = 0, c_state = ConversationActive, c_autonomous_turns = 0, c_last_incoming_at = None,
     c_last_agent_reply_at = None, c_owner_engaged_at = None, c_peer_contact = [], c_created_at = 0, c_updated_at = 0\<rparr>"

definition sample_input :: "string \<Rightarrow> string \<Rightarrow> policy_input" where
  "sample_input intent txt = \<lparr>in_profile = sample_profile, in_conversation = sample_conversation,
     in_action = \<lparr>pa_type = ActionTypeReply, pa_intent = intent, pa_text = txt, pa_peer = 0\<rparr>, in_sends = [],
     in_kill = False, in_now = 1000, in_protected = None, in_superseded = [], in_revision = 1, in_promoted = False\<rparr>"

lemmas sample_defs = plain_tables_def plain_env_def sample_profile_def sample_conversation_def sample_input_def

lemma sample_lists:
  "allowlistEntry plain_tables ''hi,ok'' ''ok'' = Some ''ok''" "allowlistEntry plain_tables ''pay'' ''ok'' = None"
  "allowlistEntry plain_tables ''pay'' ''Pay'' = Some ''pay''"
  by (simp_all add: allowlistEntry_def Let_def go_simps space_head_def space_last_def EqualFold_def runes_ascii
      fold_eq_def lower_rune_def plain_tables_def)

lemma sample_allowed: "res_decision (Evaluate plain_env (sample_input ''ok'' ''ok'')) = Allow"
proof -
  have t: "env_unicode plain_env = plain_tables" by (simp add: plain_env_def)
  have "\<not> containsURL u (runes ''ok'')" "\<not> containsCredentialLike u (runes ''ok'')" for u
    by (rule short_text_plain; simp add: runes_ascii)+
  moreover have "trim_space ''ok'' = ''ok''" "trim_space ''AI'' = ''AI''" by (simp_all add: go_simps space_head_def space_last_def)
  ultimately have "account_denial plain_env (sample_input ''ok'' ''ok'') = None"
    "conversation_denial plain_env (sample_input ''ok'' ''ok'') = None"
    "content_denial plain_env (sample_input ''ok'' ''ok'') = None"
    "hold_reasons plain_env (sample_input ''ok'' ''ok'') = []"
    by (simp_all add: account_denial_def conversation_denial_def content_denial_def hold_reasons_def Let_def t
      sample_input_def sample_profile_def sample_conversation_def sample_lists isBlocked_def containsID_def
      AudienceExcluded_def excluded_parts_def AgentModeGuarded_def AgentModeObserve_def ActionTypeReply_def
      ConversationActive_def ConversationTakenOver_def ConversationClosed_def ConversationPaused_def overRate_def
      IsForkAssistant_def reply_length_def reply_limit_def EffectiveDisclosure_def DisclosureSep_def
      telegramMaxMessageLen_def runes_ascii)
  then show ?thesis
    by (simp add: Evaluate_def Let_def sample_input_def ActionTypeReply_def ActionTypeOwnerSummary_def ActionTypeOwnerApproval_def)
qed

lemma sample_type: "pa_type (in_action (sample_input a b)) = ActionTypeReply"
  "ActionTypeReply \<noteq> ActionTypeOwnerSummary" "ActionTypeReply \<noteq> ActionTypeOwnerApproval"
  by (simp_all add: sample_input_def ActionTypeReply_def ActionTypeOwnerSummary_def ActionTypeOwnerApproval_def)

theorem auto_send_guarded_witness:
  "allowlistEntry (env_unicode plain_env) (p_intent_allowlist (in_profile (sample_input ''ok'' ''ok'')))
     (pa_intent (in_action (sample_input ''ok'' ''ok''))) \<noteq> None"
  using auto_send_guarded[OF sample_allowed] sample_type by metis

theorem card_number_denied_witness:
  "res_decision (Evaluate plain_env (sample_input ''ok'' ''No 4000 1234 5678 9010.'')) = Deny"
proof (rule card_number_denied[where before = "ascii_runes ''No ''" and d = 48 and after = "ascii_runes ''.''" and
      ds = "[(52, []), (48, []), (48, []), (48, [32]), (49, []), (50, []), (51, []), (52, [32]), (53, []), (54, []), (55, []),
             (56, [32]), (57, []), (48, []), (49, [])]"])
  show "runes (pa_text (in_action (sample_input ''ok'' ''No 4000 1234 5678 9010.''))) = ascii_runes ''No '' @ card_run
      [(52, []), (48, []), (48, []), (48, [32]), (49, []), (50, []), (51, []), (52, [32]), (53, []), (54, []), (55, []),
       (56, [32]), (57, []), (48, []), (49, [])] @ 48 # ascii_runes ''.''"
    by (simp add: sample_input_def runes_ascii ascii_runes_def card_run_def)
qed (simp_all add: sample_type card_digits_def digit_rune_def edge_before_def edge_after_def ascii_runes_def word_rune_def)

theorem link_denied_witness:
  "res_decision (Evaluate plain_env (sample_input ''ok'' ''See https://a.b/c'')) = Deny"
proof (rule link_denied[where before = "ascii_runes ''See ''" and scheme = "ascii_runes ''https''" and c = 97 and after = "ascii_runes ''.b/c''"])
  show "runes (pa_text (in_action (sample_input ''ok'' ''See https://a.b/c''))) =
      ascii_runes ''See '' @ ascii_runes ''https'' @ ascii_runes ''://'' @ 97 # ascii_runes ''.b/c''"
    by (simp add: sample_input_def runes_ascii ascii_runes_def)
qed (simp_all add: sample_type scheme_runes_def re_space_rune_def edge_before_def ascii_runes_def word_rune_def)

theorem denial_final_witness:
  "Evaluate plain_env ((sample_input ''ok'' ''See https://a.b/c'')\<lparr>in_now := 5, in_sends := [], in_promoted := True,
     in_profile := (in_profile (sample_input ''ok'' ''See https://a.b/c''))\<lparr>p_max_autonomous_turns := 100, p_max_msgs_per_minute := 100,
       p_intent_allowlist := ''ok'', p_working_hours := []\<rparr>,
     in_conversation := (in_conversation (sample_input ''ok'' ''See https://a.b/c''))\<lparr>c_autonomous_turns := 0\<rparr>\<rparr>) =
   Evaluate plain_env (sample_input ''ok'' ''See https://a.b/c'')"
proof (rule denial_final, rule denied_content)
  have "containsURL (env_unicode plain_env) (ascii_runes ''See '' @ ascii_runes ''https'' @ ascii_runes ''://'' @ 97 # ascii_runes ''.b/c'')"
    unfolding containsURL_def by (rule disjI1, rule link_match)
      (simp_all add: scheme_runes_def re_space_rune_def edge_before_def ascii_runes_def word_rune_def)
  then show "containsURL (env_unicode plain_env) (runes (pa_text (in_action (sample_input ''ok'' ''See https://a.b/c'')))) \<or>
      containsCredentialLike (env_unicode plain_env) (runes (pa_text (in_action (sample_input ''ok'' ''See https://a.b/c''))))"
    by (simp add: sample_input_def runes_ascii ascii_runes_def)
qed (rule sample_type)

end
