(* ===== verification/Executor.thy ===== *)
theory Executor
  imports Policy StoreProps
begin

text \<open>
  The executor (\<open>internal/agent/executor/executor.go\<close>): the only code that sends a reply. It re-evaluates the
  policy, reserves the send with its random id, counts the attempt, calls Telegram and records the outcome; the
  recovery sweep repeats interrupted sends under the same random id. The world outside the process is a parameter:
  the clock, the operations other processes commit before each store call, store calls that fail (before or after
  taking effect), the kill switch, the send gate, the random source, Telegram, and the owner-profile matcher behind
  \<open>RestrictedFieldChecker\<close>. The log keeps every send RPC together with what the policy was asked before it. An error keeps the
  sentinel it wraps; metrics, log lines and the text around wrapped errors are left out.
\<close>

section \<open>Disclosure\<close>

definition appendDisclosure :: "string \<Rightarrow> string \<Rightarrow> string" where
  "appendDisclosure payload disclosure =
     (let want = trim_space disclosure; trimmed = trim_right payload in
      if want = [] then payload
      else if trimmed = want \<or> suffix (DisclosureSep @ want) trimmed then payload
      else payload @ DisclosureSep @ disclosure)"

definition stripDisclosure :: "string \<Rightarrow> string \<Rightarrow> string" where
  "stripDisclosure payload disclosure =
     (let want = trim_space disclosure; trimmed = trim_right payload in
      if want = [] then payload
      else if trim_space trimmed = want then []
      else if \<not> suffix (DisclosureSep @ want) trimmed then payload
      else trim_right (take (length trimmed - length (DisclosureSep @ want)) trimmed))"

section \<open>The process and its world\<close>

datatype exec_error = ErrApprovalCodeNotFound | ErrLostRace | ErrApprovalExpired | ErrInstallChanged
  | ErrSendQueuedForRetry | ErrSourceSuperseded | ErrSendRefused | ErrDeliveryUnknown | Failed string

datatype send_error = ErrAlreadyDelivered | FloodWaitError duration | SendRefusedError string | SendFailed string

text \<open>Failures of the owner-profile matcher: no document stored, or any other.\<close>

datatype match_error = ErrAgentOwnerProfileNotFound | MatchFailed string

record restricted_match =
  rm_key :: string
  rm_never :: bool
  rm_approval :: bool

record 'w ex_world =
  xw_now :: "'w \<Rightarrow> instant \<times> 'w"
  xw_others :: "'w \<Rightarrow> store_op list \<times> 'w"
  xw_fails :: "'w \<Rightarrow> (string \<times> bool) option \<times> 'w"
  xw_kill :: "'w \<Rightarrow> bool \<times> 'w"
  xw_gate :: "int \<Rightarrow> int \<Rightarrow> 'w \<Rightarrow> string option \<times> 'w"
  xw_random :: "'w \<Rightarrow> (string, int) result \<times> 'w"
  xw_send :: "int \<Rightarrow> int \<Rightarrow> int \<Rightarrow> int \<Rightarrow> string \<Rightarrow> 'w \<Rightarrow> (send_error, int) result \<times> 'w"
  xw_locate :: "(int \<Rightarrow> int \<Rightarrow> int \<Rightarrow> string \<Rightarrow> instant \<Rightarrow> 'w \<Rightarrow> (string, int option) result \<times> 'w) option"
  xw_restricted :: "int \<Rightarrow> string \<Rightarrow> 'w \<Rightarrow> (match_error, restricted_match option) result \<times> 'w"
  xw_protected :: "int \<Rightarrow> string \<Rightarrow> string \<Rightarrow> bool \<Rightarrow> 'w \<Rightarrow> (match_error, protected_field option) result \<times> 'w"

record executor =
  ex_store :: store
  ex_env :: policy_env
  ex_upper :: "string \<Rightarrow> string" \<comment> \<open>\<open>strings.ToUpper\<close> outside ASCII\<close>
  ex_gated :: bool
  ex_profiled :: bool
  ex_stuck_grace :: duration
  ex_approval_ttl :: duration
  ex_crash_after_reserve :: bool
  ex_max_attempts :: int

record rpc =
  rpc_action :: int
  rpc_user :: int
  rpc_peer :: int
  rpc_hash :: int
  rpc_random :: int
  rpc_text :: string
  rpc_decision :: string \<comment> \<open>the decision the action was proposed with\<close>
  rpc_input :: policy_input

record 'w exec =
  x_db :: agent_db
  x_world :: 'w
  x_rpcs :: "rpc list"
  x_seen :: "int list"

datatype ex_return = Return "exec_error option" | Exit

type_synonym ('w, 'a) ex = "'w exec \<Rightarrow> (ex_return, 'a) result \<times> 'w exec"

definition return_ex :: "'a \<Rightarrow> ('w, 'a) ex" where "return_ex x s = (Inr x, s)"
definition stop :: "exec_error option \<Rightarrow> ('w, 'a) ex" where "stop r s = (Inl (Return r), s)"
definition exit_ex :: "('w, 'a) ex" where "exit_ex s = (Inl Exit, s)"

definition bind_ex :: "('w, 'a) ex \<Rightarrow> ('a \<Rightarrow> ('w, 'b) ex) \<Rightarrow> ('w, 'b) ex" where
  "bind_ex m f s = (case m s of (Inl r, s1) \<Rightarrow> (Inl r, s1) | (Inr x, s1) \<Rightarrow> f x s1)"

text \<open>What a call returns to its caller: an early return is a return.\<close>

definition call_ex :: "('w, exec_error option) ex \<Rightarrow> ('w, exec_error option) ex" where
  "call_ex m s = (case m s of (Inl (Return r), s1) \<Rightarrow> (Inr r, s1) | (Inl Exit, s1) \<Rightarrow> (Inl Exit, s1) | (Inr r, s1) \<Rightarrow> (Inr r, s1))"

definition world_ex :: "('w \<Rightarrow> 'a \<times> 'w) \<Rightarrow> ('w, 'a) ex" where
  "world_ex f s = (let (x, w) = f (x_world s) in (Inr x, s\<lparr>x_world := w\<rparr>))"

abbreviation now_ex :: "'w ex_world \<Rightarrow> ('w, instant) ex" where "now_ex W \<equiv> world_ex (xw_now W)"

datatype call_error = CallFailed string | StoreErr db_error

text \<open>A store call: what other processes committed before it, and whether it fails.\<close>

definition store_ex ::
  "executor \<Rightarrow> 'w ex_world \<Rightarrow> (agent_db \<Rightarrow> (db_error, 'a \<times> agent_db) result) \<Rightarrow> ('w, (call_error, 'a) result) ex" where
  "store_ex X W f s =
     (let (ops, w1) = xw_others W (x_world s); db1 = fst (store_run (ex_store X) (x_db s) ops);
          (failure, w2) = xw_fails W w1; s1 = s\<lparr>x_db := db1, x_world := w2\<rparr> in
      case failure of
        None \<Rightarrow> (case f db1 of Inl e \<Rightarrow> (Inr (Inl (StoreErr e)), s1) | Inr (x, db2) \<Rightarrow> (Inr (Inr x), s1\<lparr>x_db := db2\<rparr>))
      | Some (m, applied) \<Rightarrow> (Inr (Inl (CallFailed m)), if applied then s1\<lparr>x_db := committed db1 (f db1)\<rparr> else s1))"

definition read_ex :: "executor \<Rightarrow> 'w ex_world \<Rightarrow> (agent_db \<Rightarrow> (db_error, 'a) result) \<Rightarrow> ('w, (call_error, 'a) result) ex" where
  "read_ex X W f = store_ex X W (\<lambda>db. map_sum id (\<lambda>x. (x, db)) (f db))"

definition or_stop :: "exec_error \<Rightarrow> ('e, 'a) result \<Rightarrow> ('w, 'a) ex" where
  "or_stop err r = (case r of Inl _ \<Rightarrow> stop (Some err) | Inr x \<Rightarrow> return_ex x)"

definition try_ex :: "exec_error \<Rightarrow> ('w, ('e, 'a) result) ex \<Rightarrow> ('w, 'a) ex" where
  "try_ex err m = bind_ex m (or_stop err)"

section \<open>Reads\<close>

definition GetIncomingEvent :: "store \<Rightarrow> int \<Rightarrow> string \<Rightarrow> agent_db \<Rightarrow> (db_error, string \<times> string) result" where
  "GetIncomingEvent st uid eid db =
     (case List.find (\<lambda>e. e_event_id e = eid \<and> e_user_id e = uid) (db_events db) of
        None \<Rightarrow> Inl ErrIncomingEventNotFound
      | Some e \<Rightarrow> map_sum id (\<lambda>pt. (e_kind e, pt)) (open_body st (e_body e) (e_user_id e)))"

definition inbound_parts :: "(string \<times> string) list \<Rightarrow> string list" where
  "inbound_parts evs = map snd (filter (\<lambda>(k, b). (k = EventKindPrivateMessage \<or> k = EventKindMessageEdit) \<and> b \<noteq> []) evs)"

fun inbound_events ::
  "executor \<Rightarrow> 'w ex_world \<Rightarrow> exec_error \<Rightarrow> int \<Rightarrow> string list \<Rightarrow> ('w, (string \<times> string) list) ex" where
  "inbound_events X W err uid [] = return_ex []"
| "inbound_events X W err uid (i # is) =
     bind_ex (try_ex err (read_ex X W (GetIncomingEvent (ex_store X) uid i))) (\<lambda>ev.
     bind_ex (inbound_events X W err uid is) (\<lambda>evs. return_ex (ev # evs)))"

definition TurnInboundText :: "executor \<Rightarrow> 'w ex_world \<Rightarrow> exec_error \<Rightarrow> int \<Rightarrow> int \<Rightarrow> ('w, string) ex" where
  "TurnInboundText X W err uid jid =
     (if jid = 0 then return_ex []
      else bind_ex (try_ex err (read_ex X W (GetAgentJob uid jid))) (\<lambda>job.
           bind_ex (inbound_events X W err uid (SourceEventIDs job)) (\<lambda>evs.
           return_ex (join_with [CHR 10] (inbound_parts evs)))))"

text \<open>The opened columns of a listed row.\<close>

definition opened :: "store \<Rightarrow> string option \<Rightarrow> int \<Rightarrow> string" where
  "opened st col uid = (case open_body st col uid of Inl _ \<Rightarrow> [] | Inr pt \<Rightarrow> pt)"

definition or_zero :: "int option \<Rightarrow> int" where "or_zero x = (case x of None \<Rightarrow> 0 | Some n \<Rightarrow> n)"

definition PolicyAllow :: string where "PolicyAllow = ''allow''"

section \<open>Outcomes\<close>

definition maxSendAttempts :: "executor \<Rightarrow> int" where
  "maxSendAttempts X = (if ex_max_attempts X > 0 then ex_max_attempts X else 5)"

definition reasonAttemptsExhausted :: "int \<Rightarrow> string" where
  "reasonAttemptsExhausted n = ''delivery unknown: Telegram did not confirm the send after '' @ FormatInt n @ '' attempts''"

definition reasonStoppedAfterAttempt :: "string list \<Rightarrow> string" where
  "reasonStoppedAfterAttempt rs =
     ''delivery unknown: retry stopped after an attempt that may have been delivered: '' @ join_with ''; '' rs"

definition ReasonFloodWaitOutlasted :: string where "ReasonFloodWaitOutlasted = ''flood wait outlasted the approval TTL''"
definition ReasonSendGateClosed :: string where "ReasonSendGateClosed = ''send gate closed''"

definition peer_label :: "conversation \<Rightarrow> string" where
  "peer_label c =
     (let name = (case c_peer_display_name c of None \<Rightarrow> [] | Some n \<Rightarrow> n); user = (case c_peer_username c of None \<Rightarrow> [] | Some n \<Rightarrow> n) in
      if trim_space name \<noteq> [] then name else if trim_space user \<noteq> [] then ''@'' @ user else ''a conversation'')"

definition delivery_alert :: "conversation \<Rightarrow> string" where
  "delivery_alert c = ''The assistant could not confirm whether its reply to '' @ peer_label c @
     '' was delivered, and it will not try again. Check that chat before you reply yourself, so the reply is not sent twice.''"

definition markDeliveryUnknown :: "executor \<Rightarrow> 'w ex_world \<Rightarrow> action \<Rightarrow> conversation \<Rightarrow> string \<Rightarrow> ('w, exec_error option) ex" where
  "markDeliveryUnknown X W a conv reason =
     bind_ex (now_ex W) (\<lambda>db_now. bind_ex (now_ex W) (\<lambda>now.
     bind_ex (store_ex X W (MarkAgentActionDeliveryUnknown (ex_store X) (ac_user_id a) (ac_id a) reason (delivery_alert conv) db_now now))
       (\<lambda>r. return_ex (case r of Inl _ \<Rightarrow> Some (Failed ''record delivery unknown'')
          | Inr ok \<Rightarrow> if ok then Some ErrDeliveryUnknown else None))))"

definition endHeldRetry ::
  "executor \<Rightarrow> 'w ex_world \<Rightarrow> action \<Rightarrow> conversation \<Rightarrow> int \<Rightarrow> string \<Rightarrow> string \<Rightarrow> ('w, exec_error option) ex" where
  "endHeldRetry X W a conv attempts denyReason unknownReason =
     (if attempts > 0
      then bind_ex (markDeliveryUnknown X W a conv unknownReason) (\<lambda>e. return_ex (case e of None \<Rightarrow> Some ErrLostRace | Some _ \<Rightarrow> e))
      else bind_ex (now_ex W) (\<lambda>now.
           bind_ex (store_ex X W (DenyAgentAction (ac_user_id a) (ac_id a) ActionExecuting denyReason now)) (\<lambda>r.
           return_ex (case r of Inl _ \<Rightarrow> Some (Failed ''deny held retry'')
             | Inr ok \<Rightarrow> if ok then Some (Failed (''retry denied: '' @ denyReason)) else Some ErrLostRace))))"

definition expired :: "executor \<Rightarrow> instant \<Rightarrow> instant \<Rightarrow> bool" where
  "expired X since now \<longleftrightarrow> ex_approval_ttl X > 0 \<and> time_sub now since > ex_approval_ttl X"

text \<open>\<open>None\<close>: the error is left to the caller; otherwise what the call returns.\<close>

definition settleRefusal ::
  "executor \<Rightarrow> 'w ex_world \<Rightarrow> action \<Rightarrow> conversation \<Rightarrow> instant \<Rightarrow> (send_error, int) result \<Rightarrow> ('w, exec_error option option) ex" where
  "settleRefusal X W a conv reservedAt sent =
     (case sent of
        Inl (FloodWaitError wait) \<Rightarrow>
          bind_ex (now_ex W) (\<lambda>now.
          bind_ex (store_ex X W (\<lambda>db. Inr (UnnoteAgentActionSendAttempt (ac_user_id a) (ac_id a) (Some (now + wait)) db))) (\<lambda>r.
          case r of Inl _ \<Rightarrow> return_ex (Some (Some ErrSendQueuedForRetry))
          | Inr None \<Rightarrow> return_ex (Some (Some ErrLostRace))
          | Inr (Some attempts) \<Rightarrow>
              bind_ex (now_ex W) (\<lambda>now.
                if expired X reservedAt now
                then bind_ex (endHeldRetry X W a conv attempts ReasonFloodWaitOutlasted
                       ''delivery unknown: flood waits outlasted the approval TTL after an attempt that may have been delivered'')
                       (\<lambda>e. return_ex (Some e))
                else return_ex (Some (Some ErrSendQueuedForRetry)))))
      | Inl (SendRefusedError cls) \<Rightarrow>
          bind_ex (store_ex X W (\<lambda>db. Inr (UnnoteAgentActionSendAttempt (ac_user_id a) (ac_id a) None db))) (\<lambda>r.
          case r of Inl _ \<Rightarrow> return_ex (Some (Some (Failed ''undo refused attempt'')))
          | Inr None \<Rightarrow> return_ex (Some (Some ErrLostRace))
          | Inr (Some attempts) \<Rightarrow>
              if attempts > 0
              then bind_ex (markDeliveryUnknown X W a conv (''delivery unknown: Telegram refused a retry ('' @ cls @
                     '') after an attempt that may have been delivered'')) (\<lambda>e. return_ex (Some e))
              else bind_ex (now_ex W) (\<lambda>now.
                   bind_ex (store_ex X W (DenyAgentAction (ac_user_id a) (ac_id a) ActionExecuting (''send refused by Telegram: '' @ cls) now)) (\<lambda>r.
                   return_ex (Some (Some (case r of Inl _ \<Rightarrow> Failed ''deny refused send''
                     | Inr ok \<Rightarrow> if ok then ErrSendRefused else ErrLostRace))))))
      | _ \<Rightarrow> return_ex None)"

definition locateDelivered :: "'w ex_world \<Rightarrow> action \<Rightarrow> conversation \<Rightarrow> string \<Rightarrow> ('w, int) ex" where
  "locateDelivered W a conv text = (case xw_locate W of None \<Rightarrow> return_ex 0
     | Some locate \<Rightarrow>
        bind_ex (world_ex (locate (ac_user_id a) (c_peer_tg_id conv) (c_peer_access_hash conv) text (ac_updated_at a)))
          (\<lambda>r. return_ex (case r of Inr (Some i) \<Rightarrow> i | _ \<Rightarrow> 0)))"

definition restrictedFieldBlocks ::
  "executor \<Rightarrow> 'w ex_world \<Rightarrow> exec_error \<Rightarrow> action \<Rightarrow> string \<Rightarrow> ('w, string option) ex" where
  "restrictedFieldBlocks X W err a finalText =
     (if \<not> ex_profiled X then return_ex None
      else bind_ex (world_ex (xw_restricted W (ac_user_id a) finalText)) (\<lambda>r. case r of
          Inl ErrAgentOwnerProfileNotFound \<Rightarrow> return_ex None
        | Inl _ \<Rightarrow> stop (Some err)
        | Inr None \<Rightarrow> return_ex None
        | Inr (Some m) \<Rightarrow> return_ex
            (let q = Quote (env_unicode (ex_env X)) (rm_key m) in
             if rm_never m then Some (''payload echoes never_auto_send restricted field '' @ q)
             else if rm_approval m \<and> ac_decision a \<noteq> PolicyRequireApproval
             then Some (''payload echoes approval_required restricted field '' @ q @ '' without owner review'')
             else None)))"

definition protectedField ::
  "executor \<Rightarrow> 'w ex_world \<Rightarrow> exec_error \<Rightarrow> action \<Rightarrow> conversation \<Rightarrow> ('w, protected_field option) ex" where
  "protectedField X W err a conv =
     (if \<not> ex_profiled X \<or> ac_type a \<noteq> ActionTypeReply then return_ex None
      else bind_ex (TurnInboundText X W err (ac_user_id a) (or_zero (ac_job_id a))) (\<lambda>inbound.
           bind_ex (now_ex W) (\<lambda>now.
           bind_ex (world_ex (xw_protected W (ac_user_id a) (opened (ex_store X) (ac_payload a) (ac_user_id a)) inbound (OwnerEngaged conv now))) (\<lambda>r.
           case r of Inl ErrAgentOwnerProfileNotFound \<Rightarrow> return_ex None
           | Inl _ \<Rightarrow> stop (Some err)
           | Inr m \<Rightarrow> return_ex m))))"

section \<open>Sending\<close>

definition send_input ::
  "action \<Rightarrow> string \<Rightarrow> profile \<Rightarrow> conversation \<Rightarrow> instant list \<Rightarrow> bool \<Rightarrow> instant \<Rightarrow> protected_field option \<Rightarrow> policy_input" where
  "send_input a payload p c sends kill now prot =
     \<lparr>in_profile = p, in_conversation = c,
      in_action = \<lparr>pa_type = ac_type a, pa_intent = ac_intent a, pa_text = payload, pa_peer = c_peer_tg_id c\<rparr>,
      in_sends = sends, in_kill = kill, in_now = now, in_protected = prot, in_superseded = [],
      in_revision = ac_install_revision a, in_promoted = False\<rparr>"

text \<open>A hard denial stops a send, and so does a required approval for a reply nobody has reviewed.\<close>

definition stopped :: "policy_result \<Rightarrow> string \<Rightarrow> bool" where
  "stopped r decided \<longleftrightarrow> res_decision r = Deny \<or> (res_decision r = RequireApproval \<and> decided = PolicyAllow)"

definition stop_message :: "string \<Rightarrow> string \<Rightarrow> policy_result \<Rightarrow> string" where
  "stop_message suffix_unreviewed where_denied r =
     (if res_decision r = Deny then where_denied @ join_with ''; '' (res_reasons r)
      else ''policy now requires approval for this never-reviewed auto-approved action'' @ suffix_unreviewed @ '': '' @
        join_with ''; '' (res_reasons r))"

text \<open>Withdraw an approved draft: the compare-and-set, and what is returned.\<close>

definition withdraw :: "executor \<Rightarrow> 'w ex_world \<Rightarrow> action \<Rightarrow> exec_error \<Rightarrow> exec_error \<Rightarrow> ('w, 'a) ex" where
  "withdraw X W a on_error result =
     bind_ex (now_ex W) (\<lambda>now.
     bind_ex (store_ex X W (UpdateAgentActionStatus (ac_user_id a) (ac_id a) ActionApproved ActionDenied now)) (\<lambda>r.
     case r of Inl _ \<Rightarrow> stop (Some on_error)
     | Inr ok \<Rightarrow> stop (Some (if ok then result else ErrLostRace))))"

definition denySuperseded :: "executor \<Rightarrow> 'w ex_world \<Rightarrow> action \<Rightarrow> string \<Rightarrow> ('w, 'a) ex" where
  "denySuperseded X W a kind =
     bind_ex (now_ex W) (\<lambda>now.
     bind_ex (store_ex X W (DenyAgentActionWithReason (ac_user_id a) (ac_id a) ActionApproved (SourceSupersededReason kind) now)) (\<lambda>r.
     case r of Inl _ \<Rightarrow> stop (Some (Failed ''deny superseded draft'')) | Inr _ \<Rightarrow> stop (Some ErrSourceSuperseded)))"

text \<open>\<open>Sender.SendWithRandomID\<close>, logged.\<close>

definition send_rpc :: "'w ex_world \<Rightarrow> rpc \<Rightarrow> ('w, (send_error, int) result) ex" where
  "send_rpc W r s = world_ex (xw_send W (rpc_user r) (rpc_peer r) (rpc_hash r) (rpc_random r) (rpc_text r)) (s\<lparr>x_rpcs := x_rpcs s @ [r]\<rparr>)"

definition the_rpc :: "action \<Rightarrow> conversation \<Rightarrow> int \<Rightarrow> string \<Rightarrow> policy_input \<Rightarrow> rpc" where
  "the_rpc a conv randomID text i =
     \<lparr>rpc_action = ac_id a, rpc_user = ac_user_id a, rpc_peer = c_peer_tg_id conv, rpc_hash = c_peer_access_hash conv,
      rpc_random = randomID, rpc_text = text, rpc_decision = ac_decision a, rpc_input = i\<rparr>"

text \<open>A duplicate refusal means the message was delivered; its id may be found in the chat.\<close>

definition delivered_or :: "'w ex_world \<Rightarrow> action \<Rightarrow> conversation \<Rightarrow> string \<Rightarrow> (send_error, int) result \<Rightarrow> ('w, (send_error, int) result) ex" where
  "delivered_or W a conv text sent = (case sent of
       Inl ErrAlreadyDelivered \<Rightarrow> bind_ex (locateDelivered W a conv text) (\<lambda>i. return_ex (Inr i))
     | _ \<Rightarrow> return_ex sent)"

definition record_sent :: "executor \<Rightarrow> 'w ex_world \<Rightarrow> action \<Rightarrow> int \<Rightarrow> string \<Rightarrow> ('w, (call_error, bool) result) ex" where
  "record_sent X W a msg text =
     bind_ex (now_ex W) (\<lambda>db_now. bind_ex (now_ex W) (\<lambda>now.
     store_ex X W (RecordAgentActionSent (ex_store X) (ac_user_id a) (ac_id a) (or_zero (ac_conversation_id a)) msg text db_now now)))"

text \<open>The text that goes out: the draft with its disclosure, or without the copy the owner opted out of.\<close>

definition final_text :: "profile \<Rightarrow> string \<Rightarrow> string" where
  "final_text p payload =
     (let text = appendDisclosure payload (EffectiveDisclosure p) in
      if p_disclosure_disabled p then stripDisclosure text (p_disclosure_text p) else text)"

text \<open>From the reservation on: the attempt is counted before the RPC.\<close>

definition attempt_send ::
  "executor \<Rightarrow> 'w ex_world \<Rightarrow> action \<Rightarrow> conversation \<Rightarrow> int \<Rightarrow> string \<Rightarrow> policy_input \<Rightarrow> ('w, exec_error option) ex" where
  "attempt_send X W a conv randomID text i =
     (if ex_crash_after_reserve X then exit_ex
      else bind_ex (now_ex W) (\<lambda>reservedAt.
        bind_ex (try_ex ErrSendQueuedForRetry (store_ex X W (\<lambda>db. Inr (NoteAgentActionSendAttempt (ac_user_id a) (ac_id a) db)))) (\<lambda>noted.
        if noted = None then stop (Some ErrLostRace)
        else bind_ex (send_rpc W (the_rpc a conv randomID text i)) (\<lambda>sent0.
        bind_ex (delivered_or W a conv text sent0) (\<lambda>sent.
        bind_ex (settleRefusal X W a conv reservedAt sent) (\<lambda>settled.
        case settled of Some e \<Rightarrow> stop e
        | None \<Rightarrow> (case sent of
            Inl _ \<Rightarrow> stop (Some ErrSendQueuedForRetry)
          | Inr msg \<Rightarrow> bind_ex (try_ex ErrSendQueuedForRetry (record_sent X W a msg text)) (\<lambda>_. return_ex None))))))))"

definition reserve_and_send ::
  "executor \<Rightarrow> 'w ex_world \<Rightarrow> action \<Rightarrow> profile \<Rightarrow> conversation \<Rightarrow> string \<Rightarrow> policy_input \<Rightarrow> ('w, exec_error option) ex" where
  "reserve_and_send X W a profile conv text i =
     bind_ex (try_ex ErrSendQueuedForRetry (world_ex (xw_random W))) (\<lambda>randomID.
     bind_ex (now_ex W) (\<lambda>t. bind_ex (now_ex W) (\<lambda>now.
     bind_ex (store_ex X W (ReserveAgentActionSend (ex_store X) a randomID text (p_max_autonomous_turns profile)
         (p_max_msgs_per_minute profile) (t - minute) (ac_decision a = PolicyAllow) now)) (\<lambda>r.
     case r of
       Inl (StoreErr (SourceSuperseded kind)) \<Rightarrow> denySuperseded X W a kind
     | Inl (StoreErr ErrAgentSendBudgetExhausted) \<Rightarrow>
         withdraw X W a (Failed ''deny action after atomic budget check'') (Failed ''policy budget exhausted before execution claim'')
     | Inl _ \<Rightarrow> stop (Some ErrSendQueuedForRetry)
     | Inr ok \<Rightarrow> if \<not> ok then stop (Some ErrLostRace) else attempt_send X W a conv randomID text i))))"

definition gate_ex :: "executor \<Rightarrow> 'w ex_world \<Rightarrow> action \<Rightarrow> conversation \<Rightarrow> ('w, string option) ex" where
  "gate_ex X W a conv = (if ex_gated X then world_ex (xw_gate W (ac_user_id a) (c_peer_tg_id conv)) else return_ex None)"

definition checks_and_send ::
  "executor \<Rightarrow> 'w ex_world \<Rightarrow> action \<Rightarrow> profile \<Rightarrow> conversation \<Rightarrow> policy_input \<Rightarrow> ('w, exec_error option) ex" where
  "checks_and_send X W a profile conv i =
     (let text = final_text profile (pa_text (in_action i)) in
      if p_disclosure_disabled profile \<and> trim_space text = []
      then withdraw X W a (Failed ''deny empty payload'') (Failed ''draft is empty once the disclosure is stripped'')
      else bind_ex (restrictedFieldBlocks X W ErrSendQueuedForRetry a text) (\<lambda>blocked.
        case blocked of
          Some reason \<Rightarrow> withdraw X W a (Failed ''deny restricted-field payload'') (Failed (''owner profile blocks send: '' @ reason))
        | None \<Rightarrow> bind_ex (gate_ex X W a conv) (\<lambda>closed.
            case closed of
              Some why \<Rightarrow> withdraw X W a (Failed ''deny gated send'') (Failed (''send gate blocks send: '' @ why))
            | None \<Rightarrow> reserve_and_send X W a profile conv text i)))"

definition send :: "executor \<Rightarrow> 'w ex_world \<Rightarrow> action \<Rightarrow> ('w, exec_error option) ex" where
  "send X W a =
     (let uid = ac_user_id a; cid = or_zero (ac_conversation_id a) in
      bind_ex (try_ex ErrSendQueuedForRetry (read_ex X W (\<lambda>db. GetAgentProfile db uid))) (\<lambda>profile.
      bind_ex (try_ex ErrSendQueuedForRetry (read_ex X W (\<lambda>db. GetConversation db uid cid))) (\<lambda>conv.
      bind_ex (now_ex W) (\<lambda>t.
      bind_ex (try_ex ErrSendQueuedForRetry (read_ex X W (\<lambda>db. ListRecentAgentOutgoingTimestamps db uid cid (t - minute)))) (\<lambda>sends.
      bind_ex (protectedField X W ErrSendQueuedForRetry a conv) (\<lambda>prot.
      bind_ex (world_ex (xw_kill W)) (\<lambda>kill.
      bind_ex (now_ex W) (\<lambda>now.
        let i = send_input a (opened (ex_store X) (ac_payload a) uid) profile conv sends kill now prot;
            result = Evaluate (ex_env X) i in
        if stopped result (ac_decision a)
        then withdraw X W a (Failed ''deny stale approval'') (Failed (stop_message [] ''policy denies at send time: '' result))
        else checks_and_send X W a profile conv i))))))))"

section \<open>The owner's decisions and the sweeps\<close>

definition ascii_upper :: "char \<Rightarrow> char" where
  "ascii_upper c = (if 97 \<le> byte c \<and> byte c \<le> 122 then char_of (byte c - 32) else c)"

definition ToUpper :: "executor \<Rightarrow> string \<Rightarrow> string" where
  "ToUpper X s = (if is_ascii s then map ascii_upper s else ex_upper X s)"

definition by_code :: "executor \<Rightarrow> 'w ex_world \<Rightarrow> int \<Rightarrow> string \<Rightarrow> ('w, action) ex" where
  "by_code X W uid code =
     bind_ex (read_ex X W (\<lambda>db. GetAgentActionByCode (ex_store X) db uid (ToUpper X (trim_space code)))) (\<lambda>r.
     case r of Inl (StoreErr ErrAgentActionNotFound) \<Rightarrow> stop (Some ErrApprovalCodeNotFound)
     | Inl _ \<Rightarrow> stop (Some (Failed ''lookup action by code'')) | Inr a \<Rightarrow> return_ex a)"

definition refuse_install :: "executor \<Rightarrow> 'w ex_world \<Rightarrow> int \<Rightarrow> action \<Rightarrow> ('w, 'a) ex" where
  "refuse_install X W uid a =
     bind_ex (now_ex W) (\<lambda>now.
     bind_ex (store_ex X W (DenyAgentAction uid (ac_id a) ActionPendingApproval ReasonInstallChanged now)) (\<lambda>r.
     case r of Inl _ \<Rightarrow> stop (Some (Failed ''deny stale-install draft''))
     | Inr ok \<Rightarrow> stop (Some (if ok then ErrInstallChanged else ErrLostRace))))"

definition approve_and_send :: "executor \<Rightarrow> 'w ex_world \<Rightarrow> int \<Rightarrow> action \<Rightarrow> ('w, exec_error option) ex" where
  "approve_and_send X W uid a =
     bind_ex (now_ex W) (\<lambda>now.
     bind_ex (try_ex (Failed ''approve action'')
       (store_ex X W (UpdateAgentActionStatus uid (ac_id a) ActionPendingApproval ActionApproved now))) (\<lambda>ok.
     if \<not> ok then stop (Some ErrLostRace)
     else bind_ex (now_ex W) (\<lambda>t. send X W (a\<lparr>ac_status := ActionApproved, ac_updated_at := t\<rparr>))))"

definition Approve :: "executor \<Rightarrow> 'w ex_world \<Rightarrow> int \<Rightarrow> string \<Rightarrow> ('w, exec_error option) ex" where
  "Approve X W uid code =
     bind_ex (by_code X W uid code) (\<lambda>a.
     if ac_status a \<noteq> ActionPendingApproval then stop (Some ErrLostRace)
     else bind_ex (now_ex W) (\<lambda>t.
       if expired X (ac_updated_at a) t
       then bind_ex (now_ex W) (\<lambda>now. bind_ex (store_ex X W (\<lambda>db. Inr (ExpireAgentActionIfStale uid (ac_id a) (ex_approval_ttl X) now db))) (\<lambda>r.
            case r of Inl _ \<Rightarrow> stop (Some (Failed ''expire stale approval'')) | Inr _ \<Rightarrow> stop (Some ErrApprovalExpired)))
       else bind_ex (read_ex X W (\<lambda>db. GetAgentProfile db uid)) (\<lambda>r.
         case r of
           Inl (StoreErr ErrAgentProfileNotFound) \<Rightarrow> approve_and_send X W uid a
         | Inl _ \<Rightarrow> stop (Some (Failed ''load profile''))
         | Inr profile \<Rightarrow>
             if ac_install_revision a \<noteq> p_install_revision profile then refuse_install X W uid a else approve_and_send X W uid a)))"

definition Reject :: "executor \<Rightarrow> 'w ex_world \<Rightarrow> int \<Rightarrow> string \<Rightarrow> ('w, exec_error option) ex" where
  "Reject X W uid code =
     bind_ex (by_code X W uid code) (\<lambda>a.
     bind_ex (now_ex W) (\<lambda>now.
     bind_ex (try_ex (Failed ''reject action'')
       (store_ex X W (UpdateAgentActionStatus uid (ac_id a) ActionPendingApproval ActionRejected now))) (\<lambda>ok.
     return_ex (if ok then None else Some ErrLostRace))))"

fun each_ex :: "(action \<Rightarrow> ('w, exec_error option) ex) \<Rightarrow> action list \<Rightarrow> ('w, exec_error option list) ex" where
  "each_ex f [] = return_ex []"
| "each_ex f (a # as) = bind_ex (call_ex (f a)) (\<lambda>e. bind_ex (each_ex f as) (\<lambda>es. return_ex (e # es)))"

definition ProcessApproved :: "executor \<Rightarrow> 'w ex_world \<Rightarrow> ('w, int) ex" where
  "ProcessApproved X W =
     bind_ex (try_ex (Failed ''list approved actions'')
       (read_ex X W (\<lambda>db. Inr (ListActionsByStatus (ex_store X) ActionApproved 50 db)))) (\<lambda>as.
     bind_ex (each_ex (send X W) as) (\<lambda>_. return_ex (int (length as))))"

section \<open>Recovery\<close>

text \<open>Stop a retry: without an attempt nothing was sent and the action is denied; after one the outcome is unknown.\<close>

definition stop_retry ::
  "executor \<Rightarrow> 'w ex_world \<Rightarrow> action \<Rightarrow> conversation \<Rightarrow> string list \<Rightarrow> exec_error \<Rightarrow> exec_error \<Rightarrow> ('w, exec_error option) ex" where
  "stop_retry X W a conv reasons on_error result =
     (if ac_send_attempts a > 0 then markDeliveryUnknown X W a conv (reasonStoppedAfterAttempt reasons)
      else bind_ex (now_ex W) (\<lambda>now.
        bind_ex (store_ex X W (UpdateAgentActionStatus (ac_user_id a) (ac_id a) ActionExecuting ActionDenied now)) (\<lambda>r.
        return_ex (case r of Inl _ \<Rightarrow> Some on_error | Inr ok \<Rightarrow> if ok then Some result else None))))"

definition echoed_delivery :: "executor \<Rightarrow> 'w ex_world \<Rightarrow> action \<Rightarrow> int \<Rightarrow> ('w, exec_error option) ex" where
  "echoed_delivery X W a msg =
     (let text = opened (ex_store X) (ac_send_body a) (ac_user_id a) in
      if text = [] then return_ex (Some (Failed ''executing with no persisted send body''))
      else bind_ex (record_sent X W a msg text) (\<lambda>r.
        return_ex (case r of Inl _ \<Rightarrow> Some (Failed ''record echoed delivery'') | Inr _ \<Rightarrow> None)))"

definition gate_held :: "executor \<Rightarrow> 'w ex_world \<Rightarrow> action \<Rightarrow> conversation \<Rightarrow> ('w, exec_error option) ex" where
  "gate_held X W a conv =
     bind_ex (now_ex W) (\<lambda>now.
       if expired X (ac_updated_at a) now
       then bind_ex (endHeldRetry X W a conv (ac_send_attempts a) ReasonSendGateClosed
              ''delivery unknown: send gate stayed closed past the approval TTL after an attempt that may have been delivered'')
              (\<lambda>e. return_ex (if e = Some ErrLostRace then None else e))
       else return_ex (Some (Failed ''send gate denied recovery retry'')))"

definition give_up :: "executor \<Rightarrow> 'w ex_world \<Rightarrow> action \<Rightarrow> conversation \<Rightarrow> int \<Rightarrow> ('w, exec_error option) ex" where
  "give_up X W a conv attempts =
     (if attempts \<ge> maxSendAttempts X
      then bind_ex (markDeliveryUnknown X W a conv (reasonAttemptsExhausted attempts)) (\<lambda>derr.
             return_ex (case derr of None \<Rightarrow> Some (Failed ''retry send'') | Some ErrDeliveryUnknown \<Rightarrow> Some ErrDeliveryUnknown
               | Some _ \<Rightarrow> Some (Failed ''retry send; record delivery unknown'')))
      else return_ex (Some (Failed ''retry send'')))"

definition retry_send ::
  "executor \<Rightarrow> 'w ex_world \<Rightarrow> action \<Rightarrow> conversation \<Rightarrow> int \<Rightarrow> string \<Rightarrow> policy_input \<Rightarrow> ('w, exec_error option) ex" where
  "retry_send X W a conv randomID text i =
     bind_ex (try_ex (Failed ''note send attempt'') (store_ex X W (\<lambda>db. Inr (NoteAgentActionSendAttempt (ac_user_id a) (ac_id a) db)))) (\<lambda>noted.
     case noted of None \<Rightarrow> return_ex None
     | Some attempts \<Rightarrow>
       bind_ex (send_rpc W (the_rpc a conv randomID text i)) (\<lambda>sent0.
       bind_ex (delivered_or W a conv text sent0) (\<lambda>sent.
       bind_ex (settleRefusal X W a conv (ac_updated_at a) sent) (\<lambda>settled.
       case settled of Some e \<Rightarrow> return_ex (if e = Some ErrLostRace then None else e)
       | None \<Rightarrow> (case sent of
           Inl _ \<Rightarrow> give_up X W a conv attempts
         | Inr msg \<Rightarrow> bind_ex (record_sent X W a msg text) (\<lambda>r.
             return_ex (case r of Inl _ \<Rightarrow> Some (Failed ''record executed'') | Inr _ \<Rightarrow> None)))))))"

definition own_turn_refunded :: "conversation \<Rightarrow> conversation" where
  "own_turn_refunded c = (if c_autonomous_turns c > 0 then c\<lparr>c_autonomous_turns := c_autonomous_turns c - 1\<rparr> else c)"

definition retry_checked ::
  "executor \<Rightarrow> 'w ex_world \<Rightarrow> action \<Rightarrow> conversation \<Rightarrow> int \<Rightarrow> policy_input \<Rightarrow> ('w, exec_error option) ex" where
  "retry_checked X W a conv randomID i =
     (let text = opened (ex_store X) (ac_send_body a) (ac_user_id a) in
      if text = [] then return_ex (Some (Failed ''executing with no persisted send body''))
      else bind_ex (restrictedFieldBlocks X W (Failed ''check restricted fields during recovery'') a text) (\<lambda>blocked.
        case blocked of
          Some reason \<Rightarrow> stop_retry X W a conv [reason] (Failed ''deny restricted-field payload during recovery'')
                           (Failed (''owner profile blocks recovery send: '' @ reason))
        | None \<Rightarrow> bind_ex (gate_ex X W a conv) (\<lambda>closed.
            if closed \<noteq> None then gate_held X W a conv else retry_send X W a conv randomID text i)))"

definition recoverOne :: "executor \<Rightarrow> 'w ex_world \<Rightarrow> action \<Rightarrow> ('w, exec_error option) ex" where
  "recoverOne X W a =
     (let uid = ac_user_id a; cid = or_zero (ac_conversation_id a); rid = or_zero (ac_random_id a); noted = or_zero (ac_executed_msg a) in
      if rid = 0 then return_ex (Some (Failed ''executing with no send_random_id''))
      else
      bind_ex (try_ex (Failed ''load conversation'') (read_ex X W (\<lambda>db. GetConversation db uid cid))) (\<lambda>conv.
      bind_ex (try_ex (Failed ''load profile'') (read_ex X W (\<lambda>db. GetAgentProfile db uid))) (\<lambda>profile.
      if noted \<noteq> 0 \<and> ac_send_attempts a > 0 then echoed_delivery X W a noted
      else if ac_send_attempts a \<ge> maxSendAttempts X
      then markDeliveryUnknown X W a conv (reasonAttemptsExhausted (ac_send_attempts a))
      else
      bind_ex (now_ex W) (\<lambda>t.
      bind_ex (try_ex (Failed ''load recent sends'')
        (read_ex X W (\<lambda>db. ListRecentAgentOutgoingTimestampsExcludingAction db uid cid (t - minute) (ac_id a)))) (\<lambda>sends.
      bind_ex (protectedField X W (Failed ''check protected profile fields during recovery'') a conv) (\<lambda>prot.
      bind_ex (world_ex (xw_kill W)) (\<lambda>kill.
      bind_ex (now_ex W) (\<lambda>now.
        let i = send_input a (opened (ex_store X) (ac_payload a) uid) profile (own_turn_refunded conv) sends kill now prot;
            result = Evaluate (ex_env X) i in
        if stopped result (ac_decision a)
        then stop_retry X W a conv (res_reasons result) (Failed ''deny stale approval during recovery'')
               (Failed (stop_message '' during recovery'' ''policy denies at recovery time: '' result))
        else retry_checked X W a conv rid i))))))))"

definition trackNewlyStuck :: "int list \<Rightarrow> action list \<Rightarrow> int \<times> int list" where
  "trackNewlyStuck seen stuck = (int (length (filter (\<lambda>a. ac_id a \<notin> set seen) stuck)), map ac_id stuck)"

definition track_ex :: "action list \<Rightarrow> ('w, int) ex" where
  "track_ex stuck s = (let (newly, next_seen) = trackNewlyStuck (x_seen s) stuck in (Inr newly, s\<lparr>x_seen := next_seen\<rparr>))"

definition RecoverStuck :: "executor \<Rightarrow> 'w ex_world \<Rightarrow> ('w, int) ex" where
  "RecoverStuck X W =
     bind_ex (now_ex W) (\<lambda>now.
     bind_ex (try_ex (Failed ''list stuck executing actions'')
       (read_ex X W (\<lambda>db. Inr (ListStuckExecutingActions (ex_store X) (ex_stuck_grace X) now db)))) (\<lambda>stuck.
     bind_ex (track_ex stuck) (\<lambda>_.
     bind_ex (each_ex (recoverOne X W) stuck) (\<lambda>_. return_ex (int (length stuck))))))"

section \<open>Runs\<close>

text \<open>Any sequence of calls; a crash (the drill's exit, or a call cut short by the process ending, which shows as failing
  store calls) loses the process's memory and keeps the database.\<close>

datatype exec_op = DoApprove int string | DoReject int string | DoProcessApproved | DoRecoverStuck | DoRestart

definition exec_step :: "executor \<Rightarrow> 'w ex_world \<Rightarrow> exec_op \<Rightarrow> 'w exec \<Rightarrow> 'w exec" where
  "exec_step X W p s = (case p of
       DoApprove uid code \<Rightarrow> snd (Approve X W uid code s)
     | DoReject uid code \<Rightarrow> snd (Reject X W uid code s)
     | DoProcessApproved \<Rightarrow> snd (ProcessApproved X W s)
     | DoRecoverStuck \<Rightarrow> snd (RecoverStuck X W s)
     | DoRestart \<Rightarrow> s\<lparr>x_seen := []\<rparr>)"

definition exec_run :: "executor \<Rightarrow> 'w ex_world \<Rightarrow> exec_op list \<Rightarrow> 'w exec \<Rightarrow> 'w exec" where
  "exec_run X W ops s = fold (exec_step X W) ops s"

definition exec_init :: "'w \<Rightarrow> 'w exec" where
  "exec_init w = \<lparr>x_db = empty_db, x_world = w, x_rpcs = [], x_seen = []\<rparr>"

end
