(* ===== verification/ExecProps.thy ===== *)
theory ExecProps
  imports Executor
begin

text \<open>
  What the executor guarantees, whatever other processes do between its store calls and whichever calls fail: every
  send RPC for an action carries the same random id, and none is made unless the policy, asked in that very call,
  let it through. The proofs go call by call with triples over the database: a triple keeps the log's invariant on
  every path, early returns included.
\<close>

section \<open>Facts that last\<close>

lemma store_ok_trans: "store_ok a b \<Longrightarrow> store_ok b c \<Longrightarrow> store_ok a c"
  by (auto simp: store_ok_def queue_ok_def intro: action_ok_trans queue_rel_trans)

definition lasting :: "(agent_db \<Rightarrow> bool) \<Rightarrow> bool" where
  "lasting P \<longleftrightarrow> (\<forall>db db'. store_inv db \<longrightarrow> store_ok db db' \<longrightarrow> P db \<longrightarrow> P db')"

text \<open>Every row of the action has the random id, now and later.\<close>

definition send_id :: "int \<Rightarrow> int \<Rightarrow> agent_db \<Rightarrow> bool" where
  "send_id aid rid db \<longleftrightarrow> aid \<le> db_action_seq db \<and> (\<forall>a\<in>set (db_actions db). ac_id a = aid \<longrightarrow> ac_random_id a = Some rid)"

lemma lasting_True [simp, intro]: "lasting (\<lambda>_. True)" "lasting (\<lambda>_. b)"
  by (auto simp: lasting_def)

lemma lasting_conj: "lasting P \<Longrightarrow> lasting Q \<Longrightarrow> lasting (\<lambda>db. P db \<and> Q db)"
  unfolding lasting_def by blast

lemma lasting_all: "(\<And>a. a \<in> A \<Longrightarrow> lasting (P a)) \<Longrightarrow> lasting (\<lambda>db. \<forall>a\<in>A. P a db)"
  unfolding lasting_def by blast

lemma send_id_lasting [simp, intro]: "lasting (send_id aid rid)"
  unfolding lasting_def
proof (intro allI impI)
  fix db db' assume inv: "store_inv db" and ok: "store_ok db db'" and id: "send_id aid rid db"
  have rel: "action_rel db db'" using ok by (simp add: store_ok_def action_ok_def)
  have "ac_random_id a' = Some rid" if a': "a' \<in> set (db_actions db')" "ac_id a' = aid" for a'
  proof -
    have "\<not> ac_id a' > db_action_seq db" using id a'(2) by (simp add: send_id_def)
    then obtain a where a: "a \<in> set (db_actions db)" "action_step\<^sup>*\<^sup>* a a'"
      using rel a'(1) unfolding action_rel_def by blast
    then have "ac_random_id a = Some rid" using id a'(2) action_steps_same[OF a(2)] by (simp add: send_id_def same_action_def)
    moreover have "draft_clean a" using inv a(1) by (auto simp: store_inv_def actions_inv_def list_all_iff)
    ultimately show ?thesis using action_steps_random[OF a(2)] by blast
  qed
  then show "send_id aid rid db'" using rel id by (auto simp: send_id_def action_rel_def)
qed

section \<open>Triples\<close>

definition vetted :: "executor \<Rightarrow> rpc \<Rightarrow> bool" where
  "vetted X r \<longleftrightarrow> \<not> stopped (Evaluate (ex_env X) (rpc_input r)) (rpc_decision r) \<and>
     rpc_user r = c_user_id (in_conversation (rpc_input r)) \<and> rpc_user r = p_user_id (in_profile (rpc_input r)) \<and>
     rpc_peer r = c_peer_tg_id (in_conversation (rpc_input r))"

definition log_inv :: "executor \<Rightarrow> 'w exec \<Rightarrow> bool" where
  "log_inv X s \<longleftrightarrow> store_inv (x_db s) \<and>
     (\<forall>r\<in>set (x_rpcs s). send_id (rpc_action r) (rpc_random r) (x_db s) \<and> vetted X r) \<and>
     (\<forall>r\<in>set (x_rpcs s). \<forall>r'\<in>set (x_rpcs s). rpc_action r = rpc_action r' \<longrightarrow> rpc_random r = rpc_random r')"

definition triple :: "executor \<Rightarrow> (agent_db \<Rightarrow> bool) \<Rightarrow> ('w, 'a) ex \<Rightarrow> ('a \<Rightarrow> agent_db \<Rightarrow> bool) \<Rightarrow> bool" where
  "triple X P m Q \<longleftrightarrow> (\<forall>s. log_inv X s \<longrightarrow> P (x_db s) \<longrightarrow> store_ok (x_db s) (x_db (snd (m s))) \<and> log_inv X (snd (m s)) \<and>
     (\<forall>x. fst (m s) = Inr x \<longrightarrow> Q x (x_db (snd (m s)))))"

abbreviation keeps :: "executor \<Rightarrow> ('w, 'a) ex \<Rightarrow> bool" where
  "keeps X m \<equiv> triple X (\<lambda>_. True) m (\<lambda>_ _. True)"

lemma log_inv_store: "log_inv X s \<Longrightarrow> store_inv (x_db s)"
  by (simp add: log_inv_def)

lemma tripleI:
  assumes "\<And>s. log_inv X s \<Longrightarrow> P (x_db s) \<Longrightarrow> store_ok (x_db s) (x_db (snd (m s)))"
    and "\<And>s. log_inv X s \<Longrightarrow> P (x_db s) \<Longrightarrow> log_inv X (snd (m s))"
    and "\<And>s x. log_inv X s \<Longrightarrow> P (x_db s) \<Longrightarrow> fst (m s) = Inr x \<Longrightarrow> Q x (x_db (snd (m s)))"
  shows "triple X P m Q"
  unfolding triple_def by (intro allI impI conjI) (erule (1) assms(1), erule (1) assms(2), erule (2) assms(3))

lemma tripleD:
  assumes "triple X P m Q" "log_inv X s" "P (x_db s)"
  shows "store_ok (x_db s) (x_db (snd (m s)))" "log_inv X (snd (m s))" "fst (m s) = Inr x \<Longrightarrow> Q x (x_db (snd (m s)))"
  using assms unfolding triple_def by blast+

lemma triple_bind:
  assumes m: "triple X P m Q" and f: "\<And>x. triple X (Q x) (f x) R"
  shows "triple X P (bind_ex m f) R"
proof -
  have "store_ok (x_db s) (x_db (snd (bind_ex m f s))) \<and> log_inv X (snd (bind_ex m f s)) \<and>
      (\<forall>x. fst (bind_ex m f s) = Inr x \<longrightarrow> R x (x_db (snd (bind_ex m f s))))"
    if s: "log_inv X s" "P (x_db s)" for s
  proof (cases "fst (m s)")
    case (Inl r)
    then have "bind_ex m f s = (Inl r, snd (m s))" by (cases "m s") (simp add: bind_ex_def)
    then show ?thesis using tripleD[OF m s] by simp
  next
    case (Inr x)
    then have b: "bind_ex m f s = f x (snd (m s))" by (cases "m s") (simp add: bind_ex_def)
    have q: "Q x (x_db (snd (m s)))" using tripleD(3)[OF m s Inr] .
    show ?thesis unfolding b using tripleD[OF f tripleD(2)[OF m s] q] store_ok_trans[OF tripleD(1)[OF m s]] by blast
  qed
  then show ?thesis by (intro tripleI) blast+
qed

lemma triple_return:
  assumes "\<And>db. P db \<Longrightarrow> Q x db"
  shows "triple X P (return_ex x) Q"
  by (rule tripleI) (simp_all only: return_ex_def fst_conv snd_conv store_ok_refl log_inv_store sum.inject, erule subst, erule assms)

lemma triple_stop [simp, intro]: "triple X P (stop e) Q" "triple X P exit_ex Q"
  by (rule tripleI; simp add: stop_def exit_ex_def store_ok_refl log_inv_store)+

lemma log_inv_db:
  assumes s: "log_inv X s" and ok: "store_ok (x_db s) (x_db s')" and same: "x_rpcs s' = x_rpcs s"
  shows "log_inv X s'"
proof -
  have "send_id a r (x_db s')" if "send_id a r (x_db s)" for a r
    using send_id_lasting[of a r] log_inv_store[OF s] ok that unfolding lasting_def by blast
  then show ?thesis using s store_ok_inv[OF ok] unfolding log_inv_def same by blast
qed

lemma triple_world: "triple X P (world_ex f) (\<lambda>_. P)"
proof -
  have "x_db (snd (world_ex f s)) = x_db s" "x_rpcs (snd (world_ex f s)) = x_rpcs s" for s
    by (simp_all add: world_ex_def Let_def split: prod.split)
  then show ?thesis by (intro tripleI) (simp_all add: store_ok_refl log_inv_store log_inv_db)
qed

lemma triple_weaken: "triple X P m Q \<Longrightarrow> (\<And>db. P' db \<Longrightarrow> P db) \<Longrightarrow> (\<And>x db. Q x db \<Longrightarrow> Q' x db) \<Longrightarrow> triple X P' m Q'"
  unfolding triple_def by blast

lemma triple_frame:
  assumes "lasting P" "triple X P m Q"
  shows "triple X P m (\<lambda>x db. P db \<and> Q x db)"
  using assms unfolding triple_def lasting_def by (blast dest: log_inv_store)

lemma keeps_frame: "lasting P \<Longrightarrow> keeps X m \<Longrightarrow> triple X P m (\<lambda>_. P)"
  using triple_frame[of P X m "\<lambda>_ _. True"] unfolding triple_def by blast

lemma triple_pure: "(\<phi> \<Longrightarrow> triple X P m Q) \<Longrightarrow> triple X (\<lambda>db. \<phi> \<and> P db) m Q"
  unfolding triple_def by blast

text \<open>A store call whose operation the store's invariant survives.\<close>

definition sound_op :: "(agent_db \<Rightarrow> (db_error, 'a \<times> agent_db) result) \<Rightarrow> bool" where
  "sound_op f \<longleftrightarrow> (\<forall>db. store_inv db \<longrightarrow> store_ok db (committed db (f db)))"

lemma store_run_ok: "store_inv db \<Longrightarrow> store_ok db (fst (store_run st db ops))"
proof (induction ops arbitrary: db)
  case (Cons x xs)
  have 1: "store_ok db (store_write st db x)" using store_write_ok[OF Cons.prems] .
  have "store_ok (store_write st db x) (fst (store_run st (store_write st db x) xs))"
    by (rule Cons.IH[OF store_ok_inv[OF 1]])
  then show ?case using store_ok_trans[OF 1] by (simp only: store_machine.fst_run_Cons store_step_def fst_conv)
qed (simp add: store_ok_refl)

text \<open>Where a store call leaves the database: after the others' operations, and after its own if it took effect.\<close>

lemma store_ex_cases:
  obtains db1 where "store_inv (x_db s) \<Longrightarrow> store_ok (x_db s) db1" "x_rpcs (snd (store_ex X W f s)) = x_rpcs s"
    "x_db (snd (store_ex X W f s)) = db1 \<or> x_db (snd (store_ex X W f s)) = committed db1 (f db1)"
    "\<And>r. fst (store_ex X W f s) = Inr (Inr r) \<Longrightarrow> f db1 = Inr (r, x_db (snd (store_ex X W f s)))"
    "\<exists>r. fst (store_ex X W f s) = Inr r"
proof -
  obtain ops w1 where o: "xw_others W (x_world s) = (ops, w1)" by fastforce
  obtain failure w2 where fl: "xw_fails W w1 = (failure, w2)" by fastforce
  let ?db1 = "fst (store_run (ex_store X) (x_db s) ops)"
  have e: "store_ex X W f s = (case failure of
        None \<Rightarrow> (case f ?db1 of Inl e \<Rightarrow> (Inr (Inl (StoreErr e)), s\<lparr>x_db := ?db1, x_world := w2\<rparr>)
          | Inr (x, db2) \<Rightarrow> (Inr (Inr x), s\<lparr>x_db := ?db1, x_world := w2\<rparr>\<lparr>x_db := db2\<rparr>))
      | Some (m, applied) \<Rightarrow> (Inr (Inl (CallFailed m)), if applied then s\<lparr>x_db := ?db1, x_world := w2\<rparr>\<lparr>x_db := committed ?db1 (f ?db1)\<rparr>
          else s\<lparr>x_db := ?db1, x_world := w2\<rparr>))"
    by (simp add: store_ex_def o fl Let_def)
  show ?thesis
  proof (rule that[of ?db1])
    show "store_ok (x_db s) ?db1" if "store_inv (x_db s)" by (rule store_run_ok[OF that])
  qed (unfold e, auto split: option.splits sum.splits prod.splits if_splits)
qed

lemma triple_store:
  assumes op: "sound_op f" and P: "lasting P"
    and Q: "\<And>db x db'. store_inv db \<Longrightarrow> P db \<Longrightarrow> f db = Inr (x, db') \<Longrightarrow> Q x db'"
  shows "triple X P (store_ex X W f) (\<lambda>r db. case r of Inl _ \<Rightarrow> P db | Inr x \<Rightarrow> Q x db)"
proof -
  have "store_ok (x_db s) (x_db (snd (store_ex X W f s))) \<and> log_inv X (snd (store_ex X W f s)) \<and>
      (\<forall>r. fst (store_ex X W f s) = Inr r \<longrightarrow> (case r of Inl _ \<Rightarrow> P (x_db (snd (store_ex X W f s))) | Inr x \<Rightarrow> Q x (x_db (snd (store_ex X W f s)))))"
    if s: "log_inv X s" and p: "P (x_db s)" for s
  proof (rule store_ex_cases[of s X W f])
    fix db1
    let ?s' = "snd (store_ex X W f s)"
    assume 1: "store_inv (x_db s) \<Longrightarrow> store_ok (x_db s) db1" and same: "x_rpcs ?s' = x_rpcs s"
      and 2: "x_db ?s' = db1 \<or> x_db ?s' = committed db1 (f db1)"
      and 3: "\<And>r. fst (store_ex X W f s) = Inr (Inr r) \<Longrightarrow> f db1 = Inr (r, x_db ?s')"
    have inv: "store_inv (x_db s)" using log_inv_store[OF s] .
    have ok1: "store_ok (x_db s) db1" using 1[OF inv] .
    have inv1: "store_inv db1" using store_ok_inv[OF ok1] .
    have ok2: "store_ok db1 (x_db ?s')" using 2 op store_ok_refl[OF inv1] inv1 unfolding sound_op_def by metis
    have ok: "store_ok (x_db s) (x_db ?s')" using store_ok_trans[OF ok1 ok2] .
    have P1: "P db1" and P2: "P (x_db ?s')" using P inv ok1 ok p unfolding lasting_def by blast+
    show ?thesis using ok log_inv_db[OF s ok same] P2 Q[OF inv1 P1 3] by (auto split: sum.split)
  qed
  then show ?thesis by (intro tripleI) blast+
qed

section \<open>The calls\<close>

lemma committed_Inr [simp]: "committed db (Inr p) = snd p"
  by (cases p) simp

lemma sound_opI: "(\<And>db. store_inv db \<Longrightarrow> store_ok db (committed db (f db))) \<Longrightarrow> sound_op f"
  by (simp add: sound_op_def)

lemma sound_read [simp]: "sound_op (\<lambda>db. map_sum id (\<lambda>x. (x, db)) (f db))"
  by (rule sound_opI) (auto simp: store_ok_refl map_sum_def split: sum.split)

lemma sound_ops [simp]:
  "sound_op (UpdateAgentActionStatus uid aid f t now)"
  "sound_op (DenyAgentAction uid aid f why now)"
  "sound_op (DenyAgentActionWithReason uid aid f why now)"
  "sound_op (ReserveAgentActionSend st act rid body mt mm w e now)"
  "sound_op (RecordAgentActionSent st uid aid cid msg txt dn now)"
  "sound_op (\<lambda>db. Inr (NoteAgentActionSendAttempt uid aid db))"
  "sound_op (\<lambda>db. Inr (UnnoteAgentActionSendAttempt uid aid nb db))"
  "sound_op (MarkAgentActionDeliveryUnknown st uid aid why alert dn now)"
  "sound_op (\<lambda>db. Inr (ExpireAgentActionIfStale uid aid ttl now db))"
  using action_write_ok[of _ undefined "OpUpdateStatus uid aid f t now"] action_write_ok[of _ undefined "OpDeny uid aid f why now"]
    action_write_ok[of _ undefined "OpDenyReason uid aid f why now"] action_write_ok[of _ st "OpReserve act rid body mt mm w e now"]
    action_write_ok[of _ st "OpRecordSent uid aid cid msg txt dn now"] action_write_ok[of _ undefined "OpNoteAttempt uid aid"]
    action_write_ok[of _ undefined "OpUnnoteAttempt uid aid nb"] action_write_ok[of _ st "OpUnknown uid aid why alert dn now"]
    action_write_ok[of _ undefined "OpExpireOne uid aid ttl now"]
  by (simp_all add: sound_op_def)

lemma keeps_store: "sound_op f \<Longrightarrow> keeps X (store_ex X W f)"
  using triple_store[of f "\<lambda>_. True" "\<lambda>_ _. True" X W] by (simp cong: sum.case_cong)

lemma keeps_read [simp]: "keeps X (read_ex X W f)"
  unfolding read_ex_def by (rule keeps_store) simp

lemma keeps_bind: "keeps X m \<Longrightarrow> (\<And>x. keeps X (f x)) \<Longrightarrow> keeps X (bind_ex m f)"
  by (rule triple_bind)

lemma keeps_return [simp]: "keeps X (return_ex x)"
  by (rule triple_return) simp

lemma keeps_world [simp]: "keeps X (world_ex f)"
  by (rule triple_world)

lemma keeps_or_stop [simp]: "keeps X (or_stop err r)"
  by (cases r) (simp_all add: or_stop_def)

lemma keeps_try: "keeps X m \<Longrightarrow> keeps X (try_ex err m)"
  unfolding try_ex_def by (erule keeps_bind) simp

lemma keeps_call:
  assumes "keeps X m"
  shows "keeps X (call_ex m)"
proof -
  have "snd (call_ex m s) = snd (m s)" for s
    by (cases "m s") (auto simp: call_ex_def split: sum.split ex_return.split)
  then show ?thesis using assms by (intro tripleI) (simp_all add: tripleD)
qed

lemmas keeps_intros = keeps_bind keeps_try keeps_store

lemma keeps_markDeliveryUnknown [simp]: "keeps X (markDeliveryUnknown X W a conv reason)"
  unfolding markDeliveryUnknown_def by (intro keeps_intros) simp_all

lemma keeps_endHeldRetry [simp]: "keeps X (endHeldRetry X W a conv n dr ur)"
  unfolding endHeldRetry_def by (auto intro!: keeps_intros)

lemma keeps_settleRefusal [simp]: "keeps X (settleRefusal X W a conv t sent)"
  unfolding settleRefusal_def
  by (auto intro!: keeps_intros split: sum.split send_error.split option.split)

lemma keeps_delivered_or [simp]: "keeps X (delivered_or W a conv text sent)"
  unfolding delivered_or_def locateDelivered_def by (auto intro!: keeps_intros split: sum.split send_error.split option.split)

lemma keeps_record_sent [simp]: "keeps X (record_sent X W a msg text)"
  unfolding record_sent_def by (auto intro!: keeps_intros)

lemma keeps_withdraw [simp]: "keeps X (withdraw X W a e1 e2)"
  unfolding withdraw_def by (auto intro!: keeps_intros split: sum.split)

lemma keeps_denySuperseded [simp]: "keeps X (denySuperseded X W a kind)"
  unfolding denySuperseded_def by (auto intro!: keeps_intros split: sum.split)

lemma keeps_restricted [simp]: "keeps X (restrictedFieldBlocks X W err a text)"
  unfolding restrictedFieldBlocks_def by (auto intro!: keeps_intros split: sum.split match_error.split option.split)

lemma keeps_inbound [simp]: "keeps X (inbound_events X W err uid is)"
  by (induction "is") (auto intro!: keeps_intros)

lemma keeps_protected [simp]: "keeps X (protectedField X W err a conv)"
  unfolding protectedField_def TurnInboundText_def by (auto intro!: keeps_intros split: sum.split match_error.split)

lemma keeps_gate [simp]: "keeps X (gate_ex X W a conv)" "keeps X (gate_held X W a conv)"
  unfolding gate_ex_def gate_held_def by (auto intro!: keeps_intros)

lemma keeps_recovery [simp]:
  "keeps X (stop_retry X W a conv rs e1 e2)" "keeps X (echoed_delivery X W a msg)" "keeps X (give_up X W a conv n)"
  "keeps X (refuse_install X W uid a)" "keeps X (by_code X W uid code)" "keeps X (track_ex stuck)"
proof -
  show "keeps X (track_ex stuck)"
    by (rule tripleI) (auto simp: track_ex_def trackNewlyStuck_def store_ok_refl log_inv_store intro: log_inv_db)
qed (auto simp: stop_retry_def echoed_delivery_def give_up_def refuse_install_def by_code_def Let_def
    intro!: keeps_intros split: sum.split call_error.split db_error.split)

section \<open>The RPC\<close>

definition has_row :: "int \<Rightarrow> agent_db \<Rightarrow> bool" where
  "has_row aid db \<longleftrightarrow> (\<exists>a\<in>set (db_actions db). ac_id a = aid)"

lemma triple_rpc:
  assumes v: "vetted X r"
  shows "triple X (\<lambda>db. send_id (rpc_action r) (rpc_random r) db \<and> has_row (rpc_action r) db) (send_rpc W r) (\<lambda>_ _. True)"
proof -
  have log: "x_rpcs (snd (send_rpc W r s)) = x_rpcs s @ [r]" "x_db (snd (send_rpc W r s)) = x_db s" for s
    by (simp_all add: send_rpc_def world_ex_def Let_def split: prod.split)
  have "log_inv X (snd (send_rpc W r s))"
    if s: "log_inv X s" and id: "send_id (rpc_action r) (rpc_random r) (x_db s)" and row: "has_row (rpc_action r) (x_db s)" for s
  proof -
    have "rpc_random r' = rpc_random r" if "r' \<in> set (x_rpcs s)" "rpc_action r' = rpc_action r" for r'
    proof -
      have "send_id (rpc_action r) (rpc_random r') (x_db s)" using s that unfolding log_inv_def by metis
      then show ?thesis using id row by (auto simp: send_id_def has_row_def)
    qed
    moreover have "rpc_random r = rpc_random r'" if "r' \<in> set (x_rpcs s)" "rpc_action r = rpc_action r'" for r'
      using calculation that by metis
    moreover have ins: "set (x_rpcs s @ [r]) = insert r (set (x_rpcs s))" by simp
    ultimately show ?thesis using s id v unfolding log_inv_def log ins ball_simps(7) by blast
  qed
  then show ?thesis by (intro tripleI) (auto simp: log store_ok_refl log_inv_store)
qed

lemma note_attempt:
  assumes P: "lasting P"
  shows "triple X P (store_ex X W (\<lambda>db. Inr (NoteAgentActionSendAttempt uid aid db)))
    (\<lambda>r db. case r of Inl _ \<Rightarrow> P db | Inr n \<Rightarrow> P db \<and> (n \<noteq> None \<longrightarrow> has_row aid db))"
proof (rule triple_store[OF sound_ops(6) P])
  fix db n db' assume inv: "store_inv db" and p: "P db" and "Inr (NoteAgentActionSendAttempt uid aid db) = (Inr (n, db') :: (db_error, _) result)"
  then have r: "NoteAgentActionSendAttempt uid aid db = (n, db')" by simp
  have "store_ok db db'" using sound_ops(6)[of uid aid] inv r unfolding sound_op_def by fastforce
  then have "P db'" using P inv p unfolding lasting_def by blast
  moreover have "has_row aid db'" if some: "n \<noteq> None"
  proof -
    obtain a where a: "a \<in> set (db_actions db)" "in_status uid aid ActionExecuting a"
      and db': "db' = update_actions (in_status uid aid ActionExecuting) (\<lambda>a. a\<lparr>ac_send_attempts := ac_send_attempts a + 1\<rparr>) db"
      using r some by (auto simp: NoteAgentActionSendAttempt_def dest!: find_SomeD split: option.split_asm)
    have "a\<lparr>ac_send_attempts := ac_send_attempts a + 1\<rparr> \<in> set (db_actions db')"
      using a db' by (auto simp: update_actions_def in_update_where intro!: bexI[of _ a])
    then show ?thesis unfolding has_row_def by (rule bexI[rotated]) (use a(2) in \<open>simp add: in_status_def\<close>)
  qed
  ultimately show "P db' \<and> (n \<noteq> None \<longrightarrow> has_row aid db')" by blast
qed

lemma triple_try: "triple X P m (\<lambda>r db. case r of Inl _ \<Rightarrow> R db | Inr x \<Rightarrow> Q x db) \<Longrightarrow> triple X P (try_ex err m) Q"
  unfolding try_ex_def
  by (erule triple_bind) (auto simp: or_stop_def intro!: triple_return split: sum.split)

lemma vetted_rpc:
  assumes "\<not> stopped (Evaluate (ex_env X) i) (ac_decision a)" "c_user_id (in_conversation i) = ac_user_id a"
    "p_user_id (in_profile i) = ac_user_id a" "c_peer_tg_id (in_conversation i) = c_peer_tg_id conv"
  shows "vetted X (the_rpc a conv randomID text i)"
  using assms by (simp add: vetted_def the_rpc_def)

lemma triple_rpc_noted:
  assumes "vetted X (the_rpc a conv randomID text i)"
  shows "triple X (\<lambda>db. send_id (ac_id a) randomID db \<and> has_row (ac_id a) db) (send_rpc W (the_rpc a conv randomID text i)) (\<lambda>_ _. True)"
  using triple_rpc[OF assms, of W] by (simp add: the_rpc_def)

lemma attempt_send_triple:
  assumes v: "vetted X (the_rpc a conv randomID text i)"
  shows "triple X (send_id (ac_id a) randomID) (attempt_send X W a conv randomID text i) (\<lambda>_ _. True)"
proof (cases "ex_crash_after_reserve X")
  case False
  have after: "keeps X (bind_ex (delivered_or W a conv text sent0) (\<lambda>sent.
      bind_ex (settleRefusal X W a conv t sent) (\<lambda>settled. case settled of Some e \<Rightarrow> stop e
        | None \<Rightarrow> (case sent of Inl _ \<Rightarrow> stop (Some ErrSendQueuedForRetry)
          | Inr msg \<Rightarrow> bind_ex (try_ex ErrSendQueuedForRetry (record_sent X W a msg text)) (\<lambda>_. return_ex None)))))" for sent0 t
    by (auto intro!: keeps_intros split: option.split sum.split)
  have step: "triple X (\<lambda>db. send_id (ac_id a) randomID db \<and> (noted \<noteq> None \<longrightarrow> has_row (ac_id a) db))
      (if noted = None then stop (Some ErrLostRace) else bind_ex (send_rpc W (the_rpc a conv randomID text i)) f) (\<lambda>_ _. True)"
    if "\<And>x. keeps X (f x)" for noted :: "int option" and f :: "_ \<Rightarrow> ('a, exec_error option) ex"
    using triple_bind[OF triple_rpc_noted[OF v] that] by auto
  show ?thesis unfolding attempt_send_def
    by (simp add: False) (rule triple_bind[OF triple_world], rule triple_bind[OF triple_try[OF note_attempt]], simp, rule step, rule after)
qed (simp add: attempt_send_def)

lemma retry_send_triple:
  assumes v: "vetted X (the_rpc a conv randomID text i)"
  shows "triple X (send_id (ac_id a) randomID) (retry_send X W a conv randomID text i) (\<lambda>_ _. True)"
proof -
  have after: "keeps X (bind_ex (delivered_or W a conv text sent0) (\<lambda>sent.
      bind_ex (settleRefusal X W a conv t sent) (\<lambda>settled. case settled of Some e \<Rightarrow> return_ex (if e = Some ErrLostRace then None else e)
        | None \<Rightarrow> (case sent of Inl _ \<Rightarrow> give_up X W a conv n
          | Inr msg \<Rightarrow> bind_ex (record_sent X W a msg text) (\<lambda>r.
             return_ex (case r of Inl _ \<Rightarrow> Some (Failed ''record executed'') | Inr _ \<Rightarrow> None))))))" for sent0 t n
    by (auto intro!: keeps_intros split: option.split sum.split)
  have step: "triple X (\<lambda>db. send_id (ac_id a) randomID db \<and> (noted \<noteq> None \<longrightarrow> has_row (ac_id a) db))
      (case noted of None \<Rightarrow> return_ex None | Some n \<Rightarrow> bind_ex (send_rpc W (the_rpc a conv randomID text i)) (f n)) (\<lambda>_ _. True)"
    if "\<And>n x. keeps X (f n x)" for noted :: "int option" and f :: "_ \<Rightarrow> _ \<Rightarrow> ('a, exec_error option) ex"
    using triple_bind[OF triple_rpc_noted[OF v] that] by (auto intro: triple_return split: option.split)
  show ?thesis unfolding retry_send_def
    by (rule triple_bind[OF triple_try[OF note_attempt]], simp, rule step, rule after)
qed

section \<open>The entry points\<close>

lemma GetAgentProfile_user: "GetAgentProfile db uid = Inr p \<Longrightarrow> p_user_id p = uid"
  by (auto simp: GetAgentProfile_def profile_of_def dest!: find_SomeD split: option.split_asm)

lemma GetConversation_user: "GetConversation db uid cid = Inr c \<Longrightarrow> c_user_id c = uid"
  by (auto simp: GetConversation_def dest!: find_SomeD split: option.split_asm)

lemma triple_read:
  assumes P: "lasting P" and Q: "\<And>db x. store_inv db \<Longrightarrow> P db \<Longrightarrow> f db = Inr x \<Longrightarrow> \<phi> x"
  shows "triple X P (try_ex err (read_ex X W f)) (\<lambda>x db. \<phi> x \<and> P db)"
  unfolding read_ex_def
  by (rule triple_try, rule triple_store[OF sound_read P]) (auto simp: map_sum_def intro: Q split: sum.split_asm)

lemma reserve_triple:
  "triple X (\<lambda>_. True) (store_ex X W (ReserveAgentActionSend st a rid body mt mm w e now))
    (\<lambda>r db. case r of Inl _ \<Rightarrow> True | Inr ok \<Rightarrow> ok \<longrightarrow> send_id (ac_id a) rid db)"
proof (rule triple_store[OF sound_ops(4) lasting_True(1)], rule impI)
  fix db ok db' assume inv: "store_inv db" and res: "ReserveAgentActionSend st a rid body mt mm w e now db = Inr (ok, db')" and ok
  then have won: "ReserveAgentActionSend st a rid body mt mm w e now db = Inr (True, db')" by simp
  have ai: "actions_inv db" using inv by (simp add: store_inv_def)
  obtain cid sealed where some: "count_where (send_row a cid) (db_actions db) \<noteq> 0"
    and acts: "db_actions db' = update_where (send_row a cid) (begin_send rid sealed now) (db_actions db)"
    and sq: "db_action_seq db' = db_action_seq db"
    by (rule ReserveAgentActionSend_won[OF won]) simp
  obtain row where row: "row \<in> set (db_actions db)" "send_row a cid row" using some by (auto simp: count_where_pos)
  have uniq: "b = row" if "b \<in> set (db_actions db)" "ac_id b = ac_id a" for b
    using ai row that keyed_unique[of ac_id "db_action_seq db" "db_actions db" b row]
    by (auto simp: actions_inv_def send_row_def in_status_def)
  have "ac_random_id b = Some rid" if b: "b \<in> set (db_actions db')" "ac_id b = ac_id a" for b
  proof -
    obtain x where x: "x \<in> set (db_actions db)" and bx: "b = (if send_row a cid x then begin_send rid sealed now x else x)"
      using b(1) unfolding acts by (auto simp: in_update_where)
    have "ac_id x = ac_id a" using b(2) bx by (simp add: begin_send_def split: if_split_asm)
    then show ?thesis using uniq[OF x] row(2) bx by (simp add: begin_send_def)
  qed
  moreover have "ac_id a \<le> db_action_seq db'"
    using ai row by (auto simp: sq actions_inv_def keyed_def send_row_def in_status_def)
  ultimately show "send_id (ac_id a) rid db'" by (simp add: send_id_def)
qed

lemma keeps_reserve_and_send:
  assumes v: "\<And>rid. vetted X (the_rpc a conv rid text i)"
  shows "keeps X (reserve_and_send X W a profile conv text i)"
proof -
  have after: "triple X (\<lambda>db. case r of Inl _ \<Rightarrow> True | Inr ok \<Rightarrow> ok \<longrightarrow> send_id (ac_id a) rid db)
     (case r of Inl (StoreErr (SourceSuperseded kind)) \<Rightarrow> denySuperseded X W a kind
     | Inl (StoreErr ErrAgentSendBudgetExhausted) \<Rightarrow>
         withdraw X W a (Failed ''deny action after atomic budget check'') (Failed ''policy budget exhausted before execution claim'')
     | Inl _ \<Rightarrow> stop (Some ErrSendQueuedForRetry)
     | Inr ok \<Rightarrow> if \<not> ok then stop (Some ErrLostRace) else attempt_send X W a conv rid text i) (\<lambda>_ _. True)" for r rid
  proof (cases r)
    case (Inl e)
    then show ?thesis by (auto split: call_error.split db_error.split)
  next
    case (Inr ok)
    then show ?thesis using attempt_send_triple[OF v, of rid W] by (cases ok) simp_all
  qed
  show ?thesis unfolding reserve_and_send_def
    by (rule keeps_bind[OF keeps_try[OF keeps_world]], rule keeps_bind[OF keeps_world], rule keeps_bind[OF keeps_world],
      rule triple_bind[OF reserve_triple], rule after)
qed

lemma keeps_checks_and_send:
  assumes "\<And>rid text. vetted X (the_rpc a conv rid text i)"
  shows "keeps X (checks_and_send X W a profile conv i)"
  unfolding checks_and_send_def Let_def
  by (auto intro!: keeps_intros keeps_reserve_and_send[OF assms] split: option.split)

lemma keeps_send: "keeps X (send X W a)"
proof -
  let ?uid = "ac_user_id a" and ?cid = "or_zero (ac_conversation_id a)"
  have last: "keeps X (let i = send_input a payload profile conv sends kill now prot; result = Evaluate (ex_env X) i in
        if stopped result (ac_decision a)
        then withdraw X W a (Failed ''deny stale approval'') (Failed (stop_message [] ''policy denies at send time: '' result))
        else checks_and_send X W a profile conv i)"
    if "p_user_id profile = ?uid" "c_user_id conv = ?uid" for payload profile conv sends kill now prot
    unfolding Let_def using that
    by (auto intro!: keeps_checks_and_send vetted_rpc simp: send_input_def)
  have r1: "triple X (\<lambda>_. True) (try_ex ErrSendQueuedForRetry (read_ex X W (\<lambda>db. GetAgentProfile db ?uid))) (\<lambda>p db. p_user_id p = ?uid \<and> True)"
    by (rule triple_read) (auto dest: GetAgentProfile_user)
  have r2: "triple X (\<lambda>_. True) (try_ex ErrSendQueuedForRetry (read_ex X W (\<lambda>db. GetConversation db ?uid ?cid))) (\<lambda>c db. c_user_id c = ?uid \<and> True)"
    by (rule triple_read) (auto dest: GetConversation_user)
  show ?thesis unfolding send_def Let_def[of "ac_user_id a"] Let_def[of "or_zero (ac_conversation_id a)"]
    by (rule triple_bind[OF r1], rule triple_pure, rule triple_bind[OF r2], rule triple_pure,
      intro keeps_bind keeps_try keeps_world keeps_read keeps_protected, erule (1) last)
qed

text \<open>A row as a sweep listed it: its random id is that of the action from then on.\<close>

definition listed :: "action \<Rightarrow> agent_db \<Rightarrow> bool" where
  "listed a db \<longleftrightarrow> (\<forall>r. ac_random_id a = Some r \<longrightarrow> send_id (ac_id a) r db)"

lemma listed_lasting [simp, intro]: "lasting (listed a)"
  using send_id_lasting unfolding lasting_def listed_def by blast

lemma listed_now:
  assumes "store_inv db" "a \<in> set (db_actions db)"
  shows "listed a db"
proof -
  have k: "keyed ac_id (db_action_seq db) (db_actions db)" using assms(1) by (simp add: store_inv_def actions_inv_def)
  have "b = a" if "b \<in> set (db_actions db)" "ac_id b = ac_id a" for b using keyed_unique[OF k that(1) assms(2)] that(2) by simp
  moreover have "ac_id a \<le> db_action_seq db" using k assms(2) by (auto simp: keyed_def)
  ultimately show ?thesis by (auto simp: listed_def send_id_def)
qed

lemma retry_checked_triple:
  assumes v: "\<And>text. vetted X (the_rpc a conv rid text i)"
  shows "triple X (send_id (ac_id a) rid) (retry_checked X W a conv rid i) (\<lambda>_ _. True)"
proof -
  have k: "triple X (send_id (ac_id a) rid) m (\<lambda>_. send_id (ac_id a) rid)" if "keeps X m" for m :: "('a, 'b) ex"
    by (rule keeps_frame[OF send_id_lasting that])
  have kt: "triple X (send_id (ac_id a) rid) m (\<lambda>_ _. True)" if "keeps X m" for m :: "('a, 'b) ex"
    by (rule triple_weaken[OF that]) simp_all
  have gate: "triple X (send_id (ac_id a) rid) (bind_ex (gate_ex X W a conv) (\<lambda>closed.
      if closed \<noteq> None then gate_held X W a conv else retry_send X W a conv rid body i)) (\<lambda>_ _. True)" for body
    by (rule triple_bind[OF k[OF keeps_gate(1)]]) (simp add: kt retry_send_triple[OF v])
  have "triple X (send_id (ac_id a) rid) (case blocked of
        Some reason \<Rightarrow> stop_retry X W a conv [reason] (e1 reason) (e2 reason)
      | None \<Rightarrow> bind_ex (gate_ex X W a conv) (\<lambda>closed.
          if closed \<noteq> None then gate_held X W a conv else retry_send X W a conv rid body i)) (\<lambda>_ _. True)" for blocked e1 e2 body
    by (cases blocked) (simp_all only: option.case gate kt[OF keeps_recovery(1)])
  then have checked: "triple X (send_id (ac_id a) rid) (bind_ex (restrictedFieldBlocks X W err a body) (\<lambda>blocked. case blocked of
        Some reason \<Rightarrow> stop_retry X W a conv [reason] (e1 reason) (e2 reason)
      | None \<Rightarrow> bind_ex (gate_ex X W a conv) (\<lambda>closed.
          if closed \<noteq> None then gate_held X W a conv else retry_send X W a conv rid body i))) (\<lambda>_ _. True)" for err e1 e2 body
    by (rule triple_bind[OF k[OF keeps_restricted]])
  show ?thesis unfolding retry_checked_def Let_def
    by (simp only: checked triple_return split: if_split) simp
qed

lemma split_if3: "triple X P m Q \<Longrightarrow> triple X P m' Q \<Longrightarrow> triple X P m'' Q \<Longrightarrow>
    triple X P (if b then m else if c then m' else m'') Q"
  by simp

lemma recoverOne_triple: "triple X (listed a) (recoverOne X W a) (\<lambda>_ _. True)"
proof (cases "or_zero (ac_random_id a) = 0")
  case True
  then show ?thesis by (simp add: recoverOne_def triple_return)
next
  case False
  let ?uid = "ac_user_id a" and ?cid = "or_zero (ac_conversation_id a)" and ?rid = "or_zero (ac_random_id a)"
  let ?P = "send_id (ac_id a) ?rid"
  have k: "triple X ?P m (\<lambda>_. ?P)" if "keeps X m" for m :: "('a, 'b) ex" by (rule keeps_frame[OF send_id_lasting that])
  have kt: "triple X ?P m (\<lambda>_ _. True)" if "keeps X m" for m :: "('a, 'b) ex" by (rule triple_weaken[OF that]) simp_all
  have last: "triple X ?P (if stopped (Evaluate (ex_env X) i) (ac_decision a) then stop_retry X W a conv rs e1 e2
      else retry_checked X W a conv ?rid i) (\<lambda>_ _. True)"
    if i: "c_user_id (in_conversation i) = ?uid" "p_user_id (in_profile i) = ?uid" "c_peer_tg_id (in_conversation i) = c_peer_tg_id conv"
    for i conv rs e1 e2
    using kt[OF keeps_recovery(1)] retry_checked_triple[OF vetted_rpc[OF _ i]] by auto
  have r1: "triple X ?P (try_ex (Failed ''load conversation'') (read_ex X W (\<lambda>db. GetConversation db ?uid ?cid))) (\<lambda>c db. c_user_id c = ?uid \<and> ?P db)"
    by (rule triple_read) (auto dest: GetConversation_user)
  have r2: "triple X ?P (try_ex (Failed ''load profile'') (read_ex X W (\<lambda>db. GetAgentProfile db ?uid))) (\<lambda>p db. p_user_id p = ?uid \<and> ?P db)"
    by (rule triple_read) (auto dest: GetAgentProfile_user)
  have body: "triple X ?P
     (if or_zero (ac_executed_msg a) \<noteq> 0 \<and> ac_send_attempts a > 0 then echoed_delivery X W a (or_zero (ac_executed_msg a))
      else if ac_send_attempts a \<ge> maxSendAttempts X
      then markDeliveryUnknown X W a conv (reasonAttemptsExhausted (ac_send_attempts a))
      else bind_ex (now_ex W) (\<lambda>t.
      bind_ex (try_ex (Failed ''load recent sends'')
        (read_ex X W (\<lambda>db. ListRecentAgentOutgoingTimestampsExcludingAction db ?uid ?cid (t - minute) (ac_id a)))) (\<lambda>sends.
      bind_ex (protectedField X W (Failed ''check protected profile fields during recovery'') a conv) (\<lambda>prot.
      bind_ex (world_ex (xw_kill W)) (\<lambda>kill.
      bind_ex (now_ex W) (\<lambda>now.
        let i = send_input a (opened (ex_store X) (ac_payload a) ?uid) profile (own_turn_refunded conv) sends kill now prot;
            result = Evaluate (ex_env X) i in
        if stopped result (ac_decision a)
        then stop_retry X W a conv (res_reasons result) (Failed ''deny stale approval during recovery'')
               (Failed (stop_message '' during recovery'' ''policy denies at recovery time: '' result))
        else retry_checked X W a conv ?rid i)))))) (\<lambda>_ _. True)"
    if u: "c_user_id conv = ?uid" "p_user_id profile = ?uid" for conv profile
    unfolding Let_def
    by (rule split_if3[OF kt[OF keeps_recovery(2)] kt[OF keeps_markDeliveryUnknown]],
      rule triple_bind[OF k[OF keeps_world]], rule triple_bind[OF k[OF keeps_try[OF keeps_read]]],
      rule triple_bind[OF k[OF keeps_protected]], rule triple_bind[OF k[OF keeps_world]], rule triple_bind[OF k[OF keeps_world]],
      rule last) (simp_all add: send_input_def own_turn_refunded_def u)
  have "triple X ?P (recoverOne X W a) (\<lambda>_ _. True)"
    unfolding recoverOne_def Let_def[of "ac_user_id a"] Let_def[of "or_zero (ac_conversation_id a)"]
      Let_def[of "or_zero (ac_random_id a)"] Let_def[of "or_zero (ac_executed_msg a)"] if_not_P[OF False]
    by (rule triple_bind[OF r1], rule triple_pure, rule triple_bind[OF r2], rule triple_pure, erule (1) body)
  then show ?thesis
    by (rule triple_weaken) (use False in \<open>auto simp: listed_def or_zero_def split: option.split_asm\<close>)
qed

lemma each_triple:
  assumes f: "\<And>a. a \<in> set as \<Longrightarrow> triple X (P a) (f a) (\<lambda>_ _. True)" and P: "\<And>a. lasting (P a)"
  shows "triple X (\<lambda>db. \<forall>a\<in>set as. P a db) (each_ex f as) (\<lambda>_ _. True)"
  using f
proof (induction as)
  case Nil
  then show ?case by (simp add: triple_return)
next
  case (Cons a as)
  have call: "triple X (P a) (call_ex (f a)) (\<lambda>_ _. True)"
  proof -
    have s: "snd (call_ex (f a) s) = snd (f a s)" for s
      by (cases "f a s") (auto simp: call_ex_def split: sum.split ex_return.split)
    show ?thesis using Cons.prems[of a] by (intro tripleI) (auto simp: s tripleD)
  qed
  have "triple X (\<lambda>db. P a db \<and> (\<forall>b\<in>set as. P b db)) (call_ex (f a)) (\<lambda>_ db. \<forall>b\<in>set as. P b db)"
    using triple_frame[OF lasting_conj[OF P lasting_all[OF P]] triple_weaken[OF call]]
    by (rule triple_weaken[rotated 0]) auto
  moreover have "triple X (\<lambda>db. \<forall>b\<in>set as. P b db) (each_ex f as) (\<lambda>_ _. True)" using Cons by simp
  ultimately show ?case
    by (simp only: each_ex.simps list.set ball_simps) (erule triple_bind, rule triple_bind, assumption, simp)
qed

lemma keeps_ProcessApproved: "keeps X (ProcessApproved X W)"
  unfolding ProcessApproved_def
proof (intro keeps_bind keeps_try keeps_read keeps_return)
  show "keeps X (each_ex (send X W) as)" for as
    using each_triple[of as X "\<lambda>_ _. True" "send X W", OF keeps_send lasting_True(1)] by simp
qed

lemma keeps_RecoverStuck: "keeps X (RecoverStuck X W)"
proof -
  have each: "triple X (\<lambda>db. \<forall>a\<in>set as. listed a db) (each_ex (recoverOne X W) as) (\<lambda>_ _. True)" for as
    by (rule each_triple) (auto intro: recoverOne_triple)
  have rows: "triple X (\<lambda>_. True) (try_ex err (read_ex X W (\<lambda>db. Inr (ListStuckExecutingActions (ex_store X) grace now db))))
      (\<lambda>as db. \<forall>a\<in>set as. listed a db)" for err grace now
    unfolding read_ex_def
    by (rule triple_try, rule triple_store[OF sound_read lasting_True(1)])
      (auto simp: ListStuckExecutingActions_def intro: listed_now)
  have "triple X (\<lambda>db. \<forall>a\<in>set as. listed a db) (track_ex as) (\<lambda>_ db. \<forall>a\<in>set as. listed a db)" for as
    by (rule keeps_frame[OF lasting_all keeps_recovery(6)]) simp
  note track = triple_bind[OF this]
  show ?thesis unfolding RecoverStuck_def
    by (rule keeps_bind[OF keeps_world], rule triple_bind[OF rows], rule track, rule triple_bind[OF each], rule keeps_return)
qed

lemma keeps_Approve: "keeps X (Approve X W uid code)"
proof -
  have "keeps X (approve_and_send X W uid a)" for a
    unfolding approve_and_send_def by (auto intro!: keeps_intros keeps_send)
  then show ?thesis unfolding Approve_def
    by (auto intro!: keeps_intros split: sum.split call_error.split db_error.split)
qed

lemma keeps_Reject: "keeps X (Reject X W uid code)"
  unfolding Reject_def by (auto intro!: keeps_intros)

lemma exec_step_inv:
  assumes s: "log_inv X s"
  shows "log_inv X (exec_step X W p s)"
proof -
  note keep = tripleD(2)[OF _ s, where P = "\<lambda>_. True", OF _ TrueI]
  have "log_inv X (s\<lparr>x_seen := []\<rparr>)" by (rule log_inv_db[OF s]) (simp_all add: store_ok_refl log_inv_store[OF s])
  then show ?thesis
    using keep[OF keeps_Approve] keep[OF keeps_Reject] keep[OF keeps_ProcessApproved] keep[OF keeps_RecoverStuck]
    by (cases p) (simp_all add: exec_step_def)
qed

lemma exec_run_inv: "log_inv X s \<Longrightarrow> log_inv X (exec_run X W ops s)"
  unfolding exec_run_def by (induction ops arbitrary: s) (simp_all add: exec_step_inv)

lemma exec_init_inv: "log_inv X (exec_init w)"
  by (simp add: log_inv_def exec_init_def empty_db_inv)

text \<open>Claim C11. However executors, sweeps, crashes, failing calls and other processes interleave, all send RPCs ever made for
  one action carry the same random id, so Telegram delivers the reply at most once: over any run of the executor
  from an empty database, the RPCs of each action have at most one random id between them.\<close>

theorem rpcs_share_random_id:
  "card (rpc_random ` {r \<in> set (x_rpcs (exec_run X W ops (exec_init w))). rpc_action r = aid}) \<le> 1"
proof -
  let ?R = "{r \<in> set (x_rpcs (exec_run X W ops (exec_init w))). rpc_action r = aid}"
  have same: "rpc_random r = rpc_random r'" if "r \<in> ?R" "r' \<in> ?R" for r r'
    using exec_run_inv[OF exec_init_inv[of X w], of W ops] that unfolding log_inv_def mem_Collect_eq by metis
  have "x = y" if xy: "x \<in> rpc_random ` ?R" "y \<in> rpc_random ` ?R" for x y
  proof -
    obtain r where r: "x = rpc_random r" "r \<in> ?R" using xy(1) by (rule imageE)
    obtain r' where r': "y = rpc_random r'" "r' \<in> ?R" using xy(2) by (rule imageE)
    show ?thesis unfolding r(1) r'(1) by (rule same[OF r(2) r'(2)])
  qed
  moreover have "finite (rpc_random ` ?R)" by (intro finite_imageI) simp
  ultimately have "card (rpc_random ` ?R) \<le> Suc 0" unfolding card_le_Suc0_iff_eq[OF \<open>finite (rpc_random ` ?R)\<close>] by blast
  then show ?thesis by simp
qed


section \<open>The text that goes out\<close>

lemma newline_starts: "starts_rune (DisclosureSep @ s)"
  by (simp add: DisclosureSep_def starts_rune_def)

lemma runes_newline: "runes (s @ DisclosureSep @ t) = runes s @ 10 # runes t"
proof -
  have "runes (DisclosureSep @ t) = 10 # runes t" by (simp add: DisclosureSep_def runes_ascii_Cons)
  then show ?thesis using runes_append[OF newline_starts] by metis
qed

lemma append_length:
  "length (runes (appendDisclosure payload d)) \<le>
    length (runes payload) + (if d = [] then 0 else 1 + length (runes d))"
  by (cases "d = []") (auto simp: appendDisclosure_def Let_def runes_newline)

lemma strip_length: "length (runes (stripDisclosure payload d)) \<le> length (runes payload)"
proof -
  let ?want = "trim_space d" and ?t = "trim_right payload"
  have "length (runes (trim_right (take (length ?t - length (DisclosureSep @ ?want)) ?t))) \<le> length (runes payload)"
    if suf: "suffix (DisclosureSep @ ?want) ?t"
  proof -
    obtain u where u: "?t = u @ DisclosureSep @ ?want" using suf by (auto simp: suffix_def)
    have "length (runes (trim_right u)) \<le> length (runes ?t)"
      using runes_trim_right[of u] by (simp add: u runes_newline)
    also have "\<dots> \<le> length (runes payload)" by (rule runes_trim_right)
    finally show ?thesis by (simp add: u)
  qed
  then show ?thesis by (simp add: stripDisclosure_def Let_def)
qed



text \<open>A newline separates what is trimmed after it from what stands before it: no white-space encoding straddles it.\<close>

lemma strip_prefix_of_barrier:
  assumes "r \<noteq> []" "\<And>p. p \<in> set ps \<Longrightarrow> c \<in> set p \<Longrightarrow> p = [c]"
  shows "strip_prefix_of ps (r @ c # z) = map_option (\<lambda>t. t @ c # z) (strip_prefix_of ps r)"
  using assms(2)
proof (induction ps)
  case (Cons p ps)
  note prems = Cons.prems
  have "prefix p (r @ c # z) \<longleftrightarrow> prefix p r" if "p \<noteq> []"
  proof
    assume "prefix p (r @ c # z)"
    then have "prefix p r \<or> (\<exists>us. p = r @ us \<and> prefix us (c # z))" by (simp add: prefix_append)
    then show "prefix p r"
    proof (elim disjE exE conjE)
      fix us assume us: "p = r @ us" "prefix us (c # z)"
      show "prefix p r"
      proof (cases us)
        case (Cons x xs)
        then have "c \<in> set p" using us by simp
        then have "p = [c]" using prems by simp
        then show ?thesis using us(1) Cons assms(1) by (cases r) auto
      qed (use us in simp)
    qed
  qed simp
  moreover have "drop (length p) (r @ c # z) = drop (length p) r @ c # z" if "prefix p r" using that by (auto simp: prefix_def)
  ultimately show ?case using Cons by auto
qed simp

lemma newline_encoding: "p \<in> set (map rev space_encodings) \<Longrightarrow> CHR 10 \<in> set p \<Longrightarrow> p = [CHR 10]"
proof -
  have "list_all (\<lambda>p. CHR 10 \<in> set p \<longrightarrow> p = [CHR 10]) (map rev space_encodings)" by code_simp
  then show "p \<in> set (map rev space_encodings) \<Longrightarrow> CHR 10 \<in> set p \<Longrightarrow> p = [CHR 10]" unfolding list_all_iff by blast
qed

lemma trim_by_barrier:
  "trim_left_by (map rev space_encodings) r \<noteq> [] \<Longrightarrow>
    trim_left_by (map rev space_encodings) (r @ CHR 10 # z) = trim_left_by (map rev space_encodings) r @ CHR 10 # z"
proof (induction "map rev space_encodings" r rule: trim_left_by.induct)
  case (1 r)
  have r: "r \<noteq> []" using 1(2) by (auto simp: trim_left_by_id)
  have strip: "strip_prefix_of (map rev space_encodings) (r @ CHR 10 # z) =
      map_option (\<lambda>t. t @ CHR 10 # z) (strip_prefix_of (map rev space_encodings) r)"
    by (rule strip_prefix_of_barrier[OF r newline_encoding])
  show ?case
  proof (cases "strip_prefix_of (map rev space_encodings) r")
    case None
    then show ?thesis using strip by (simp add: trim_left_by_id)
  next
    case (Some t)
    have t: "trim_left_by (map rev space_encodings) r = trim_left_by (map rev space_encodings) t"
      by (subst trim_left_by.simps) (simp add: Some)
    have "trim_left_by (map rev space_encodings) (r @ CHR 10 # z) = trim_left_by (map rev space_encodings) (t @ CHR 10 # z)"
      using strip by (subst trim_left_by.simps) (simp add: Some)
    then show ?thesis using 1(1)[OF Some] 1(2) t by simp
  qed
qed

lemma trim_right_newline: "trim_right d \<noteq> [] \<Longrightarrow> trim_right (payload @ DisclosureSep @ d) = payload @ DisclosureSep @ trim_right d"
  using trim_by_barrier[of "rev d" "rev payload"] by (simp add: trim_right_def DisclosureSep_def)

lemma trim_left_by_done: "strip_prefix_of ps (trim_left_by ps s) = None"
proof (induction ps s rule: trim_left_by.induct)
  case (1 ps s)
  then show ?case by (cases "strip_prefix_of ps s") (simp_all add: trim_left_by.simps[of ps s])
qed

lemma trim_right_idem: "trim_right (trim_right s) = trim_right s"
  unfolding trim_right_def by (simp add: trim_left_by_id[OF trim_left_by_done])



text \<open>With white space in front, the imitated copy is not recognised and a second one is added.\<close>

lemma disclosure_twice:
  "appendDisclosure (appendDisclosure ''hi'' '' AI'') '' AI'' = ''hi'' @ DisclosureSep @ '' AI'' @ DisclosureSep @ '' AI''"
proof -
  have w: "trim_space '' AI'' = ''AI''" by (simp add: trim_space_def trim_left_id trim_right_id space_head_def space_last_def)
  have "trim_right ''hi'' = ''hi''" "trim_right (''hi'' @ DisclosureSep @ '' AI'') = ''hi'' @ DisclosureSep @ '' AI''"
    by (simp_all add: trim_right_id space_last_def)
  then show ?thesis by (simp add: appendDisclosure_def Let_def w suffix_def DisclosureSep_def Cons_eq_append_conv)
qed

end
