(* ===== verification/TokenStore.thy ===== *)
theory TokenStore
  imports Tables GoStrings "HOL-Library.List_Lexorder" "HOL-Library.Char_ord"
begin

text \<open>
  OAuth storage: refresh tokens (\<open>internal/db/refresh_tokens.go\<close>), pending authorizations, codes, client
  registrations and assertion ids (\<open>internal/db/store_oauth.go\<close>), and the columns of \<open>users\<close> these read and write
  (\<open>internal/db/store.go\<close>). A method is one transaction and takes the clock it reads as an argument; a nullable
  column is an option; SHA-256 is an argument. A token is stored by its digest only, under a unique index.
\<close>

section \<open>Rows\<close>

record user_row =
  ur_id :: int
  ur_github_login :: string
  ur_login :: "int option" \<comment> \<open>\<open>telegram_login_id\<close>\<close>
  ur_username :: "string option"
  ur_display_name :: "string option"
  ur_tier :: "string option"
  ur_deleted_at :: "instant option"

record RefreshToken =
  FamilyID :: string
  UserID :: int
  ClientID :: string
  ClientName :: string
  TelegramID :: int
  TelegramUsername :: string
  Scope :: string
  CreatedAt :: instant
  ExpiresAt :: instant
  RevokedAt :: "instant option"
  RevokedReason :: string
  ParentTokenHash :: "string option"
  RedirectURI :: string
  RedirectURIKnown :: bool

record token_row =
  tk_family :: string
  tk_hash :: string
  tk_user_id :: int
  tk_client_id :: string
  tk_client_name :: string
  tk_telegram_id :: int
  tk_username :: "string option"
  tk_scope :: "string option"
  tk_created_at :: instant
  tk_expires_at :: instant
  tk_revoked_at :: "instant option"
  tk_reason :: "string option"
  tk_parent :: "string option"
  tk_redirect :: "string option"

record OAuthPendingAuth =
  op_state :: string
  op_client_id :: string
  op_redirect_uri :: string
  op_client_state :: string
  op_code_challenge :: string
  op_challenge_method :: string
  op_scope :: string
  op_nonce :: string
  op_tg_code_verifier :: string
  op_acquisition :: string
  op_created_at :: instant

record OAuthCode =
  oc_code :: string
  oc_client_id :: string
  oc_redirect_uri :: string
  oc_code_challenge :: string
  oc_challenge_method :: string
  oc_telegram_id :: int
  oc_username :: string
  oc_scope :: string
  oc_created_at :: instant

record OAuthClientReg =
  cr_client_id :: string
  cr_client_name :: string
  cr_redirect_uris :: "string list"
  cr_created_at :: instant

record oauth_db =
  od_users :: "user_row list"
  od_user_seq :: int
  od_tokens :: "token_row list"
  od_pending :: "OAuthPendingAuth list"
  od_codes :: "OAuthCode list"
  od_regs :: "OAuthClientReg list"
  od_jtis :: "(string \<times> instant) list"

datatype oauth_error = ErrRefreshTokenNotFound | ErrAccountDeletedSinceGrant | ErrOAuthNotFound | ErrOAuthExpired
  | ErrOAuthStateConflict | ErrOAuthCodeConflict | OAuthFailed string

definition TierNone :: string where "TierNone = ''none''"
definition TierClient :: string where "TierClient = ''client''"

definition nullable :: "string \<Rightarrow> string option" where
  "nullable s = (if s = [] then None else Some s)"

definition column :: "string option \<Rightarrow> string" where
  "column c = (case c of None \<Rightarrow> [] | Some s \<Rightarrow> s)"

section \<open>Refresh tokens\<close>

definition Revoked :: "RefreshToken \<Rightarrow> bool" where "Revoked rt \<longleftrightarrow> RevokedAt rt \<noteq> None"
definition Expired :: "RefreshToken \<Rightarrow> instant \<Rightarrow> bool" where "Expired rt now \<longleftrightarrow> now > ExpiresAt rt"

abbreviation live :: "token_row \<Rightarrow> bool" where "live r \<equiv> tk_revoked_at r = None"

definition redirectURIValue :: "RefreshToken \<Rightarrow> string option" where
  "redirectURIValue rt = (if \<not> RedirectURIKnown rt then None else Some (RedirectURI rt))"

definition nullableBytes :: "string option \<Rightarrow> string option" where
  "nullableBytes b = (case b of None \<Rightarrow> None | Some h \<Rightarrow> if h = [] then None else Some h)"

definition token_of :: "string \<Rightarrow> RefreshToken \<Rightarrow> instant \<Rightarrow> token_row" where
  "token_of h rt now =
     \<lparr>tk_family = FamilyID rt, tk_hash = h, tk_user_id = UserID rt, tk_client_id = ClientID rt, tk_client_name = ClientName rt,
      tk_telegram_id = TelegramID rt, tk_username = nullable (TelegramUsername rt), tk_scope = nullable (Scope rt),
      tk_created_at = now, tk_expires_at = ExpiresAt rt, tk_revoked_at = None, tk_reason = None,
      tk_parent = nullableBytes (ParentTokenHash rt), tk_redirect = redirectURIValue rt\<rparr>"

definition saveRefreshToken ::
  "(string \<Rightarrow> string) \<Rightarrow> string \<Rightarrow> RefreshToken \<Rightarrow> instant \<Rightarrow> oauth_db \<Rightarrow> (oauth_error, oauth_db) result" where
  "saveRefreshToken sha plaintext rt now db =
     (if plaintext = [] then Inl (OAuthFailed ''refresh token plaintext required'')
      else if FamilyID rt = [] then Inl (OAuthFailed ''refresh token family id required'')
      else if list_ex (\<lambda>r. tk_hash r = sha plaintext) (od_tokens db) then Inl (OAuthFailed ''insert refresh token'')
      else Inr (db\<lparr>od_tokens := od_tokens db @ [token_of (sha plaintext) rt now]\<rparr>))"

definition SaveRefreshToken ::
  "(string \<Rightarrow> string) \<Rightarrow> string \<Rightarrow> RefreshToken \<Rightarrow> instant \<Rightarrow> oauth_db \<Rightarrow> (oauth_error, oauth_db) result" where
  "SaveRefreshToken sha plaintext rt now db = saveRefreshToken sha plaintext rt now db"

definition scan_token :: "token_row \<Rightarrow> RefreshToken" where
  "scan_token r =
     \<lparr>FamilyID = tk_family r, UserID = tk_user_id r, ClientID = tk_client_id r, ClientName = tk_client_name r,
      TelegramID = tk_telegram_id r, TelegramUsername = column (tk_username r), Scope = column (tk_scope r),
      CreatedAt = tk_created_at r, ExpiresAt = tk_expires_at r, RevokedAt = tk_revoked_at r,
      RevokedReason = column (tk_reason r), ParentTokenHash = None, RedirectURI = column (tk_redirect r),
      RedirectURIKnown = (tk_redirect r \<noteq> None)\<rparr>"

definition LookupRefreshToken :: "(string \<Rightarrow> string) \<Rightarrow> string \<Rightarrow> oauth_db \<Rightarrow> (oauth_error, RefreshToken) result" where
  "LookupRefreshToken sha plaintext db =
     (if plaintext = [] then Inl ErrRefreshTokenNotFound
      else case List.find (\<lambda>r. tk_hash r = sha plaintext) (od_tokens db) of
        None \<Rightarrow> Inl ErrRefreshTokenNotFound | Some r \<Rightarrow> Inr (scan_token r))"

definition LookupRefreshTokenByHashPair ::
  "(string \<Rightarrow> string) \<Rightarrow> string \<Rightarrow> string \<Rightarrow> string \<Rightarrow> string \<Rightarrow> oauth_db \<Rightarrow> (oauth_error, RefreshToken) result" where
  "LookupRefreshTokenByHashPair sha oldPlaintext newPlaintext familyID clientID db =
     (case List.find (\<lambda>r. tk_hash r = sha newPlaintext \<and> tk_parent r = Some (sha oldPlaintext) \<and>
          tk_family r = familyID \<and> tk_client_id r = clientID \<and> live r) (od_tokens db) of
        None \<Rightarrow> Inl ErrRefreshTokenNotFound
      | Some r \<Rightarrow> Inr ((scan_token r)\<lparr>FamilyID := familyID, ClientID := clientID, RevokedAt := None, RevokedReason := []\<rparr>))"

definition revoke :: "instant \<Rightarrow> string \<Rightarrow> token_row \<Rightarrow> token_row" where
  "revoke now reason r = r\<lparr>tk_revoked_at := Some now, tk_reason := Some reason\<rparr>"

definition revoke_where :: "(token_row \<Rightarrow> bool) \<Rightarrow> instant \<Rightarrow> string \<Rightarrow> oauth_db \<Rightarrow> int \<times> oauth_db" where
  "revoke_where P now reason db =
     (count_where (\<lambda>r. P r \<and> live r) (od_tokens db),
      db\<lparr>od_tokens := update_where (\<lambda>r. P r \<and> live r) (revoke now reason) (od_tokens db)\<rparr>)"

definition RotateRefreshToken ::
  "(string \<Rightarrow> string) \<Rightarrow> string \<Rightarrow> string \<Rightarrow> RefreshToken \<Rightarrow> instant \<Rightarrow> oauth_db \<Rightarrow> (oauth_error, oauth_db) result" where
  "RotateRefreshToken sha oldPlaintext newPlaintext newRT now db =
     (if UserID newRT \<le> 0 then Inl (OAuthFailed ''rotate refresh token: missing user id'')
      else let oldHash = sha oldPlaintext; (n, db1) = revoke_where (\<lambda>r. tk_hash r = oldHash) now ''rotated'' db in
        if n = 0 then Inl ErrRefreshTokenNotFound
        else saveRefreshToken sha newPlaintext (newRT\<lparr>ParentTokenHash := Some oldHash\<rparr>) now db1)"

definition RevokeRefreshTokenFamily :: "string \<Rightarrow> string \<Rightarrow> instant \<Rightarrow> oauth_db \<Rightarrow> int \<times> oauth_db" where
  "RevokeRefreshTokenFamily familyID reason now db = revoke_where (\<lambda>r. tk_family r = familyID) now reason db"

definition SweepExpiredRefreshTokens :: "instant \<Rightarrow> oauth_db \<Rightarrow> int \<times> oauth_db" where
  "SweepExpiredRefreshTokens now db =
     (count_where (\<lambda>r. tk_expires_at r < now) (od_tokens db),
      db\<lparr>od_tokens := delete_where (\<lambda>r. tk_expires_at r < now) (od_tokens db)\<rparr>)"

definition FamilyEverHeldScope :: "string \<Rightarrow> oauth_db \<Rightarrow> bool" where
  "FamilyEverHeldScope familyID db \<longleftrightarrow>
     list_ex (\<lambda>r. tk_family r = familyID \<and> (case tk_scope r of None \<Rightarrow> False | Some s \<Rightarrow> s \<noteq> [])) (od_tokens db)"

definition ReasonAccountDeleted :: string where "ReasonAccountDeleted = ''account_deleted''"

definition accountDeletedSince :: "int \<Rightarrow> instant \<Rightarrow> oauth_db \<Rightarrow> (oauth_error, bool) result" where
  "accountDeletedSince uid at_time db =
     (case List.find (\<lambda>u. ur_id u = uid) (od_users db) of
        None \<Rightarrow> Inl (OAuthFailed ''read account deletion'')
      | Some u \<Rightarrow> Inr (case ur_deleted_at u of None \<Rightarrow> False | Some t \<Rightarrow> \<not> t < at_time))"

definition SaveRefreshTokenForGrant ::
  "(string \<Rightarrow> string) \<Rightarrow> string \<Rightarrow> RefreshToken \<Rightarrow> instant \<Rightarrow> instant \<Rightarrow> oauth_db \<Rightarrow> (oauth_error, oauth_db) result" where
  "SaveRefreshTokenForGrant sha plaintext rt grantIssuedAt now db =
     (if UserID rt \<le> 0 then Inl (OAuthFailed ''save refresh token: missing user id'')
      else bind_result (accountDeletedSince (UserID rt) grantIssuedAt db) (\<lambda>deleted.
        if deleted then Inl ErrAccountDeletedSinceGrant else saveRefreshToken sha plaintext rt now db))"

definition revokeUserRefreshTokens :: "int \<Rightarrow> string \<Rightarrow> instant \<Rightarrow> oauth_db \<Rightarrow> int \<times> oauth_db" where
  "revokeUserRefreshTokens userID reason now db = revoke_where (\<lambda>r. tk_user_id r = userID) now reason db"

text \<open>The part of \<open>HardDeleteAccount\<close> that touches these tables.\<close>

definition delete_account_tokens :: "int \<Rightarrow> instant \<Rightarrow> oauth_db \<Rightarrow> int \<times> oauth_db" where
  "delete_account_tokens userID now db =
     (let db1 = db\<lparr>od_users := update_where (\<lambda>u. ur_id u = userID)
                    (\<lambda>u. u\<lparr>ur_username := None, ur_display_name := None, ur_deleted_at := Some now\<rparr>) (od_users db)\<rparr>;
          (n, db2) = revokeUserRefreshTokens userID ReasonAccountDeleted now db1 in
      (n, db2\<lparr>od_tokens := update_where (\<lambda>r. tk_user_id r = userID) (\<lambda>r. r\<lparr>tk_username := None\<rparr>) (od_tokens db2)\<rparr>))"

record ClientGrant =
  cg_client_id :: string
  cg_client_name :: string
  cg_families :: nat
  cg_last_issued_at :: "instant option" \<comment> \<open>the zero time before the first row\<close>

definition add_grant :: "ClientGrant \<Rightarrow> token_row \<Rightarrow> ClientGrant" where
  "add_grant g r =
     (let g1 = (if (case cg_last_issued_at g of None \<Rightarrow> True | Some t \<Rightarrow> tk_created_at r > t)
                then g\<lparr>cg_last_issued_at := Some (tk_created_at r),
                       cg_client_name := (if tk_client_name r \<noteq> [] then tk_client_name r else cg_client_name g)\<rparr>
                else g)
      in if cg_client_name g1 = [] then g1\<lparr>cg_client_name := tk_client_name r\<rparr> else g1)"

definition client_grant :: "token_row list \<Rightarrow> string \<Rightarrow> ClientGrant" where
  "client_grant rows cid =
     (let own = filter (\<lambda>r. tk_client_id r = cid) rows in
      (foldl add_grant \<lparr>cg_client_id = cid, cg_client_name = [], cg_families = 0, cg_last_issued_at = None\<rparr> own)
        \<lparr>cg_families := length (remdups (map tk_family own))\<rparr>)"

definition ListActiveClientGrants :: "int \<Rightarrow> instant \<Rightarrow> oauth_db \<Rightarrow> ClientGrant list" where
  "ListActiveClientGrants userID now db =
     (let rows = filter (\<lambda>r. tk_user_id r = userID \<and> live r \<and> tk_expires_at r > now) (od_tokens db) in
      sort_key (\<lambda>g. (case cg_last_issued_at g of None \<Rightarrow> 0 | Some t \<Rightarrow> - t, cg_client_id g))
        (map (client_grant rows) (remdups (map tk_client_id rows))))"

definition RefreshRevokedByOwner :: string where "RefreshRevokedByOwner = ''owner_revoke''"

definition RevokeClientGrants :: "int \<Rightarrow> string \<Rightarrow> instant \<Rightarrow> oauth_db \<Rightarrow> (oauth_error, int \<times> oauth_db) result" where
  "RevokeClientGrants userID clientID now db =
     (if userID \<le> 0 \<or> clientID = [] then Inl (OAuthFailed ''revoke client grants: user id and client id required'')
      else Inr (revoke_where (\<lambda>r. tk_user_id r = userID \<and> tk_client_id r = clientID \<and> tk_expires_at r > now) now RefreshRevokedByOwner db))"

section \<open>Users\<close>

definition EnsureUserByTelegramID :: "int \<Rightarrow> string \<Rightarrow> string \<Rightarrow> oauth_db \<Rightarrow> (oauth_error, int \<times> oauth_db) result" where
  "EnsureUserByTelegramID tgID username displayName db =
     (if tgID \<le> 0 then Inl (OAuthFailed ''telegram id must be positive'')
      else let login = ''tg:'' @ FormatInt tgID; name = (if username = [] then displayName else username);
        db1 = (if list_ex (\<lambda>u. ur_github_login u = login \<or> ur_login u = Some tgID) (od_users db) then db
               else db\<lparr>od_users := od_users db @ [\<lparr>ur_id = od_user_seq db + 1, ur_github_login = login, ur_login = Some tgID,
                         ur_username = nullable name, ur_display_name = nullable displayName, ur_tier = None, ur_deleted_at = None\<rparr>],
                       od_user_seq := od_user_seq db + 1\<rparr>) in
      case (case List.find (\<lambda>u. ur_login u = Some tgID) (od_users db1) of
              Some u \<Rightarrow> Some (ur_id u)
            | None \<Rightarrow> map_option ur_id (List.find (\<lambda>u. ur_github_login u = login) (od_users db1))) of
        None \<Rightarrow> Inl (OAuthFailed ''select user by tg_id (fallback)'')
      | Some i \<Rightarrow> Inr (i, if username \<noteq> [] \<or> displayName \<noteq> []
          then db1\<lparr>od_users := update_where (\<lambda>u. ur_id u = i)
                 (\<lambda>u. u\<lparr>ur_username := (if name = [] then ur_username u else Some name),
                        ur_display_name := (if displayName = [] then ur_display_name u else Some displayName)\<rparr>) (od_users db1)\<rparr>
          else db1))"

definition GetAccessTier :: "int \<Rightarrow> oauth_db \<Rightarrow> string" where
  "GetAccessTier tgID db = (case List.find (\<lambda>u. ur_login u = Some tgID) (od_users db) of
     None \<Rightarrow> [] | Some u \<Rightarrow> column (ur_tier u))"

definition SetAccessTier :: "int \<Rightarrow> string \<Rightarrow> oauth_db \<Rightarrow> (oauth_error, oauth_db) result" where
  "SetAccessTier tgID tier db =
     (if \<not> list_ex (\<lambda>u. ur_login u = Some tgID) (od_users db) then Inl (OAuthFailed ''no user with telegram id'')
      else Inr (db\<lparr>od_users := update_where (\<lambda>u. ur_login u = Some tgID) (\<lambda>u. u\<lparr>ur_tier := Some tier\<rparr>) (od_users db)\<rparr>))"

definition GrantClientTierIfUnset :: "int \<Rightarrow> oauth_db \<Rightarrow> (oauth_error, bool \<times> oauth_db) result" where
  "GrantClientTierIfUnset tgID db =
     (let unset = (\<lambda>u. ur_login u = Some tgID \<and> (ur_tier u = None \<or> ur_tier u = Some [])) in
      if list_ex unset (od_users db)
      then Inr (True, db\<lparr>od_users := update_where unset (\<lambda>u. u\<lparr>ur_tier := Some TierClient\<rparr>) (od_users db)\<rparr>)
      else if list_ex (\<lambda>u. ur_login u = Some tgID) (od_users db) then Inr (False, db)
      else Inl (OAuthFailed ''no user with telegram id''))"

section \<open>Pending authorizations and codes\<close>

definition InsertOAuthPending :: "OAuthPendingAuth \<Rightarrow> oauth_db \<Rightarrow> (oauth_error, oauth_db) result" where
  "InsertOAuthPending p db =
     (if list_ex (\<lambda>q. op_state q = op_state p) (od_pending db) then Inl ErrOAuthStateConflict
      else Inr (db\<lparr>od_pending := od_pending db @ [p]\<rparr>))"

text \<open>Delete the oldest live row when the live rows have reached the maximum.\<close>

definition evict_oldest :: "('r \<Rightarrow> bool) \<Rightarrow> ('r \<Rightarrow> instant) \<Rightarrow> ('r \<Rightarrow> string) \<Rightarrow> int \<Rightarrow> 'r list \<Rightarrow> 'r list" where
  "evict_oldest counted created key max_rows rows =
     (if max_rows \<le> 0 \<or> count_where counted rows < max_rows then rows
      else case first_by created (filter counted rows) of
        None \<Rightarrow> rows | Some r \<Rightarrow> delete_where (\<lambda>x. key x = key r) rows)"

definition EvictOldestOAuthPendingIfOver :: "int \<Rightarrow> duration \<Rightarrow> instant \<Rightarrow> oauth_db \<Rightarrow> oauth_db" where
  "EvictOldestOAuthPendingIfOver max_rows ttl now db =
     db\<lparr>od_pending := evict_oldest (\<lambda>p. op_created_at p \<ge> now - ttl) op_created_at op_state max_rows (od_pending db)\<rparr>"

definition EvictOldestOAuthCodeIfOver :: "int \<Rightarrow> duration \<Rightarrow> instant \<Rightarrow> oauth_db \<Rightarrow> oauth_db" where
  "EvictOldestOAuthCodeIfOver max_rows ttl now db =
     db\<lparr>od_codes := evict_oldest (\<lambda>c. oc_created_at c \<ge> now - ttl) oc_created_at oc_code max_rows (od_codes db)\<rparr>"

definition PinnedClientIDPrefix :: string where "PinnedClientIDPrefix = ''tgdcr_''"
definition PinnedClientName :: string where "PinnedClientName = ''Cloudflare MCP portal''"

definition pinned :: "OAuthClientReg \<Rightarrow> bool" where "pinned c \<longleftrightarrow> prefix PinnedClientIDPrefix (cr_client_id c)"

definition EvictOldestClientRegIfOver :: "int \<Rightarrow> oauth_db \<Rightarrow> oauth_db" where
  "EvictOldestClientRegIfOver max_rows db =
     db\<lparr>od_regs := evict_oldest (\<lambda>c. \<not> pinned c) cr_created_at cr_client_id max_rows (od_regs db)\<rparr>"

definition ConsumeOAuthPending ::
  "string \<Rightarrow> duration \<Rightarrow> instant \<Rightarrow> oauth_db \<Rightarrow> (oauth_error, OAuthPendingAuth) result \<times> oauth_db" where
  "ConsumeOAuthPending state ttl now db =
     (case List.find (\<lambda>p. op_state p = state) (od_pending db) of
        None \<Rightarrow> (Inl ErrOAuthNotFound, db)
      | Some p \<Rightarrow> (if op_created_at p < now - ttl then Inl ErrOAuthExpired else Inr p,
                   db\<lparr>od_pending := delete_where (\<lambda>p. op_state p = state) (od_pending db)\<rparr>))"

text \<open>The zero \<open>signInStartedAt\<close> is \<open>None\<close>.\<close>

definition InsertOAuthCode :: "OAuthCode \<Rightarrow> int \<Rightarrow> instant option \<Rightarrow> oauth_db \<Rightarrow> (oauth_error, oauth_db) result" where
  "InsertOAuthCode c userID signInStartedAt db =
     (if userID \<le> 0 then Inl (OAuthFailed ''insert oauth_auth_codes: missing user id'')
      else case signInStartedAt of None \<Rightarrow> Inl (OAuthFailed ''insert oauth_auth_codes: missing sign-in start'')
      | Some started \<Rightarrow> bind_result (accountDeletedSince userID started db) (\<lambda>deleted.
          if deleted then Inl ErrAccountDeletedSinceGrant
          else if list_ex (\<lambda>x. oc_code x = oc_code c) (od_codes db) then Inl ErrOAuthCodeConflict
          else Inr (db\<lparr>od_codes := od_codes db @ [c]\<rparr>)))"

definition AccountDeletedSince :: "int \<Rightarrow> instant option \<Rightarrow> oauth_db \<Rightarrow> (oauth_error, bool) result" where
  "AccountDeletedSince userID since db =
     (if userID \<le> 0 then Inl (OAuthFailed ''account deleted since: missing user id'')
      else case since of None \<Rightarrow> Inl (OAuthFailed ''account deleted since: missing time'')
      | Some t \<Rightarrow> accountDeletedSince userID t db)"

definition ConsumeOAuthCode :: "string \<Rightarrow> duration \<Rightarrow> instant \<Rightarrow> oauth_db \<Rightarrow> (oauth_error, OAuthCode \<times> oauth_db) result" where
  "ConsumeOAuthCode code ttl now db =
     (case List.find (\<lambda>c. oc_code c = code \<and> oc_created_at c \<ge> now - ttl) (od_codes db) of
        None \<Rightarrow> Inl ErrOAuthNotFound
      | Some c \<Rightarrow> Inr (c, db\<lparr>od_codes := delete_where (\<lambda>c. oc_code c = code \<and> oc_created_at c \<ge> now - ttl) (od_codes db)\<rparr>))"

definition DeleteExpiredOAuthRows :: "duration \<Rightarrow> instant \<Rightarrow> oauth_db \<Rightarrow> (int \<times> int) \<times> oauth_db" where
  "DeleteExpiredOAuthRows ttl now db =
     (let cutoff = now - ttl in
      ((count_where (\<lambda>p. op_created_at p < cutoff) (od_pending db), count_where (\<lambda>c. oc_created_at c < cutoff) (od_codes db)),
       db\<lparr>od_pending := delete_where (\<lambda>p. op_created_at p < cutoff) (od_pending db),
          od_codes := delete_where (\<lambda>c. oc_created_at c < cutoff) (od_codes db)\<rparr>))"

definition CountOAuthPending :: "duration \<Rightarrow> instant \<Rightarrow> oauth_db \<Rightarrow> int" where
  "CountOAuthPending ttl now db = count_where (\<lambda>p. op_created_at p \<ge> now - ttl) (od_pending db)"

section \<open>Client registrations and assertion ids\<close>

definition InsertClientReg :: "OAuthClientReg \<Rightarrow> oauth_db \<Rightarrow> oauth_db" where
  "InsertClientReg reg db =
     (if list_ex (\<lambda>c. cr_client_id c = cr_client_id reg) (od_regs db)
      then db\<lparr>od_regs := update_where (\<lambda>c. cr_client_id c = cr_client_id reg)
              (\<lambda>c. c\<lparr>cr_client_name := cr_client_name reg, cr_redirect_uris := cr_redirect_uris reg\<rparr>) (od_regs db)\<rparr>
      else db\<lparr>od_regs := od_regs db @ [reg]\<rparr>)"

definition GetClientReg :: "string \<Rightarrow> oauth_db \<Rightarrow> (oauth_error, OAuthClientReg) result" where
  "GetClientReg clientID db = (case List.find (\<lambda>c. cr_client_id c = clientID) (od_regs db) of
     None \<Rightarrow> Inl ErrOAuthNotFound | Some c \<Rightarrow> Inr c)"

definition InsertPinnedClientReg :: "OAuthClientReg \<Rightarrow> oauth_db \<Rightarrow> (oauth_error, OAuthClientReg \<times> oauth_db) result" where
  "InsertPinnedClientReg reg db =
     (if \<not> pinned reg then Inl (OAuthFailed ''insert pinned client_reg: client_id lacks the pinned prefix'')
      else let db1 = (if list_ex (\<lambda>c. cr_client_id c = cr_client_id reg) (od_regs db) then db
                      else db\<lparr>od_regs := od_regs db @ [reg]\<rparr>) in
        map_sum id (\<lambda>c. (c, db1)) (GetClientReg (cr_client_id reg) db1))"

definition DeleteClientReg :: "string \<Rightarrow> oauth_db \<Rightarrow> oauth_db" where
  "DeleteClientReg clientID db = db\<lparr>od_regs := delete_where (\<lambda>c. cr_client_id c = clientID) (od_regs db)\<rparr>"

definition DeleteExpiredClientRegs :: "duration \<Rightarrow> instant \<Rightarrow> oauth_db \<Rightarrow> int \<times> oauth_db" where
  "DeleteExpiredClientRegs ttl now db =
     (let gone = (\<lambda>c. cr_created_at c < now - ttl \<and> \<not> pinned c) in
      (count_where gone (od_regs db), db\<lparr>od_regs := delete_where gone (od_regs db)\<rparr>))"

definition RecordClientAssertionJTI ::
  "(string \<Rightarrow> string) \<Rightarrow> string \<Rightarrow> string \<Rightarrow> duration \<Rightarrow> instant \<Rightarrow> oauth_db \<Rightarrow> bool \<times> oauth_db" where
  "RecordClientAssertionJTI sha clientID jti ttl now db =
     (let h = sha (clientID @ [CHR 0x00] @ jti); expires = now + (ttl sdiv 1000000) * 1000000 in
      case List.find (\<lambda>(k, _). k = h) (od_jtis db) of
        None \<Rightarrow> (True, db\<lparr>od_jtis := od_jtis db @ [(h, expires)]\<rparr>)
      | Some (_, t) \<Rightarrow> if t < now
          then (True, db\<lparr>od_jtis := update_where (\<lambda>(k, _). k = h) (\<lambda>(k, _). (k, expires)) (od_jtis db)\<rparr>)
          else (False, db))"

definition DeleteExpiredClientAssertionJTIs :: "instant \<Rightarrow> oauth_db \<Rightarrow> int \<times> oauth_db" where
  "DeleteExpiredClientAssertionJTIs now db =
     (count_where (\<lambda>(_, t). t < now) (od_jtis db), db\<lparr>od_jtis := delete_where (\<lambda>(_, t). t < now) (od_jtis db)\<rparr>)"

end
