(* ===== verification/Requests.thy ===== *)
theory Requests
  imports Prelude
begin

text \<open>
  Request handlers that run side by side over one shared state. A handler is the tree of its atomic steps: a step
  reads what the environment answers and the state as it is at that moment, changes the state, and goes on. Between
  two steps of one handler the others may take any number of steps of theirs. \<open>sat\<close> is the rely-guarantee contract a
  handler meets step by step, \<open>within\<close> bounds the steps it takes to answer.
\<close>

section \<open>Handlers\<close>

datatype ('e, 'd, 'a) handler = Answer 'a | Step "'e \<Rightarrow> 'd \<Rightarrow> 'd" "'e \<Rightarrow> 'd \<Rightarrow> ('e, 'd, 'a) handler"

primrec bind_h :: "('e, 'd, 'a) handler \<Rightarrow> ('a \<Rightarrow> ('e, 'd, 'b) handler) \<Rightarrow> ('e, 'd, 'b) handler" where
  "bind_h (Answer x) f = f x"
| "bind_h (Step eff nxt) f = Step eff (\<lambda>e d. bind_h (nxt e d) f)"

text \<open>One atomic access to the state: its result, and the state it leaves.\<close>

definition atomic :: "('e \<Rightarrow> 'd \<Rightarrow> 'a \<times> 'd) \<Rightarrow> ('e, 'd, 'a) handler" where
  "atomic f = Step (\<lambda>e d. snd (f e d)) (\<lambda>e d. Answer (fst (f e d)))"

definition ask :: "('e \<Rightarrow> 'a) \<Rightarrow> ('e, 'd, 'a) handler" where
  "ask f = atomic (\<lambda>e d. (f e, d))"

text \<open>Early returns: the response is on the left.\<close>

definition bind_r ::
  "('e, 'd, 'r + 'a) handler \<Rightarrow> ('a \<Rightarrow> ('e, 'd, 'r + 'b) handler) \<Rightarrow> ('e, 'd, 'r + 'b) handler" where
  "bind_r m f = bind_h m (\<lambda>r. case r of Inl x \<Rightarrow> Answer (Inl x) | Inr x \<Rightarrow> f x)"

section \<open>Contracts\<close>

text \<open>
  \<open>E\<close> restricts what the environment answers, \<open>I\<close> is the invariant of the state, \<open>R\<close> what any step of any handler keeps.
\<close>

primrec sat ::
  "('e \<Rightarrow> bool) \<Rightarrow> ('d \<Rightarrow> bool) \<Rightarrow> ('d \<Rightarrow> 'd \<Rightarrow> bool) \<Rightarrow> ('e, 'd, 'a) handler \<Rightarrow> ('a \<Rightarrow> 'd \<Rightarrow> bool) \<Rightarrow> 'd \<Rightarrow> bool" where
  "sat E I R (Answer x) = (\<lambda>Q d0. Q x d0)"
| "sat E I R (Step eff nxt) = (\<lambda>Q d0. \<forall>e d. E e \<longrightarrow> I d \<longrightarrow> R d0 d \<longrightarrow>
     I (eff e d) \<and> R d (eff e d) \<and> sat E I R (nxt e d) Q (eff e d))"

definition stable :: "('d \<Rightarrow> bool) \<Rightarrow> ('d \<Rightarrow> 'd \<Rightarrow> bool) \<Rightarrow> ('d \<Rightarrow> bool) \<Rightarrow> bool" where
  "stable I R K \<longleftrightarrow> (\<forall>d d'. I d \<longrightarrow> I d' \<longrightarrow> R d d' \<longrightarrow> K d \<longrightarrow> K d')"

definition holds ::
  "('e \<Rightarrow> bool) \<Rightarrow> ('d \<Rightarrow> bool) \<Rightarrow> ('d \<Rightarrow> 'd \<Rightarrow> bool) \<Rightarrow> ('d \<Rightarrow> bool) \<Rightarrow> ('e, 'd, 'a) handler \<Rightarrow> ('a \<Rightarrow> 'd \<Rightarrow> bool) \<Rightarrow> bool" where
  "holds E I R K h Q \<longleftrightarrow> (\<forall>d. I d \<longrightarrow> K d \<longrightarrow> sat E I R h (\<lambda>x d. I d \<and> Q x d) d)"

primrec within :: "('e, 'd, 'a) handler \<Rightarrow> nat \<Rightarrow> bool" where
  "within (Answer x) = (\<lambda>n. True)"
| "within (Step eff nxt) = (\<lambda>n. n > 0 \<and> (\<forall>e d. within (nxt e d) (n - 1)))"

lemma within_mono: "within p m \<Longrightarrow> m \<le> n \<Longrightarrow> within p n"
proof (induction p arbitrary: m n)
  case (Step eff nxt)
  have "within (nxt e d) (n - 1)" for e d
    by (rule Step.IH[OF rangeI rangeI]) (use Step.prems in \<open>auto intro: diff_le_mono\<close>)
  then show ?case using Step.prems by auto
qed simp

lemma within_bind: "within p m \<Longrightarrow> (\<And>x. within (f x) n) \<Longrightarrow> within (bind_h p f) (m + n)"
proof (induction p arbitrary: m)
  case (Step eff nxt)
  have "within (bind_h (nxt e d) f) (m - 1 + n)" for e d
    by (rule Step.IH[OF rangeI rangeI]) (use Step.prems in auto)
  then show ?case using Step.prems(1) by simp
qed (simp add: within_mono[of _ n])

lemma within_atomic: "within (atomic f) 1"
  by (simp add: atomic_def)

lemma within_bind_r: "within p m \<Longrightarrow> (\<And>x. within (f x) n) \<Longrightarrow> within (bind_r p f) (m + n)"
  unfolding bind_r_def by (rule within_bind) (auto split: sum.split)

lemma sat_mono:
  "sat E I R p Q d0 \<Longrightarrow> (\<And>x d. Q x d \<Longrightarrow> Q' x d) \<Longrightarrow> sat E I R p Q' d0"
proof (induction p arbitrary: d0)
  case (Step eff nxt)
  show ?case unfolding sat.simps
  proof (intro allI impI)
    fix e d assume d: "E e" "I d" "R d0 d"
    then have 1: "I (eff e d) \<and> R d (eff e d) \<and> sat E I R (nxt e d) Q (eff e d)" using Step.prems(1) by simp
    then show "I (eff e d) \<and> R d (eff e d) \<and> sat E I R (nxt e d) Q' (eff e d)"
      using Step.IH[OF rangeI rangeI, of e d] Step.prems(2) by blast
  qed
qed simp

lemma sat_bind: "sat E I R p (\<lambda>x d. sat E I R (f x) Q d) d0 \<Longrightarrow> sat E I R (bind_h p f) Q d0"
proof (induction p arbitrary: d0)
  case (Step eff nxt)
  then show ?case using Step.IH[OF rangeI rangeI] by simp
qed simp

text \<open>The interface the contracts rest on: what interference keeps, keeps composing.\<close>

locale interference =
  fixes inv :: "'d \<Rightarrow> bool" and rel :: "'d \<Rightarrow> 'd \<Rightarrow> bool"
  assumes rel_trans: "rel a b \<Longrightarrow> rel b c \<Longrightarrow> rel a c"
    and rel_refl: "rel a a"
begin

text \<open>Interference before a handler's next step does not break its contract.\<close>

lemma sat_rely:
  assumes "sat E inv rel p Q d0" "rel d0 d" and Q: "\<And>x. Q x d0 \<Longrightarrow> Q x d"
  shows "sat E inv rel p Q d"
proof (cases p)
  case (Answer x)
  then show ?thesis using assms by simp
next
  case (Step eff nxt)
  then show ?thesis using assms(1) rel_trans[OF assms(2)] by simp
qed

lemma holds_bind:
  assumes "holds E inv rel K h Q" "\<And>x. holds E inv rel (Q x) (f x) R"
  shows "holds E inv rel K (bind_h h f) R"
  unfolding holds_def
proof (intro allI impI)
  fix d assume "inv d" "K d"
  then have "sat E inv rel h (\<lambda>x d. inv d \<and> Q x d) d" using assms(1) unfolding holds_def by blast
  then have "sat E inv rel h (\<lambda>x d. sat E inv rel (f x) (\<lambda>x d. inv d \<and> R x d) d) d"
    by (rule sat_mono) (use assms(2) in \<open>auto simp: holds_def\<close>)
  then show "sat E inv rel (bind_h h f) (\<lambda>x d. inv d \<and> R x d) d" by (rule sat_bind)
qed

lemma holds_Answer: "(\<And>d. K d \<Longrightarrow> Q x d) \<Longrightarrow> holds E inv rel K (Answer x) Q"
  by (simp add: holds_def)

lemma holds_weaken:
  "holds E inv rel K h Q \<Longrightarrow> (\<And>d. K' d \<Longrightarrow> K d) \<Longrightarrow> (\<And>x d. Q x d \<Longrightarrow> Q' x d) \<Longrightarrow> holds E inv rel K' h Q'"
  unfolding holds_def by (blast intro: sat_mono)

lemma holds_pure: "(\<phi> \<Longrightarrow> holds E inv rel K h Q) \<Longrightarrow> holds E inv rel (\<lambda>d. \<phi> \<and> K d) h Q"
  unfolding holds_def by blast

lemma holds_atomic:
  assumes "stable inv rel K"
    and "\<And>e d. E e \<Longrightarrow> inv d \<Longrightarrow> K d \<Longrightarrow> inv (snd (f e d)) \<and> rel d (snd (f e d)) \<and> Q (fst (f e d)) (snd (f e d))"
  shows "holds E inv rel K (atomic f) Q"
  using assms unfolding holds_def atomic_def sat.simps stable_def by (metis (full_types))

lemma holds_ask: "stable inv rel K \<Longrightarrow> holds E inv rel K (ask f) (\<lambda>x d. (\<exists>e. E e \<and> x = f e) \<and> K d)"
  unfolding ask_def by (rule holds_atomic) (auto simp: rel_refl)

lemma holds_bind_r:
  assumes "holds E inv rel K h (\<lambda>x d. case x of Inl r \<Rightarrow> R (Inl r) d | Inr y \<Rightarrow> Q y d)" "\<And>y. holds E inv rel (Q y) (f y) R"
  shows "holds E inv rel K (bind_r h f) R"
  unfolding bind_r_def by (rule holds_bind[OF assms(1)]) (auto split: sum.split intro: assms(2) holds_Answer)

lemma stable_conj: "stable inv rel K \<Longrightarrow> stable inv rel L \<Longrightarrow> stable inv rel (\<lambda>d. K d \<and> L d)"
  unfolding stable_def by blast

lemma stable_pure: "stable inv rel (\<lambda>d. \<phi>)"
  by (simp add: stable_def)

end

end
