(* ===== verification/TokenEndpoint.thy ===== *)
theory TokenEndpoint
  imports TokenStore Requests
begin

text \<open>
  The token endpoint of the OAuth server (\<open>internal/oauth/server.go\<close>, \<open>scopes.go\<close>, \<open>refresh_derivation.go\<close>): code exchange,
  refresh with rotation and reuse detection, revocation. Every handler is the tree of its store calls, clock readings
  and other outside answers, so requests interleave at each of them. The environment of a step gives the clocks, a
  store call that fails (before or after taking effect), the answer about a client metadata document, and a failure of
  the token signer. Digests, the keyed MAC and the random source are the parameter \<open>crypto\<close>, each with the text encoding
  the code puts on it. A minted access token is its claims; log lines, metrics and the formatted parts of error
  descriptions are left out.
\<close>

section \<open>Configuration and environment\<close>

record crypto =
  cx_sha :: "string \<Rightarrow> string"
  cx_challenge :: "string \<Rightarrow> string" \<comment> \<open>base64url of SHA-256\<close>
  cx_mac :: "string \<Rightarrow> string \<Rightarrow> string" \<comment> \<open>base64url of HMAC-SHA-256 under a key\<close>
  cx_random :: "nat \<Rightarrow> nat \<Rightarrow> string" \<comment> \<open>base64url of so many random bytes, by draw\<close>

record oauth_config =
  cf_crypto :: crypto
  cf_secret :: string
  cf_admins :: "int list"
  cf_broadcast_operators :: "int list"
  cf_lookup_admins :: "int list"
  cf_clients :: "int list"
  cf_auto_approve :: bool
  cf_code_ttl :: duration
  cf_access_ttl :: duration
  cf_refresh_ttl :: duration
  cf_audience :: string
  cf_by_client :: "(string \<times> string) list" \<comment> \<open>\<open>ClientProfiles\<close>\<close>
  cf_by_redirect :: "(string \<times> string) list"
  cf_use_db :: bool
  cf_cimd :: bool

datatype cimd_error = errCIMDUnavailable | errJTIStore | errCIMDAuthFailed | errCIMDRefused

record step_env =
  en_clock :: instant
  en_now :: instant
  en_failure :: "(string \<times> bool) option"
  en_cimd :: "(cimd_error + string) option" \<comment> \<open>no metadata document, a failure, or its client name\<close>
  en_redirect_allowed :: bool
  en_mint_error :: "string option"

record oauth_server =
  sv_db :: oauth_db
  sv_codes :: "OAuthCode list"
  sv_clients :: "OAuthClientReg list"
  sv_draws :: nat

type_synonym 'a oauth_handler = "(step_env, oauth_server, 'a) handler"

definition store_outcome ::
  "step_env \<Rightarrow> (oauth_db \<Rightarrow> (oauth_error, 'a \<times> oauth_db) result) \<Rightarrow> oauth_server \<Rightarrow> (oauth_error, 'a) result \<times> oauth_server" where
  "store_outcome e f s =
     (let after = (case f (sv_db s) of Inl _ \<Rightarrow> s | Inr (_, db) \<Rightarrow> s\<lparr>sv_db := db\<rparr>) in
      case en_failure e of
        None \<Rightarrow> (map_sum id fst (f (sv_db s)), after)
      | Some (m, applied) \<Rightarrow> (Inl (OAuthFailed m), if applied then after else s))"

definition store_call ::
  "(step_env \<Rightarrow> oauth_db \<Rightarrow> (oauth_error, 'a \<times> oauth_db) result) \<Rightarrow> (oauth_error, 'a) result oauth_handler" where
  "store_call f = atomic (\<lambda>e. store_outcome e (f e))"

definition store_read :: "(oauth_db \<Rightarrow> (oauth_error, 'a) result) \<Rightarrow> (oauth_error, 'a) result oauth_handler" where
  "store_read f = store_call (\<lambda>e db. map_sum id (\<lambda>x. (x, db)) (f db))"

text \<open>A result, or the early return the code takes on its error.\<close>

definition or_answer :: "'r \<Rightarrow> ('e + 'a) oauth_handler \<Rightarrow> ('r + 'a) oauth_handler" where
  "or_answer r m = bind_h m (\<lambda>x. Answer (map_sum (\<lambda>_. r) id x))"

definition guard :: "bool \<Rightarrow> 'r \<Rightarrow> ('r + unit) oauth_handler" where
  "guard ok r = Answer (if ok then Inr () else Inl r)"

definition answer_of :: "('r + 'r) oauth_handler \<Rightarrow> 'r oauth_handler" where
  "answer_of m = bind_h m (\<lambda>x. Answer (case x of Inl r \<Rightarrow> r | Inr r \<Rightarrow> r))"

section \<open>Scopes\<close>

text \<open>\<open>strings.Fields\<close> on bytes: an invalid byte is one byte wide, so no white space starts inside a rune.\<close>

function fields_acc :: "string \<Rightarrow> string \<Rightarrow> string list" where
  "fields_acc acc [] = (if acc = [] then [] else [acc])"
| "fields_acc acc (c # s) =
     (case strip_prefix_of space_encodings (c # s) of
        None \<Rightarrow> fields_acc (acc @ [c]) s
      | Some rest \<Rightarrow> (if acc = [] then [] else [acc]) @ fields_acc [] rest)"
  by pat_completeness auto
termination
  by (relation "measure (\<lambda>(acc, s). length s)") (auto dest: strip_prefix_of_shorter)

definition Fields :: "string \<Rightarrow> string list" where "Fields s = fields_acc [] s"

definition DCRNegotiableScopes :: "string list" where
  "DCRNegotiableScopes =
     [''telegram:dialogs:read'', ''telegram:messages:read'', ''telegram:messages:send'', ''telegram:messages:pin'', ''account:manage'']"

definition narrowGrant :: "string list \<Rightarrow> string \<Rightarrow> string list" where
  "narrowGrant entitled requested =
     (let asked = Fields requested in
      if asked = [] then entitled
      else filter (\<lambda>s. s \<notin> set DCRNegotiableScopes \<or> s \<in> set asked) entitled)"

definition client_scopes :: "string list" where
  "client_scopes =
     [''telegram:dialogs:read'', ''telegram:messages:read'', ''telegram:messages:send'', ''telegram:messages:pin'', ''account:manage'']"

definition admin_scopes :: "string list" where
  "admin_scopes =
     [''telegram:dialogs:read'', ''telegram:messages:read'', ''telegram:messages:send'', ''telegram:messages:pin'', ''admin:users'', ''account:manage'']"

definition isClientTier :: "oauth_config \<Rightarrow> int \<Rightarrow> (oauth_error, bool) result oauth_handler" where
  "isClientTier F tgID =
     bind_r (store_read (\<lambda>db. Inr (GetAccessTier tgID db))) (\<lambda>tier. Answer (Inr (
       if tier = TierClient then True
       else if tier = TierNone then False
       else if cf_auto_approve F then True
       else tgID \<in> set (cf_clients F))))"

definition ResolveScopes :: "oauth_config \<Rightarrow> int \<Rightarrow> (oauth_error, string list \<times> string list) result oauth_handler" where
  "ResolveScopes F tgID =
     (if tgID \<in> set (cf_admins F)
      then Answer (Inr ([''platform-admins'', ''admins''],
             admin_scopes @ (if tgID \<in> set (cf_broadcast_operators F) then [''admin:broadcast''] else [])))
      else if tgID \<in> set (cf_lookup_admins F) then Answer (Inr ([''admin-lookup''], [''admin:users:read'']))
      else bind_r (isClientTier F tgID) (\<lambda>isClient. Answer (Inr (
        if isClient then ([''clients''], client_scopes) else ([], [])))))"

definition boundRefreshGrant :: "string list \<Rightarrow> string list \<Rightarrow> string \<Rightarrow> string list \<times> string list" where
  "boundRefreshGrant currentGroups currentScopes originalScope =
     (let bounded = filter (\<lambda>s. s \<in> set (Fields originalScope)) currentScopes in
      if bounded = [] then ([], []) else (currentGroups, bounded))"

definition refreshGrantStillValid :: "string list \<Rightarrow> string \<Rightarrow> int \<Rightarrow> (oauth_error, bool) result oauth_handler" where
  "refreshGrantStillValid bounded familyID tgID =
     (if bounded \<noteq> [] then Answer (Inr True)
      else bind_r (store_read (\<lambda>db. Inr (FamilyEverHeldScope familyID db))) (\<lambda>everHeld.
        if everHeld then Answer (Inr False)
        else bind_r (store_read (\<lambda>db. Inr (GetAccessTier tgID db))) (\<lambda>tier. Answer (Inr (tier \<noteq> TierNone)))))"

section \<open>Access tokens\<close>

record claims =
  cl_subject :: string
  cl_telegram_id :: int
  cl_username :: string
  cl_groups :: "string list"
  cl_scopes :: "string list"
  cl_audience :: "string list"
  cl_client_id :: string
  cl_profile :: string
  cl_lifetime :: duration

record tokenOrigin =
  to_client_id :: string
  to_redirect_uri :: string
  to_redirect_known :: bool

datatype mint_error = errProfileUnresolvable | MintFailed string

definition Resolve :: "oauth_config \<Rightarrow> string \<Rightarrow> string \<Rightarrow> string" where
  "Resolve F clientID redirectURI =
     (case map_of (cf_by_client F) clientID of Some p \<Rightarrow> p
      | None \<Rightarrow> if redirectURI = [] then [] else column (map_of (cf_by_redirect F) redirectURI))"

definition profileFor :: "oauth_config \<Rightarrow> tokenOrigin \<Rightarrow> (mint_error, string) result" where
  "profileFor F origin =
     (if to_redirect_known origin then Inr (Resolve F (to_client_id origin) (to_redirect_uri origin))
      else case map_of (cf_by_client F) (to_client_id origin) of Some p \<Rightarrow> Inr p
        | None \<Rightarrow> if cf_by_redirect F \<noteq> [] then Inl errProfileUnresolvable else Inr [])"

definition mintAccessToken ::
  "oauth_config \<Rightarrow> tokenOrigin \<Rightarrow> int \<Rightarrow> string \<Rightarrow> string list \<Rightarrow> string list \<Rightarrow> (mint_error, claims) result oauth_handler" where
  "mintAccessToken F origin tgID tgUsername groups scopes =
     ask (\<lambda>e. bind_result (profileFor F origin) (\<lambda>profile.
       case en_mint_error e of Some m \<Rightarrow> Inl (MintFailed m)
       | None \<Rightarrow> Inr \<lparr>cl_subject = ''tg:'' @ FormatInt tgID, cl_telegram_id = tgID, cl_username = tgUsername,
           cl_groups = groups, cl_scopes = scopes, cl_audience = (if cf_audience F \<noteq> [] then [cf_audience F] else []),
           cl_client_id = to_client_id origin, cl_profile = profile, cl_lifetime = cf_access_ttl F\<rparr>))"

definition refreshTokenSuccessorDomain :: string where "refreshTokenSuccessorDomain = ''mctl-telegram-refresh-token-v1''"

definition deriveSuccessorRefreshToken :: "oauth_config \<Rightarrow> string \<Rightarrow> string" where
  "deriveSuccessorRefreshToken F predecessor =
     cx_mac (cf_crypto F) (cf_secret F) (refreshTokenSuccessorDomain @ [CHR 0x00] @ predecessor)"

definition pkceVerify :: "oauth_config \<Rightarrow> string \<Rightarrow> string \<Rightarrow> bool" where
  "pkceVerify F verifier challenge \<longleftrightarrow>
     verifier \<noteq> [] \<and> challenge \<noteq> [] \<and> cx_challenge (cf_crypto F) verifier = challenge"

definition unreserved :: "char \<Rightarrow> bool" where
  "unreserved c \<longleftrightarrow> (let b = (of_char c :: nat) in
     65 \<le> b \<and> b \<le> 90 \<or> 97 \<le> b \<and> b \<le> 122 \<or> 48 \<le> b \<and> b \<le> 57 \<or> c \<in> set ''-._~'')"

definition validPKCEString :: "string \<Rightarrow> bool" where
  "validPKCEString s \<longleftrightarrow> 43 \<le> length s \<and> length s \<le> 128 \<and> list_all unreserved s"

section \<open>Responses\<close>

datatype token_response =
    TokenError string string nat \<comment> \<open>code, description, status\<close>
  | TokenJSON claims string duration "string list" \<comment> \<open>access token, refresh token, lifetime, scopes\<close>
  | RevokeSuccess

definition writeCIMDTokenError :: "cimd_error \<Rightarrow> token_response" where
  "writeCIMDTokenError err =
     (if err = errCIMDUnavailable \<or> err = errJTIStore then TokenError ''server_error'' [] 503
      else TokenError ''invalid_client'' [] 400)"

definition ConnectClientID :: string where "ConnectClientID = ''mctl_self_connect''"

abbreviation invalid_grant :: "string \<Rightarrow> token_response" where "invalid_grant d \<equiv> TokenError ''invalid_grant'' d 400"
abbreviation server_error :: "string \<Rightarrow> token_response" where "server_error d \<equiv> TokenError ''server_error'' d 500"

definition profileUnresolvableDescription :: string where
  "profileUnresolvableDescription = ''this grant predates redirect_uri tool-profile binding; authorize again''"

definition writeTokenJSON :: "oauth_config \<Rightarrow> claims \<Rightarrow> string \<Rightarrow> string list \<Rightarrow> token_response" where
  "writeTokenJSON F tok refresh scopes = TokenJSON tok refresh (cf_access_ttl F sdiv second) scopes"

section \<open>Code exchange\<close>

definition clientDisplayName :: "string \<Rightarrow> string oauth_handler" where
  "clientDisplayName clientID =
     bind_h (ask en_cimd) (\<lambda>doc. case doc of
         Some (Inl _) \<Rightarrow> Answer []
       | Some (Inr name) \<Rightarrow> Answer name
       | None \<Rightarrow> bind_h (store_read (GetClientReg clientID)) (\<lambda>r. case r of
             Inr reg \<Rightarrow> Answer (cr_client_name reg)
           | Inl _ \<Rightarrow> atomic (\<lambda>e s. (case List.find (\<lambda>c. cr_client_id c = clientID) (sv_clients s) of
                 Some reg \<Rightarrow> cr_client_name reg | None \<Rightarrow> [], s))))"

text \<open>The code's entry: from the database, or from the in-memory map and then checked for age.\<close>

definition redeem_code :: "oauth_config \<Rightarrow> string \<Rightarrow> string \<Rightarrow> (token_response + OAuthCode) oauth_handler" where
  "redeem_code F too_old code =
     (if cf_use_db F
      then bind_h (store_call (\<lambda>e. ConsumeOAuthCode code (cf_code_ttl F) (en_now e))) (\<lambda>r. Answer (case r of
          Inl ErrOAuthNotFound \<Rightarrow> Inl (invalid_grant ''code not found, expired, or already used'')
        | Inl ErrOAuthExpired \<Rightarrow> Inl (invalid_grant ''code not found, expired, or already used'')
        | Inl _ \<Rightarrow> Inl (server_error ''could not redeem code'')
        | Inr c \<Rightarrow> Inr c))
      else bind_h (atomic (\<lambda>e s. (List.find (\<lambda>c. oc_code c = code) (sv_codes s),
             s\<lparr>sv_codes := delete_where (\<lambda>c. oc_code c = code) (sv_codes s)\<rparr>))) (\<lambda>entry.
        case entry of None \<Rightarrow> Answer (Inl (invalid_grant ''code not found, expired, or already used''))
        | Some c \<Rightarrow> bind_h (ask en_clock) (\<lambda>now.
            Answer (if time_sub now (oc_created_at c) > cf_code_ttl F then Inl (invalid_grant too_old) else Inr c))))"

text \<open>\<open>issueRefreshToken\<close> with the random family id its caller draws: the draws, the clock and the transaction are one step.\<close>

definition issueRefreshToken :: "oauth_config \<Rightarrow> instant \<Rightarrow> RefreshToken \<Rightarrow> (oauth_error, string) result oauth_handler" where
  "issueRefreshToken F grantIssuedAt rt =
     atomic (\<lambda>e s.
       let n = sv_draws s; family = cx_random (cf_crypto F) 16 n; plaintext = cx_random (cf_crypto F) 32 (n + 1);
           rt1 = rt\<lparr>FamilyID := family, ExpiresAt := en_clock e + cf_refresh_ttl F\<rparr> in
       store_outcome e (\<lambda>db. map_sum id (\<lambda>db1. (plaintext, db1))
           (SaveRefreshTokenForGrant (cx_sha (cf_crypto F)) plaintext rt1 grantIssuedAt (en_now e) db))
         (s\<lparr>sv_draws := n + 2\<rparr>))"

record token_request =
  rq_parsed :: bool
  rq_grant_type :: string
  rq_client_id :: string
  rq_code :: string
  rq_redirect_uri :: string
  rq_code_verifier :: string
  rq_refresh_token :: string
  rq_token :: string
  rq_assertion_client :: "string option" \<comment> \<open>the client a client assertion names, when that is a metadata URL\<close>

definition cimd_verdict :: "bool \<Rightarrow> step_env \<Rightarrow> token_response + unit" where
  "cimd_verdict check_redirect e = (case en_cimd e of None \<Rightarrow> Inr ()
     | Some (Inl err) \<Rightarrow> Inl (writeCIMDTokenError err)
     | Some (Inr _) \<Rightarrow> if check_redirect \<and> \<not> en_redirect_allowed e then Inl (writeCIMDTokenError errCIMDRefused) else Inr ())"

definition cimd_gate :: "bool \<Rightarrow> (token_response + unit) oauth_handler" where
  "cimd_gate check_redirect = ask (cimd_verdict check_redirect)"

definition check_code :: "oauth_config \<Rightarrow> OAuthCode \<Rightarrow> string \<Rightarrow> string \<Rightarrow> string \<Rightarrow> (token_response + unit)" where
  "check_code F entry clientID redirectURI verifier =
     (if oc_client_id entry \<noteq> clientID then Inl (invalid_grant ''client_id mismatch'')
      else if oc_redirect_uri entry \<noteq> redirectURI then Inl (invalid_grant ''redirect_uri mismatch'')
      else if \<not> pkceVerify F verifier (oc_code_challenge entry) then Inl (invalid_grant ''code_verifier does not match code_challenge'')
      else Inr ())"

definition no_token :: RefreshToken where
  "no_token = \<lparr>FamilyID = [], UserID = 0, ClientID = [], ClientName = [], TelegramID = 0, TelegramUsername = [], Scope = [],
     CreatedAt = 0, ExpiresAt = 0, RevokedAt = None, RevokedReason = [], ParentTokenHash = None, RedirectURI = [], RedirectURIKnown = False\<rparr>"

definition exchange_grant :: "oauth_config \<Rightarrow> string \<Rightarrow> OAuthCode \<Rightarrow> (token_response + token_response) oauth_handler" where
  "exchange_grant F clientID entry =
     bind_r (or_answer (server_error ''could not resolve scopes'') (ResolveScopes F (oc_telegram_id entry))) (\<lambda>cur.
     let groups = fst cur; scopes = narrowGrant (snd cur) (oc_scope entry) in
     bind_r (or_answer (server_error ''could not mint token'')
       (mintAccessToken F \<lparr>to_client_id = clientID, to_redirect_uri = oc_redirect_uri entry, to_redirect_known = True\<rparr>
         (oc_telegram_id entry) (oc_username entry) groups scopes)) (\<lambda>tok.
     bind_r (or_answer (server_error ''could not resolve user'')
       (store_call (\<lambda>e. EnsureUserByTelegramID (oc_telegram_id entry) (oc_username entry) []))) (\<lambda>uid.
     bind_h (clientDisplayName clientID) (\<lambda>clientName.
     bind_h (issueRefreshToken F (oc_created_at entry) (no_token\<lparr>UserID := uid, ClientID := clientID, ClientName := clientName,
         TelegramID := oc_telegram_id entry, TelegramUsername := oc_username entry, Scope := join_with '' '' scopes,
         RedirectURI := oc_redirect_uri entry, RedirectURIKnown := True\<rparr>)) (\<lambda>r. Answer (case r of
           Inl ErrAccountDeletedSinceGrant \<Rightarrow> Inl (invalid_grant ''the account was deleted after this code was issued'')
         | Inl _ \<Rightarrow> Inl (server_error ''could not issue refresh token'')
         | Inr refreshTok \<Rightarrow> Inr (writeTokenJSON F tok refreshTok scopes)))))))"

definition handleTokenAuthCode :: "oauth_config \<Rightarrow> token_request \<Rightarrow> token_response oauth_handler" where
  "handleTokenAuthCode F rq =
     (let code = rq_code rq; clientID = rq_client_id rq; verifier = rq_code_verifier rq in
      answer_of (
        bind_r (guard (code \<noteq> [] \<and> clientID \<noteq> [] \<and> verifier \<noteq> [])
          (TokenError ''invalid_request'' ''code, client_id, code_verifier are required'' 400)) (\<lambda>_.
        bind_r (guard (clientID \<noteq> ConnectClientID)
          (TokenError ''unauthorized_client'' ''this client's codes are not redeemable at the token endpoint'' 400)) (\<lambda>_.
        bind_r (guard (validPKCEString verifier) (TokenError ''invalid_request'' ''code_verifier'' 400)) (\<lambda>_.
        bind_r (cimd_gate (rq_redirect_uri rq \<noteq> [])) (\<lambda>_.
        bind_r (redeem_code F ''code expired'' code) (\<lambda>entry.
        bind_r (Answer (check_code F entry clientID (rq_redirect_uri rq) verifier)) (\<lambda>_.
        exchange_grant F clientID entry))))))))"

definition ExchangeConnect ::
  "oauth_config \<Rightarrow> string \<Rightarrow> string \<Rightarrow> string \<Rightarrow> string \<Rightarrow> (token_response + claims) oauth_handler" where
  "ExchangeConnect F code verifier clientID redirectURI =
     bind_r (guard (code \<noteq> [] \<and> verifier \<noteq> [] \<and> clientID \<noteq> [] \<and> redirectURI \<noteq> [])
       (TokenError ''invalid_request'' ''code, verifier, client_id, redirect_uri are required'' 400)) (\<lambda>_.
     bind_r (guard (clientID = ConnectClientID) (TokenError ''invalid_request'' ''client_id'' 400)) (\<lambda>_.
     bind_r (guard (validPKCEString verifier) (TokenError ''invalid_request'' ''code_verifier'' 400)) (\<lambda>_.
     bind_r (redeem_code F ''code not found, expired, or already used'' code) (\<lambda>entry.
     bind_r (Answer (check_code F entry clientID redirectURI verifier)) (\<lambda>_.
     bind_r (or_answer (server_error ''could not resolve scopes'') (ResolveScopes F (oc_telegram_id entry))) (\<lambda>cur.
     or_answer (server_error ''could not mint token'')
       (mintAccessToken F \<lparr>to_client_id = clientID, to_redirect_uri = oc_redirect_uri entry, to_redirect_known = True\<rparr>
         (oc_telegram_id entry) (oc_username entry) (fst cur) (narrowGrant (snd cur) (oc_scope entry)))))))))"

section \<open>Refresh\<close>

definition rotationGraceWindow :: duration where "rotationGraceWindow = minute"

datatype grace_outcome = GraceRecovered token_response | GraceRejectedSoft token_response | GraceServerError token_response | GraceNotEligible

text \<open>Mint for the live successor a replay found, within the scopes still granted.\<close>

definition reissue_grant :: "oauth_config \<Rightarrow> string \<Rightarrow> RefreshToken \<Rightarrow> string list \<times> string list \<Rightarrow> (grace_outcome + grace_outcome) oauth_handler" where
  "reissue_grant F candidate child grant =
     bind_r (or_answer (GraceServerError (server_error ''could not verify refresh authorization''))
       (refreshGrantStillValid (snd grant) (FamilyID child) (TelegramID child))) (\<lambda>stillValid.
     bind_r (guard stillValid (GraceRejectedSoft (invalid_grant ''refresh authorization no longer available''))) (\<lambda>_.
     bind_h (mintAccessToken F \<lparr>to_client_id = ClientID child, to_redirect_uri = RedirectURI child, to_redirect_known = RedirectURIKnown child\<rparr>
       (TelegramID child) (TelegramUsername child) (fst grant) (snd grant)) (\<lambda>m. Answer (case m of
         Inl errProfileUnresolvable \<Rightarrow> Inl (GraceRejectedSoft (invalid_grant profileUnresolvableDescription))
       | Inl (MintFailed _) \<Rightarrow> Inl (GraceServerError (server_error ''could not mint token''))
       | Inr tok \<Rightarrow> Inr (GraceRecovered (writeTokenJSON F tok candidate (snd grant)))))))"

definition reissue_child :: "oauth_config \<Rightarrow> string \<Rightarrow> RefreshToken \<Rightarrow> grace_outcome oauth_handler" where
  "reissue_child F candidate child = answer_of (
     bind_h (ask en_clock) (\<lambda>now.
     bind_r (guard (\<not> Expired child now) (GraceRejectedSoft (invalid_grant ''refresh token already used''))) (\<lambda>_.
     bind_r (or_answer (GraceServerError (server_error ''could not resolve scopes'')) (ResolveScopes F (TelegramID child))) (\<lambda>cur.
     reissue_grant F candidate child (boundRefreshGrant (fst cur) (snd cur) (Scope child))))))"

definition attemptGraceRecovery ::
  "oauth_config \<Rightarrow> string \<Rightarrow> string \<Rightarrow> instant \<Rightarrow> string \<Rightarrow> string \<Rightarrow> grace_outcome oauth_handler" where
  "attemptGraceRecovery F refreshTok revokedReason revokedAt familyID clientID =
     bind_h (ask en_clock) (\<lambda>now.
     if revokedReason \<noteq> ''rotated'' \<or> time_sub now revokedAt \<ge> rotationGraceWindow then Answer GraceNotEligible
     else let candidate = deriveSuccessorRefreshToken F refreshTok in
       bind_h (store_read (LookupRefreshTokenByHashPair (cx_sha (cf_crypto F)) refreshTok candidate familyID clientID)) (\<lambda>r.
       case r of Inl ErrRefreshTokenNotFound \<Rightarrow> Answer (GraceRejectedSoft (invalid_grant ''refresh token already used''))
       | Inl _ \<Rightarrow> Answer (GraceServerError (server_error ''could not verify grace-window replay''))
       | Inr child \<Rightarrow> reissue_child F candidate child))"

text \<open>The response a grace attempt wrote, if it wrote one.\<close>

definition grace_response :: "grace_outcome \<Rightarrow> token_response option" where
  "grace_response g = (case g of GraceRecovered r \<Rightarrow> Some r | GraceRejectedSoft r \<Rightarrow> Some r | GraceServerError r \<Rightarrow> Some r
     | GraceNotEligible \<Rightarrow> None)"

definition revoke_family :: "string \<Rightarrow> string \<Rightarrow> (oauth_error, int) result oauth_handler" where
  "revoke_family familyID reason = store_call (\<lambda>e db. Inr (RevokeRefreshTokenFamily familyID reason (en_now e) db))"

text \<open>A token that was found revoked.\<close>

definition refresh_revoked :: "oauth_config \<Rightarrow> string \<Rightarrow> string \<Rightarrow> RefreshToken \<Rightarrow> instant \<Rightarrow> token_response oauth_handler" where
  "refresh_revoked F refreshTok clientID rt revokedAt =
     bind_h (attemptGraceRecovery F refreshTok (RevokedReason rt) revokedAt (FamilyID rt) clientID) (\<lambda>g.
     case grace_response g of Some r \<Rightarrow> Answer r
     | None \<Rightarrow> bind_h (revoke_family (FamilyID rt) ''reuse_detected'') (\<lambda>r. Answer (case r of
           Inl _ \<Rightarrow> server_error ''could not complete reuse detection''
         | Inr _ \<Rightarrow> invalid_grant ''refresh token already used'')))"

text \<open>The rotation found the token already revoked or gone.\<close>

definition lost_race :: "oauth_config \<Rightarrow> string \<Rightarrow> string \<Rightarrow> RefreshToken \<Rightarrow> token_response oauth_handler" where
  "lost_race F refreshTok clientID rt =
     (let kill = bind_h (revoke_family (FamilyID rt) ''reuse_detected'') (\<lambda>_. Answer (invalid_grant ''refresh token already used'')) in
      bind_h (store_read (LookupRefreshToken (cx_sha (cf_crypto F)) refreshTok)) (\<lambda>r. case r of
          Inl ErrRefreshTokenNotFound \<Rightarrow> kill
        | Inl _ \<Rightarrow> Answer (server_error ''could not verify rotation race'')
        | Inr reRead \<Rightarrow> (case RevokedAt reRead of None \<Rightarrow> kill
            | Some revokedAt \<Rightarrow>
                bind_h (attemptGraceRecovery F refreshTok (RevokedReason reRead) revokedAt (FamilyID reRead) clientID) (\<lambda>g.
                case grace_response g of Some x \<Rightarrow> Answer x | None \<Rightarrow> kill))))"

definition successor :: "RefreshToken \<Rightarrow> string list \<Rightarrow> RefreshToken" where
  "successor rt scopes = no_token\<lparr>FamilyID := FamilyID rt, UserID := UserID rt, ClientID := ClientID rt, ClientName := ClientName rt,
     TelegramID := TelegramID rt, TelegramUsername := TelegramUsername rt, Scope := join_with '' '' scopes,
     RedirectURI := RedirectURI rt, RedirectURIKnown := RedirectURIKnown rt, ExpiresAt := ExpiresAt rt\<rparr>"

definition commit_rotation ::
  "oauth_config \<Rightarrow> string \<Rightarrow> string \<Rightarrow> RefreshToken \<Rightarrow> string list \<Rightarrow> claims \<Rightarrow> (token_response + token_response) oauth_handler" where
  "commit_rotation F refreshTok clientID rt scopes tok =
     (let newRefresh = deriveSuccessorRefreshToken F refreshTok in
      bind_h (store_call (\<lambda>e db. map_sum id (\<lambda>db1. ((), db1))
        (RotateRefreshToken (cx_sha (cf_crypto F)) refreshTok newRefresh (successor rt scopes) (en_now e) db))) (\<lambda>r. case r of
          Inl ErrRefreshTokenNotFound \<Rightarrow> bind_h (lost_race F refreshTok clientID rt) (\<lambda>x. Answer (Inl x))
        | Inl _ \<Rightarrow> Answer (Inl (server_error ''could not rotate refresh token''))
        | Inr _ \<Rightarrow> Answer (Inr (writeTokenJSON F tok newRefresh scopes))))"

definition rotate_grant ::
  "oauth_config \<Rightarrow> string \<Rightarrow> string \<Rightarrow> RefreshToken \<Rightarrow> string list \<times> string list \<Rightarrow> (token_response + token_response) oauth_handler" where
  "rotate_grant F refreshTok clientID rt grant =
     bind_r (or_answer (server_error ''could not verify refresh authorization'')
       (refreshGrantStillValid (snd grant) (FamilyID rt) (TelegramID rt))) (\<lambda>stillValid.
     bind_r (guard stillValid (invalid_grant ''refresh authorization no longer available'')) (\<lambda>_.
     bind_h (mintAccessToken F \<lparr>to_client_id = ClientID rt, to_redirect_uri = RedirectURI rt, to_redirect_known = RedirectURIKnown rt\<rparr>
       (TelegramID rt) (TelegramUsername rt) (fst grant) (snd grant)) (\<lambda>m. case m of
         Inl errProfileUnresolvable \<Rightarrow> Answer (Inl (invalid_grant profileUnresolvableDescription))
       | Inl (MintFailed _) \<Rightarrow> Answer (Inl (server_error ''could not mint token''))
       | Inr tok \<Rightarrow> commit_rotation F refreshTok clientID rt (snd grant) tok)))"

definition rotate_live :: "oauth_config \<Rightarrow> string \<Rightarrow> string \<Rightarrow> RefreshToken \<Rightarrow> (token_response + token_response) oauth_handler" where
  "rotate_live F refreshTok clientID rt =
     bind_r (or_answer (server_error ''could not resolve scopes'') (ResolveScopes F (TelegramID rt))) (\<lambda>cur.
     rotate_grant F refreshTok clientID rt (boundRefreshGrant (fst cur) (snd cur) (Scope rt)))"

definition refresh_found :: "oauth_config \<Rightarrow> string \<Rightarrow> string \<Rightarrow> RefreshToken \<Rightarrow> token_response oauth_handler" where
  "refresh_found F refreshTok clientID rt =
     (case RevokedAt rt of
        Some revokedAt \<Rightarrow> refresh_revoked F refreshTok clientID rt revokedAt
      | None \<Rightarrow> answer_of (bind_h (ask en_clock) (\<lambda>now.
          bind_r (guard (\<not> Expired rt now) (invalid_grant ''refresh token expired'')) (\<lambda>_.
          bind_r (guard (ClientID rt = clientID) (invalid_grant ''client_id mismatch'')) (\<lambda>_.
          rotate_live F refreshTok clientID rt)))))"

definition refresh_looked_up ::
  "oauth_config \<Rightarrow> string \<Rightarrow> string \<Rightarrow> (oauth_error, RefreshToken) result \<Rightarrow> token_response oauth_handler" where
  "refresh_looked_up F refreshTok clientID r = (case r of
       Inl ErrRefreshTokenNotFound \<Rightarrow> Answer (invalid_grant ''refresh token not found, expired, or already used'')
     | Inl _ \<Rightarrow> Answer (server_error ''could not look up refresh token'')
     | Inr rt \<Rightarrow> refresh_found F refreshTok clientID rt)"

definition handleTokenRefresh :: "oauth_config \<Rightarrow> token_request \<Rightarrow> token_response oauth_handler" where
  "handleTokenRefresh F rq =
     (let refreshTok = rq_refresh_token rq; clientID = rq_client_id rq in
      answer_of (
        bind_r (guard (refreshTok \<noteq> [] \<and> clientID \<noteq> [])
          (TokenError ''invalid_request'' ''refresh_token and client_id are required'' 400)) (\<lambda>_.
        bind_r (guard (clientID \<noteq> ConnectClientID) (TokenError ''unauthorized_client'' ''this client cannot refresh'' 400)) (\<lambda>_.
        bind_r (cimd_gate False) (\<lambda>_.
        bind_h (bind_h (store_read (LookupRefreshToken (cx_sha (cf_crypto F)) refreshTok)) (refresh_looked_up F refreshTok clientID))
          (\<lambda>x. Answer (Inr x)))))))"

section \<open>Revocation and dispatch\<close>

definition handleRevoke :: "oauth_config \<Rightarrow> token_request \<Rightarrow> token_response oauth_handler" where
  "handleRevoke F rq =
     (let token = rq_token rq; clientID = rq_client_id rq in
      answer_of (
        bind_r (guard (rq_parsed rq) (TokenError ''invalid_request'' ''could not parse form'' 400)) (\<lambda>_.
        bind_r (guard (token \<noteq> [] \<and> clientID \<noteq> []) (TokenError ''invalid_request'' ''token and client_id are required'' 400)) (\<lambda>_.
        bind_h (store_read (LookupRefreshToken (cx_sha (cf_crypto F)) token)) (\<lambda>r. case r of
            Inl ErrRefreshTokenNotFound \<Rightarrow> Answer (Inl RevokeSuccess)
          | Inl _ \<Rightarrow> Answer (Inl (server_error ''could not look up token''))
          | Inr rt \<Rightarrow> if ClientID rt \<noteq> clientID then Answer (Inl RevokeSuccess)
              else bind_h (revoke_family (FamilyID rt) ''explicit_revoke'') (\<lambda>x. Answer (case x of
                  Inl _ \<Rightarrow> Inl (server_error ''could not revoke token'') | Inr _ \<Rightarrow> Inr RevokeSuccess)))))))"

definition handleToken :: "oauth_config \<Rightarrow> token_request \<Rightarrow> token_response oauth_handler" where
  "handleToken F rq =
     (if \<not> rq_parsed rq then Answer (TokenError ''invalid_request'' ''could not parse form'' 400)
      else let rq1 = (case rq_assertion_client rq of
               Some i \<Rightarrow> if rq_client_id rq = [] \<and> cf_cimd F then rq\<lparr>rq_client_id := i\<rparr> else rq | None \<Rightarrow> rq) in
        if rq_grant_type rq1 = ''authorization_code'' then handleTokenAuthCode F rq1
        else if rq_grant_type rq1 = ''refresh_token'' then handleTokenRefresh F rq1
        else Answer (TokenError ''unsupported_grant_type'' ''only authorization_code and refresh_token are supported'' 400))"

section \<open>The server under load\<close>

text \<open>What the rest of the program does to the shared state: sign-in, tiers, account deletion, the manage page, sweeps.\<close>

datatype oauth_op =
    OpEnsureUser int string string
  | OpSetTier int string
  | OpGrantTier int
  | OpDeleteAccount int instant
  | OpOwnerRevoke int string instant
  | OpSweepTokens instant
  | OpInsertPending OAuthPendingAuth
  | OpEvictPending int duration instant
  | OpConsumePending string duration instant
  | OpInsertCode OAuthCode int "instant option"
  | OpEvictCodes int duration instant
  | OpMemoryCode OAuthCode
  | OpSweepRows duration instant
  | OpInsertReg OAuthClientReg
  | OpInsertPinned OAuthClientReg
  | OpEvictRegs int
  | OpDeleteReg string
  | OpSweepRegs duration instant
  | OpMemoryClient OAuthClientReg
  | OpRecordJTI string string duration instant
  | OpSweepJTIs instant

definition written_db :: "oauth_db \<Rightarrow> (oauth_error, 'a \<times> oauth_db) result \<Rightarrow> oauth_db" where
  "written_db db r = (case r of Inl _ \<Rightarrow> db | Inr (_, db1) \<Rightarrow> db1)"

definition stored_db :: "oauth_db \<Rightarrow> (oauth_error, oauth_db) result \<Rightarrow> oauth_db" where
  "stored_db db r = (case r of Inl _ \<Rightarrow> db | Inr db1 \<Rightarrow> db1)"

fun background_db :: "oauth_config \<Rightarrow> oauth_op \<Rightarrow> oauth_db \<Rightarrow> oauth_db" where
  "background_db F (OpEnsureUser tg u d) db = written_db db (EnsureUserByTelegramID tg u d db)"
| "background_db F (OpSetTier tg tier) db = stored_db db (SetAccessTier tg tier db)"
| "background_db F (OpGrantTier tg) db = written_db db (GrantClientTierIfUnset tg db)"
| "background_db F (OpDeleteAccount uid now) db = snd (delete_account_tokens uid now db)"
| "background_db F (OpOwnerRevoke uid cid now) db = written_db db (RevokeClientGrants uid cid now db)"
| "background_db F (OpSweepTokens now) db = snd (SweepExpiredRefreshTokens now db)"
| "background_db F (OpInsertPending p) db = stored_db db (InsertOAuthPending p db)"
| "background_db F (OpEvictPending m ttl now) db = EvictOldestOAuthPendingIfOver m ttl now db"
| "background_db F (OpConsumePending st ttl now) db = snd (ConsumeOAuthPending st ttl now db)"
| "background_db F (OpInsertCode c uid started) db = stored_db db (InsertOAuthCode c uid started db)"
| "background_db F (OpEvictCodes m ttl now) db = EvictOldestOAuthCodeIfOver m ttl now db"
| "background_db F (OpSweepRows ttl now) db = snd (DeleteExpiredOAuthRows ttl now db)"
| "background_db F (OpInsertReg reg) db = InsertClientReg reg db"
| "background_db F (OpInsertPinned reg) db = written_db db (InsertPinnedClientReg reg db)"
| "background_db F (OpEvictRegs m) db = EvictOldestClientRegIfOver m db"
| "background_db F (OpDeleteReg cid) db = DeleteClientReg cid db"
| "background_db F (OpSweepRegs ttl now) db = snd (DeleteExpiredClientRegs ttl now db)"
| "background_db F (OpRecordJTI cid jti ttl now) db = snd (RecordClientAssertionJTI (cx_sha (cf_crypto F)) cid jti ttl now db)"
| "background_db F (OpSweepJTIs now) db = snd (DeleteExpiredClientAssertionJTIs now db)"
| "background_db F _ db = db"

definition background :: "oauth_config \<Rightarrow> oauth_op \<Rightarrow> oauth_server \<Rightarrow> oauth_server" where
  "background F op s = (case op of
       OpMemoryCode c \<Rightarrow> s\<lparr>sv_codes := c # delete_where (\<lambda>x. oc_code x = oc_code c) (sv_codes s)\<rparr>
     | OpMemoryClient c \<Rightarrow> s\<lparr>sv_clients := c # delete_where (\<lambda>x. cr_client_id x = cr_client_id c) (sv_clients s)\<rparr>
     | _ \<Rightarrow> s\<lparr>sv_db := background_db F op (sv_db s)\<rparr>)"

datatype oauth_event =
    TokenRequest token_request
  | RevokeRequest token_request
  | ConnectRequest string string string string
  | Advance nat step_env
  | Background oauth_op

type_synonym oauth_answer = "token_response + claims"

record oauth_pool =
  pl_server :: oauth_server
  pl_running :: "oauth_answer oauth_handler list"

definition answered :: "nat \<Rightarrow> 'a oauth_handler \<Rightarrow> (nat \<times> 'a) list" where
  "answered i h = (case h of Answer x \<Rightarrow> [(i, x)] | Step _ _ \<Rightarrow> [])"

definition arrive :: "oauth_answer oauth_handler \<Rightarrow> oauth_pool \<Rightarrow> oauth_pool \<times> (nat \<times> oauth_answer) list" where
  "arrive h p = (p\<lparr>pl_running := pl_running p @ [h]\<rparr>, answered (length (pl_running p)) h)"

definition responding :: "token_response oauth_handler \<Rightarrow> oauth_answer oauth_handler" where
  "responding h = bind_h h (\<lambda>x. Answer (Inl x))"

definition advance :: "nat \<Rightarrow> step_env \<Rightarrow> oauth_pool \<Rightarrow> oauth_pool \<times> (nat \<times> oauth_answer) list" where
  "advance i e p =
     (if i < length (pl_running p)
      then case pl_running p ! i of Answer x \<Rightarrow> (p, [])
        | Step eff nxt \<Rightarrow> (p\<lparr>pl_server := eff e (pl_server p), pl_running := (pl_running p)[i := nxt e (pl_server p)]\<rparr>,
             answered i (nxt e (pl_server p)))
      else (p, []))"

fun pool_step :: "oauth_config \<Rightarrow> oauth_pool \<Rightarrow> oauth_event \<Rightarrow> oauth_pool \<times> (nat \<times> oauth_answer) list" where
  "pool_step F p (TokenRequest rq) = arrive (responding (handleToken F rq)) p"
| "pool_step F p (RevokeRequest rq) = arrive (responding (handleRevoke F rq)) p"
| "pool_step F p (ConnectRequest code verifier cid uri) = arrive (ExchangeConnect F code verifier cid uri) p"
| "pool_step F p (Advance i e) = advance i e p"
| "pool_step F p (Background op) = (p\<lparr>pl_server := background F op (pl_server p)\<rparr>, [])"

fun pool_run :: "oauth_config \<Rightarrow> oauth_pool \<Rightarrow> oauth_event list \<Rightarrow> oauth_pool \<times> (nat \<times> oauth_answer) list" where
  "pool_run F p [] = (p, [])"
| "pool_run F p (x # xs) = (let (p1, o1) = pool_step F p x; (p2, o2) = pool_run F p1 xs in (p2, o1 @ o2))"

definition fresh_server :: oauth_pool where
  "fresh_server = \<lparr>pl_server = \<lparr>sv_db = \<lparr>od_users = [], od_user_seq = 0, od_tokens = [], od_pending = [], od_codes = [],
     od_regs = [], od_jtis = []\<rparr>, sv_codes = [], sv_clients = [], sv_draws = 0\<rparr>, pl_running = []\<rparr>"

end
