(* ===== verification/TokenInv.thy ===== *)
theory TokenInv
  imports TokenEndpoint
begin

text \<open>
  The lineage of refresh tokens. A family is a draw of the random source; its tokens are the chain of successors of the
  first one, so a row has a place in the chain, by its digest. The invariant orders the rows of a family by that
  place: only the last can be live. What a step of any handler keeps is that revoked rows stay revoked and that new
  rows only follow live ones or open a new family; facts a handler has read survive everything others do.
\<close>

section \<open>Cryptography\<close>

text \<open>What the code relies on: digests and derived tokens do not collide, random draws do not repeat, and no draw is a
  derived token.\<close>

definition ideal_crypto :: "oauth_config \<Rightarrow> bool" where
  "ideal_crypto F \<longleftrightarrow> inj (cx_sha (cf_crypto F)) \<and> inj (deriveSuccessorRefreshToken F) \<and>
     (\<forall>b c m n. cx_random (cf_crypto F) b m = cx_random (cf_crypto F) c n \<longrightarrow> m = n) \<and>
     (\<forall>b n t. cx_random (cf_crypto F) b n \<noteq> deriveSuccessorRefreshToken F t)"

lemma ideal_cryptoD:
  assumes "ideal_crypto F"
  shows "inj (cx_sha (cf_crypto F))" "inj (deriveSuccessorRefreshToken F)"
    "cx_random (cf_crypto F) b m = cx_random (cf_crypto F) c n \<Longrightarrow> m = n"
    "cx_random (cf_crypto F) b n \<noteq> deriveSuccessorRefreshToken F t"
  using assms unfolding ideal_crypto_def by blast+

definition chain :: "oauth_config \<Rightarrow> nat \<Rightarrow> nat \<Rightarrow> string" where
  "chain F n k = (deriveSuccessorRefreshToken F ^^ k) (cx_random (cf_crypto F) 32 (n + 1))"

definition place :: "oauth_config \<Rightarrow> token_row \<Rightarrow> nat \<Rightarrow> nat \<Rightarrow> bool" where
  "place F r n k \<longleftrightarrow> tk_family r = cx_random (cf_crypto F) 16 n \<and> tk_hash r = cx_sha (cf_crypto F) (chain F n k)"

lemma chain_inject:
  assumes ideal: "ideal_crypto F"
  shows "chain F n k = chain F m j \<Longrightarrow> n = m \<and> k = j"
proof (induction k arbitrary: j)
  case 0
  show ?case
  proof (cases j)
    case 0
    then have "cx_random (cf_crypto F) 32 (n + 1) = cx_random (cf_crypto F) 32 (m + 1)"
      using \<open>chain F n 0 = chain F m j\<close> by (simp add: chain_def)
    then have "n + 1 = m + 1" using ideal unfolding ideal_crypto_def by blast
    then show ?thesis using 0 by simp
  next
    case (Suc i)
    then show ?thesis using \<open>chain F n 0 = chain F m j\<close> ideal unfolding chain_def ideal_crypto_def by simp
  qed
next
  case (Suc k)
  show ?case
  proof (cases j)
    case 0
    then have "cx_random (cf_crypto F) 32 (m + 1) = deriveSuccessorRefreshToken F (chain F n k)"
      using Suc.prems by (simp add: chain_def)
    then show ?thesis using ideal unfolding ideal_crypto_def by blast
  next
    case (Suc i)
    have "deriveSuccessorRefreshToken F (chain F n k) = deriveSuccessorRefreshToken F (chain F m i)"
      using \<open>chain F n (Suc k) = chain F m j\<close> Suc by (simp add: chain_def)
    then have "chain F n k = chain F m i" by (rule injD[OF ideal_cryptoD(2)[OF ideal]])
    then show ?thesis using \<open>\<And>j. chain F n k = chain F m j \<Longrightarrow> n = m \<and> k = j\<close> Suc by blast
  qed
qed

lemma place_hash:
  assumes ideal: "ideal_crypto F" and r: "place F r n k"
  shows "tk_hash r = cx_sha (cf_crypto F) t \<longleftrightarrow> t = chain F n k"
    and "place F r' m j \<Longrightarrow> tk_hash r = tk_hash r' \<longleftrightarrow> n = m \<and> k = j"
    and "place F r' m j \<Longrightarrow> tk_family r = tk_family r' \<longleftrightarrow> n = m"
proof -
  have sha: "cx_sha (cf_crypto F) a = cx_sha (cf_crypto F) b \<longleftrightarrow> a = b" for a b
    using inj_eq[OF ideal_cryptoD(1)[OF ideal]] .
  have rnd: "cx_random (cf_crypto F) 16 a = cx_random (cf_crypto F) 16 b \<longleftrightarrow> a = b" for a b
    using ideal_cryptoD(3)[OF ideal] by blast
  show "tk_hash r = cx_sha (cf_crypto F) t \<longleftrightarrow> t = chain F n k" using r by (auto simp: place_def sha)
  show "tk_hash r = tk_hash r' \<longleftrightarrow> n = m \<and> k = j" if "place F r' m j"
    using r that chain_inject[OF ideal] by (auto simp: place_def sha)
  show "tk_family r = tk_family r' \<longleftrightarrow> n = m" if "place F r' m j"
    using r that by (simp add: place_def rnd)
qed

lemma place_unique: "ideal_crypto F \<Longrightarrow> place F r n k \<Longrightarrow> place F r m j \<Longrightarrow> n = m \<and> k = j"
  using place_hash(2) by metis

section \<open>The invariant\<close>

text \<open>The columns no statement changes after the insert.\<close>

definition static :: "token_row \<Rightarrow> token_row" where
  "static r = r\<lparr>tk_username := None, tk_revoked_at := None, tk_reason := None\<rparr>"

lemma static_simps:
  "tk_family (static r) = tk_family r" "tk_hash (static r) = tk_hash r" "tk_user_id (static r) = tk_user_id r"
  "tk_client_id (static r) = tk_client_id r" "tk_telegram_id (static r) = tk_telegram_id r" "tk_scope (static r) = tk_scope r"
  "tk_expires_at (static r) = tk_expires_at r" "tk_parent (static r) = tk_parent r" "tk_redirect (static r) = tk_redirect r"
  by (simp_all add: static_def)

lemma static_revoke [simp]: "static (revoke now reason r) = static r" "static (r\<lparr>tk_username := u\<rparr>) = static r"
  by (simp_all add: static_def revoke_def)

lemma static_eq:
  assumes "static r = static r'"
  shows "tk_family r = tk_family r'" "tk_hash r = tk_hash r'" "tk_user_id r = tk_user_id r'" "tk_client_id r = tk_client_id r'"
    "tk_telegram_id r = tk_telegram_id r'" "tk_scope r = tk_scope r'" "tk_expires_at r = tk_expires_at r'"
    "tk_parent r = tk_parent r'" "tk_redirect r = tk_redirect r'"
  using assms by (metis static_simps)+

lemma place_static: "static r = static r' \<Longrightarrow> place F r n k \<longleftrightarrow> place F r' n k"
  by (simp add: place_def static_eq[of r r'])

definition scopes_of :: "token_row \<Rightarrow> string set" where "scopes_of r = set (Fields (column (tk_scope r)))"

text \<open>What rotation keeps from a token to its successor.\<close>

definition follows :: "token_row \<Rightarrow> token_row \<Rightarrow> bool" where
  "follows p c \<longleftrightarrow> tk_family c = tk_family p \<and> tk_user_id c = tk_user_id p \<and> tk_client_id c = tk_client_id p \<and>
     tk_telegram_id c = tk_telegram_id p \<and> tk_expires_at c = tk_expires_at p \<and> tk_redirect c = tk_redirect p \<and>
     scopes_of c \<subseteq> scopes_of p"

lemma follows_static: "static p = static p' \<Longrightarrow> static c = static c' \<Longrightarrow> follows p c \<longleftrightarrow> follows p' c'"
  by (simp add: follows_def scopes_of_def static_eq[of p p'] static_eq[of c c'])

abbreviation tokens :: "oauth_server \<Rightarrow> token_row list" where "tokens s \<equiv> od_tokens (sv_db s)"

definition token_inv :: "oauth_config \<Rightarrow> oauth_server \<Rightarrow> bool" where
  "token_inv F s \<longleftrightarrow> distinct (map tk_hash (tokens s)) \<and>
     (\<forall>r\<in>set (tokens s). \<exists>n k. n < sv_draws s \<and> place F r n k) \<and>
     (\<forall>r\<in>set (tokens s). \<forall>r'\<in>set (tokens s). \<forall>n k j. live r' \<longrightarrow> place F r n k \<longrightarrow> place F r' n j \<longrightarrow> k \<le> j) \<and>
     (\<forall>c\<in>set (tokens s). \<forall>h n k. tk_parent c = Some h \<longrightarrow> place F c n k \<longrightarrow> (\<exists>j. k = Suc j \<and> h = cx_sha (cf_crypto F) (chain F n j))) \<and>
     (\<forall>p\<in>set (tokens s). \<forall>c\<in>set (tokens s). \<forall>n k. place F p n k \<longrightarrow> place F c n (Suc k) \<longrightarrow> follows p c)"

text \<open>What every step keeps: a row of the later state is a row of the earlier one, no more live than it was, or it is
  new and its family is new or had a live row before it in the chain.\<close>

definition old_row :: "token_row list \<Rightarrow> token_row \<Rightarrow> bool" where
  "old_row rows r' \<longleftrightarrow> (\<exists>r\<in>set rows. static r = static r' \<and> (tk_revoked_at r \<noteq> None \<longrightarrow> tk_revoked_at r' = tk_revoked_at r \<and> tk_reason r' = tk_reason r))"

definition token_rel :: "oauth_config \<Rightarrow> oauth_server \<Rightarrow> oauth_server \<Rightarrow> bool" where
  "token_rel F s s' \<longleftrightarrow> sv_draws s \<le> sv_draws s' \<and>
     (\<forall>r'\<in>set (tokens s'). old_row (tokens s) r' \<or>
        (\<exists>n k. place F r' n k \<and> (sv_draws s \<le> n \<or> (\<exists>p\<in>set (tokens s). \<exists>j. k = Suc j \<and> live p \<and> place F p n j \<and> follows p r'))))"

lemma old_row_refl: "r \<in> set rows \<Longrightarrow> old_row rows r"
  unfolding old_row_def by blast

lemma token_rel_refl: "token_rel F s s"
  by (simp add: token_rel_def old_row_refl)

section \<open>Facts that last\<close>

text \<open>The family has no live token.\<close>

definition dead :: "oauth_config \<Rightarrow> nat \<Rightarrow> oauth_server \<Rightarrow> bool" where
  "dead F n s \<longleftrightarrow> n < sv_draws s \<and> (\<forall>r\<in>set (tokens s). \<forall>k. place F r n k \<longrightarrow> \<not> live r)"

text \<open>The row at a place is the one that was read, and no earlier row of the family is live.\<close>

definition known :: "oauth_config \<Rightarrow> token_row \<Rightarrow> nat \<Rightarrow> nat \<Rightarrow> oauth_server \<Rightarrow> bool" where
  "known F r0 n k s \<longleftrightarrow> n < sv_draws s \<and> place F r0 n k \<and>
     (\<forall>r\<in>set (tokens s). place F r n k \<longrightarrow> static r = static r0 \<and>
        (tk_revoked_at r0 \<noteq> None \<longrightarrow> tk_revoked_at r = tk_revoked_at r0 \<and> tk_reason r = tk_reason r0)) \<and>
     (\<forall>c\<in>set (tokens s). place F c n (Suc k) \<longrightarrow> follows r0 c) \<and>
     (\<forall>r\<in>set (tokens s). \<forall>j. live r \<longrightarrow> place F r n j \<longrightarrow> k \<le> j)"

lemma rel_row:
  assumes ideal: "ideal_crypto F" and rel: "token_rel F s s'" and r: "r' \<in> set (tokens s')" "place F r' n k" and n: "n < sv_draws s"
  obtains r where "r \<in> set (tokens s)" "static r = static r'" "place F r n k" "live r' \<Longrightarrow> live r"
      "tk_revoked_at r \<noteq> None \<Longrightarrow> tk_revoked_at r' = tk_revoked_at r \<and> tk_reason r' = tk_reason r"
  | p j where "p \<in> set (tokens s)" "k = Suc j" "live p" "place F p n j" "follows p r'"
proof -
  consider "old_row (tokens s) r'"
    | m i where "place F r' m i" "sv_draws s \<le> m \<or> (\<exists>p\<in>set (tokens s). \<exists>j. i = Suc j \<and> live p \<and> place F p m j \<and> follows p r')"
    using rel r(1) unfolding token_rel_def by blast
  then show ?thesis
  proof cases
    case 1
    then obtain r where "r \<in> set (tokens s)" "static r = static r'"
      "tk_revoked_at r \<noteq> None \<longrightarrow> tk_revoked_at r' = tk_revoked_at r \<and> tk_reason r' = tk_reason r"
      unfolding old_row_def by blast
    then show ?thesis using that(1) place_static r(2) by metis
  next
    case 2
    have "m = n" "i = k" using place_unique[OF ideal 2(1) r(2)] by auto
    then show ?thesis using 2(2) n that(2) by auto
  qed
qed

abbreviation later :: "oauth_config \<Rightarrow> oauth_server \<Rightarrow> oauth_server \<Rightarrow> bool" where "later F \<equiv> (token_rel F)\<^sup>*\<^sup>*"

lemma stable_later:
  assumes "\<And>s s'. token_rel F s s' \<Longrightarrow> K s \<Longrightarrow> K s'"
  shows "stable (token_inv F) (later F) K"
proof -
  have "K s'" if "later F s s'" "K s" for s s' using that by (induction rule: rtranclp_induct) (auto intro: assms)
  then show ?thesis unfolding stable_def by blast
qed

lemma stable_dead:
  assumes ideal: "ideal_crypto F" shows "stable (token_inv F) (later F) (dead F n)"
proof (rule stable_later)
  fix s s' assume rel: "token_rel F s s'" and d: "dead F n s"
  have "\<not> live r'" if r: "r' \<in> set (tokens s')" "place F r' n k" for r' k
    using rel_row[OF ideal rel r] d unfolding dead_def by metis
  then show "dead F n s'" using d rel unfolding dead_def token_rel_def by auto
qed

lemma stable_known:
  assumes ideal: "ideal_crypto F" shows "stable (token_inv F) (later F) (known F r0 n k)"
proof (rule stable_later)
  fix s s' assume rel: "token_rel F s s'" and d: "known F r0 n k s"
  have n: "n < sv_draws s" using d by (simp add: known_def)
  have "static r' = static r0 \<and> (tk_revoked_at r0 \<noteq> None \<longrightarrow> tk_revoked_at r' = tk_revoked_at r0 \<and> tk_reason r' = tk_reason r0)"
    if r: "r' \<in> set (tokens s')" "place F r' n k" for r'
  proof (rule rel_row[OF ideal rel r n])
    fix r assume "r \<in> set (tokens s)" "static r = static r'" "place F r n k"
      "tk_revoked_at r \<noteq> None \<Longrightarrow> tk_revoked_at r' = tk_revoked_at r \<and> tk_reason r' = tk_reason r"
    then show ?thesis using d unfolding known_def by metis
  next
    fix p j assume "p \<in> set (tokens s)" "k = Suc j" "live p" "place F p n j"
    then show ?thesis using d unfolding known_def by fastforce
  qed
  moreover have "k \<le> j" if r: "r' \<in> set (tokens s')" "place F r' n j" "live r'" for r' j
  proof (rule rel_row[OF ideal rel r(1,2) n])
    fix x assume "x \<in> set (tokens s)" "place F x n j" "live r' \<Longrightarrow> live x"
    then show ?thesis using d r(3) unfolding known_def by blast
  next
    fix p i assume "p \<in> set (tokens s)" "j = Suc i" "live p" "place F p n i"
    then show ?thesis using d unfolding known_def by fastforce
  qed
  moreover have "follows r0 c'" if c: "c' \<in> set (tokens s')" "place F c' n (Suc k)" for c'
  proof (rule rel_row[OF ideal rel c n])
    fix c assume "c \<in> set (tokens s)" "static c = static c'" "place F c n (Suc k)"
    then show ?thesis using d follows_static[OF refl, of c c' r0] unfolding known_def by blast
  next
    fix p j assume p: "p \<in> set (tokens s)" "Suc k = Suc j" "place F p n j" "follows p c'"
    then have "static p = static r0" using d unfolding known_def by blast
    then show ?thesis using p(4) follows_static[of p r0 c' c'] by simp
  qed
  ultimately show "known F r0 n k s'" using d rel unfolding known_def token_rel_def by auto
qed

lemma token_row_place: "token_inv F s \<Longrightarrow> r \<in> set (tokens s) \<Longrightarrow> \<exists>n k. n < sv_draws s \<and> place F r n k"
  by (auto simp: token_inv_def)

lemma known_intro:
  assumes ideal: "ideal_crypto F" and inv: "token_inv F s" and r: "r \<in> set (tokens s)" "place F r n k"
  shows "known F r n k s"
proof -
  have "n < sv_draws s" using token_row_place[OF inv r(1)] place_unique[OF ideal r(2)] by blast
  moreover have "r' = r" if "r' \<in> set (tokens s)" "place F r' n k" for r'
  proof -
    have "tk_hash r' = tk_hash r" using place_hash(2)[OF ideal that(2) r(2)] by simp
    then show ?thesis using inv that(1) r(1) by (auto simp: token_inv_def distinct_map inj_on_def)
  qed
  moreover have "k \<le> j" if "r' \<in> set (tokens s)" "live r'" "place F r' n j" for r' j
    using inv r that unfolding token_inv_def by blast
  moreover have "follows r c" if "c \<in> set (tokens s)" "place F c n (Suc k)" for c
    using inv r that unfolding token_inv_def by blast
  ultimately show ?thesis using r(2) unfolding known_def by blast
qed

section \<open>Steps\<close>

definition token_step :: "oauth_config \<Rightarrow> oauth_server \<Rightarrow> oauth_server \<Rightarrow> bool" where
  "token_step F s s' \<longleftrightarrow> token_inv F s' \<and> token_rel F s s'"

lemma token_invD:
  assumes "token_inv F s"
  shows "distinct (map tk_hash (tokens s))"
    "r \<in> set (tokens s) \<Longrightarrow> \<exists>n k. n < sv_draws s \<and> place F r n k"
    "r \<in> set (tokens s) \<Longrightarrow> r' \<in> set (tokens s) \<Longrightarrow> live r' \<Longrightarrow> place F r n k \<Longrightarrow> place F r' n j \<Longrightarrow> k \<le> j"
    "r \<in> set (tokens s) \<Longrightarrow> tk_parent r = Some h \<Longrightarrow> place F r n k \<Longrightarrow> \<exists>j. k = Suc j \<and> h = cx_sha (cf_crypto F) (chain F n j)"
    "p \<in> set (tokens s) \<Longrightarrow> r \<in> set (tokens s) \<Longrightarrow> place F p n k \<Longrightarrow> place F r n (Suc k) \<Longrightarrow> follows p r"
  using assms unfolding token_inv_def by blast+

lemma old_rowE:
  assumes "old_row rows r'"
  obtains r where "r \<in> set rows" "static r = static r'" "live r' \<Longrightarrow> live r"
  using assms unfolding old_row_def by metis

lemma token_invI:
  assumes "distinct (map tk_hash (tokens s))"
    "\<And>r. r \<in> set (tokens s) \<Longrightarrow> \<exists>n k. n < sv_draws s \<and> place F r n k"
    "\<And>r r' n k j. r \<in> set (tokens s) \<Longrightarrow> r' \<in> set (tokens s) \<Longrightarrow> live r' \<Longrightarrow> place F r n k \<Longrightarrow> place F r' n j \<Longrightarrow> k \<le> j"
    "\<And>r h n k. r \<in> set (tokens s) \<Longrightarrow> tk_parent r = Some h \<Longrightarrow> place F r n k \<Longrightarrow> \<exists>j. k = Suc j \<and> h = cx_sha (cf_crypto F) (chain F n j)"
    "\<And>p r n k. p \<in> set (tokens s) \<Longrightarrow> r \<in> set (tokens s) \<Longrightarrow> place F p n k \<Longrightarrow> place F r n (Suc k) \<Longrightarrow> follows p r"
  shows "token_inv F s"
  unfolding token_inv_def by (intro conjI ballI allI impI) (use assms in blast)+

text \<open>No new rows: updates that only revoke, and deletions.\<close>

lemma step_old:
  assumes inv: "token_inv F s" and old: "\<And>r'. r' \<in> set (tokens s') \<Longrightarrow> old_row (tokens s) r'"
    and d: "distinct (map tk_hash (tokens s'))" and n: "sv_draws s \<le> sv_draws s'"
  shows "token_step F s s'"
proof -
  have "token_inv F s'"
  proof (rule token_invI)
    fix r assume "r \<in> set (tokens s')"
    then obtain x where "x \<in> set (tokens s)" "static x = static r" using old old_rowE by metis
    then show "\<exists>n k. n < sv_draws s' \<and> place F r n k"
      using token_invD(2)[OF inv] place_static n by (meson less_le_trans)
  next
    fix r r' m k j assume r: "r \<in> set (tokens s')" "r' \<in> set (tokens s')" "live r'" "place F r m k" "place F r' m j"
    obtain x where "x \<in> set (tokens s)" "static x = static r" using old[OF r(1)] old_rowE by metis
    moreover obtain x' where "x' \<in> set (tokens s)" "static x' = static r'" "live x'" using old[OF r(2)] r(3) old_rowE by metis
    ultimately show "k \<le> j" using token_invD(3)[OF inv] r(4,5) place_static by metis
  next
    fix r h m k assume r: "r \<in> set (tokens s')" "tk_parent r = Some h" "place F r m k"
    obtain x where "x \<in> set (tokens s)" "static x = static r" using old[OF r(1)] old_rowE by metis
    then show "\<exists>j. k = Suc j \<and> h = cx_sha (cf_crypto F) (chain F m j)"
      using token_invD(4)[OF inv] r(2,3) place_static static_eq(8) by metis
  next
    fix p r m k assume r: "p \<in> set (tokens s')" "r \<in> set (tokens s')" "place F p m k" "place F r m (Suc k)"
    obtain x where x: "x \<in> set (tokens s)" "static x = static r" using old[OF r(2)] old_rowE by metis
    obtain q where q: "q \<in> set (tokens s)" "static q = static p" using old[OF r(1)] old_rowE by metis
    have "follows q x" using token_invD(5)[OF inv q(1) x(1)] r(3,4) place_static[OF x(2)] place_static[OF q(2)] by blast
    then show "follows p r" using follows_static[OF q(2) x(2)] by blast
  qed (rule d)
  then show ?thesis using old n unfolding token_step_def token_rel_def by blast
qed

lemma step_same: "token_inv F s \<Longrightarrow> tokens s' = tokens s \<Longrightarrow> sv_draws s \<le> sv_draws s' \<Longrightarrow> token_step F s s'"
  by (rule step_old) (simp_all add: old_row_refl token_invD(1))

lemma step_delete:
  assumes inv: "token_inv F s" and t: "tokens s' = delete_where P (tokens s)" and n: "sv_draws s \<le> sv_draws s'"
  shows "token_step F s s'"
  by (rule step_old[OF inv]) (simp_all add: t old_row_refl distinct_map_delete token_invD(1)[OF inv] n)

lemma old_row_update:
  assumes "r' \<in> set (update_where P g rows)" and g: "\<And>r. static (g r) = static r"
    "\<And>r. P r \<Longrightarrow> tk_revoked_at r \<noteq> None \<Longrightarrow> tk_revoked_at (g r) = tk_revoked_at r \<and> tk_reason (g r) = tk_reason r"
  shows "old_row rows r'"
proof -
  obtain r where "r \<in> set rows" "r' = (if P r then g r else r)" using assms(1) by (auto simp: in_update_where)
  then show ?thesis using g unfolding old_row_def by (intro bexI[of _ r]) auto
qed

lemma step_update:
  assumes inv: "token_inv F s" and t: "tokens s' = update_where P g (tokens s)" and n: "sv_draws s \<le> sv_draws s'"
    and g: "\<And>r. static (g r) = static r" "\<And>r. P r \<Longrightarrow> tk_revoked_at r \<noteq> None \<Longrightarrow> tk_revoked_at (g r) = tk_revoked_at r \<and> tk_reason (g r) = tk_reason r"
  shows "token_step F s s'"
proof (rule step_old[OF inv])
  show "old_row (tokens s) r'" if "r' \<in> set (tokens s')" for r'
    by (rule old_row_update[of r' P g]) (use that t g in simp_all)
next
  have "tk_hash (g r) = tk_hash r" for r using static_eq(2)[OF g(1)] .
  then show "distinct (map tk_hash (tokens s'))" using map_update_where[of tk_hash g] token_invD(1)[OF inv] by (simp add: t)
qed (rule n)

text \<open>A new row at the end of a family without live rows.\<close>

lemma inv_append:
  assumes ideal: "ideal_crypto F" and inv: "token_inv F s" and x: "place F x n K"
    and last: "\<And>r j. r \<in> set (tokens s) \<Longrightarrow> place F r n j \<Longrightarrow> j < K \<and> \<not> live r"
    and parent: "\<And>h. tk_parent x = Some h \<Longrightarrow> \<exists>j. K = Suc j \<and> h = cx_sha (cf_crypto F) (chain F n j)"
    and follow: "\<And>q j. q \<in> set (tokens s) \<Longrightarrow> place F q n j \<Longrightarrow> K = Suc j \<Longrightarrow> follows q x"
    and t: "tokens s' = tokens s @ [x]" and d: "n < sv_draws s'" "sv_draws s \<le> sv_draws s'"
  shows "token_inv F s'"
proof (rule token_invI)
  have only: "m = n \<and> j = K" if "place F x m j" for m j using place_unique[OF ideal x that] by auto
  have "tk_hash r \<noteq> tk_hash x" if r: "r \<in> set (tokens s)" for r
    using token_invD(2)[OF inv r] last[OF r] place_hash(2)[OF ideal _ x] by blast
  then have "tk_hash x \<notin> tk_hash ` set (tokens s)" by (metis imageE)
  then show "distinct (map tk_hash (tokens s'))" using token_invD(1)[OF inv] by (simp add: t)
  show "\<exists>m k. m < sv_draws s' \<and> place F r m k" if "r \<in> set (tokens s')" for r
    using that token_invD(2)[OF inv, of r] x d less_le_trans by (auto simp: t)
  show "i \<le> j" if r: "r \<in> set (tokens s')" "r' \<in> set (tokens s')" "live r'" "place F r m i" "place F r' m j" for r r' m i j
  proof (cases "r' = x")
    case True
    then have m: "m = n" "j = K" using only r(5) by auto
    then show ?thesis using r(1,4) last[of r i] only[of n i] by (cases "r = x") (auto simp: t)
  next
    case False
    then have "r \<noteq> x" using last[of r' j] only r by (auto simp: t)
    then show ?thesis using False token_invD(3)[OF inv, of r r' m i j] r by (simp add: t)
  qed
  show "\<exists>i. j = Suc i \<and> g = cx_sha (cf_crypto F) (chain F m i)"
    if r: "r \<in> set (tokens s')" "tk_parent r = Some g" "place F r m j" for r g m j
    using r token_invD(4)[OF inv, of r g m j] only[of m j] parent[of g] by (cases "r = x") (auto simp: t)
  show "follows q r" if r: "q \<in> set (tokens s')" "r \<in> set (tokens s')" "place F q m j" "place F r m (Suc j)" for q r m j
  proof (cases "r = x")
    case True
    then have m: "m = n" "K = Suc j" using only[of m "Suc j"] r(4) by simp_all
    then have "q \<noteq> x" using only[of m j] r(3) by auto
    then show ?thesis using follow[of q j] r(1,3) m True by (simp add: t)
  next
    case False
    then have "q \<noteq> x" using last[of r "Suc j"] only[of m j] r by (auto simp: t)
    then show ?thesis using False token_invD(5)[OF inv, of q r m j] r by (simp add: t)
  qed
qed

text \<open>The first token of a new family.\<close>

lemma step_issue:
  assumes ideal: "ideal_crypto F" and inv: "token_inv F s" and x: "place F x (sv_draws s) 0" "tk_parent x = None"
    and t: "tokens s' = tokens s @ [x]" and n: "sv_draws s < sv_draws s'"
  shows "token_step F s s'"
proof -
  have "token_inv F s'"
  proof (rule inv_append[OF ideal inv x(1) _ _ _ t n])
    fix r j assume r: "r \<in> set (tokens s)" "place F r (sv_draws s) j"
    then show "j < 0 \<and> \<not> live r" using token_invD(2)[OF inv r(1)] place_unique[OF ideal r(2)] by blast
  qed (use x(2) n in auto)
  then show ?thesis using old_row_refl x(1) n unfolding token_step_def token_rel_def by (auto simp: t)
qed

text \<open>A successor: the live token is revoked and its successor appended.\<close>

lemma step_rotate:
  assumes ideal: "ideal_crypto F" and inv: "token_inv F s"
    and p: "p \<in> set (tokens s)" "live p" "place F p n k"
    and x: "place F x n (Suc k)" "\<And>h. tk_parent x = Some h \<Longrightarrow> h = tk_hash p" "follows p x"
    and t: "tokens s' = update_where (\<lambda>r. tk_hash r = tk_hash p \<and> live r) (revoke now reason) (tokens s) @ [x]"
    and d: "sv_draws s' = sv_draws s"
  shows "token_step F s s'"
proof -
  let ?rows = "update_where (\<lambda>r. tk_hash r = tk_hash p \<and> live r) (revoke now reason) (tokens s)"
  define s1 where "s1 = s'\<lparr>sv_db := (sv_db s')\<lparr>od_tokens := ?rows\<rparr>\<rparr>"
  have s1: "tokens s1 = ?rows" "sv_draws s1 = sv_draws s" by (simp_all add: s1_def d)
  have inv1: "token_inv F s1" using step_update[OF inv s1(1)] s1(2) by (simp add: token_step_def)
  have origin: "\<exists>y\<in>set (tokens s). static r = static y \<and> (live r \<longrightarrow> r = y \<and> tk_hash r \<noteq> tk_hash p)" if r: "r \<in> set ?rows" for r
  proof -
    obtain y where y: "y \<in> set (tokens s)" "r = (if tk_hash y = tk_hash p \<and> live y then revoke now reason y else y)"
      using r unfolding in_update_where by blast
    then show ?thesis by (intro bexI[OF _ y(1)]) (auto simp: revoke_def static_def)
  qed
  have self: "y = p" if "y \<in> set (tokens s)" "tk_hash y = tk_hash p" for y
    using token_invD(1)[OF inv] p(1) that by (auto simp: distinct_map inj_on_def)
  have new_inv: "token_inv F s'"
  proof (rule inv_append[OF ideal inv1 x(1)])
    fix r j assume r: "r \<in> set (tokens s1)" "place F r n j"
    then obtain y where y: "y \<in> set (tokens s)" "static r = static y" "live r \<longrightarrow> r = y \<and> tk_hash r \<noteq> tk_hash p"
      using origin[of r] by (auto simp: s1)
    have "j \<le> k" using token_invD(3)[OF inv y(1) p(1,2) _ p(3)] r(2) place_static[OF y(2)] by blast
    moreover have "\<not> live r"
      using token_invD(3)[OF inv p(1) y(1) _ p(3), of j] y(3) r(2) \<open>j \<le> k\<close> place_hash(2)[OF ideal r(2) p(3)] by auto
    ultimately show "j < Suc k \<and> \<not> live r" by simp
  next
    fix h assume "tk_parent x = Some h"
    then show "\<exists>j. Suc k = Suc j \<and> h = cx_sha (cf_crypto F) (chain F n j)" using x(2)[of h] p(3) by (simp add: place_def)
  next
    fix q j assume q: "q \<in> set (tokens s1)" "place F q n j" "Suc k = Suc j"
    then obtain y where y: "y \<in> set (tokens s)" "static q = static y" using origin[of q] by (auto simp: s1)
    then have "y = p" using self[OF y(1)] place_hash(2)[OF ideal q(2) p(3)] static_eq(2)[OF y(2)] q(3) by simp
    then show "follows q x" using x(3) follows_static[OF y(2) refl] by simp
  next
    show "n < sv_draws s'" using token_invD(2)[OF inv p(1)] place_unique[OF ideal p(3)] d by auto
  qed (simp_all add: t s1 d)
  have "old_row (tokens s) r" if "r \<in> set ?rows" for r
    using old_row_update[OF that] by simp
  moreover have "\<exists>m j. place F x m j \<and> (\<exists>q\<in>set (tokens s). \<exists>i. j = Suc i \<and> live q \<and> place F q m i \<and> follows q x)" using x(1,3) p by blast
  ultimately have "token_rel F s s'" unfolding token_rel_def t d set_append list.set by blast
  then show ?thesis using new_inv by (simp add: token_step_def)
qed

section \<open>Contracts of handlers\<close>

interpretation tk: interference "token_inv F" "later F" for F
  by unfold_locales auto

abbreviation meets ::
  "oauth_config \<Rightarrow> (step_env \<Rightarrow> bool) \<Rightarrow> (oauth_server \<Rightarrow> bool) \<Rightarrow> 'a oauth_handler \<Rightarrow> ('a \<Rightarrow> oauth_server \<Rightarrow> bool) \<Rightarrow> bool" where
  "meets F E \<equiv> holds E (token_inv F) (later F)"

abbreviation durable :: "oauth_config \<Rightarrow> (oauth_server \<Rightarrow> bool) \<Rightarrow> bool" where "durable F \<equiv> stable (token_inv F) (later F)"

lemma meets_bind:
  assumes "meets F E K h (\<lambda>x s. K s \<and> ok x)" "\<And>x. ok x \<Longrightarrow> meets F E K (f x) Q"
  shows "meets F E K (bind_h h f) Q"
proof (rule tk.holds_bind[OF assms(1)])
  fix x show "meets F E (\<lambda>s. K s \<and> ok x) (f x) Q"
    using tk.holds_pure[of "ok x", OF assms(2)] by (simp add: conj_commute)
qed

lemma meets_or_answer:
  assumes "meets F E K h (\<lambda>x s. K s \<and> (\<forall>y. x = Inr y \<longrightarrow> ok y))"
    "\<And>y. ok y \<Longrightarrow> meets F E K (f y) Q" "\<And>s. K s \<Longrightarrow> Q (Inl r) s"
  shows "meets F E K (bind_r (or_answer r h) f) Q"
proof (rule tk.holds_bind_r)
  show "meets F E K (or_answer r h) (\<lambda>x s. case x of Inl y \<Rightarrow> Q (Inl y) s | Inr y \<Rightarrow> K s \<and> ok y)"
    unfolding or_answer_def
    by (rule meets_bind[OF assms(1)]) (auto intro!: tk.holds_Answer simp: assms(3) map_sum_def split: sum.splits)
  fix y show "meets F E (\<lambda>s. K s \<and> ok y) (f y) Q"
    using tk.holds_pure[of "ok y", OF assms(2)] by (simp add: conj_commute)
qed

lemma meets_guard:
  assumes "b \<Longrightarrow> meets F E K (f ()) Q" "\<And>s. K s \<Longrightarrow> Q (Inl r) s"
  shows "meets F E K (bind_r (guard b r) f) Q"
  using assms by (auto simp: guard_def bind_r_def intro: tk.holds_Answer)

lemma meets_answer_of:
  assumes "meets F E K h (\<lambda>x. Q (case x of Inl r \<Rightarrow> r | Inr r \<Rightarrow> r))"
  shows "meets F E K (answer_of h) Q"
  unfolding answer_of_def by (rule tk.holds_bind[OF assms]) (auto intro: tk.holds_Answer)

lemma meets_ask: "durable F K \<Longrightarrow> meets F E K (ask f) (\<lambda>x s. K s \<and> (\<exists>e. E e \<and> x = f e))"
  using tk.holds_ask[of F K E f] by (simp add: conj_commute)

text \<open>A store call: its outcome where it succeeds, and nothing but the lasting facts where it reports an error.\<close>

lemma meets_outcome:
  assumes K: "durable F K" and inv: "token_inv F s" "K s" and s1: "later F s s1"
    and f: "\<And>x db. f (sv_db s1) = Inr (x, db) \<Longrightarrow> token_step F s1 (s1\<lparr>sv_db := db\<rparr>) \<and> Q (Inr x) (s1\<lparr>sv_db := db\<rparr>)"
    and none: "token_inv F s1" "\<And>s x. K s \<Longrightarrow> Q (Inl x) s"
  shows "token_inv F (snd (store_outcome e f s1)) \<and> later F s (snd (store_outcome e f s1)) \<and>
    Q (fst (store_outcome e f s1)) (snd (store_outcome e f s1))"
proof -
  have K': "K s'" if "later F s s'" "token_inv F s'" for s'
    using K inv that unfolding stable_def by blast
  show ?thesis
  proof (cases "f (sv_db s1)")
    case (Inl x)
    then show ?thesis using K'[OF s1 none(1)] none s1 by (auto simp: store_outcome_def Let_def split: option.split)
  next
    case (Inr y)
    then obtain x db where y: "f (sv_db s1) = Inr (x, db)" by (cases y) auto
    have st: "token_inv F (s1\<lparr>sv_db := db\<rparr>)" "later F s (s1\<lparr>sv_db := db\<rparr>)" "Q (Inr x) (s1\<lparr>sv_db := db\<rparr>)"
      using f[OF y] s1 unfolding token_step_def by (auto intro: rtranclp.rtrancl_into_rtrancl)
    show ?thesis using y st K'[OF st(2,1)] K'[OF s1 none(1)] none s1
      by (auto simp: store_outcome_def Let_def split: option.split)
  qed
qed

lemma meets_store:
  assumes K: "durable F K"
    and f: "\<And>e s x db. E e \<Longrightarrow> token_inv F s \<Longrightarrow> K s \<Longrightarrow> f e (sv_db s) = Inr (x, db) \<Longrightarrow>
      token_step F s (s\<lparr>sv_db := db\<rparr>) \<and> Q (Inr x) (s\<lparr>sv_db := db\<rparr>)"
    and none: "\<And>s x. K s \<Longrightarrow> Q (Inl x) s"
  shows "meets F E K (store_call f) Q"
  unfolding store_call_def
  by (rule tk.holds_atomic[OF K], rule meets_outcome[OF K]) (use f none in \<open>auto\<close>)

lemma meets_read:
  assumes K: "durable F K"
    and f: "\<And>s x. token_inv F s \<Longrightarrow> K s \<Longrightarrow> f (sv_db s) = Inr x \<Longrightarrow> Q (Inr x) s"
    and none: "\<And>s x. K s \<Longrightarrow> Q (Inl x) s"
  shows "meets F E K (store_read f) Q"
  unfolding store_read_def
proof (rule meets_store[OF K])
  fix e s x db assume a: "token_inv F s" "K s" "map_sum id (\<lambda>x. (x, sv_db s)) (f (sv_db s)) = Inr (x, db)"
  then have "f (sv_db s) = Inr x" "db = sv_db s" by (auto simp: map_sum_def split: sum.splits)
  then show "token_step F s (s\<lparr>sv_db := db\<rparr>) \<and> Q (Inr x) (s\<lparr>sv_db := db\<rparr>)"
    using f[OF a(1,2)] a(1) by (simp add: step_same)
qed (rule none)

lemma meets_read_keep: "durable F K \<Longrightarrow> meets F E K (store_read f) (\<lambda>x s. K s \<and> (\<forall>y. x = Inr y \<longrightarrow> True))"
  by (rule meets_read) auto

end
