(* ===== verification/TokenProps.thy ===== *)
theory TokenProps
  imports TokenInv
begin

text \<open>
  What the token endpoint guarantees while any number of requests, revocations, sweeps and account deletions interleave
  at every store call: a family has at most one live token; a refresh never widens the grant, changes the client or
  the user, or outlives the family's expiry; a token replayed after the grace window ends its family for good; and every
  request answers after a bounded number of its own steps.
\<close>

section \<open>Scope texts\<close>

definition word :: "string \<Rightarrow> bool" where "word w \<longleftrightarrow> w \<noteq> [] \<and> (\<forall>c\<in>set w. \<not> space_head c)"

lemma strip_word: "\<not> space_head c \<Longrightarrow> strip_prefix_of space_encodings (c # s) = None"
  using space_encodings_heads by (intro strip_prefix_of_None) blast

lemma strip_blank: "strip_prefix_of space_encodings (CHR '' '' # s) = Some s"
  by (simp add: space_encodings_def char_of_eq_iff prefix_Cons)

lemma fields_acc_word: "(\<And>c. c \<in> set w \<Longrightarrow> \<not> space_head c) \<Longrightarrow> fields_acc acc (w @ s) = fields_acc (acc @ w) s"
  by (induction w arbitrary: acc) (simp_all add: strip_word)

lemma Fields_join: "(\<And>w. w \<in> set ws \<Longrightarrow> word w) \<Longrightarrow> Fields (join_with '' '' ws) = ws"
proof (induction "'' ''" ws rule: join_with.induct)
  case (2 w)
  then have "word w" by simp
  then show ?case using fields_acc_word[of w "[]" "[]"] by (simp add: Fields_def word_def)
next
  case (3 w v vs)
  have "word w" using "3.prems" by simp
  then have "Fields (w @ '' '' @ join_with '' '' (v # vs)) = w # Fields (join_with '' '' (v # vs))"
    using fields_acc_word[of w "[]" "'' '' @ join_with '' '' (v # vs)"] strip_blank by (simp add: Fields_def word_def)
  then show ?case using 3 by simp
qed (simp add: Fields_def)

definition granted_scopes :: "string set" where
  "granted_scopes = set (admin_scopes @ client_scopes @ [''admin:broadcast'', ''admin:users:read''])"

lemma granted_words: "list_all word (admin_scopes @ client_scopes @ [''admin:broadcast'', ''admin:users:read''])"
  by code_simp

lemma granted_word: "s \<in> granted_scopes \<Longrightarrow> word s"
  using granted_words unfolding granted_scopes_def list_all_iff by blast

lemma scopes_of_join:
  assumes "set scopes \<subseteq> granted_scopes"
  shows "set (Fields (column (nullable (join_with '' '' scopes)))) = set scopes"
proof -
  have "Fields (join_with '' '' scopes) = scopes" using Fields_join[of scopes] granted_word assms by blast
  moreover have "Fields [] = []" by (simp add: Fields_def)
  ultimately show ?thesis by (cases "join_with '' '' scopes = []") (auto simp: nullable_def column_def)
qed

section \<open>Contracts of the parts\<close>

lemma ResolveScopes_meets:
  assumes K: "durable F K"
  shows "meets F E K (ResolveScopes F tg) (\<lambda>x s. K s \<and> (\<forall>y. x = Inr y \<longrightarrow> set (snd y) \<subseteq> granted_scopes))"
proof -
  have tier: "meets F E K (isClientTier F tg) (\<lambda>x s. K s \<and> True)"
    unfolding isClientTier_def bind_r_def
    by (rule meets_bind[OF meets_read_keep[OF K]]) (auto intro!: tk.holds_Answer split: sum.split)
  have "meets F E K (bind_r (isClientTier F tg) (\<lambda>isClient. Answer (Inr (if isClient then ([''clients''], client_scopes) else ([], [])))))
      (\<lambda>x s. K s \<and> (\<forall>y. x = Inr y \<longrightarrow> set (snd y) \<subseteq> granted_scopes))"
    unfolding bind_r_def
    by (rule meets_bind[OF tier]) (auto intro!: tk.holds_Answer simp: granted_scopes_def split: sum.split)
  then show ?thesis unfolding ResolveScopes_def
    by (auto intro!: tk.holds_Answer simp: granted_scopes_def)
qed

lemma StillValid_meets:
  assumes K: "durable F K"
  shows "meets F E K (refreshGrantStillValid b fam tg) (\<lambda>x s. K s \<and> (\<forall>y. x = Inr y \<longrightarrow> True))"
proof (cases "b = []")
  case True
  then have b: "(b \<noteq> []) = False" by simp
  show ?thesis unfolding refreshGrantStillValid_def bind_r_def b if_False
    by (rule meets_bind[OF meets_read_keep[OF K]])
       (auto split: sum.split intro!: tk.holds_Answer meets_bind[OF meets_read_keep[OF K]])
qed (auto simp: refreshGrantStillValid_def intro: tk.holds_Answer)

lemma mint_meets:
  assumes K: "durable F K"
  shows "meets F E K (mintAccessToken F origin tg name groups scopes) (\<lambda>x s. K s \<and>
    (\<forall>c. x = Inr c \<longrightarrow> cl_scopes c = scopes \<and> cl_telegram_id c = tg \<and> cl_client_id c = to_client_id origin))"
  unfolding mintAccessToken_def
  by (rule tk.holds_weaken[OF meets_ask[OF K]]) (auto split: option.splits)

lemma clock_meets: "durable F K \<Longrightarrow> meets F E K (ask en_clock) (\<lambda>x s. K s \<and> (\<exists>e. E e \<and> x = en_clock e))"
  by (rule meets_ask)

lemma cimd_verdict_Inl: "cimd_verdict b e = Inl y \<Longrightarrow> \<exists>r. y = writeCIMDTokenError r"
  by (auto simp: cimd_verdict_def split: option.split_asm sum.split_asm if_split_asm)

lemma cimd_meets:
  assumes K: "durable F K" and f: "meets F E K (f ()) Q" and Q: "\<And>s r. K s \<Longrightarrow> Q (Inl (writeCIMDTokenError r)) s"
  shows "meets F E K (bind_r (cimd_gate b) f) Q"
proof -
  have "meets F E K (cimd_gate b) (\<lambda>x s. K s \<and> (\<forall>y. x = Inl y \<longrightarrow> (\<exists>r. y = writeCIMDTokenError r)))"
    unfolding cimd_gate_def
    by (rule tk.holds_weaken[OF meets_ask[OF K]]) (use cimd_verdict_Inl in \<open>auto dest: sym\<close>)
  then show ?thesis unfolding bind_r_def
    by (rule meets_bind) (auto simp: f Q split: sum.split intro!: tk.holds_Answer)
qed

lemma display_meets:
  assumes K: "durable F K" shows "meets F E K (clientDisplayName cid) (\<lambda>x s. K s \<and> True)"
proof -
  have "meets F E K (atomic (\<lambda>e s. (g s, s))) (\<lambda>x s. K s \<and> True)" for g :: "oauth_server \<Rightarrow> string"
    by (rule tk.holds_atomic[OF K]) simp
  then show ?thesis unfolding clientDisplayName_def
    by (intro meets_bind[OF meets_ask[OF K]])
       (auto split: option.split sum.split intro!: tk.holds_Answer meets_bind[OF meets_read_keep[OF K]])
qed

subsection \<open>Store operations\<close>

lemma revoke_step:
  assumes "token_inv F s" shows "token_step F s (s\<lparr>sv_db := snd (revoke_where P now reason (sv_db s))\<rparr>)"
  by (rule step_update[OF assms, where P = "\<lambda>r. P r \<and> live r" and g = "revoke now reason"]) (auto simp: revoke_where_def)

lemma revoke_where_dead: "r \<in> set (od_tokens (snd (revoke_where P now reason db))) \<Longrightarrow> P r \<Longrightarrow> (\<And>r. P (revoke now reason r) = P r) \<Longrightarrow> \<not> live r"
  by (auto simp: revoke_where_def in_update_where revoke_def)

lemma revoke_family_meets:
  assumes ideal: "ideal_crypto F" and K: "durable F K" and n: "\<And>s. K s \<Longrightarrow> n < sv_draws s" and fam: "fam = cx_random (cf_crypto F) 16 n"
  shows "meets F E K (revoke_family fam reason) (\<lambda>x s. K s \<and> (\<forall>y. x = Inr y \<longrightarrow> dead F n s))"
  unfolding revoke_family_def
proof (rule meets_store[OF K])
  fix e s x db assume s: "token_inv F s" "K s" and o: "Inr (RevokeRefreshTokenFamily fam reason (en_now e) (sv_db s)) = Inr (x, db)"
  have db: "db = snd (revoke_where (\<lambda>r. tk_family r = fam) (en_now e) reason (sv_db s))"
    using o by (simp add: RevokeRefreshTokenFamily_def)
  have st: "token_step F s (s\<lparr>sv_db := db\<rparr>)" unfolding db by (rule revoke_step[OF s(1)])
  then have "K (s\<lparr>sv_db := db\<rparr>)" using K s unfolding stable_def token_step_def by blast
  moreover have "dead F n (s\<lparr>sv_db := db\<rparr>)" unfolding dead_def
  proof (intro conjI ballI allI impI)
    fix r k assume "r \<in> set (tokens (s\<lparr>sv_db := db\<rparr>))" "place F r n k"
    then show "\<not> live r" using revoke_where_dead[of r "\<lambda>r. tk_family r = fam"] by (simp add: db place_def fam revoke_def)
  qed (use n[OF s(2)] in simp)
  ultimately show "token_step F s (s\<lparr>sv_db := db\<rparr>) \<and> K (s\<lparr>sv_db := db\<rparr>) \<and> (\<forall>y. Inr x = Inr y \<longrightarrow> dead F n (s\<lparr>sv_db := db\<rparr>))"
    using st by simp
qed simp

text \<open>A row that was read, and its struct.\<close>

lemma lookup_row:
  assumes "LookupRefreshToken sha t db = Inr rt"
  obtains r where "r \<in> set (od_tokens db)" "tk_hash r = sha t" "rt = scan_token r"
  using assms by (auto simp: LookupRefreshToken_def split: if_splits option.splits dest: find_SomeD)

lemma lookup_known:
  assumes ideal: "ideal_crypto F" and inv: "token_inv F s" and l: "LookupRefreshToken (cx_sha (cf_crypto F)) t (sv_db s) = Inr rt"
  obtains r n k where "t = chain F n k" "known F r n k s" "r \<in> set (tokens s)" "rt = scan_token r"
proof -
  obtain r where r: "r \<in> set (tokens s)" "tk_hash r = cx_sha (cf_crypto F) t" "rt = scan_token r" using lookup_row[OF l] by blast
  obtain n k where k: "place F r n k" using token_row_place[OF inv r(1)] by blast
  then have "t = chain F n k" using place_hash(1)[OF ideal k, of t] r(2) by simp
  then show ?thesis using that known_intro[OF ideal inv r(1) k] r by blast
qed

lemma rotate_step:
  assumes ideal: "ideal_crypto F" and inv: "token_inv F s" and kn: "known F r0 n k s"
    and scopes: "set scopes \<subseteq> granted_scopes" "set scopes \<subseteq> scopes_of r0"
    and ok: "RotateRefreshToken (cx_sha (cf_crypto F)) (chain F n k) (chain F n (Suc k)) (successor (scan_token r0) scopes) now (sv_db s) = Inr db"
  shows "token_step F s (s\<lparr>sv_db := db\<rparr>)"
proof -
  let ?h = "cx_sha (cf_crypto F) (chain F n k)"
  define x where "x = token_of (cx_sha (cf_crypto F) (chain F n (Suc k))) (successor (scan_token r0) scopes\<lparr>ParentTokenHash := Some ?h\<rparr>) now"
  have n0: "count_where (\<lambda>r. tk_hash r = ?h \<and> live r) (tokens s) \<noteq> 0"
    and db: "db = (sv_db s)\<lparr>od_tokens := update_where (\<lambda>r. tk_hash r = ?h \<and> live r) (revoke now ''rotated'') (tokens s) @ [x]\<rparr>"
    using ok by (auto simp: RotateRefreshToken_def revoke_where_def saveRefreshToken_def Let_def x_def split: if_splits)
  obtain p where p: "p \<in> set (tokens s)" "tk_hash p = ?h" "live p"
    using n0 by (auto simp: count_where_def filter_empty_conv)
  obtain m j where "place F p m j" using token_row_place[OF inv p(1)] by blast
  then have pl: "place F p n k" using place_hash(1)[OF ideal, of p m j "chain F n k"] p(2) chain_inject[OF ideal, of n k m j] by simp
  then have st: "static p = static r0" using kn p(1) by (simp add: known_def)
  have r0: "place F r0 n k" using kn by (simp add: known_def)
  show ?thesis
  proof (rule step_rotate[OF ideal inv p(1,3) pl, of x])
    show "place F x n (Suc k)" using r0 by (simp add: place_def x_def token_of_def successor_def scan_token_def)
    show "h = tk_hash p" if "tk_parent x = Some h" for h
      using that p(2) by (auto simp: x_def token_of_def nullableBytes_def split: if_splits)
    have "follows r0 x" using scopes_of_join[OF scopes(1)] scopes(2)
      by (auto simp: follows_def scopes_of_def x_def token_of_def successor_def scan_token_def redirectURIValue_def column_def
          split: option.splits)
    then show "follows p x" using follows_static[OF st refl] by simp
  qed (simp_all add: db p(2))
qed

section \<open>Refresh\<close>

text \<open>What a response may grant to the holder of a row.\<close>

definition allowed :: "token_row \<Rightarrow> token_response \<Rightarrow> bool" where
  "allowed r x = (case x of
     TokenJSON tok refresh ttl scopes \<Rightarrow> set scopes \<subseteq> scopes_of r \<and> cl_scopes tok = scopes \<and>
       cl_telegram_id tok = tk_telegram_id r \<and> cl_client_id tok = tk_client_id r
   | _ \<Rightarrow> True)"

lemma allowed_simps [simp]: "allowed r (TokenError c d n)" "allowed r RevokeSuccess"
  by (simp_all add: allowed_def)

lemma allowed_JSON [simp]:
  "allowed r (writeTokenJSON F tok refresh scopes) \<longleftrightarrow> set scopes \<subseteq> scopes_of r \<and> cl_scopes tok = scopes \<and>
     cl_telegram_id tok = tk_telegram_id r \<and> cl_client_id tok = tk_client_id r"
  by (simp add: allowed_def writeTokenJSON_def)

lemma allowed_static: "static r = static r' \<Longrightarrow> allowed r x = allowed r' x"
  by (auto simp: allowed_def scopes_of_def static_eq[of r r'] split: token_response.split)

lemma bound_scopes:
  assumes "boundRefreshGrant g sc orig = (groups, scopes)" "set sc \<subseteq> granted_scopes"
  shows "set scopes \<subseteq> granted_scopes" "set scopes \<subseteq> set (Fields orig)"
  using assms by (auto simp: boundRefreshGrant_def Let_def split: if_splits)

text \<open>The successor a replay finds: live, and it follows the token that was replayed.\<close>

lemma pair_follows:
  assumes ideal: "ideal_crypto F" and inv: "token_inv F s" and kn: "known F r0 n k s"
    and l: "LookupRefreshTokenByHashPair (cx_sha (cf_crypto F)) t (chain F n (Suc k)) fam cid (sv_db s) = Inr child"
  shows "set (Fields (Scope child)) \<subseteq> scopes_of r0 \<and> TelegramID child = tk_telegram_id r0 \<and> ClientID child = tk_client_id r0 \<and> \<not> dead F n s"
proof -
  obtain c where c: "c \<in> set (tokens s)" "tk_hash c = cx_sha (cf_crypto F) (chain F n (Suc k))" "tk_client_id c = cid" "live c"
    "child = (scan_token c)\<lparr>FamilyID := fam, ClientID := cid, RevokedAt := None, RevokedReason := []\<rparr>"
    using l unfolding LookupRefreshTokenByHashPair_def by (auto split: option.splits dest: find_SomeD)
  obtain m j where "place F c m j" using token_row_place[OF inv c(1)] by blast
  then have pl: "place F c n (Suc k)"
    using place_hash(1)[OF ideal, of c m j "chain F n (Suc k)"] c(2) chain_inject[OF ideal, of n "Suc k" m j] by simp
  then have "follows r0 c" using kn c(1) by (simp add: known_def)
  then show ?thesis using c pl by (auto simp: follows_def scopes_of_def scan_token_def dead_def)
qed

lemma reissue_meets:
  assumes K: "durable F K"
    and c: "set (Fields (Scope c)) \<subseteq> scopes_of r0" "TelegramID c = tk_telegram_id r0" "ClientID c = tk_client_id r0"
  shows "meets F E K (reissue_child F cand c) (\<lambda>g s. K s \<and> (\<forall>x. grace_response g = Some x \<longrightarrow> allowed r0 x))"
  unfolding reissue_child_def
proof (intro meets_answer_of meets_bind[OF clock_meets[OF K]] meets_guard meets_or_answer[OF ResolveScopes_meets[OF K]])
  fix cur :: "string list \<times> string list" assume cur: "set (snd cur) \<subseteq> granted_scopes"
  have sc: "set (snd (boundRefreshGrant (fst cur) (snd cur) (Scope c))) \<subseteq> scopes_of r0"
    using bound_scopes(2)[OF prod.collapse[symmetric] cur] c(1) by blast
  show "meets F E K (reissue_grant F cand c (boundRefreshGrant (fst cur) (snd cur) (Scope c)))
    (\<lambda>x s. K s \<and> (\<forall>y. grace_response (case x of Inl r \<Rightarrow> r | Inr r \<Rightarrow> r) = Some y \<longrightarrow> allowed r0 y))"
    unfolding reissue_grant_def
    by (intro meets_or_answer[OF StillValid_meets[OF K]] meets_guard meets_bind[OF mint_meets[OF K]] tk.holds_Answer)
       (auto simp: grace_response_def sc c split: sum.split mint_error.split)
qed (auto simp: grace_response_def)

lemma grace_meets:
  assumes ideal: "ideal_crypto F" and K: "durable F K" and kn: "\<And>s. K s \<Longrightarrow> known F r0 n k s"
  shows "meets F E K (attemptGraceRecovery F (chain F n k) reason at_time fam cid) (\<lambda>g s. K s \<and>
    (\<forall>x. grace_response g = Some x \<longrightarrow> allowed r0 x \<and>
      (\<exists>e. E e \<and> reason = ''rotated'' \<and> time_sub (en_clock e) at_time < rotationGraceWindow)))"
proof -
  have next_chain: "deriveSuccessorRefreshToken F (chain F n k) = chain F n (Suc k)" by (simp add: chain_def)
  let ?fits = "\<lambda>c. set (Fields (Scope c)) \<subseteq> scopes_of r0 \<and> TelegramID c = tk_telegram_id r0 \<and> ClientID c = tk_client_id r0"
  have look: "meets F E K (store_read (LookupRefreshTokenByHashPair (cx_sha (cf_crypto F)) (chain F n k) (chain F n (Suc k)) fam cid))
      (\<lambda>x s. K s \<and> (\<forall>c. x = Inr c \<longrightarrow> ?fits c))"
    by (rule meets_read[OF K]) (use pair_follows[OF ideal _ kn] in blast)+
  have body: "meets F E K (bind_h (store_read (LookupRefreshTokenByHashPair (cx_sha (cf_crypto F)) (chain F n k) (chain F n (Suc k)) fam cid)) (\<lambda>r.
       case r of Inl ErrRefreshTokenNotFound \<Rightarrow> Answer (GraceRejectedSoft (invalid_grant ''refresh token already used''))
       | Inl _ \<Rightarrow> Answer (GraceServerError (server_error ''could not verify grace-window replay''))
       | Inr child \<Rightarrow> reissue_child F (chain F n (Suc k)) child))
     (\<lambda>g s. K s \<and> (\<forall>x. grace_response g = Some x \<longrightarrow> allowed r0 x))"
    by (rule meets_bind[OF look])
       (auto simp: grace_response_def intro!: tk.holds_Answer reissue_meets[OF K, unfolded grace_response_def] split: sum.split oauth_error.split)
  show ?thesis unfolding attemptGraceRecovery_def Let_def next_chain
    by (rule meets_bind[OF clock_meets[OF K]])
       (auto intro!: tk.holds_Answer tk.holds_weaken[OF body] simp: grace_response_def)
qed

lemma kill_meets:
  assumes ideal: "ideal_crypto F" and K: "durable F K" and kn: "\<And>s. K s \<Longrightarrow> known F r0 n k s" and fam: "fam = tk_family r0"
  shows "meets F E K (revoke_family fam reason) (\<lambda>x s. K s \<and> (\<forall>y. x = Inr y \<longrightarrow> dead F n s))"
proof (cases "\<exists>s. K s")
  case True
  then have "tk_family r0 = cx_random (cf_crypto F) 16 n" using kn by (auto simp: known_def place_def)
  then show ?thesis using revoke_family_meets[OF ideal K _ _, of n fam E reason] kn fam by (auto simp: known_def)
qed (simp add: holds_def)

lemma lost_race_meets:
  assumes ideal: "ideal_crypto F" and K: "durable F K" and kn: "\<And>s. K s \<Longrightarrow> known F r0 n k s"
  shows "meets F E K (lost_race F (chain F n k) cid (scan_token r0)) (\<lambda>x s. K s \<and> allowed r0 x)"
proof -
  have fam: "FamilyID (scan_token r0) = tk_family r0" by (simp add: scan_token_def)
  have kill: "meets F E K (bind_h (revoke_family (tk_family r0) ''reuse_detected'') (\<lambda>_. Answer (invalid_grant ''refresh token already used'')))
      (\<lambda>x s. K s \<and> allowed r0 x)"
    by (rule tk.holds_bind[OF kill_meets[OF ideal K kn refl]]) (auto intro: tk.holds_Answer)
  show ?thesis unfolding lost_race_def Let_def fam
    by (rule meets_bind[OF meets_read_keep[OF K]])
       (auto simp: kill intro!: tk.holds_Answer meets_bind[OF grace_meets[OF ideal K kn]] split: sum.split oauth_error.split option.split)
qed

lemma rotation_call_meets:
  assumes ideal: "ideal_crypto F" and K: "durable F K" and kn: "\<And>s. K s \<Longrightarrow> known F r0 n k s"
    and sc: "set scopes \<subseteq> granted_scopes" "set scopes \<subseteq> scopes_of r0"
  shows "meets F E K (store_call (\<lambda>e db. map_sum id (\<lambda>db1. ((), db1))
      (RotateRefreshToken (cx_sha (cf_crypto F)) (chain F n k) (chain F n (Suc k)) (successor (scan_token r0) scopes) (en_now e) db)))
    (\<lambda>x s. K s \<and> True)"
proof (rule meets_store[OF K])
  fix e s x db
  assume s: "token_inv F s" "K s" and o: "map_sum id (\<lambda>db1. ((), db1))
    (RotateRefreshToken (cx_sha (cf_crypto F)) (chain F n k) (chain F n (Suc k)) (successor (scan_token r0) scopes) (en_now e) (sv_db s)) = Inr (x, db)"
  have "RotateRefreshToken (cx_sha (cf_crypto F)) (chain F n k) (chain F n (Suc k)) (successor (scan_token r0) scopes) (en_now e) (sv_db s) = Inr db"
    using o by (auto simp: map_sum_def split: sum.splits)
  then have "token_step F s (s\<lparr>sv_db := db\<rparr>)" using rotate_step[OF ideal s(1) kn[OF s(2)] sc] by blast
  then show "token_step F s (s\<lparr>sv_db := db\<rparr>) \<and> K (s\<lparr>sv_db := db\<rparr>) \<and> True"
    using K s unfolding stable_def token_step_def by blast
qed simp

lemma commit_meets:
  assumes ideal: "ideal_crypto F" and K: "durable F K" and kn: "\<And>s. K s \<Longrightarrow> known F r0 n k s"
    and sc: "set scopes \<subseteq> granted_scopes" "set scopes \<subseteq> scopes_of r0"
    and tok: "cl_scopes tok = scopes" "cl_telegram_id tok = tk_telegram_id r0" "cl_client_id tok = tk_client_id r0"
  shows "meets F E K (commit_rotation F (chain F n k) cid (scan_token r0) scopes tok)
    (\<lambda>x s. K s \<and> allowed r0 (case x of Inl r \<Rightarrow> r | Inr r \<Rightarrow> r))"
proof -
  have next_chain: "deriveSuccessorRefreshToken F (chain F n k) = chain F n (Suc k)" by (simp add: chain_def)
  show ?thesis unfolding commit_rotation_def Let_def next_chain
    by (rule meets_bind[OF rotation_call_meets[OF ideal K kn sc]])
       (auto simp: sc tok intro!: tk.holds_Answer meets_bind[OF lost_race_meets[OF ideal K kn]] split: sum.split oauth_error.split)
qed

lemma rotate_live_meets:
  assumes ideal: "ideal_crypto F" and K: "durable F K" and kn: "\<And>s. K s \<Longrightarrow> known F r0 n k s"
  shows "meets F E K (rotate_live F (chain F n k) cid (scan_token r0)) (\<lambda>x s. K s \<and> allowed r0 (case x of Inl r \<Rightarrow> r | Inr r \<Rightarrow> r))"
  unfolding rotate_live_def
proof (rule meets_or_answer[OF ResolveScopes_meets[OF K]])
  let ?rt = "scan_token r0"
  fix cur :: "string list \<times> string list" assume cur: "set (snd cur) \<subseteq> granted_scopes"
  have sc: "set (snd (boundRefreshGrant (fst cur) (snd cur) (Scope ?rt))) \<subseteq> granted_scopes"
    "set (snd (boundRefreshGrant (fst cur) (snd cur) (Scope ?rt))) \<subseteq> scopes_of r0"
    using bound_scopes[OF prod.collapse[symmetric] cur] by (simp_all add: scopes_of_def scan_token_def)
  have who: "TelegramID ?rt = tk_telegram_id r0" "ClientID ?rt = tk_client_id r0" by (simp_all add: scan_token_def)
  show "meets F E K (rotate_grant F (chain F n k) cid ?rt (boundRefreshGrant (fst cur) (snd cur) (Scope ?rt)))
    (\<lambda>x s. K s \<and> allowed r0 (case x of Inl r \<Rightarrow> r | Inr r \<Rightarrow> r))"
    unfolding rotate_grant_def
    by (intro meets_or_answer[OF StillValid_meets[OF K]] meets_guard meets_bind[OF mint_meets[OF K]])
       (auto simp: who intro!: tk.holds_Answer commit_meets[OF ideal K kn sc] split: sum.split mint_error.split)
qed simp

text \<open>Everyone past the grace window of a revocation.\<close>

definition late :: "(step_env \<Rightarrow> bool) \<Rightarrow> instant \<Rightarrow> bool" where
  "late E at_time \<longleftrightarrow> (\<forall>e. E e \<longrightarrow> time_sub (en_clock e) at_time \<ge> rotationGraceWindow)"

definition no_grant :: "token_response \<Rightarrow> bool" where
  "no_grant x = (case x of TokenJSON _ _ _ _ \<Rightarrow> False | _ \<Rightarrow> True)"

text \<open>What the answer to a replayed token says of its family.\<close>

definition reuse_handled :: "oauth_config \<Rightarrow> nat \<Rightarrow> token_response \<Rightarrow> oauth_server \<Rightarrow> bool" where
  "reuse_handled F n x s \<longleftrightarrow> no_grant x \<and> (x = invalid_grant ''refresh token already used'' \<longrightarrow> dead F n s)"

lemma refresh_revoked_meets:
  assumes ideal: "ideal_crypto F" and K: "durable F K" and kn: "\<And>s. K s \<Longrightarrow> known F r0 n k s"
  shows "meets F E K (refresh_revoked F (chain F n k) cid (scan_token r0) t) (\<lambda>x s. K s \<and> allowed r0 x \<and>
    (late E t \<longrightarrow> reuse_handled F n x s))"
  unfolding refresh_revoked_def
proof (rule meets_bind[OF grace_meets[OF ideal K kn]])
  have fam: "FamilyID (scan_token r0) = tk_family r0" by (simp add: scan_token_def)
  fix g assume g: "\<forall>x. grace_response g = Some x \<longrightarrow> allowed r0 x \<and>
      (\<exists>e. E e \<and> RevokedReason (scan_token r0) = ''rotated'' \<and> time_sub (en_clock e) t < rotationGraceWindow)"
  have "meets F E K (bind_h (revoke_family (FamilyID (scan_token r0)) ''reuse_detected'') (\<lambda>r. Answer (case r of
           Inl _ \<Rightarrow> server_error ''could not complete reuse detection''
         | Inr _ \<Rightarrow> invalid_grant ''refresh token already used''))) (\<lambda>x s. K s \<and> allowed r0 x \<and> (late E t \<longrightarrow> reuse_handled F n x s))"
    unfolding fam
    by (rule tk.holds_bind[OF kill_meets[OF ideal K kn refl]])
       (auto intro!: tk.holds_Answer simp: reuse_handled_def no_grant_def split: sum.split)
  moreover have "\<not> late E t" if "grace_response g = Some x" for x using g that by (force simp: late_def)
  ultimately show "meets F E K (case grace_response g of Some r \<Rightarrow> Answer r
     | None \<Rightarrow> bind_h (revoke_family (FamilyID (scan_token r0)) ''reuse_detected'') (\<lambda>r. Answer (case r of
           Inl _ \<Rightarrow> server_error ''could not complete reuse detection''
         | Inr _ \<Rightarrow> invalid_grant ''refresh token already used'')))
     (\<lambda>x s. K s \<and> allowed r0 x \<and> (late E t \<longrightarrow> reuse_handled F n x s))"
    using g by (auto split: option.split intro!: tk.holds_Answer)
qed

lemma refresh_found_meets:
  assumes ideal: "ideal_crypto F" and K: "durable F K" and kn: "\<And>s. K s \<Longrightarrow> known F r0 n k s"
  shows "meets F E K (refresh_found F (chain F n k) cid (scan_token r0)) (\<lambda>x s. K s \<and> allowed r0 x \<and>
    (\<forall>t. tk_revoked_at r0 = Some t \<longrightarrow> late E t \<longrightarrow> reuse_handled F n x s))"
proof (cases "tk_revoked_at r0")
  case None
  then have "refresh_found F (chain F n k) cid (scan_token r0) = answer_of (bind_h (ask en_clock) (\<lambda>now.
      bind_r (guard (\<not> Expired (scan_token r0) now) (invalid_grant ''refresh token expired'')) (\<lambda>_.
      bind_r (guard (ClientID (scan_token r0) = cid) (invalid_grant ''client_id mismatch'')) (\<lambda>_.
      rotate_live F (chain F n k) cid (scan_token r0)))))"
    by (simp add: refresh_found_def scan_token_def)
  then show ?thesis
    by (simp add: None) (intro meets_answer_of meets_bind[OF clock_meets[OF K]] meets_guard rotate_live_meets[OF ideal K kn]; simp)
next
  case (Some t)
  then have "refresh_found F (chain F n k) cid (scan_token r0) = refresh_revoked F (chain F n k) cid (scan_token r0) t"
    by (simp add: refresh_found_def scan_token_def)
  then show ?thesis using refresh_revoked_meets[OF ideal K kn] Some by simp
qed

lemma holds_ex: "(\<And>a. meets F E (K a) h Q) \<Longrightarrow> meets F E (\<lambda>s. \<exists>a. K a s) h Q"
  unfolding holds_def by blast

text \<open>The token was looked up in a state where its row was \<open>r\<close>, and the row is known since.\<close>

definition found_in :: "oauth_config \<Rightarrow> (oauth_server \<Rightarrow> bool) \<Rightarrow> string \<Rightarrow> oauth_server \<times> token_row \<times> nat \<times> nat \<Rightarrow> bool" where
  "found_in F K tok a = (case a of (s0, r, n, k) \<Rightarrow> K s0 \<and> r \<in> set (tokens s0) \<and> tok = chain F n k)"

definition found_now :: "oauth_config \<Rightarrow> oauth_server \<times> token_row \<times> nat \<times> nat \<Rightarrow> oauth_server \<Rightarrow> bool" where
  "found_now F a s = (case a of (s0, r, n, k) \<Rightarrow> known F r n k s)"

lemma lookup_meets:
  assumes ideal: "ideal_crypto F" and K: "durable F K"
  shows "meets F E K (store_read (LookupRefreshToken (cx_sha (cf_crypto F)) tok)) (\<lambda>x s. K s \<and>
    (\<forall>rt. x = Inr rt \<longrightarrow> (\<exists>a. found_in F K tok a \<and> rt = scan_token (fst (snd a)) \<and> K s \<and> found_now F a s)))"
proof (rule meets_read[OF K])
  fix s rt assume s: "token_inv F s" "K s" "LookupRefreshToken (cx_sha (cf_crypto F)) tok (sv_db s) = Inr rt"
  obtain r n k where r: "tok = chain F n k" "known F r n k s" "r \<in> set (tokens s)" "rt = scan_token r"
    using lookup_known[OF ideal s(1,3)] .
  then have "found_in F K tok (s, r, n, k) \<and> rt = scan_token (fst (snd (s, r, n, k))) \<and> K s \<and> found_now F (s, r, n, k) s"
    using s(2) by (simp add: found_in_def found_now_def)
  then show "K s \<and> (\<forall>y. Inr rt = Inr y \<longrightarrow> (\<exists>a. found_in F K tok a \<and> y = scan_token (fst (snd a)) \<and> K s \<and> found_now F a s))"
    using s(2) by blast
qed simp

text \<open>A refresh request: what its answer says of the row its token has when it is looked up.\<close>

lemma refresh_meets:
  assumes ideal: "ideal_crypto F" and K: "durable F K"
    and refused: "\<And>s c d st. K s \<Longrightarrow> d \<noteq> ''refresh token already used'' \<Longrightarrow> Q (TokenError c d st) s"
    and found: "\<And>s s' r n k x. K s \<Longrightarrow> r \<in> set (tokens s) \<Longrightarrow> place F r n k \<Longrightarrow> rq_refresh_token rq = chain F n k \<Longrightarrow> K s' \<Longrightarrow>
      allowed r x \<Longrightarrow> (\<And>t. tk_revoked_at r = Some t \<Longrightarrow> late E t \<Longrightarrow> reuse_handled F n x s') \<Longrightarrow> Q x s'"
  shows "meets F E K (handleTokenRefresh F rq) Q"
proof -
  have go: "meets F E (\<lambda>s. found_in F K (rq_refresh_token rq) a \<and> rt = scan_token (fst (snd a)) \<and> K s \<and> found_now F a s)
      (refresh_found F (rq_refresh_token rq) cid rt) Q" for rt cid a
  proof (cases "found_in F K (rq_refresh_token rq) a \<and> rt = scan_token (fst (snd a))")
    case True
    obtain s0 r n k where a: "a = (s0, r, n, k)" by (cases a) auto
    have t: "K s0" "r \<in> set (tokens s0)" "rq_refresh_token rq = chain F n k" "rt = scan_token r" using True by (auto simp: a found_in_def)
    have dK: "durable F (\<lambda>s. K s \<and> known F r n k s)" using tk.stable_conj[OF K stable_known[OF ideal]] .
    have "meets F E (\<lambda>s. K s \<and> known F r n k s) (refresh_found F (chain F n k) cid (scan_token r)) Q"
      by (rule tk.holds_weaken[OF refresh_found_meets[OF ideal dK]])
         (use t in \<open>auto simp: known_def intro!: found[of s0 r n k]\<close>)
    then show ?thesis unfolding t(3,4) by (rule tk.holds_weaken) (auto simp: a found_now_def)
  qed (auto simp: holds_def)
  have looked: "meets F E K (bind_h (store_read (LookupRefreshToken (cx_sha (cf_crypto F)) (rq_refresh_token rq)))
      (refresh_looked_up F (rq_refresh_token rq) (rq_client_id rq))) Q"
  proof (rule tk.holds_bind[OF lookup_meets[OF ideal K]])
    fix x :: "(oauth_error, RefreshToken) result"
    show "meets F E (\<lambda>s. K s \<and> (\<forall>rt. x = Inr rt \<longrightarrow> (\<exists>a. found_in F K (rq_refresh_token rq) a \<and> rt = scan_token (fst (snd a)) \<and> K s \<and> found_now F a s)))
        (refresh_looked_up F (rq_refresh_token rq) (rq_client_id rq) x) Q"
    proof (cases x)
      case (Inl err)
      then show ?thesis by (cases err) (auto simp: refresh_looked_up_def intro!: tk.holds_Answer refused)
    next
      case (Inr rt)
      have "meets F E (\<lambda>s. \<exists>a. found_in F K (rq_refresh_token rq) a \<and> rt = scan_token (fst (snd a)) \<and> K s \<and> found_now F a s)
          (refresh_found F (rq_refresh_token rq) (rq_client_id rq) rt) Q" by (rule holds_ex, rule go)
      then show ?thesis unfolding Inr refresh_looked_up_def sum.case by (rule tk.holds_weaken) blast+
    qed
  qed
  show ?thesis unfolding handleTokenRefresh_def Let_def
  proof (intro meets_answer_of meets_guard cimd_meets[OF K])
    show "meets F E K (bind_h (bind_h (store_read (LookupRefreshToken (cx_sha (cf_crypto F)) (rq_refresh_token rq)))
        (refresh_looked_up F (rq_refresh_token rq) (rq_client_id rq))) (\<lambda>x. Answer (Inr x))) (\<lambda>x. Q (case x of Inl r \<Rightarrow> r | Inr r \<Rightarrow> r))"
      by (rule tk.holds_bind[OF looked]) (auto intro: tk.holds_Answer)
  qed (auto simp: writeCIMDTokenError_def intro!: refused)
qed

section \<open>The other handlers\<close>

lemma issue_meets:
  assumes ideal: "ideal_crypto F" and K: "durable F K" and rt: "ParentTokenHash rt = None"
  shows "meets F E K (issueRefreshToken F t rt) (\<lambda>x s. K s \<and> True)"
  unfolding issueRefreshToken_def Let_def
proof (rule tk.holds_atomic[OF K])
  fix e :: step_env and s assume s: "token_inv F s" "K s"
  let ?sha = "cx_sha (cf_crypto F)" and ?p = "cx_random (cf_crypto F) 32 (sv_draws s + 1)" and ?s1 = "s\<lparr>sv_draws := sv_draws s + 2\<rparr>"
  let ?rt = "rt\<lparr>FamilyID := cx_random (cf_crypto F) 16 (sv_draws s), ExpiresAt := en_clock e + cf_refresh_ttl F\<rparr>"
  let ?f = "\<lambda>db. map_sum id (\<lambda>db1. (?p, db1)) (SaveRefreshTokenForGrant ?sha ?p ?rt t (en_now e) db)"
  let ?s2 = "snd (store_outcome e ?f ?s1)"
  have "?s2 = ?s1 \<or> (\<exists>db. ?s2 = ?s1\<lparr>sv_db := db\<rparr> \<and> SaveRefreshTokenForGrant ?sha ?p ?rt t (en_now e) (sv_db s) = Inr db)"
    by (auto simp: store_outcome_def Let_def map_sum_def split: sum.splits option.splits)
  moreover have "token_step F s (?s1\<lparr>sv_db := db\<rparr>)" if o: "SaveRefreshTokenForGrant ?sha ?p ?rt t (en_now e) (sv_db s) = Inr db" for db
  proof -
    have db: "db = (sv_db s)\<lparr>od_tokens := tokens s @ [token_of (?sha ?p) ?rt (en_now e)]\<rparr>"
      using o by (auto simp: SaveRefreshTokenForGrant_def saveRefreshToken_def split: if_splits)
    show ?thesis
    proof (rule step_issue[OF ideal s(1), of "token_of (?sha ?p) ?rt (en_now e)"])
      show "place F (token_of (?sha ?p) ?rt (en_now e)) (sv_draws s) 0" by (simp add: place_def token_of_def chain_def)
      show "tk_parent (token_of (?sha ?p) ?rt (en_now e)) = None" using rt by (simp add: token_of_def nullableBytes_def)
    qed (simp_all add: db)
  qed
  moreover have "token_step F s ?s1" using s(1) by (simp add: step_same)
  ultimately have "token_step F s ?s2" by metis
  moreover from this have "K ?s2" using K s unfolding stable_def token_step_def by blast
  ultimately show "token_inv F ?s2 \<and> later F s ?s2 \<and> K ?s2 \<and> True" unfolding token_step_def by blast
qed

lemma quiet_store_meets:
  assumes K: "durable F K" and f: "\<And>e db x db'. f e db = Inr (x, db') \<Longrightarrow> od_tokens db' = od_tokens db"
  shows "meets F E K (store_call f) (\<lambda>x s. K s \<and> (\<forall>y. x = Inr y \<longrightarrow> True))"
proof (rule meets_store[OF K])
  fix e s x db assume s: "token_inv F s" "K s" "f e (sv_db s) = Inr (x, db)"
  have st: "token_step F s (s\<lparr>sv_db := db\<rparr>)" using step_same[OF s(1)] f[OF s(3)] by simp
  then show "token_step F s (s\<lparr>sv_db := db\<rparr>) \<and> K (s\<lparr>sv_db := db\<rparr>) \<and> (\<forall>y. Inr x = Inr y \<longrightarrow> True)"
    using K s unfolding stable_def token_step_def by blast
qed simp

lemma ConsumeOAuthCode_tokens: "ConsumeOAuthCode c ttl now db = Inr (x, db') \<Longrightarrow> od_tokens db' = od_tokens db"
  by (auto simp: ConsumeOAuthCode_def split: option.splits)

lemma EnsureUser_tokens: "EnsureUserByTelegramID tg u d db = Inr (x, db') \<Longrightarrow> od_tokens db' = od_tokens db"
  by (auto simp: EnsureUserByTelegramID_def Let_def split: if_splits option.splits)

lemma redeem_meets:
  assumes K: "durable F K" and f: "\<And>c. meets F E K (f c) Q" and Q: "\<And>s c d st. K s \<Longrightarrow> Q (Inl (TokenError c d st)) s"
  shows "meets F E K (bind_r (redeem_code F d code) f) Q"
proof -
  have mem: "meets F E K (atomic (\<lambda>e s. (List.find (\<lambda>c. oc_code c = code) (sv_codes s),
      s\<lparr>sv_codes := delete_where (\<lambda>c. oc_code c = code) (sv_codes s)\<rparr>))) (\<lambda>x s. K s \<and> True)"
  proof (rule tk.holds_atomic[OF K])
    fix e s assume s: "token_inv F s" "K s"
    let ?s' = "s\<lparr>sv_codes := delete_where (\<lambda>c. oc_code c = code) (sv_codes s)\<rparr>"
    have "token_step F s ?s'" using s(1) by (simp add: step_same)
    then show "token_inv F (snd (List.find (\<lambda>c. oc_code c = code) (sv_codes s), ?s')) \<and>
        later F s (snd (List.find (\<lambda>c. oc_code c = code) (sv_codes s), ?s')) \<and>
        K (snd (List.find (\<lambda>c. oc_code c = code) (sv_codes s), ?s')) \<and> True"
      using K s unfolding stable_def token_step_def snd_conv by blast
  qed
  have "meets F E K (redeem_code F d code) (\<lambda>x s. K s \<and> (\<forall>y. x = Inl y \<longrightarrow> (\<exists>c d st. y = TokenError c d st)))"
    unfolding redeem_code_def
    by (auto intro!: meets_bind[OF quiet_store_meets[OF K ConsumeOAuthCode_tokens]] meets_bind[OF mem] meets_bind[OF clock_meets[OF K]]
        tk.holds_Answer split: sum.splits oauth_error.splits option.splits if_splits)
  then show ?thesis unfolding bind_r_def
    by (rule meets_bind) (auto simp: f Q split: sum.split intro!: tk.holds_Answer)
qed

abbreviation anyone :: "oauth_server \<Rightarrow> bool" where "anyone \<equiv> \<lambda>_. True"

lemma durable_anyone: "durable F anyone"
  by (simp add: stable_def)

lemma meets_any: "meets F E anyone (Answer x) (\<lambda>_ _. True)"
  by (simp add: holds_def)

lemma exchange_meets:
  assumes ideal: "ideal_crypto F"
  shows "meets F E anyone (exchange_grant F cid entry) (\<lambda>_ _. True)"
proof -
  note K = durable_anyone[of F]
  show ?thesis unfolding exchange_grant_def Let_def
    by (intro meets_or_answer[OF ResolveScopes_meets[OF K]] meets_or_answer[OF mint_meets[OF K]]
        meets_or_answer[OF quiet_store_meets[OF K EnsureUser_tokens]] meets_bind[OF display_meets[OF K]]
        meets_bind[OF issue_meets[OF ideal K]] meets_any) (simp_all add: no_token_def)
qed

lemma auth_code_meets:
  assumes ideal: "ideal_crypto F"
  shows "meets F E anyone (handleTokenAuthCode F rq) (\<lambda>_ _. True)"
proof -
  note K = durable_anyone[of F]
  have check: "meets F E anyone (bind_r (Answer x) f) (\<lambda>_ _. True)"
    if "\<And>y. meets F E anyone (f y) (\<lambda>_ _. True)" for x :: "token_response + unit" and f :: "unit \<Rightarrow> (token_response + 'x) oauth_handler"
    using that by (cases x) (simp_all add: bind_r_def meets_any)
  show ?thesis unfolding handleTokenAuthCode_def Let_def
    by (intro meets_answer_of meets_guard cimd_meets[OF K] redeem_meets[OF K] check exchange_meets[OF ideal]) simp_all
qed

lemma connect_meets: "meets F E anyone (ExchangeConnect F code verifier cid uri) (\<lambda>_ _. True)"
proof -
  note K = durable_anyone[of F]
  have check: "meets F E anyone (bind_r (Answer x) f) (\<lambda>_ _. True)"
    if "\<And>y. meets F E anyone (f y) (\<lambda>_ _. True)" for x :: "token_response + unit" and f :: "unit \<Rightarrow> (token_response + 'x) oauth_handler"
    using that by (cases x) (simp_all add: bind_r_def meets_any)
  have "meets F E anyone (or_answer r (mintAccessToken F origin tg name groups scopes)) (\<lambda>_ _. True)"
    for r :: token_response and origin tg name groups scopes
    unfolding or_answer_def by (intro meets_bind[OF mint_meets[OF K]] meets_any)
  then show ?thesis unfolding ExchangeConnect_def
    by (intro meets_guard redeem_meets[OF K] check meets_or_answer[OF ResolveScopes_meets[OF K]]) simp_all
qed

lemma revoke_request_meets:
  assumes ideal: "ideal_crypto F"
  shows "meets F E anyone (handleRevoke F rq) (\<lambda>_ _. True)"
proof -
  note K = durable_anyone[of F]
  have "meets F E anyone (revoke_family fam reason) (\<lambda>x s. anyone s \<and> (\<forall>y. x = Inr y \<longrightarrow> True))" for fam reason
    unfolding revoke_family_def
  proof (rule meets_store[OF K])
    fix e s x db assume s: "token_inv F s" "Inr (RevokeRefreshTokenFamily fam reason (en_now e) (sv_db s)) = Inr (x, db)"
    then have "db = snd (revoke_where (\<lambda>r. tk_family r = fam) (en_now e) reason (sv_db s))" by (simp add: RevokeRefreshTokenFamily_def)
    then show "token_step F s (s\<lparr>sv_db := db\<rparr>) \<and> anyone (s\<lparr>sv_db := db\<rparr>) \<and> (\<forall>y. Inr x = Inr y \<longrightarrow> True)"
      using revoke_step[OF s(1)] by simp
  qed simp
  then show ?thesis unfolding handleRevoke_def Let_def
    by (intro meets_answer_of meets_guard meets_bind[OF meets_read_keep[OF K]])
       (auto intro!: meets_any meets_bind split: sum.split oauth_error.split)
qed

lemma token_request_meets:
  assumes ideal: "ideal_crypto F"
  shows "meets F E anyone (handleToken F rq) (\<lambda>_ _. True)"
  unfolding handleToken_def Let_def
  using auth_code_meets[OF ideal] refresh_meets[OF ideal durable_anyone, of "\<lambda>_ _. True"]
  by (auto intro!: meets_any split: option.split)

end
