(* ===== verification/TokenServer.thy ===== *)
theory TokenServer
  imports TokenProps
begin

text \<open>
  The token endpoint as a whole: requests in flight, each at some step of its handler, over the shared server state. An
  event starts a request, takes one step of a request in flight, or is something the rest of the program does. The
  contracts of the handlers become statements about every run.
\<close>

section \<open>Background operations\<close>

lemma background_quiet:
  assumes "\<And>uid now. op \<noteq> OpDeleteAccount uid now" "\<And>uid cid now. op \<noteq> OpOwnerRevoke uid cid now" "\<And>now. op \<noteq> OpSweepTokens now"
  shows "od_tokens (background_db F op db) = od_tokens db"
  using assms
  by (cases op)
     (auto simp: written_db_def stored_db_def EnsureUserByTelegramID_def SetAccessTier_def GrantClientTierIfUnset_def InsertOAuthPending_def
       EvictOldestOAuthPendingIfOver_def ConsumeOAuthPending_def InsertOAuthCode_def EvictOldestOAuthCodeIfOver_def DeleteExpiredOAuthRows_def
       InsertClientReg_def InsertPinnedClientReg_def EvictOldestClientRegIfOver_def DeleteClientReg_def DeleteExpiredClientRegs_def
       RecordClientAssertionJTI_def DeleteExpiredClientAssertionJTIs_def bind_result_def map_sum_def Let_def split: sum.splits option.splits if_splits prod.splits)

lemma delete_account_later:
  assumes inv: "token_inv F s"
  shows "token_inv F (s\<lparr>sv_db := snd (delete_account_tokens uid now (sv_db s))\<rparr>) \<and>
    later F s (s\<lparr>sv_db := snd (delete_account_tokens uid now (sv_db s))\<rparr>)"
proof -
  define s1 where "s1 = s\<lparr>sv_db := snd (revoke_where (\<lambda>r. tk_user_id r = uid) now ReasonAccountDeleted (sv_db s))\<rparr>"
  have 1: "token_step F s s1" unfolding s1_def by (rule revoke_step[OF inv])
  have "token_step F s1 (s\<lparr>sv_db := snd (delete_account_tokens uid now (sv_db s))\<rparr>)"
    by (rule step_update[where P = "\<lambda>r. tk_user_id r = uid" and g = "\<lambda>r. r\<lparr>tk_username := None\<rparr>"])
       (use 1 in \<open>auto simp: s1_def token_step_def delete_account_tokens_def revokeUserRefreshTokens_def revoke_where_def Let_def\<close>)
  then show ?thesis using 1 unfolding token_step_def by (meson converse_rtranclp_into_rtranclp r_into_rtranclp)
qed

lemma background_later:
  assumes inv: "token_inv F s"
  shows "token_inv F (background F op s) \<and> later F s (background F op s)"
proof -
  have step: "token_step F s s' \<Longrightarrow> token_inv F s' \<and> later F s s'" for s' by (auto simp: token_step_def)
  have same: "tokens (background F op s) = tokens s" "sv_draws (background F op s) = sv_draws s"
    if "\<And>uid now. op \<noteq> OpDeleteAccount uid now" "\<And>uid cid now. op \<noteq> OpOwnerRevoke uid cid now" "\<And>now. op \<noteq> OpSweepTokens now"
    using background_quiet[OF that] by (auto simp: background_def split: oauth_op.split)
  consider (del) uid now where "op = OpDeleteAccount uid now" | (own) uid cid now where "op = OpOwnerRevoke uid cid now"
    | (sweep) now where "op = OpSweepTokens now"
    | (quiet) "\<And>uid now. op \<noteq> OpDeleteAccount uid now" "\<And>uid cid now. op \<noteq> OpOwnerRevoke uid cid now" "\<And>now. op \<noteq> OpSweepTokens now"
    by (cases op) auto
  then show ?thesis
  proof cases
    case del
    then show ?thesis using delete_account_later[OF inv] by (simp add: background_def)
  next
    case own
    have "token_step F s (background F op s)"
    proof (cases "uid \<le> 0 \<or> cid = []")
      case True
      then show ?thesis using inv by (intro step_same) (auto simp: own background_def written_db_def RevokeClientGrants_def)
    next
      case False
      then have "background F op s = s\<lparr>sv_db := snd (revoke_where (\<lambda>r. tk_user_id r = uid \<and> tk_client_id r = cid \<and> tk_expires_at r > now)
          now RefreshRevokedByOwner (sv_db s))\<rparr>"
        by (auto simp: own background_def written_db_def RevokeClientGrants_def split: prod.split)
      then show ?thesis using revoke_step[OF inv] by simp
    qed
    then show ?thesis by (rule step)
  next
    case sweep
    show ?thesis by (rule step, rule step_delete[OF inv, where P = "\<lambda>r. tk_expires_at r < now"])
        (simp_all add: sweep background_def SweepExpiredRefreshTokens_def)
  next
    case quiet
    show ?thesis by (rule step, rule step_same[OF inv]) (simp_all add: same[OF quiet])
  qed
qed

section \<open>Requests in flight\<close>

abbreviation on_course :: "oauth_config \<Rightarrow> (step_env \<Rightarrow> bool) \<Rightarrow> 'a oauth_handler \<Rightarrow> ('a \<Rightarrow> oauth_server \<Rightarrow> bool) \<Rightarrow> oauth_server \<Rightarrow> bool" where
  "on_course F E \<equiv> sat E (token_inv F) (later F)"

definition pool_inv :: "oauth_config \<Rightarrow> oauth_pool \<Rightarrow> bool" where
  "pool_inv F p \<longleftrightarrow> token_inv F (pl_server p) \<and> (\<forall>h\<in>set (pl_running p). on_course F (\<lambda>_. True) h (\<lambda>_ _. True) (pl_server p))"

lemma meets_on_course: "meets F E anyone h (\<lambda>_ _. True) \<Longrightarrow> token_inv F s \<Longrightarrow> on_course F E h (\<lambda>_ _. True) s"
  unfolding holds_def by (auto elim: sat_mono)

lemma responding_meets:
  assumes "meets F E K h Q" shows "meets F E K (responding h) (\<lambda>x s. \<exists>y. x = Inl y \<and> Q y s)"
  unfolding responding_def by (rule tk.holds_bind[OF assms]) (auto intro: tk.holds_Answer)

lemma arrivals_on_course:
  assumes ideal: "ideal_crypto F" and inv: "token_inv F s"
  shows "on_course F E (responding (handleToken F rq)) (\<lambda>_ _. True) s" "on_course F E (responding (handleRevoke F rq)) (\<lambda>_ _. True) s"
    "on_course F E (ExchangeConnect F code verifier cid uri) (\<lambda>_ _. True) s"
  by (intro meets_on_course[OF _ inv] connect_meets tk.holds_weaken[OF responding_meets[OF token_request_meets[OF ideal]]]
      tk.holds_weaken[OF responding_meets[OF revoke_request_meets[OF ideal]]]; simp)+

text \<open>One event: the state moves by steps every contract tolerates, and nobody else's handler moves.\<close>

lemma pool_inv_later:
  assumes inv: "pool_inv F p" and s: "token_inv F s" "later F (pl_server p) s"
  shows "pool_inv F (p\<lparr>pl_server := s\<rparr>)"
  using assms tk.sat_rely[OF _ s(2)] unfolding pool_inv_def by auto

lemma pool_step_later:
  assumes ideal: "ideal_crypto F" and inv: "pool_inv F p"
  shows "pool_inv F (fst (pool_step F p ev)) \<and> later F (pl_server p) (pl_server (fst (pool_step F p ev)))"
proof -
  have s: "token_inv F (pl_server p)" using inv by (simp add: pool_inv_def)
  have arrive: "pool_inv F (fst (arrive h p)) \<and> later F (pl_server p) (pl_server (fst (arrive h p)))"
    if "on_course F (\<lambda>_. True) h (\<lambda>_ _. True) (pl_server p)" for h
    using inv that by (auto simp: arrive_def pool_inv_def)
  show ?thesis
  proof (cases ev)
    case (Advance i e)
    show ?thesis
    proof (cases "\<exists>eff nxt. i < length (pl_running p) \<and> pl_running p ! i = Step eff nxt")
      case True
      then obtain eff nxt where i: "i < length (pl_running p)" "pl_running p ! i = Step eff nxt" by blast
      let ?s = "eff e (pl_server p)" and ?h = "nxt e (pl_server p)"
      have "on_course F (\<lambda>_. True) (Step eff nxt) (\<lambda>_ _. True) (pl_server p)" using inv i nth_mem[OF i(1)] by (auto simp: pool_inv_def)
      then have 1: "token_inv F ?s" "later F (pl_server p) ?s" "on_course F (\<lambda>_. True) ?h (\<lambda>_ _. True) ?s" using s by simp_all
      have "pool_inv F (p\<lparr>pl_server := ?s, pl_running := (pl_running p)[i := ?h]\<rparr>)"
        using pool_inv_later[OF inv 1(1,2)] 1(3) set_update_subset_insert[of "pl_running p" i ?h] by (fastforce simp: pool_inv_def)
      then show ?thesis using 1(2) by (simp add: Advance advance_def i)
    next
      case False
      then have "advance i e p = (p, [])" by (cases "pl_running p ! i") (auto simp: advance_def)
      then show ?thesis using inv by (simp add: Advance)
    qed
  next
    case (Background op)
    then show ?thesis using background_later[OF s] pool_inv_later[OF inv] by simp
  qed (use arrive arrivals_on_course[OF ideal s] in simp_all)
qed

interpretation pool: machine "pool_step F" "pool_run F" "\<lambda>p. ideal_crypto F \<longrightarrow> pool_inv F p" for F
  by unfold_locales (simp_all add: pool_step_later)

interpretation pool: monotone_machine "pool_step F" "pool_run F" "\<lambda>p. ideal_crypto F \<longrightarrow> pool_inv F p"
    "\<lambda>p q. ideal_crypto F \<longrightarrow> later F (pl_server p) (pl_server q)" for F
  by unfold_locales (auto simp: pool_step_later intro: rtranclp_trans)

declare pool_run.simps(2) [simp del]

lemma fresh_inv: "pool_inv F fresh_server"
  by (simp add: pool_inv_def fresh_server_def token_inv_def)

lemma server_run: "ideal_crypto F \<Longrightarrow> pool_inv F p \<Longrightarrow> pool_inv F (fst (pool_run F p evs))"
  using pool.run_inv[of F p evs] by blast

lemma server_reached: "ideal_crypto F \<Longrightarrow> pool_inv F (fst (pool_run F fresh_server evs))"
  using server_run[OF _ fresh_inv] by blast

text \<open>A request that follows its contract goes on following it, whatever happens around it.\<close>

lemma advance_other: "j \<noteq> i \<Longrightarrow> pl_running (fst (advance j e p)) ! i = pl_running p ! i"
  by (auto simp: advance_def split: handler.split)

lemma running_kept:
  assumes "i < length (pl_running p)"
  shows "i < length (pl_running (fst (pool_step F p ev)))"
    and "(\<And>e. ev \<noteq> Advance i e) \<Longrightarrow> pl_running (fst (pool_step F p ev)) ! i = pl_running p ! i"
proof -
  show "i < length (pl_running (fst (pool_step F p ev)))"
    using assms by (cases ev) (auto simp: arrive_def advance_def split: handler.split)
  show "pl_running (fst (pool_step F p ev)) ! i = pl_running p ! i" if "\<And>e. ev \<noteq> Advance i e"
  proof (cases ev)
    case (Advance j e)
    then have "j \<noteq> i" using that[of e] by auto
    then show ?thesis using Advance advance_other by simp
  qed (use assms in \<open>auto simp: arrive_def nth_append\<close>)
qed

lemma step_on_course:
  assumes ideal: "ideal_crypto F" and inv: "pool_inv F p" and i: "i < length (pl_running p)"
    and h: "on_course F E (pl_running p ! i) Q (pl_server p)" and Q: "\<And>x. durable F (Q x)"
    and ev: "\<And>e. ev = Advance i e \<Longrightarrow> E e"
  shows "on_course F E (pl_running (fst (pool_step F p ev)) ! i) Q (pl_server (fst (pool_step F p ev)))"
proof (cases "\<exists>e eff nxt. ev = Advance i e \<and> pl_running p ! i = Step eff nxt")
  case True
  then obtain e eff nxt where "ev = Advance i e" "pl_running p ! i = Step eff nxt" by blast
  then show ?thesis using h i ev inv by (simp add: advance_def pool_inv_def)
next
  case False
  then have "pl_running (fst (pool_step F p ev)) ! i = pl_running p ! i"
    using running_kept(2)[OF i] by (cases "\<exists>e. ev = Advance i e"; cases "pl_running p ! i") (auto simp: advance_def)
  moreover have "later F (pl_server p) (pl_server (fst (pool_step F p ev)))" "pool_inv F (fst (pool_step F p ev))"
    using pool_step_later[OF ideal inv] by blast+
  ultimately show ?thesis
    using tk.sat_rely[OF h] Q inv unfolding stable_def pool_inv_def by metis
qed

lemma run_on_course:
  assumes ideal: "ideal_crypto F" and Q: "\<And>x. durable F (Q x)"
  shows "pool_inv F p \<Longrightarrow> i < length (pl_running p) \<Longrightarrow> on_course F E (pl_running p ! i) Q (pl_server p) \<Longrightarrow>
    (\<And>e. Advance i e \<in> set evs \<Longrightarrow> E e) \<Longrightarrow>
    on_course F E (pl_running (fst (pool_run F p evs)) ! i) Q (pl_server (fst (pool_run F p evs)))"
proof (induction evs arbitrary: p)
  case (Cons ev evs)
  have "on_course F E (pl_running (fst (pool_step F p ev)) ! i) Q (pl_server (fst (pool_step F p ev)))"
    by (rule step_on_course[OF ideal Cons.prems(1,2,3) Q]) (use Cons.prems(4) in auto)
  then show ?case
    using Cons.IH[of "fst (pool_step F p ev)"] pool_step_later[OF ideal Cons.prems(1)] running_kept(1)[OF Cons.prems(2)] Cons.prems(4)
    by (simp add: pool.fst_run_Cons)
qed simp

text \<open>An answer stays.\<close>

lemma step_answered: "i < length (pl_running p) \<Longrightarrow> pl_running p ! i = Answer x \<Longrightarrow> pl_running (fst (pool_step F p ev)) ! i = Answer x"
  using running_kept(2)[of i p ev F] by (cases "\<exists>e. ev = Advance i e") (auto simp: advance_def)

lemma run_answered: "i < length (pl_running p) \<Longrightarrow> pl_running p ! i = Answer x \<Longrightarrow> pl_running (fst (pool_run F p evs)) ! i = Answer x"
  by (induction evs arbitrary: p) (simp_all add: pool.fst_run_Cons step_answered running_kept(1))

lemma answer_recorded:
  assumes "(i, x) \<in> set (snd (pool_step F p ev))"
  shows "pl_running (fst (pool_step F p ev)) ! i = Answer x \<and> i < length (pl_running (fst (pool_step F p ev)))"
  using assms by (cases ev) (auto simp: arrive_def advance_def answered_def nth_append split: handler.splits if_splits)

lemma run_outputs:
  assumes "(i, x) \<in> set (snd (pool_run F p evs))"
  shows "pl_running (fst (pool_run F p evs)) ! i = Answer x"
  using assms
proof (induction evs arbitrary: p)
  case (Cons ev evs)
  then consider "(i, x) \<in> set (snd (pool_step F p ev))" | "(i, x) \<in> set (snd (pool_run F (fst (pool_step F p ev)) evs))"
    by (auto simp: pool.snd_run_Cons)
  then show ?case
  proof cases
    case 1
    then show ?thesis using answer_recorded[OF 1] run_answered by (simp add: pool.fst_run_Cons)
  qed (simp add: pool.fst_run_Cons Cons.IH)
qed simp

text \<open>A request that arrives under a contract: what its answer satisfies, then and later.\<close>

lemma request_contract:
  assumes ideal: "ideal_crypto F" and inv: "pool_inv F p" and h: "meets F E K h Q" "K (pl_server p)" and Q: "\<And>x. durable F (Q x)"
    and rq: "pool_step F p ev = arrive (responding h) p"
    and E: "\<And>e. Advance (length (pl_running p)) e \<in> set evs \<Longrightarrow> E e"
    and out: "(length (pl_running p), x) \<in> set (snd (pool_run F p (ev # evs)))"
  shows "\<exists>y. x = Inl y \<and> Q y (pl_server (fst (pool_run F p (ev # evs))))"
proof -
  let ?i = "length (pl_running p)" and ?p = "fst (pool_step F p ev)"
  let ?Q = "\<lambda>x s. \<exists>y. x = Inl y \<and> Q y s"
  have "sat E (token_inv F) (later F) (responding h) (\<lambda>x s. token_inv F s \<and> ?Q x s) (pl_server p)"
    using responding_meets[OF h(1)] h(2) inv unfolding holds_def pool_inv_def by blast
  then have "on_course F E (pl_running ?p ! ?i) ?Q (pl_server ?p)" by (auto simp: rq arrive_def elim: sat_mono)
  moreover have "durable F (?Q x)" for x using Q unfolding stable_def by blast
  moreover have "?i < length (pl_running ?p)" by (simp add: rq arrive_def)
  ultimately have "on_course F E (pl_running (fst (pool_run F ?p evs)) ! ?i) ?Q (pl_server (fst (pool_run F ?p evs)))"
    using run_on_course[OF ideal, of ?Q ?p ?i E evs] pool_step_later[OF ideal inv] E by blast
  then show ?thesis using run_outputs[OF out] by (simp add: pool.fst_run_Cons)
qed

section \<open>Steps to an answer\<close>

lemma within_Answer: "within (Answer x) n"
  by simp

lemma within_ask: "within (ask f) (Suc 0)" "within (store_call g) (Suc 0)" "within (store_read h) (Suc 0)"
  by (simp_all add: ask_def store_call_def store_read_def atomic_def)

lemma within_or_answer: "within h n \<Longrightarrow> within (or_answer r h) n"
  unfolding or_answer_def using within_bind[of h n _ 0, OF _ within_Answer] by simp

lemma within_answer_of: "within h n \<Longrightarrow> within (answer_of h) n"
  unfolding answer_of_def using within_bind[of h n _ 0, OF _ within_Answer] by simp

lemma within_guard: "within (f ()) n \<Longrightarrow> within (bind_r (guard b r) f) n"
  by (simp add: guard_def bind_r_def)

lemma within_then: "within h (Suc 0) \<Longrightarrow> (\<And>x. within (f x) n) \<Longrightarrow> k = Suc n \<Longrightarrow> within (bind_h h f) k"
  using within_bind[of h "Suc 0" f n] by simp

lemma within_once: "within (atomic f) (Suc 0)"
  by (simp add: atomic_def)

lemma within_then_r: "within h m \<Longrightarrow> (\<And>x. within (f x) n) \<Longrightarrow> k = m + n \<Longrightarrow> within (bind_r h f) k"
  using within_bind_r[of h m f n] by simp

lemmas within_rules = within_then within_ask within_Answer within_or_answer within_answer_of within_guard

lemma ResolveScopes_within: "within (ResolveScopes F tg) (Suc 0)"
proof -
  have "within (isClientTier F tg) (Suc 0)" unfolding isClientTier_def
    by (rule within_then_r[of _ "Suc 0" _ 0]) (simp_all add: within_ask)
  then have "within (bind_r (isClientTier F tg) (\<lambda>c. Answer (Inr (if c then ([''clients''], client_scopes) else ([], []))))) (Suc 0)"
    by (rule within_then_r[of _ "Suc 0" _ 0]) simp_all
  then show ?thesis by (simp add: ResolveScopes_def)
qed

lemma StillValid_within: "within (refreshGrantStillValid b fam tg) 2"
proof -
  have "within (bind_r (store_read (\<lambda>db. Inr (GetAccessTier tg db))) (\<lambda>tier. Answer (Inr (tier \<noteq> TierNone)))) (Suc 0)"
    by (rule within_then_r[of _ "Suc 0" _ 0]) (simp_all add: within_ask)
  then show ?thesis unfolding refreshGrantStillValid_def
    by (auto intro!: within_then_r[of _ "Suc 0" _ 1] within_ask)
qed

lemma mint_within: "within (mintAccessToken F origin tg name groups scopes) (Suc 0)"
  unfolding mintAccessToken_def by (rule within_ask)

lemma grace_within: "within (attemptGraceRecovery F t reason at_time fam cid) 7"
proof -
  have "within (reissue_grant F cand child grant) 3" for cand child grant
    unfolding reissue_grant_def
    by (rule within_then_r[of _ 2 _ 1, OF within_or_answer[OF StillValid_within]])
       (auto intro!: within_guard within_then[of _ _ 0] mint_within)
  then have "within (bind_r (or_answer r (ResolveScopes F tg)) (\<lambda>cur. reissue_grant F cand child (g cur))) 4" for cand child tg g r
    by (rule within_then_r[of _ "Suc 0" _ 3, OF within_or_answer[OF ResolveScopes_within]]) simp_all
  then have "within (reissue_child F cand child) 5" for cand child
    unfolding reissue_child_def by (intro within_answer_of within_then[of _ _ 4] within_guard within_ask) simp_all
  then have look: "within (bind_h (store_read f) (\<lambda>r. case r of Inl ErrRefreshTokenNotFound \<Rightarrow> Answer a | Inl _ \<Rightarrow> Answer b | Inr child \<Rightarrow> reissue_child F cand child)) 6"
    for f a b cand by (intro within_then[of _ _ 5] within_ask) (auto split: sum.split oauth_error.split)
  then show ?thesis unfolding attemptGraceRecovery_def Let_def
    by (intro within_then[of _ _ 6] within_ask) auto
qed

lemma revoke_family_within: "within (revoke_family fam reason) (Suc 0)"
  unfolding revoke_family_def by (rule within_ask)

lemma lost_race_within: "within (lost_race F t cid rt) 9"
proof -
  have kill: "within (bind_h (revoke_family fam reason) (\<lambda>_. Answer x)) n" if "1 \<le> n" for fam reason n and x :: token_response
    by (rule within_mono[OF within_then[OF revoke_family_within within_Answer refl]]) (use that in simp)
  have "within (bind_h (attemptGraceRecovery F t reason at_time fam cid) (\<lambda>g. case grace_response g of Some x \<Rightarrow> Answer x
      | None \<Rightarrow> bind_h (revoke_family f2 r2) (\<lambda>_. Answer y))) (7 + Suc 0)" for reason at_time fam f2 r2 and y :: token_response
    by (rule within_bind[OF grace_within]) (auto simp: kill split: option.split)
  then show ?thesis unfolding lost_race_def Let_def
    by (intro within_then[of _ _ 8] within_ask) (auto simp: kill split: sum.split oauth_error.split option.split)
qed

lemma refresh_found_within: "within (refresh_found F t cid rt) 15"
proof -
  have "within (bind_h (lost_race F t cid rt) (\<lambda>x. Answer (Inl x :: token_response + token_response))) 9"
    using within_bind[OF lost_race_within, of "\<lambda>x. Answer (Inl x)" 0] by simp
  then have "within (commit_rotation F t cid rt scopes tok) 10" for scopes tok unfolding commit_rotation_def Let_def
    by (intro within_then[of _ _ 9] within_ask) (auto split: sum.split oauth_error.split)
  then have "within (rotate_grant F t cid rt grant) 13" for grant unfolding rotate_grant_def
    by (intro within_then_r[of _ 2 _ 11, OF within_or_answer[OF StillValid_within]] within_guard within_then[of _ _ 10] mint_within)
       (auto split: sum.split mint_error.split)
  then have live: "within (rotate_live F t cid rt) 14" unfolding rotate_live_def
    by (intro within_then_r[of _ "Suc 0" _ 13, OF within_or_answer[OF ResolveScopes_within]]) simp_all
  have "within (refresh_revoked F t cid rt r) (7 + Suc 0)" for r unfolding refresh_revoked_def
    by (rule within_bind[OF grace_within])
       (auto split: option.split intro!: within_then[of _ _ 0] revoke_family_within)
  then have "within (refresh_revoked F t cid rt r) 15" for r by (rule within_mono) simp
  moreover have "within (answer_of (bind_h (ask en_clock) (\<lambda>now. bind_r (guard (g now) a) (\<lambda>_. bind_r (guard b c) (\<lambda>_. rotate_live F t cid rt))))) 15"
    for g a b c by (intro within_answer_of within_then[of _ _ 14] within_guard within_ask live) simp_all
  ultimately show ?thesis unfolding refresh_found_def by (auto split: option.split)
qed

lemma refresh_within: "within (handleTokenRefresh F rq) 17"
proof -
  have "within (refresh_looked_up F t cid r) 15" for t cid r
    using refresh_found_within by (auto simp: refresh_looked_up_def split: sum.split oauth_error.split)
  then have "within (bind_h (bind_h (store_read f) (refresh_looked_up F t cid)) (\<lambda>x. Answer (Inr x :: token_response + token_response))) (16 + 0)" for f t cid
    by (intro within_bind within_then[of _ _ 15] within_ask within_Answer) simp_all
  then show ?thesis unfolding handleTokenRefresh_def Let_def cimd_gate_def
    by (intro within_answer_of within_guard within_then_r[of _ "Suc 0" _ 16] within_ask) simp_all
qed

lemma auth_code_within: "within (handleTokenAuthCode F rq) 17"
proof -
  have redeem: "within (redeem_code F d code) 2" for d code
    unfolding redeem_code_def
    by (cases "cf_use_db F"; simp; intro within_then[of _ _ "Suc 0"] within_ask within_once within_Answer)
       (auto intro!: within_then[of _ _ 0] within_ask within_Answer split: option.split)
  have name: "within (clientDisplayName cid) 3" for cid unfolding clientDisplayName_def
    by (intro within_then[of _ _ 2] within_ask)
       (auto intro!: within_then[of _ _ 1] within_ask within_once split: option.split sum.split)
  have "within (issueRefreshToken F t rt) (Suc 0)" for t rt unfolding issueRefreshToken_def Let_def by (rule within_once)
  then have "within (bind_h (clientDisplayName cid) (\<lambda>n. bind_h (issueRefreshToken F t (rt n)) (\<lambda>r. Answer (a r :: token_response + token_response)))) (3 + Suc 0)" for cid t rt a
    by (intro within_bind[OF name] within_then[of _ _ 0] within_Answer refl)
  then have exchange: "within (exchange_grant F cid entry) 7" for cid entry unfolding exchange_grant_def Let_def
    by (intro within_then_r[of _ "Suc 0" _ 6, OF within_or_answer[OF ResolveScopes_within]] within_then_r[of _ "Suc 0" _ 5, OF within_or_answer[OF mint_within]]
        within_then_r[of _ "Suc 0" _ 4, OF within_or_answer[OF within_ask(2)]]) simp_all
  have "within (bind_r (Answer x) (\<lambda>_. exchange_grant F cid entry)) 7" for x :: "token_response + unit" and cid entry
    using exchange by (simp add: bind_r_def split: sum.split)
  then have "within (handleTokenAuthCode F rq) 10" unfolding handleTokenAuthCode_def Let_def cimd_gate_def
    by (intro within_answer_of within_guard within_then_r[of _ "Suc 0" _ 9, OF within_ask(1)] within_then_r[of _ 2 _ 7, OF redeem]) simp_all
  then show ?thesis by (rule within_mono) simp
qed

lemma token_within: "within (responding (handleToken F rq)) 17"
proof -
  have "within (handleToken F rq) 17" unfolding handleToken_def Let_def using refresh_within auth_code_within by auto
  then show ?thesis unfolding responding_def using within_bind[of "handleToken F rq" 17 "\<lambda>x. Answer (Inl x)" 0] by simp
qed

lemma run_answers:
  "i < length (pl_running p) \<Longrightarrow> within (pl_running p ! i) n \<Longrightarrow> n \<le> length (filter (\<lambda>ev. \<exists>e. ev = Advance i e) evs) \<Longrightarrow>
    (\<exists>x. pl_running p ! i = Answer x) \<or> (\<exists>x. (i, x) \<in> set (snd (pool_run F p evs)))"
proof (induction evs arbitrary: p n)
  case Nil
  then show ?case by (cases "pl_running p ! i") auto
next
  case (Cons ev evs)
  let ?p = "fst (pool_step F p ev)"
  show ?case
  proof (cases "pl_running p ! i")
    case (Step eff nxt)
    show ?thesis
    proof (cases "\<exists>e. ev = Advance i e")
      case True
      then obtain e where e: "ev = Advance i e" by blast
      have h: "pl_running ?p ! i = nxt e (pl_server p)" "snd (pool_step F p ev) = answered i (nxt e (pl_server p))"
        using Cons.prems(1) Step by (simp_all add: e advance_def)
      have "within (pl_running ?p ! i) (n - 1)" using Cons.prems(2) Step by (simp add: h)
      moreover have "n - 1 \<le> length (filter (\<lambda>ev. \<exists>e. ev = Advance i e) evs)" using Cons.prems(3) e by auto
      ultimately have "(\<exists>x. pl_running ?p ! i = Answer x) \<or> (\<exists>x. (i, x) \<in> set (snd (pool_run F ?p evs)))"
        using Cons.IH[OF running_kept(1)[OF Cons.prems(1)]] by blast
      then show ?thesis using h by (auto simp: pool.snd_run_Cons answered_def)
    next
      case False
      then have h: "pl_running ?p ! i = pl_running p ! i" using running_kept(2)[OF Cons.prems(1)] by blast
      have "n \<le> length (filter (\<lambda>ev. \<exists>e. ev = Advance i e) evs)" using Cons.prems(3) False by simp
      then have "(\<exists>x. pl_running ?p ! i = Answer x) \<or> (\<exists>x. (i, x) \<in> set (snd (pool_run F ?p evs)))"
        using Cons.IH[OF running_kept(1)[OF Cons.prems(1)]] Cons.prems(2) h by metis
      then show ?thesis using h by (auto simp: pool.snd_run_Cons)
    qed
  qed simp
qed

section \<open>Refresh requests\<close>

definition with_client :: "oauth_config \<Rightarrow> token_request \<Rightarrow> token_request" where
  "with_client F rq = (case rq_assertion_client rq of
     Some i \<Rightarrow> if rq_client_id rq = [] \<and> cf_cimd F then rq\<lparr>rq_client_id := i\<rparr> else rq | None \<Rightarrow> rq)"

lemma handleToken_refresh:
  assumes "rq_grant_type rq = ''refresh_token''"
  shows "handleToken F rq = (if rq_parsed rq then handleTokenRefresh F (with_client F rq)
    else Answer (TokenError ''invalid_request'' ''could not parse form'' 400))"
    and "rq_refresh_token (with_client F rq) = rq_refresh_token rq"
  using assms by (auto simp: handleToken_def with_client_def Let_def split: option.split)

lemma known_row:
  assumes ideal: "ideal_crypto F" and kn: "known F r0 n k s" and r: "r \<in> set (tokens s)" "place F r m j" "chain F m j = chain F n k"
  shows "m = n \<and> static r = static r0 \<and> (\<forall>t. tk_revoked_at r0 = Some t \<longrightarrow> tk_revoked_at r = Some t)"
  using chain_inject[OF ideal r(3)] kn r(1,2) unfolding known_def by auto

lemma refresh_request_meets:
  assumes ideal: "ideal_crypto F" and rq: "rq_grant_type rq = ''refresh_token''" "rq_refresh_token rq = chain F n k"
  shows "meets F E (known F r n k) (handleToken F rq) (\<lambda>x s. allowed r x)"
    and "tk_revoked_at r = Some t \<Longrightarrow> late E t \<Longrightarrow> meets F E (known F r n k) (handleToken F rq) (\<lambda>x s. reuse_handled F n x s)"
proof -
  note refresh = refresh_meets[OF ideal stable_known[OF ideal], where rq = "with_client F rq" and E = E, unfolded handleToken_refresh(2)[OF rq(1)] rq(2)]
  have "meets F E (known F r n k) (handleTokenRefresh F (with_client F rq)) (\<lambda>x s. allowed r x)"
  proof (rule refresh)
    fix s r' m j x assume a: "known F r n k s" "r' \<in> set (tokens s)" "place F r' m j" "chain F n k = chain F m j" "allowed r' x"
    show "allowed r x" using known_row[OF ideal a(1,2,3) a(4)[symmetric]] allowed_static[of r' r x] a(5) by simp
  qed simp
  then show "meets F E (known F r n k) (handleToken F rq) (\<lambda>x s. allowed r x)"
    unfolding handleToken_refresh(1)[OF rq(1)] by (auto intro: tk.holds_Answer)
  assume t: "tk_revoked_at r = Some t" "late E t"
  have "meets F E (known F r n k) (handleTokenRefresh F (with_client F rq)) (\<lambda>x s. reuse_handled F n x s)"
  proof (rule refresh)
    fix s s' r' m j x
    assume a: "known F r n k s" "r' \<in> set (tokens s)" "place F r' m j" "chain F n k = chain F m j"
      and reuse: "\<And>t. tk_revoked_at r' = Some t \<Longrightarrow> late E t \<Longrightarrow> reuse_handled F m x s'"
    show "reuse_handled F n x s'" using known_row[OF ideal a(1,2,3) a(4)[symmetric]] reuse[of t] t by simp
  qed (simp add: reuse_handled_def no_grant_def)
  then show "meets F E (known F r n k) (handleToken F rq) (\<lambda>x s. reuse_handled F n x s)"
    unfolding handleToken_refresh(1)[OF rq(1)] by (auto intro: tk.holds_Answer simp: reuse_handled_def no_grant_def)
qed

lemma durable_reuse: "ideal_crypto F \<Longrightarrow> durable F (\<lambda>s. reuse_handled F n x s)"
  using stable_dead[of F n] unfolding reuse_handled_def stable_def by blast

section \<open>Claims\<close>

text \<open>Claim C15. However token requests, revocations, account deletions and sweeps interleave, a refresh-token family has at
  most one live token; and a token and its successor have the same family, user, client, Telegram identity, redirect URI
  and absolute expiry, the successor no scope the token lacked, while the token itself is revoked.\<close>

theorem one_live_token:
  assumes "ideal_crypto F"
  shows "let rows = tokens (pl_server (fst (pool_run F fresh_server evs))) in
    (\<forall>r\<in>set rows. \<forall>r'\<in>set rows. live r \<and> live r' \<and> tk_family r = tk_family r' \<longrightarrow> r = r') \<and>
    (\<forall>p\<in>set rows. \<forall>c\<in>set rows. tk_parent c = Some (tk_hash p) \<longrightarrow> follows p c \<and> \<not> live p)"
proof -
  define s where "s = pl_server (fst (pool_run F fresh_server evs))"
  have inv: "token_inv F s" using server_reached[OF assms] by (simp add: pool_inv_def s_def)
  have 1: "r = r'" if r: "r \<in> set (tokens s)" "r' \<in> set (tokens s)" "live r" "live r'" "tk_family r = tk_family r'" for r r'
  proof -
    obtain n k m j where p: "place F r n k" "place F r' m j" using token_row_place[OF inv] r(1,2) by meson
    have "n = m" using place_hash(3)[OF assms p] r(5) by simp
    then have "tk_hash r = tk_hash r'"
      using token_invD(3)[OF inv r(1,2,4)] token_invD(3)[OF inv r(2,1,3)] p place_hash(2)[OF assms p] by (simp add: le_antisym)
    then show ?thesis using token_invD(1)[OF inv] r(1,2) by (auto simp: distinct_map inj_on_def)
  qed
  have 2: "follows p c \<and> \<not> live p" if c: "p \<in> set (tokens s)" "c \<in> set (tokens s)" "tk_parent c = Some (tk_hash p)" for p c
  proof -
    obtain m j n k where p: "place F p m j" "place F c n k" using token_row_place[OF inv] c(1,2) by meson
    obtain i where i: "k = Suc i" "tk_hash p = cx_sha (cf_crypto F) (chain F n i)" using token_invD(4)[OF inv c(2,3) p(2)] by blast
    then have "m = n" "j = i" using place_hash(1)[OF assms p(1), of "chain F n i"] chain_inject[OF assms, of n i m j] by auto
    then show ?thesis using token_invD(5)[OF inv c(1,2) p(1)] token_invD(3)[OF inv c(2,1) _ p(2)] p i(1) by fastforce
  qed
  show ?thesis using 1 2 by (simp add: Let_def s_def)
qed

text \<open>Claim C16. A refresh never widens a grant: when a refresh request presents a token of some row, whatever interleaves
  with it, a token response to it carries only scopes of that row, in the access token as in the answer, for the row's
  Telegram identity and client.\<close>

theorem refresh_never_widens:
  assumes "ideal_crypto F" and "p = fst (pool_run F fresh_server past)" and "r \<in> set (tokens (pl_server p))"
    and "tk_hash r = cx_sha (cf_crypto F) (rq_refresh_token rq)" and "rq_grant_type rq = ''refresh_token''"
    and "(length (pl_running p), x) \<in> set (snd (pool_run F p (TokenRequest rq # evs)))"
  shows "\<exists>y. x = Inl y \<and> (\<forall>tok refresh ttl scopes. y = TokenJSON tok refresh ttl scopes \<longrightarrow>
    set scopes \<subseteq> scopes_of r \<and> cl_scopes tok = scopes \<and> cl_telegram_id tok = tk_telegram_id r \<and> cl_client_id tok = tk_client_id r)"
proof -
  have inv: "pool_inv F p" using server_reached[OF assms(1)] by (simp add: assms(2))
  then have s: "token_inv F (pl_server p)" by (simp add: pool_inv_def)
  obtain n k where k: "place F r n k" using token_row_place[OF s assms(3)] by blast
  have t: "rq_refresh_token rq = chain F n k" using place_hash(1)[OF assms(1) k] assms(4) by blast
  have "\<exists>y. x = Inl y \<and> allowed r y"
    by (rule request_contract[OF assms(1) inv refresh_request_meets(1)[OF assms(1,5) t, of "\<lambda>_. True"]
          known_intro[OF assms(1) s assms(3) k] tk.stable_pure _ _ assms(6)]) simp_all
  then obtain y where "x = Inl y" "allowed r y" by blast
  then show ?thesis by (cases y) (simp_all add: allowed_def)
qed



section \<open>A request on its own\<close>

text \<open>The answer, the final state and the number of steps when nothing interleaves and the environment stays the same.\<close>

primrec alone :: "step_env \<Rightarrow> 'a oauth_handler \<Rightarrow> oauth_server \<Rightarrow> 'a \<times> oauth_server \<times> nat" where
  "alone e (Answer x) = (\<lambda>s. (x, s, 0))"
| "alone e (Step eff nxt) = (\<lambda>s. case alone e (nxt e s) (eff e s) of (x, s1, n) \<Rightarrow> (x, s1, Suc n))"

lemma alone_bind [simp]:
  "alone e (bind_h h f) s = (case alone e h s of (x, s1, n) \<Rightarrow> case alone e (f x) s1 of (y, s2, m) \<Rightarrow> (y, s2, n + m))"
proof (induction h arbitrary: s)
  case (Step eff nxt)
  show ?case using Step.IH[OF rangeI rangeI] by (simp split: prod.split)
qed simp

lemma alone_rules [simp]:
  "alone e (atomic f) s = (fst (f e s), snd (f e s), 1)"
  "alone e (ask g) s = (g e, s, 1)"
  "alone e (store_call k) s = (fst (store_outcome e (k e) s), snd (store_outcome e (k e) s), 1)"
  "alone e (answer_of h) s = (case alone e h s of (x, s1, n) \<Rightarrow> (case x of Inl r \<Rightarrow> r | Inr r \<Rightarrow> r, s1, n))"
  "alone e (or_answer r a) s = (case alone e a s of (x, s1, n) \<Rightarrow> (map_sum (\<lambda>_. r) id x, s1, n))"
  by (simp_all add: atomic_def ask_def store_call_def answer_of_def or_answer_def split: prod.split)

lemma alone_bind_r [simp]:
  "alone e (bind_r h f) s = (case alone e h s of (x, s1, n) \<Rightarrow> case x of Inl r \<Rightarrow> (Inl r, s1, n)
     | Inr y \<Rightarrow> case alone e (f y) s1 of (z, s2, m) \<Rightarrow> (z, s2, n + m))"
  by (simp add: bind_r_def split: prod.split sum.split)

lemma alone_read [simp]:
  "en_failure e = None \<Longrightarrow> alone e (store_read f) s = (f (sv_db s), s, 1)"
  by (cases "f (sv_db s)") (simp_all add: store_read_def store_outcome_def Let_def)

lemma run_alone:
  assumes "alone e h s = (x, s1, Suc n)"
  shows "pool_run F \<lparr>pl_server = s, pl_running = rs @ [h]\<rparr> (replicate (Suc n) (Advance (length rs) e)) =
    (\<lparr>pl_server = s1, pl_running = rs @ [Answer x]\<rparr>, [(length rs, x)])"
  using assms
proof (induction n arbitrary: h s)
  case 0
  then show ?case by (cases h; cases "alone e (case h of Step eff nxt \<Rightarrow> nxt e s) (case h of Step eff nxt \<Rightarrow> eff e s)")
      (auto simp: pool_run.simps advance_def answered_def split: handler.splits prod.splits)
next
  case (Suc n)
  then obtain eff nxt where h: "h = Step eff nxt" "alone e (nxt e s) (eff e s) = (x, s1, Suc n)"
    by (cases h) (auto split: prod.splits)
  then have "answered (length rs) (nxt e s) = []" by (cases "nxt e s") (auto simp: answered_def)
  then show ?case using Suc.IH[OF h(2)] by (simp add: pool_run.simps advance_def h(1))
qed

lemma run_append: "pool_run F p (xs @ ys) = (let (p1, o1) = pool_run F p xs; (p2, o2) = pool_run F p1 ys in (p2, o1 @ o2))"
  by (induction xs arbitrary: p) (auto simp: pool_run.simps split: prod.splits)

lemma fst_run_append: "fst (pool_run F p (xs @ ys)) = fst (pool_run F (fst (pool_run F p xs)) ys)"
  by (simp add: run_append split_beta Let_def)

text \<open>A request that runs to its end right after it arrives.\<close>

lemma run_request:
  assumes "alone e (handleToken F rq) s = (x, s1, Suc n)"
  shows "pool_run F \<lparr>pl_server = s, pl_running = rs\<rparr> (TokenRequest rq # replicate (Suc n) (Advance (length rs) e)) =
    (\<lparr>pl_server = s1, pl_running = rs @ [Answer (Inl x)]\<rparr>, [(length rs, Inl x)])"
proof -
  have r: "alone e (responding (handleToken F rq)) s = (Inl x, s1, Suc n)" using assms by (simp add: responding_def)
  then have "answered (length rs) (responding (handleToken F rq)) = []" by (cases "responding (handleToken F rq)") (auto simp: answered_def)
  then show ?thesis using run_alone[OF r, of F rs] by (simp add: pool_run.simps(2) arrive_def)
qed

section \<open>Witnesses\<close>

definition demo_crypto :: crypto where
  "demo_crypto = \<lparr>cx_sha = (\<lambda>s. s), cx_challenge = (\<lambda>s. s), cx_mac = (\<lambda>k m. CHR ''d'' # m),
     cx_random = (\<lambda>b n. CHR ''r'' # decimal_nat n)\<rparr>"

definition demo_config :: oauth_config where
  "demo_config = \<lparr>cf_crypto = demo_crypto, cf_secret = ''k'', cf_admins = [], cf_broadcast_operators = [], cf_lookup_admins = [],
     cf_clients = [], cf_auto_approve = True, cf_code_ttl = 600 * second, cf_access_ttl = 3600 * second, cf_refresh_ttl = 86400 * second,
     cf_audience = [], cf_by_client = [], cf_by_redirect = [], cf_use_db = True, cf_cimd = False\<rparr>"

lemma demo_ideal: "ideal_crypto demo_config"
  by (auto simp: ideal_crypto_def demo_config_def demo_crypto_def deriveSuccessorRefreshToken_def inj_def decimal_nat_inject)

definition demo_verifier :: string where "demo_verifier = replicate 43 (CHR ''v'')"

definition demo_code :: OAuthCode where
  "demo_code = \<lparr>oc_code = ''c'', oc_client_id = ''app'', oc_redirect_uri = ''u'', oc_code_challenge = demo_verifier,
     oc_challenge_method = ''S256'', oc_telegram_id = 7, oc_username = ''ann'', oc_scope = ''account:manage'', oc_created_at = 10 * second\<rparr>"

definition demo_request :: token_request where
  "demo_request = \<lparr>rq_parsed = True, rq_grant_type = ''refresh_token'', rq_client_id = ''app'', rq_code = [], rq_redirect_uri = [],
     rq_code_verifier = [], rq_refresh_token = ''r1'', rq_token = [], rq_assertion_client = None\<rparr>"

definition demo_env :: "int \<Rightarrow> step_env" where
  "demo_env t = \<lparr>en_clock = t * second, en_now = t * second, en_failure = None, en_cimd = None, en_redirect_allowed = False, en_mint_error = None\<rparr>"


lemma demo_fields: "Fields ''account:manage'' = [''account:manage'']"
  using Fields_join[of "[''account:manage'']"] granted_word[of "''account:manage''"] by (simp add: granted_scopes_def client_scopes_def)

lemmas alone_handlers = handleToken_def handleTokenAuthCode_def handleTokenRefresh_def cimd_gate_def redeem_code_def exchange_grant_def
  ResolveScopes_def isClientTier_def mintAccessToken_def clientDisplayName_def issueRefreshToken_def guard_def

lemma demo_numbers: "FormatInt 7 = ''7''" "decimal_nat 0 = ''0''" "decimal_nat (Suc 0) = ''1''" "decimal_nat 1 = ''1''"
  by code_simp+

lemma demo_pkce: "validPKCEString demo_verifier" "demo_verifier \<noteq> []"
  by (simp_all add: validPKCEString_def demo_verifier_def unreserved_def list_all_iff)

lemma demo_config_simps:
  "cf_admins demo_config = []" "cf_lookup_admins demo_config = []" "cf_auto_approve demo_config" "cf_code_ttl demo_config = 600 * second"
  "cf_access_ttl demo_config = 3600 * second" "cf_refresh_ttl demo_config = 86400 * second" "cf_audience demo_config = []"
  "cf_by_client demo_config = []" "cf_by_redirect demo_config = []" "cf_use_db demo_config" "\<not> cf_cimd demo_config"
  "cx_sha (cf_crypto demo_config) = (\<lambda>s. s)" "cx_challenge (cf_crypto demo_config) = (\<lambda>s. s)"
  "cx_mac (cf_crypto demo_config) = (\<lambda>k m. CHR ''d'' # m)" "cx_random (cf_crypto demo_config) = (\<lambda>b n. CHR ''r'' # decimal_nat n)"
  by (simp_all add: demo_config_def demo_crypto_def)

lemma demo_env_simps: "en_clock (demo_env t) = t * second" "en_now (demo_env t) = t * second" "en_failure (demo_env t) = None"
  "en_cimd (demo_env t) = None" "en_mint_error (demo_env t) = None"
  by (simp_all add: demo_env_def)

lemmas alone_store = store_outcome_def check_code_def pkceVerify_def ConsumeOAuthCode_def GetAccessTier_def EnsureUserByTelegramID_def
  GetClientReg_def SaveRefreshTokenForGrant_def accountDeletedSince_def saveRefreshToken_def token_of_def narrowGrant_def profileFor_def Resolve_def
  cimd_verdict_def writeTokenJSON_def nullable_def nullableBytes_def column_def redirectURIValue_def no_token_def Let_def delete_where_def
  ConnectClientID_def TierClient_def TierNone_def DCRNegotiableScopes_def client_scopes_def update_where_def

definition demo_row :: token_row where
  "demo_row = \<lparr>tk_family = ''r0'', tk_hash = ''r1'', tk_user_id = 1, tk_client_id = ''app'', tk_client_name = [], tk_telegram_id = 7,
     tk_username = Some ''ann'', tk_scope = Some ''account:manage'', tk_created_at = 20 * second, tk_expires_at = 86420 * second,
     tk_revoked_at = None, tk_reason = None, tk_parent = None, tk_redirect = Some ''u''\<rparr>"

definition demo_server :: "token_row list \<Rightarrow> oauth_server" where
  "demo_server rows = \<lparr>sv_db = \<lparr>od_users = [\<lparr>ur_id = 1, ur_github_login = ''tg:7'', ur_login = Some 7, ur_username = Some ''ann'',
     ur_display_name = None, ur_tier = None, ur_deleted_at = None\<rparr>], od_user_seq = 1, od_tokens = rows, od_pending = [], od_codes = [],
     od_regs = [], od_jtis = []\<rparr>, sv_codes = [], sv_clients = [], sv_draws = 2\<rparr>"

definition demo_claims :: claims where
  "demo_claims = \<lparr>cl_subject = ''tg:7'', cl_telegram_id = 7, cl_username = ''ann'', cl_groups = [''clients''], cl_scopes = [''account:manage''],
     cl_audience = [], cl_client_id = ''app'', cl_profile = [], cl_lifetime = 3600 * second\<rparr>"

abbreviation demo_answer :: "string \<Rightarrow> oauth_answer" where
  "demo_answer t \<equiv> Inl (TokenJSON demo_claims t 3600 [''account:manage''])"

abbreviation demo_exchange :: token_request where
  "demo_exchange \<equiv> demo_request\<lparr>rq_grant_type := ''authorization_code'', rq_code := ''c'', rq_redirect_uri := ''u'',
     rq_code_verifier := demo_verifier, rq_refresh_token := []\<rparr>"

definition demo_issued :: oauth_server where
  "demo_issued = (demo_server [])\<lparr>sv_db := (sv_db (demo_server []))\<lparr>od_codes := [demo_code]\<rparr>, sv_draws := 0\<rparr>"

lemmas demo_defs = demo_config_simps demo_env_simps demo_request_def demo_numbers demo_pkce demo_fields demo_server_def demo_row_def demo_claims_def

lemma demo_background:
  "background demo_config (OpInsertCode demo_code 1 (Some 5)) (background demo_config (OpEnsureUser 7 ''ann'' []) (pl_server fresh_server)) = demo_issued"
  by (simp add: background_def EnsureUserByTelegramID_def written_db_def stored_db_def fresh_server_def demo_issued_def demo_server_def
      InsertOAuthCode_def accountDeletedSince_def nullable_def demo_numbers demo_code_def Let_def)

lemma demo_exchange_alone:
  "alone (demo_env 20) (handleToken demo_config demo_exchange) demo_issued =
     (TokenJSON demo_claims ''r1'' 3600 [''account:manage''], demo_server [demo_row], 9)"
  by (simp add: alone_handlers alone_store demo_defs demo_issued_def demo_code_def)

definition demo_sign_in :: "oauth_event list" where
  "demo_sign_in = Background (OpEnsureUser 7 ''ann'' []) # Background (OpInsertCode demo_code 1 (Some 5)) #
     TokenRequest demo_exchange # replicate 9 (Advance 0 (demo_env 20))"

lemma demo_signed_in:
  "pool_run demo_config fresh_server demo_sign_in =
     (\<lparr>pl_server = demo_server [demo_row], pl_running = [Answer (demo_answer ''r1'')]\<rparr>, [(0, demo_answer ''r1'')])"
proof -
  have "pool_run demo_config \<lparr>pl_server = demo_issued, pl_running = []\<rparr> (TokenRequest demo_exchange # replicate (Suc 8) (Advance (length ([] :: oauth_answer oauth_handler list)) (demo_env 20))) =
      (\<lparr>pl_server = demo_server [demo_row], pl_running = [] @ [Answer (demo_answer ''r1'')]\<rparr>, [(length ([] :: oauth_answer oauth_handler list), demo_answer ''r1'')])"
    by (rule run_request) (simp add: demo_exchange_alone)
  moreover have "fresh_server\<lparr>pl_server := demo_issued\<rparr> = \<lparr>pl_server = demo_issued, pl_running = []\<rparr>" by (simp add: fresh_server_def)
  ultimately show ?thesis using demo_background by (simp add: demo_sign_in_def pool_run.simps(2)[of _ _ "Background _"] numeral_eq_Suc)
qed

abbreviation demo_successor :: string where "demo_successor \<equiv> deriveSuccessorRefreshToken demo_config ''r1''"

definition demo_rotated :: "token_row list" where
  "demo_rotated = [revoke (30 * second) ''rotated'' demo_row,
     demo_row\<lparr>tk_hash := demo_successor, tk_created_at := 30 * second, tk_parent := Some ''r1''\<rparr>]"

lemma demo_successor_new: "demo_successor \<noteq> ''r1''" "''r1'' \<noteq> demo_successor" "demo_successor \<noteq> []"
  by (simp_all add: deriveSuccessorRefreshToken_def demo_config_simps)

lemma demo_refresh_alone:
  "alone (demo_env 30) (handleToken demo_config demo_request) (demo_server [demo_row]) =
     (TokenJSON demo_claims demo_successor 3600 [''account:manage''], demo_server demo_rotated, 6)"
  using demo_successor_new
  by (simp add: alone_handlers alone_store demo_defs refresh_looked_up_def LookupRefreshToken_def refresh_found_def scan_token_def rotate_live_def
      Expired_def boundRefreshGrant_def rotate_grant_def refreshGrantStillValid_def commit_rotation_def RotateRefreshToken_def revoke_where_def
      count_where_def successor_def revoke_def demo_rotated_def)

lemma demo_replay_alone:
  "alone (demo_env 130) (handleToken demo_config demo_request) (demo_server demo_rotated) =
     (TokenError ''invalid_grant'' ''refresh token already used'' 400,
      demo_server (update_where live (revoke (130 * second) ''reuse_detected'') demo_rotated), 4)"
  using demo_successor_new
  by (simp add: alone_handlers alone_store demo_defs refresh_looked_up_def LookupRefreshToken_def refresh_found_def scan_token_def refresh_revoked_def
      attemptGraceRecovery_def rotationGraceWindow_def time_sub_def min_int64_def max_int64_def grace_response_def revoke_family_def
      RevokeRefreshTokenFamily_def revoke_where_def revoke_def demo_rotated_def)

definition demo_refreshed :: "oauth_event list" where
  "demo_refreshed = demo_sign_in @ TokenRequest demo_request # replicate 6 (Advance 1 (demo_env 30))"

lemma demo_refresh_run:
  "pool_run demo_config (fst (pool_run demo_config fresh_server demo_sign_in)) (TokenRequest demo_request # replicate 6 (Advance 1 (demo_env 30))) =
     (\<lparr>pl_server = demo_server demo_rotated, pl_running = [Answer (demo_answer ''r1''), Answer (demo_answer demo_successor)]\<rparr>,
      [(1, demo_answer demo_successor)])"
  using run_request[of "demo_env 30" demo_config demo_request "demo_server [demo_row]" _ _ 5 "[Answer (demo_answer ''r1'')]"] demo_refresh_alone
  by (simp add: demo_signed_in numeral_eq_Suc)

lemma demo_refreshed_run:
  "fst (pool_run demo_config fresh_server demo_refreshed) =
     \<lparr>pl_server = demo_server demo_rotated, pl_running = [Answer (demo_answer ''r1''), Answer (demo_answer demo_successor)]\<rparr>"
  unfolding demo_refreshed_def fst_run_append demo_refresh_run by simp

lemma demo_replay_run:
  "pool_run demo_config (fst (pool_run demo_config fresh_server demo_refreshed)) (TokenRequest demo_request # replicate 4 (Advance 2 (demo_env 130))) =
     (\<lparr>pl_server = demo_server (update_where live (revoke (130 * second) ''reuse_detected'') demo_rotated),
        pl_running = [Answer (demo_answer ''r1''), Answer (demo_answer demo_successor), Answer (Inl (invalid_grant ''refresh token already used''))]\<rparr>,
      [(2, Inl (invalid_grant ''refresh token already used''))])"
  using run_request[of "demo_env 130" demo_config demo_request "demo_server demo_rotated" _ _ 3
      "[Answer (demo_answer ''r1''), Answer (demo_answer demo_successor)]"] demo_replay_alone
  by (simp add: demo_refreshed_run numeral_eq_Suc)

theorem one_live_token_witness:
  "ideal_crypto demo_config \<and> map live (tokens (pl_server (fst (pool_run demo_config fresh_server demo_refreshed)))) = [False, True] \<and>
   (let rows = tokens (pl_server (fst (pool_run demo_config fresh_server demo_refreshed))) in
    (\<forall>r\<in>set rows. \<forall>r'\<in>set rows. live r \<and> live r' \<and> tk_family r = tk_family r' \<longrightarrow> r = r') \<and>
    (\<forall>p\<in>set rows. \<forall>c\<in>set rows. tk_parent c = Some (tk_hash p) \<longrightarrow> follows p c \<and> \<not> live p))"
proof (intro conjI demo_ideal)
  show "map live (tokens (pl_server (fst (pool_run demo_config fresh_server demo_refreshed)))) = [False, True]"
    unfolding demo_refreshed_run by (simp add: demo_server_def demo_rotated_def demo_row_def revoke_def)
qed (rule one_live_token[OF demo_ideal])

theorem refresh_never_widens_witness:
  "scopes_of demo_row = {''account:manage''} \<and>
   (\<exists>y. demo_answer demo_successor = Inl y \<and> (\<forall>tok refresh ttl scopes. y = TokenJSON tok refresh ttl scopes \<longrightarrow>
      set scopes \<subseteq> scopes_of demo_row \<and> cl_scopes tok = scopes \<and> cl_telegram_id tok = tk_telegram_id demo_row \<and>
      cl_client_id tok = tk_client_id demo_row))"
proof
  show "scopes_of demo_row = {''account:manage''}" by (simp add: scopes_of_def demo_row_def column_def demo_fields)
  show "\<exists>y. demo_answer demo_successor = Inl y \<and> (\<forall>tok refresh ttl scopes. y = TokenJSON tok refresh ttl scopes \<longrightarrow>
      set scopes \<subseteq> scopes_of demo_row \<and> cl_scopes tok = scopes \<and> cl_telegram_id tok = tk_telegram_id demo_row \<and>
      cl_client_id tok = tk_client_id demo_row)"
    using refresh_never_widens[OF demo_ideal refl, of demo_row demo_sign_in demo_request "demo_answer demo_successor" "replicate 6 (Advance 1 (demo_env 30))"]
    unfolding demo_refresh_run
    by (simp add: demo_signed_in demo_server_def demo_row_def demo_request_def demo_config_simps)
qed



end
