(* ===== verification/RateLimit.thy ===== *)
theory RateLimit
  imports Complex_Main Prelude GoStrings
begin

text \<open>
  The in-memory rate limiter (\<open>internal/audit/ratelimit.go\<close>): a token bucket per identity, one per identity and recipient,
  and the pause of an account's writes. Every method holds the mutex throughout and reads the clock once, so it is
  one step. A \<open>float64\<close> is a rational; the HMAC of a recipient is the parameter \<open>digest\<close>; a map is a function to options.
\<close>

section \<open>Buckets\<close>

record bucket =
  tokens :: rat
  lastFill :: instant
  b_max :: rat
  perSec :: rat

record rate_limiter =
  RatePerMin :: int
  buckets :: "string \<Rightarrow> bucket option"
  lastSweep :: "instant option" \<comment> \<open>\<open>None\<close> is the zero time\<close>
  writeHolds :: "int \<Rightarrow> instant option"

definition sweepEvery :: duration where "sweepEvery = 10 * minute"
definition PeerFloodHold :: duration where "PeerFloodHold = 60 * minute"
definition PeerSendCap :: int where "PeerSendCap = 200"
definition PeerCleanupCap :: int where "PeerCleanupCap = 200"
definition PeerWindow :: duration where "PeerWindow = 60 * minute"

definition NewRateLimiter :: "int \<Rightarrow> rate_limiter" where
  "NewRateLimiter perMin = \<lparr>RatePerMin = perMin, buckets = (\<lambda>_. None), lastSweep = None, writeHolds = (\<lambda>_. None)\<rparr>"

definition Seconds :: "duration \<Rightarrow> rat" where "Seconds d = of_int d / 1000000000"

definition refill :: "instant \<Rightarrow> bucket \<Rightarrow> bucket" where
  "refill now b =
     (let t = tokens b + Seconds (time_sub now (lastFill b)) * perSec b in
      b\<lparr>tokens := (if t > b_max b then b_max b else t), lastFill := now\<rparr>)"

definition sweep :: "instant \<Rightarrow> rate_limiter \<Rightarrow> rate_limiter" where
  "sweep now r =
     (if (case lastSweep r of None \<Rightarrow> False | Some t \<Rightarrow> time_sub now t < sweepEvery) then r
      else r\<lparr>lastSweep := Some now,
             writeHolds := (\<lambda>u. case writeHolds r u of None \<Rightarrow> None | Some until \<Rightarrow> if \<not> now < until then None else Some until),
             buckets := (\<lambda>k. case buckets r k of None \<Rightarrow> None
               | Some b \<Rightarrow> if tokens (refill now b) \<ge> b_max (refill now b) then None else Some (refill now b))\<rparr>)"

text \<open>The bucket of a key, refilled; a new one is full.\<close>

definition topped_up :: "string \<Rightarrow> rat \<Rightarrow> rat \<Rightarrow> instant \<Rightarrow> rate_limiter \<Rightarrow> bucket" where
  "topped_up key cap rate now r = refill now (case buckets r key of Some b \<Rightarrow> b
     | None \<Rightarrow> \<lparr>tokens = cap, lastFill = now, b_max = cap, perSec = rate\<rparr>)"

definition allow :: "string \<Rightarrow> instant \<Rightarrow> rate_limiter \<Rightarrow> bool \<times> rate_limiter" where
  "allow key now r =
     (if RatePerMin r \<le> 0 then (True, r)
      else let r1 = sweep now r; b = topped_up key (of_int (RatePerMin r)) (of_int (RatePerMin r) / 60) now r1;
               put = (\<lambda>b. r1\<lparr>buckets := (buckets r1)(key := Some b)\<rparr>) in
        if tokens b < 1 then (False, put b) else (True, put (b\<lparr>tokens := tokens b - 1\<rparr>)))"

section \<open>Writes to one recipient\<close>

record identity =
  Subject :: string
  GitHubLogin :: string
  id_UserID :: int

function int_digits :: "int \<Rightarrow> string \<Rightarrow> string" where
  "int_digits n buf = (if n > 0 then int_digits (n div 10) (char_of (48 + nat (n mod 10)) # buf) else buf)"
  by pat_completeness auto
termination by (relation "measure (\<lambda>(n, _). nat n)") auto

declare int_digits.simps [simp del]

definition intToString :: "int \<Rightarrow> string" where
  "intToString n =
     (if n = 0 then ''0''
      else if n < 0 then CHR ''-'' # int_digits (wrap64 (- n)) [] else int_digits n [])"

definition identityKey :: "identity \<Rightarrow> string" where
  "identityKey i =
     (if Subject i \<noteq> [] then ''u:'' @ Subject i
      else if GitHubLogin i \<noteq> [] then ''u:'' @ GitHubLogin i
      else ''uid:'' @ intToString (id_UserID i))"

record PeerDecision =
  Allowed :: bool
  RetryAfter :: duration
  TooLarge :: bool

definition denied :: PeerDecision where "denied = \<lparr>Allowed = False, RetryAfter = 0, TooLarge = False\<rparr>"

definition peer_key :: "(string \<Rightarrow> string) \<Rightarrow> identity \<Rightarrow> string \<Rightarrow> string" where
  "peer_key digest i peerKey = identityKey i @ '':peer:'' @ digest peerKey"

definition retry_wait :: "rat \<Rightarrow> bucket \<Rightarrow> duration" where
  "retry_wait cost b = wrap64 (\<lceil>(cost - tokens b) / perSec b\<rceil> * second)"

definition DecidePeer ::
  "(string \<Rightarrow> string) \<Rightarrow> identity \<Rightarrow> string \<Rightarrow> int \<Rightarrow> int \<Rightarrow> duration \<Rightarrow> instant \<Rightarrow> rate_limiter \<Rightarrow> PeerDecision \<times> rate_limiter" where
  "DecidePeer digest i peerKey cost cap window now r =
     (if cap \<le> 0 \<or> window \<le> 0 then (denied\<lparr>Allowed := True\<rparr>, r)
      else let c = (if cost \<le> 0 then 1 else cost); key = peer_key digest i peerKey; r1 = sweep now r;
               b = topped_up key (of_int cap) (of_int cap / Seconds window) now r1;
               put = (\<lambda>b. r1\<lparr>buckets := (buckets r1)(key := Some b)\<rparr>) in
        if c > cap then (denied\<lparr>TooLarge := True\<rparr>, put b)
        else if tokens b < of_int c then (denied\<lparr>RetryAfter := retry_wait (of_int c) b\<rparr>, put b)
        else (denied\<lparr>Allowed := True\<rparr>, put (b\<lparr>tokens := tokens b - of_int c\<rparr>)))"

definition AllowPeerN ::
  "(string \<Rightarrow> string) \<Rightarrow> identity \<Rightarrow> string \<Rightarrow> int \<Rightarrow> int \<Rightarrow> duration \<Rightarrow> instant \<Rightarrow> rate_limiter \<Rightarrow> bool \<times> rate_limiter" where
  "AllowPeerN digest i peerKey cost cap window now r =
     (let (d, r1) = DecidePeer digest i peerKey cost cap window now r in (Allowed d, r1))"

definition AllowPeer ::
  "(string \<Rightarrow> string) \<Rightarrow> identity \<Rightarrow> string \<Rightarrow> int \<Rightarrow> duration \<Rightarrow> instant \<Rightarrow> rate_limiter \<Rightarrow> bool \<times> rate_limiter" where
  "AllowPeer digest i peerKey cap window now r = AllowPeerN digest i peerKey 1 cap window now r"

text \<open>The middleware: an identity with a user id has its own bucket, everyone else shares one. The answer says whether the
  request goes on; a refused one gets status 429.\<close>

definition Middleware :: "identity option \<Rightarrow> instant \<Rightarrow> rate_limiter \<Rightarrow> bool \<times> rate_limiter" where
  "Middleware i now r = allow (case i of Some x \<Rightarrow> if id_UserID x > 0 then identityKey x else ''anon'' | None \<Rightarrow> ''anon'') now r"

section \<open>Pausing writes\<close>

definition HoldWrites :: "int \<Rightarrow> duration \<Rightarrow> instant \<Rightarrow> rate_limiter \<Rightarrow> rate_limiter" where
  "HoldWrites userID d now r =
     (let until = now + d in
      if (case writeHolds r userID of None \<Rightarrow> True | Some u \<Rightarrow> until > u)
      then r\<lparr>writeHolds := (writeHolds r)(userID := Some until)\<rparr> else r)"

definition WriteHold :: "int \<Rightarrow> instant \<Rightarrow> rate_limiter \<Rightarrow> duration \<times> rate_limiter" where
  "WriteHold userID now r =
     (case writeHolds r userID of None \<Rightarrow> (0, r)
      | Some until \<Rightarrow>
          let left = time_sub until now in
          if left \<le> 0 then (0, r\<lparr>writeHolds := (writeHolds r)(userID := None)\<rparr>) else (left, r))"

section \<open>The limiter in use\<close>

datatype limit_op =
    Request "identity option"
  | Peer identity string int int duration
  | Hold int duration
  | ReadHold int

definition request_key :: "identity option \<Rightarrow> string" where
  "request_key i = (case i of Some x \<Rightarrow> if id_UserID x > 0 then identityKey x else ''anon'' | None \<Rightarrow> ''anon'')"

text \<open>The bucket an operation asks, with what it asks for: cost, capacity and rate.\<close>

definition call_of :: "(string \<Rightarrow> string) \<Rightarrow> int \<Rightarrow> limit_op \<Rightarrow> (string \<times> rat \<times> rat \<times> rat) option" where
  "call_of digest perMin op = (case op of
       Request i \<Rightarrow> if perMin \<le> 0 then None else Some (request_key i, 1, of_int perMin, of_int perMin / 60)
     | Peer i p cost cap w \<Rightarrow> if cap \<le> 0 \<or> w \<le> 0 then None
         else Some (peer_key digest i p, of_int (if cost \<le> 0 then 1 else cost), of_int cap, of_int cap / Seconds w)
     | _ \<Rightarrow> None)"

fun limit_effect :: "(string \<Rightarrow> string) \<Rightarrow> instant \<Rightarrow> limit_op \<Rightarrow> rate_limiter \<Rightarrow> bool \<times> rate_limiter" where
  "limit_effect digest now (Request i) r = Middleware i now r"
| "limit_effect digest now (Peer i p cost cap w) r = AllowPeerN digest i p cost cap w now r"
| "limit_effect digest now (Hold u d) r = (True, HoldWrites u d now r)"
| "limit_effect digest now (ReadHold u) r = (True, snd (WriteHold u now r))"

text \<open>A run collects, with the key of its bucket, the verdict of every call.\<close>

definition limit_step :: "(string \<Rightarrow> string) \<Rightarrow> rate_limiter \<Rightarrow> instant \<times> limit_op \<Rightarrow> rate_limiter \<times> (string \<times> bool) list" where
  "limit_step digest r x =
     (let p = limit_effect digest (fst x) (snd x) r in
      (snd p, case call_of digest (RatePerMin r) (snd x) of None \<Rightarrow> [] | Some (key, _) \<Rightarrow> [(key, fst p)]))"

fun limit_run :: "(string \<Rightarrow> string) \<Rightarrow> rate_limiter \<Rightarrow> (instant \<times> limit_op) list \<Rightarrow> rate_limiter \<times> (string \<times> bool) list" where
  "limit_run digest r [] = (r, [])"
| "limit_run digest r (x # xs) = (let (r1, o1) = limit_step digest r x; (r2, o2) = limit_run digest r1 xs in (r2, o1 @ o2))"

section \<open>An ideal bucket\<close>

text \<open>One bucket on its own: it holds an amount as of an instant, gains at a rate up to its capacity, and is never dropped.\<close>

definition gained :: "rat \<Rightarrow> rat \<Rightarrow> rat \<times> instant \<Rightarrow> instant \<Rightarrow> rat" where
  "gained cap rate s t = min cap (fst s + rate * Seconds (t - snd s))"

fun ideal_run :: "rat \<Rightarrow> rat \<Rightarrow> rat \<times> instant \<Rightarrow> (instant \<times> rat) list \<Rightarrow> bool list" where
  "ideal_run cap rate s [] = []"
| "ideal_run cap rate s ((t, cost) # calls) =
     (let a = gained cap rate s t; ok = (cost \<le> a) in
      ok # ideal_run cap rate (if ok then a - cost else a, t) calls)"

definition calls_on :: "(string \<Rightarrow> string) \<Rightarrow> int \<Rightarrow> string \<Rightarrow> (instant \<times> limit_op) list \<Rightarrow> (instant \<times> rat) list" where
  "calls_on digest perMin k evs = concat (map (\<lambda>(t, op). case call_of digest perMin op of
     Some (key, cost, _) \<Rightarrow> if key = k then [(t, cost)] else [] | None \<Rightarrow> []) evs)"

definition verdicts_on :: "string \<Rightarrow> (string \<times> bool) list \<Rightarrow> bool list" where
  "verdicts_on k outs = map snd (filter (\<lambda>(key, _). key = k) outs)"

text \<open>Every call on the key names one capacity and one rate.\<close>

definition agreed :: "(string \<Rightarrow> string) \<Rightarrow> int \<Rightarrow> string \<Rightarrow> rat \<Rightarrow> rat \<Rightarrow> (instant \<times> limit_op) list \<Rightarrow> bool" where
  "agreed digest perMin k cap rate evs \<longleftrightarrow>
     list_all (\<lambda>(t, op). case call_of digest perMin op of
       Some (key, cost, c, q) \<Rightarrow> key = k \<longrightarrow> c = cap \<and> q = rate | None \<Rightarrow> True) evs"

text \<open>Readings of a clock that does not go back, within the range of \<open>UnixNano\<close>.\<close>

definition clocked :: "instant list \<Rightarrow> bool" where
  "clocked ts \<longleftrightarrow> sorted ts \<and> list_all (\<lambda>t. 0 \<le> t \<and> t \<le> max_int64) ts"

section \<open>Level of a bucket\<close>

definition bucket_ok :: "rat \<Rightarrow> rat \<Rightarrow> instant \<Rightarrow> bucket option \<Rightarrow> bool" where
  "bucket_ok cap rate now ob = (case ob of None \<Rightarrow> True
     | Some b \<Rightarrow> b_max b = cap \<and> perSec b = rate \<and> 0 \<le> tokens b \<and> tokens b \<le> cap \<and> 0 \<le> lastFill b \<and> lastFill b \<le> now)"

definition level :: "rat \<Rightarrow> instant \<Rightarrow> bucket option \<Rightarrow> rat" where
  "level cap now ob = (case ob of None \<Rightarrow> cap | Some b \<Rightarrow> tokens (refill now b))"

lemma Seconds_simps: "Seconds 0 = 0" "Seconds (a + b) = Seconds a + Seconds b" "Seconds (a - b) = Seconds a - Seconds b"
  by (simp_all add: Seconds_def add_divide_distrib diff_divide_distrib)

lemma Seconds_nonneg: "0 \<le> d \<Longrightarrow> 0 \<le> Seconds d"
  by (simp add: Seconds_def)

lemma Seconds_pos: "0 < d \<Longrightarrow> 0 < Seconds d"
  by (simp add: Seconds_def)

lemma time_sub_exact: "0 \<le> b \<Longrightarrow> b \<le> a \<Longrightarrow> a \<le> max_int64 \<Longrightarrow> time_sub a b = a - b"
  by (simp add: time_sub_def max_int64_def min_int64_def)

lemma refill_simps [simp]: "b_max (refill t b) = b_max b" "perSec (refill t b) = perSec b" "lastFill (refill t b) = t"
  by (simp_all add: refill_def Let_def)

lemma refill_tokens:
  assumes "0 \<le> lastFill b" "lastFill b \<le> t" "t \<le> max_int64"
  shows "tokens (refill t b) = min (b_max b) (tokens b + perSec b * Seconds (t - lastFill b))"
  using assms by (simp add: refill_def Let_def time_sub_exact min_def mult.commute)

lemma refill_ok:
  assumes "bucket_ok cap rate now (Some b)" "now \<le> t" "t \<le> max_int64" "0 \<le> rate"
  shows "bucket_ok cap rate t (Some (refill t b))"
proof -
  have "0 \<le> perSec b * Seconds (t - lastFill b)" using assms by (simp add: bucket_ok_def Seconds_nonneg)
  then show ?thesis using assms by (simp add: bucket_ok_def refill_tokens min_def)
qed

lemma bucket_ok_later: "bucket_ok cap rate now ob \<Longrightarrow> now \<le> t \<Longrightarrow> bucket_ok cap rate t ob"
  by (auto simp: bucket_ok_def split: option.splits)

lemma level_later:
  assumes "bucket_ok cap rate now ob" "now \<le> t" "t \<le> max_int64" "0 \<le> rate"
  shows "level cap t ob = min cap (level cap now ob + rate * Seconds (t - now))"
proof (cases ob)
  case None
  then show ?thesis using assms Seconds_nonneg[of "t - now"] by (simp add: level_def)
next
  case (Some b)
  have r: "0 \<le> rate * Seconds (t - now)" using assms Seconds_nonneg[of "t - now"] by simp
  have "rate * Seconds (t - lastFill b) = rate * Seconds (now - lastFill b) + rate * Seconds (t - now)"
    by (simp add: Seconds_simps algebra_simps)
  then show ?thesis using assms Some r by (simp add: level_def bucket_ok_def refill_tokens min_def)
qed

lemma level_bounds: "bucket_ok cap rate now ob \<Longrightarrow> now \<le> max_int64 \<Longrightarrow> 0 \<le> rate \<Longrightarrow> 0 \<le> cap \<Longrightarrow> 0 \<le> level cap now ob \<and> level cap now ob \<le> cap"
  using refill_ok[of cap rate now _ now] by (cases ob) (auto simp: level_def bucket_ok_def)

text \<open>A sweep drops a bucket only when it is full, which is what an absent one is.\<close>

lemma sweep_bucket:
  assumes "bucket_ok cap rate now (buckets r k)" "now \<le> max_int64" "0 \<le> rate"
  shows "bucket_ok cap rate now (buckets (sweep now r) k) \<and> level cap now (buckets (sweep now r) k) = level cap now (buckets r k)"
proof (cases "buckets r k")
  case None
  then show ?thesis by (simp add: sweep_def level_def bucket_ok_def)
next
  case (Some b)
  have ok: "bucket_ok cap rate now (Some (refill now b))" using refill_ok[of cap rate now b now] assms Some by simp
  have again: "tokens (refill now (refill now b)) = tokens (refill now b)"
    using ok assms(2) by (simp add: refill_tokens bucket_ok_def Seconds_simps)
  show ?thesis using assms ok again Some by (auto simp: sweep_def level_def bucket_ok_def split: option.splits)
qed

lemma refill_again: "bucket_ok cap rate t (Some b) \<Longrightarrow> t \<le> max_int64 \<Longrightarrow> lastFill b = t \<Longrightarrow> tokens (refill t b) = tokens b"
  by (simp add: refill_tokens bucket_ok_def Seconds_simps)

lemma topped_up_ok:
  assumes "bucket_ok cap rate t (buckets r k)" "0 \<le> t" "t \<le> max_int64" "0 \<le> rate" "0 \<le> cap"
  shows "bucket_ok cap rate t (Some (topped_up k cap rate t r)) \<and> lastFill (topped_up k cap rate t r) = t \<and>
    tokens (topped_up k cap rate t r) = level cap t (buckets r k)"
proof (cases "buckets r k")
  case None
  let ?b = "\<lparr>tokens = cap, lastFill = t, b_max = cap, perSec = rate\<rparr>"
  have "bucket_ok cap rate t (Some ?b)" using assms by (simp add: bucket_ok_def)
  then show ?thesis using None refill_ok[of cap rate t ?b t] refill_again[of cap rate t ?b] assms
    by (simp add: topped_up_def level_def)
next
  case (Some b)
  then show ?thesis using refill_ok[of cap rate t b t] assms by (simp add: topped_up_def level_def)
qed

text \<open>What an operation does to one key's bucket: nothing, beyond a sweep, unless it is a call on that key; then it takes
  the cost when the level covers it.\<close>

definition debits :: "rat \<Rightarrow> rat \<Rightarrow> instant \<Rightarrow> rat \<Rightarrow> bucket option \<Rightarrow> bool \<Rightarrow> bucket option \<Rightarrow> bool" where
  "debits cap rate t cost ob ok ob' \<longleftrightarrow> bucket_ok cap rate t ob' \<and> ok = (cost \<le> level cap t ob) \<and>
     level cap t ob' = (if ok then level cap t ob - cost else level cap t ob)"

lemma debits_put:
  assumes b: "bucket_ok cap rate t (Some b)" "lastFill b = t" "tokens b = level cap t ob" and "t \<le> max_int64" "0 \<le> cost"
  shows "ok = (cost \<le> tokens b) \<Longrightarrow> debits cap rate t cost ob ok (Some (if ok then b\<lparr>tokens := tokens b - cost\<rparr> else b))"
  using assms refill_again[OF b(1) assms(4) b(2)] refill_again[of cap rate t "b\<lparr>tokens := tokens b - cost\<rparr>"]
  by (auto simp: debits_def bucket_ok_def level_def)

lemma RatePerMin_sweep [simp]: "RatePerMin (sweep t r) = RatePerMin r"
  by (simp add: sweep_def)

lemma allow_debits:
  assumes ok: "bucket_ok cap rate t (buckets r k)" and t: "0 \<le> t" "t \<le> max_int64" and perMin: "RatePerMin r > 0"
    and cap: "cap = of_int (RatePerMin r)" "rate = of_int (RatePerMin r) / 60"
  shows "debits cap rate t 1 (buckets r k) (fst (allow k t r)) (buckets (snd (allow k t r)) k)"
proof -
  have rate: "0 \<le> rate" "0 \<le> cap" using perMin cap by simp_all
  note sw = sweep_bucket[OF ok t(2) rate(1)]
  let ?b = "topped_up k cap rate t (sweep t r)"
  have b: "bucket_ok cap rate t (Some ?b)" "lastFill ?b = t" "tokens ?b = level cap t (buckets r k)"
    using topped_up_ok[of cap rate t "sweep t r" k] sw t rate by simp_all
  from debits_put[OF b t(2), of 1 "1 \<le> tokens ?b"] show ?thesis
    using perMin by (auto simp: allow_def Let_def cap)
qed

lemma peer_debits:
  assumes ok: "bucket_ok cap rate t (buckets r k)" and t: "0 \<le> t" "t \<le> max_int64" and on: "c > 0" "w > 0"
    and cap: "cap = of_int c" "rate = of_int c / Seconds w" and k: "k = peer_key digest i p"
  shows "debits cap rate t (of_int (if cost \<le> 0 then 1 else cost)) (buckets r k) (fst (AllowPeerN digest i p cost c w t r))
    (buckets (snd (AllowPeerN digest i p cost c w t r)) k)"
proof -
  have rate: "0 \<le> rate" "0 \<le> cap" using on cap Seconds_pos[of w] by simp_all
  note sw = sweep_bucket[OF ok t(2) rate(1)]
  let ?b = "topped_up k cap rate t (sweep t r)" and ?cost = "if cost \<le> 0 then 1 else cost"
  have b: "bucket_ok cap rate t (Some ?b)" "lastFill ?b = t" "tokens ?b = level cap t (buckets r k)"
    using topped_up_ok[of cap rate t "sweep t r" k] sw t rate by simp_all
  have small: "?cost > c \<Longrightarrow> tokens ?b < of_int ?cost" using b(1) cap by (auto simp: bucket_ok_def)
  from debits_put[OF b t(2), of "of_int ?cost" "of_int ?cost \<le> tokens ?b"] show ?thesis
    using on small by (auto simp: AllowPeerN_def DecidePeer_def denied_def Let_def cap k split: if_splits)
qed

lemma untouched_bucket:
  assumes "case call_of digest (RatePerMin r) op of Some (key, _) \<Rightarrow> key \<noteq> k | None \<Rightarrow> True"
  shows "buckets (snd (limit_effect digest t op r)) k \<in> {buckets r k, buckets (sweep t r) k}"
  using assms
  by (cases op)
    (auto simp: call_of_def Middleware_def allow_def request_key_def AllowPeerN_def DecidePeer_def HoldWrites_def WriteHold_def Let_def
      split: if_splits option.splits)

lemma RatePerMin_effect [simp]: "RatePerMin (snd (limit_effect digest t op r)) = RatePerMin r"
  by (cases op)
    (auto simp: Middleware_def allow_def AllowPeerN_def DecidePeer_def HoldWrites_def WriteHold_def Let_def split: option.splits)

lemma call_debits:
  assumes "bucket_ok cap rate t (buckets r k)" "0 \<le> t" "t \<le> max_int64" "call_of digest (RatePerMin r) op = Some (k, cost, cap, rate)"
  shows "0 < cost \<and> debits cap rate t cost (buckets r k) (fst (limit_effect digest t op r)) (buckets (snd (limit_effect digest t op r)) k)"
proof (cases op)
  case (Request i)
  then have c: "k = request_key i" "cost = 1" "RatePerMin r > 0" "cap = of_int (RatePerMin r)" "rate = of_int (RatePerMin r) / 60"
    using assms(4) by (auto simp: call_of_def split: if_splits)
  have "limit_effect digest t op r = allow k t r" by (simp add: Request c(1) Middleware_def request_key_def)
  then show ?thesis using allow_debits[OF assms(1-3) c(3-5)] c(2) by simp
next
  case (Peer i p c m w)
  then have "k = peer_key digest i p" "cap = of_int m" "rate = of_int m / Seconds w" "m > 0" "w > 0" "cost = of_int (if c \<le> 0 then 1 else c)"
    using assms(4) by (auto simp: call_of_def split: if_splits)
  then show ?thesis using peer_debits[OF assms(1-3), of m w digest i p c] Peer by (auto split: if_splits)
qed (use assms in \<open>simp_all add: call_of_def\<close>)

text \<open>No bucket holds more than its capacity.\<close>

definition within_capacity :: "rate_limiter \<Rightarrow> bool" where
  "within_capacity r \<longleftrightarrow> (\<forall>k b. buckets r k = Some b \<longrightarrow> tokens b \<le> b_max b)"

lemma refill_capacity: "tokens (refill t b) \<le> b_max b"
  by (simp add: refill_def Let_def)

lemma topped_up_capacity: "tokens (topped_up k cap rate t r) \<le> b_max (topped_up k cap rate t r)"
  by (simp add: topped_up_def refill_capacity)

lemma sweep_capacity: "within_capacity r \<Longrightarrow> within_capacity (sweep t r)"
  by (auto simp: within_capacity_def sweep_def refill_capacity split: option.splits if_splits)

lemma put_capacity: "within_capacity r \<Longrightarrow> tokens b \<le> b_max b \<Longrightarrow> within_capacity (r\<lparr>buckets := (buckets r)(k := Some b)\<rparr>)"
  by (simp add: within_capacity_def)

lemma allow_capacity: "within_capacity r \<Longrightarrow> within_capacity (snd (allow k t r))"
  using topped_up_capacity[of k "of_int (RatePerMin r)" "of_int (RatePerMin r) / 60" t "sweep t r"]
  by (auto simp: allow_def Let_def intro!: put_capacity sweep_capacity)

lemma peer_capacity: "within_capacity r \<Longrightarrow> within_capacity (snd (AllowPeerN digest i p cost c w t r))"
  using topped_up_capacity[of "peer_key digest i p" "of_int c" "of_int c / Seconds w" t "sweep t r"]
  by (auto simp: AllowPeerN_def DecidePeer_def Let_def intro!: put_capacity sweep_capacity)

lemma effect_capacity: "within_capacity r \<Longrightarrow> within_capacity (snd (limit_effect digest t op r))"
proof (cases op)
  case (Hold u d)
  assume "within_capacity r"
  then show ?thesis by (simp add: Hold HoldWrites_def within_capacity_def Let_def)
next
  case (ReadHold u)
  assume "within_capacity r"
  then show ?thesis by (simp add: ReadHold WriteHold_def within_capacity_def Let_def split: option.split)
qed (simp_all add: Middleware_def allow_capacity peer_capacity)

interpretation limiter: machine "limit_step digest" "limit_run digest" within_capacity for digest
  by unfold_locales (auto simp: limit_step_def Let_def effect_capacity)

text \<open>The bucket of a key holds what the ideal bucket would.\<close>

definition tracks :: "rat \<Rightarrow> rat \<Rightarrow> string \<Rightarrow> instant \<Rightarrow> rate_limiter \<Rightarrow> rat \<times> instant \<Rightarrow> bool" where
  "tracks cap rate k now r s \<longleftrightarrow> bucket_ok cap rate now (buckets r k) \<and> snd s \<le> now \<and> level cap now (buckets r k) = gained cap rate s now"

lemma gained_later: "snd s \<le> now \<Longrightarrow> now \<le> t \<Longrightarrow> 0 \<le> rate \<Longrightarrow> gained cap rate s t = min cap (gained cap rate s now + rate * Seconds (t - now))"
proof -
  assume "snd s \<le> now" "now \<le> t" "0 \<le> rate"
  then have "0 \<le> rate * Seconds (t - now)" using Seconds_nonneg[of "t - now"] by simp
  moreover have "rate * Seconds (t - snd s) = rate * Seconds (now - snd s) + rate * Seconds (t - now)" by (simp add: Seconds_simps algebra_simps)
  ultimately show ?thesis by (simp add: gained_def min_def)
qed

lemma tracks_later:
  assumes "tracks cap rate k now r s" "now \<le> t" "t \<le> max_int64" "0 \<le> rate"
  shows "tracks cap rate k t r s"
  using assms level_later[of cap rate now "buckets r k" t] gained_later[of s now t rate cap] bucket_ok_later[of cap rate now _ t]
  by (auto simp: tracks_def)

lemma tracks_step:
  assumes tr: "tracks cap rate k t r s" and t: "0 \<le> t" "t \<le> max_int64" "0 \<le> rate"
    and ag: "agreed digest (RatePerMin r) k cap rate [(t, op)]"
  shows "\<exists>s'. tracks cap rate k t (fst (limit_step digest r (t, op))) s' \<and>
    (\<forall>calls. ideal_run cap rate s (calls_on digest (RatePerMin r) k [(t, op)] @ calls) =
      verdicts_on k (snd (limit_step digest r (t, op))) @ ideal_run cap rate s' calls)"
proof (cases "case call_of digest (RatePerMin r) op of Some (key, _) \<Rightarrow> key \<noteq> k | None \<Rightarrow> True")
  case True
  have "buckets (snd (limit_effect digest t op r)) k \<in> {buckets r k, buckets (sweep t r) k}" by (rule untouched_bucket[OF True])
  then have "tracks cap rate k t (snd (limit_effect digest t op r)) s"
    using tr sweep_bucket[of cap rate t r k] t by (auto simp: tracks_def)
  then show ?thesis using True
    by (intro exI[of _ s]) (auto simp: limit_step_def calls_on_def verdicts_on_def Let_def split: option.splits)
next
  case False
  then obtain cost where c: "call_of digest (RatePerMin r) op = Some (k, cost, cap, rate)"
    using ag by (auto simp: agreed_def split: option.splits)
  let ?ok = "fst (limit_effect digest t op r)" and ?a = "gained cap rate s t"
  have d: "debits cap rate t cost (buckets r k) ?ok (buckets (snd (limit_effect digest t op r)) k)" and "0 < cost"
    using call_debits[OF _ t(1,2) c] tr by (auto simp: tracks_def)
  let ?s = "(if ?ok then ?a - cost else ?a, t)"
  have le: "?a \<le> cap" by (simp add: gained_def)
  have "?ok = (cost \<le> ?a)" using d tr by (simp add: debits_def tracks_def)
  moreover have "tracks cap rate k t (snd (limit_effect digest t op r)) ?s"
    using d tr le \<open>0 < cost\<close> by (auto simp: debits_def tracks_def gained_def Seconds_simps)
  ultimately show ?thesis using c
    by (intro exI[of _ ?s]) (simp add: limit_step_def calls_on_def verdicts_on_def Let_def)
qed

lemma calls_on_Cons: "calls_on digest m k (x # evs) = calls_on digest m k [x] @ calls_on digest m k evs"
  by (simp add: calls_on_def)

lemma verdicts_on_append: "verdicts_on k (xs @ ys) = verdicts_on k xs @ verdicts_on k ys"
  by (simp add: verdicts_on_def)

lemma tracks_run:
  assumes "tracks cap rate k now r s" "clocked (now # map fst evs)" "0 \<le> rate" "agreed digest (RatePerMin r) k cap rate evs"
  shows "verdicts_on k (snd (limit_run digest r evs)) = ideal_run cap rate s (calls_on digest (RatePerMin r) k evs)"
  using assms
proof (induction evs arbitrary: now r s)
  case Nil
  then show ?case by (simp add: verdicts_on_def calls_on_def)
next
  case (Cons x evs)
  obtain t op where x: "x = (t, op)" by (cases x)
  have t: "now \<le> t" "0 \<le> t" "t \<le> max_int64" "clocked (t # map fst evs)" using Cons.prems(2) by (auto simp: clocked_def x)
  have ag: "agreed digest (RatePerMin r) k cap rate [(t, op)]" "agreed digest (RatePerMin r) k cap rate evs"
    using Cons.prems(4) by (auto simp: agreed_def x)
  let ?r = "fst (limit_step digest r (t, op))"
  obtain s' where s': "tracks cap rate k t ?r s'"
    "ideal_run cap rate s (calls_on digest (RatePerMin r) k [(t, op)] @ calls_on digest (RatePerMin r) k evs) =
      verdicts_on k (snd (limit_step digest r (t, op))) @ ideal_run cap rate s' (calls_on digest (RatePerMin r) k evs)"
    using tracks_step[OF tracks_later[OF Cons.prems(1) t(1,3) Cons.prems(3)] t(2,3) Cons.prems(3) ag(1)] by blast
  have "RatePerMin ?r = RatePerMin r" by (simp add: limit_step_def Let_def)
  then have "verdicts_on k (snd (limit_run digest ?r evs)) = ideal_run cap rate s' (calls_on digest (RatePerMin r) k evs)"
    using Cons.IH[OF s'(1) t(4) Cons.prems(3)] ag(2) by simp
  then show ?case unfolding x calls_on_Cons[of digest "RatePerMin r" k "(t, op)" evs] s'(2)
    by (simp add: verdicts_on_append limiter.snd_run_Cons del: limit_run.simps)
qed

lemma new_tracks: "bucket_ok cap rate t (buckets (NewRateLimiter m) k) \<and> level cap t (buckets (NewRateLimiter m) k) = cap"
  by (simp add: NewRateLimiter_def bucket_ok_def level_def)


text \<open>What the ideal bucket gives out is bounded by what it held and gained.\<close>

definition given :: "bool list \<Rightarrow> (instant \<times> rat) list \<Rightarrow> rat" where
  "given oks calls = sum_list (map (\<lambda>(ok, t, cost). if ok then cost else 0) (zip oks calls))"

lemma given_bound:
  assumes "sorted (snd s # map fst calls)" "0 \<le> rate" "0 \<le> fst s" "fst s \<le> cap" "list_all (\<lambda>(t, cost). 0 \<le> cost) calls"
  shows "given (ideal_run cap rate s calls) calls \<le> fst s + rate * Seconds (last (snd s # map fst calls) - snd s)"
  using assms
proof (induction calls arbitrary: s)
  case Nil
  then show ?case by (simp add: given_def Seconds_simps)
next
  case (Cons x calls)
  obtain t cost where x: "x = (t, cost)" by (cases x)
  let ?a = "gained cap rate s t"
  let ?s = "(if cost \<le> ?a then ?a - cost else ?a, t)"
  have r: "0 \<le> rate * Seconds (t - snd s)" using Cons.prems(1,2) Seconds_nonneg[of "t - snd s"] by (simp add: x)
  have a: "?a \<le> fst s + rate * Seconds (t - snd s)" "0 \<le> ?a" "?a \<le> cap"
    using r Cons.prems(3,4) by (simp_all add: gained_def)
  have "given (ideal_run cap rate ?s calls) calls \<le> fst ?s + rate * Seconds (last (t # map fst calls) - t)"
    using Cons.IH[of ?s] Cons.prems(1,2,5) a by (simp add: x)
  moreover have "rate * Seconds (last (t # map fst calls) - snd s) = rate * Seconds (t - snd s) + rate * Seconds (last (t # map fst calls) - t)"
    by (simp add: Seconds_simps algebra_simps)
  moreover have "given (ideal_run cap rate s (x # calls)) (x # calls) =
      (if cost \<le> ?a then cost else 0) + given (ideal_run cap rate ?s calls) calls"
    by (simp add: x given_def Let_def)
  moreover have "last (snd s # map fst (x # calls)) = last (t # map fst calls)" by (simp add: x)
  ultimately show ?case using a(1) by (auto split: if_splits)
qed

lemma tracks_reached:
  assumes "tracks cap rate k now r s" "clocked (now # map fst evs)" "0 \<le> rate" "agreed digest (RatePerMin r) k cap rate evs"
  shows "\<exists>s'. tracks cap rate k (last (now # map fst evs)) (fst (limit_run digest r evs)) s' \<and>
    RatePerMin (fst (limit_run digest r evs)) = RatePerMin r"
  using assms
proof (induction evs arbitrary: now r s)
  case (Cons x evs)
  obtain t op where x: "x = (t, op)" by (cases x)
  have t: "now \<le> t" "0 \<le> t" "t \<le> max_int64" "clocked (t # map fst evs)" using Cons.prems(2) by (auto simp: clocked_def x)
  have ag: "agreed digest (RatePerMin r) k cap rate [(t, op)]" "agreed digest (RatePerMin r) k cap rate evs"
    using Cons.prems(4) by (auto simp: agreed_def x)
  let ?r = "fst (limit_step digest r (t, op))"
  obtain s' where "tracks cap rate k t ?r s'"
    using tracks_step[OF tracks_later[OF Cons.prems(1) t(1,3) Cons.prems(3)] t(2,3) Cons.prems(3) ag(1)] by blast
  moreover have "RatePerMin ?r = RatePerMin r" by (simp add: limit_step_def Let_def)
  ultimately show ?case using Cons.IH[of t ?r s'] t(4) Cons.prems(3) ag(2)
    by (simp add: x limiter.fst_run_Cons del: limit_run.simps)
qed auto

lemma new_reached:
  assumes "clocked (start # map fst past)" "0 \<le> rate" "agreed digest perMin k cap rate past"
  obtains s where "tracks cap rate k (last (start # map fst past)) (fst (limit_run digest (NewRateLimiter perMin) past)) s"
    "RatePerMin (fst (limit_run digest (NewRateLimiter perMin) past)) = perMin"
proof -
  have "tracks cap rate k start (NewRateLimiter perMin) (cap, start)" by (simp add: tracks_def new_tracks gained_def Seconds_simps)
  moreover have "RatePerMin (NewRateLimiter perMin) = perMin" by (simp add: NewRateLimiter_def)
  ultimately show ?thesis using tracks_reached[OF _ assms(1,2)] assms(3) that by metis
qed

lemma call_cost: "call_of digest m op = Some (key, cost, c, q) \<Longrightarrow> 0 \<le> cost"
  by (cases op) (auto simp: call_of_def split: if_splits)

lemma calls_one: "calls_on digest m k [x] = [] \<or> (\<exists>cost\<ge>0. calls_on digest m k [x] = [(fst x, cost)])"
  using call_cost[of digest m "snd x"] by (cases x) (auto simp: calls_on_def split: option.splits)

lemma calls_costs: "list_all (\<lambda>(t, cost). 0 \<le> cost) (calls_on digest m k evs)"
proof (induction evs)
  case (Cons x evs)
  then show ?case unfolding calls_on_Cons[of digest m k x evs] using calls_one[of digest m k x] by auto
qed (simp add: calls_on_def)

lemma calls_times:
  "sorted (map fst evs) \<Longrightarrow> sorted (map fst (calls_on digest m k evs)) \<and> fst ` set (calls_on digest m k evs) \<subseteq> fst ` set evs"
proof (induction evs)
  case (Cons x evs)
  then have IH: "sorted (map fst (calls_on digest m k evs))" "fst ` set (calls_on digest m k evs) \<subseteq> fst ` set evs" by auto
  have "\<forall>t\<in>fst ` set (calls_on digest m k evs). fst x \<le> t"
  proof
    fix t assume "t \<in> fst ` set (calls_on digest m k evs)"
    then have "t \<in> fst ` set evs" using IH(2) by blast
    then show "fst x \<le> t" using Cons.prems by auto
  qed
  then show ?case unfolding calls_on_Cons[of digest m k x evs] using calls_one[of digest m k x] IH by (elim disjE exE conjE) auto
qed (simp add: calls_on_def)

lemma sorted_ends: "sorted ts \<Longrightarrow> t \<in> set ts \<Longrightarrow> hd ts \<le> t \<and> t \<le> last ts"
proof (induction ts)
  case (Cons x ts)
  then show ?case by (cases "ts = []") auto
qed simp

lemma calls_after:
  assumes "sorted (map fst evs)" "evs \<noteq> []"
  shows "sorted (fst (hd evs) # map fst (calls_on digest m k evs)) \<and> last (fst (hd evs) # map fst (calls_on digest m k evs)) \<le> fst (last evs)"
proof -
  note c = calls_times[OF assms(1), of digest m k]
  have ev: "fst (hd evs) \<le> t \<and> t \<le> fst (last evs)" if "t \<in> fst ` set evs" for t
    using that assms sorted_ends[of "map fst evs" t] by (simp add: hd_map last_map)
  have "last (fst (hd evs) # map fst (calls_on digest m k evs)) \<in> fst ` set evs"
  proof (cases "calls_on digest m k evs = []")
    case False
    then have "last (map fst (calls_on digest m k evs)) \<in> fst ` set (calls_on digest m k evs)" by (simp add: last_map)
    then show ?thesis using c False by auto
  qed (use assms(2) in simp)
  then show ?thesis using ev c by auto
qed

text \<open>Claim C24. A key is served within its budget: over any stretch of a run, the cost of the calls let through on a key is at
  most the capacity plus the rate times the length of the stretch, whatever came before and whatever else the limiter
  is asked in between.\<close>

theorem limiter_bound:
  assumes "clocked (map fst (past @ evs))" and "evs \<noteq> []" and "0 \<le> rate" and "0 \<le> cap"
    and "agreed digest perMin k cap rate (past @ evs)"
  shows "given (verdicts_on k (snd (limit_run digest (fst (limit_run digest (NewRateLimiter perMin) past)) evs)))
      (calls_on digest perMin k evs) \<le> cap + rate * Seconds (fst (last evs) - fst (hd evs))"
proof -
  let ?start = "fst (hd (past @ evs))" and ?t = "fst (hd evs)" and ?calls = "calls_on digest perMin k evs"
  let ?r = "fst (limit_run digest (NewRateLimiter perMin) past)" and ?now = "last (?start # map fst past)"
  have "clocked (?start # map fst past)" using assms(1,2) by (cases past; cases evs) (auto simp: clocked_def sorted_append)
  moreover have "agreed digest perMin k cap rate past" using assms(5) by (simp add: agreed_def)
  ultimately obtain s where s: "tracks cap rate k ?now ?r s" "RatePerMin ?r = perMin" using new_reached[OF _ assms(3)] by metis
  have t: "?now \<le> ?t" "?t \<le> max_int64" "clocked (?t # map fst evs)" "sorted (map fst evs)"
    using assms(1,2) by (cases evs; cases past rule: rev_cases; auto simp: clocked_def sorted_append)+
  have tr: "tracks cap rate k ?t ?r s" by (rule tracks_later[OF s(1) t(1,2) assms(3)])
  let ?s = "(gained cap rate s ?t, ?t)"
  have tr': "tracks cap rate k ?t ?r ?s" using tr by (simp add: tracks_def gained_def Seconds_simps)
  have lv: "0 \<le> fst ?s" "fst ?s \<le> cap" using tr level_bounds[of cap rate ?t "buckets ?r k"] t(2) assms(3,4) by (auto simp: tracks_def)
  have v: "verdicts_on k (snd (limit_run digest ?r evs)) = ideal_run cap rate ?s ?calls"
    using tracks_run[OF tr' t(3) assms(3)] assms(5) s(2) by (auto simp: agreed_def)
  have sub: "sorted (?t # map fst ?calls)" "last (?t # map fst ?calls) \<le> fst (last evs)"
    using calls_after[OF t(4) assms(2), of digest perMin k] by simp_all
  have "given (ideal_run cap rate ?s ?calls) ?calls \<le> cap + rate * Seconds (last (?t # map fst ?calls) - ?t)"
    using given_bound[of ?s ?calls rate cap] sub(1) assms(3) lv calls_costs[of digest perMin k evs] by fastforce
  moreover have "rate * Seconds (last (?t # map fst ?calls) - ?t) \<le> rate * Seconds (fst (last evs) - ?t)"
    using sub(2) assms(3) by (intro mult_left_mono) (simp_all add: Seconds_def divide_right_mono)
  ultimately show ?thesis unfolding v by linarith
qed

lemma retry_wait_exact:
  assumes "bucket_ok (of_int cap) (of_int cap / Seconds w) now (Some b)" "0 < cap" "0 < w" "w + second \<le> max_int64" "0 < c" "c \<le> cap"
    and "tokens b < of_int c"
  shows "0 < retry_wait (of_int c) b \<and> of_int c \<le> tokens b + perSec b * Seconds (retry_wait (of_int c) b)"
proof -
  let ?x = "(of_int c - tokens b) / perSec b"
  have q: "perSec b = of_int cap / Seconds w" "0 \<le> tokens b" using assms(1) by (auto simp: bucket_ok_def)
  have pos: "0 < perSec b" using q(1) assms(2,3) Seconds_pos[of w] by simp
  have "of_int c - tokens b \<le> of_int cap" using q(2) assms(6) by (simp add: algebra_simps add_increasing)
  then have "?x \<le> of_int cap / perSec b" using pos by (simp add: divide_right_mono)
  also have "\<dots> = Seconds w" using q(1) assms(2) by simp
  finally have up: "?x \<le> Seconds w" .
  have x: "0 < ?x" using pos assms(7) by simp
  have n: "0 < \<lceil>?x\<rceil>" "?x \<le> of_int \<lceil>?x\<rceil>" using x by (auto simp: le_of_int_ceiling)
  have "of_int \<lceil>?x\<rceil> < Seconds w + 1" using up ceiling_correct[of ?x] by linarith
  then have "(of_int (\<lceil>?x\<rceil> * second) :: rat) < of_int (w + second)" by (simp add: Seconds_def field_simps)
  then have "\<lceil>?x\<rceil> * second < w + second" by (simp only: of_int_less_iff)
  then have wt: "retry_wait (of_int c) b = \<lceil>?x\<rceil> * second" 
  proof -
    have "0 \<le> \<lceil>?x\<rceil> * second" using n(1) by (intro mult_nonneg_nonneg) simp_all
    then show ?thesis unfolding retry_wait_def using \<open>\<lceil>?x\<rceil> * second < w + second\<close> assms(4) 
      by (intro wrap64_id order_trans[OF _ \<open>0 \<le> \<lceil>?x\<rceil> * second\<close>]) (simp_all add: min_int64_def)
  qed
  have "Seconds (retry_wait (of_int c) b) = of_int \<lceil>?x\<rceil>" by (simp add: wt Seconds_def)
  moreover have "of_int c - tokens b \<le> perSec b * of_int \<lceil>?x\<rceil>" using n(2) unfolding pos_divide_le_eq[OF pos] by (simp only: mult.commute)
  ultimately show ?thesis using n(1) wt by auto
qed

lemma decide_denied:
  assumes "DecidePeer digest i p cost cap w now r = (d, r1)" "\<not> Allowed d" "\<not> TooLarge d"
  obtains b c where "c = (if cost \<le> 0 then 1 else cost)" "0 < cap" "0 < w" "0 < c" "c \<le> cap" "tokens b < of_int c"
    "buckets r1 (peer_key digest i p) = Some b" "lastFill b = now" "RetryAfter d = retry_wait (of_int c) b"
    "b = topped_up (peer_key digest i p) (of_int cap) (of_int cap / Seconds w) now (sweep now r)"
  using assms by (auto simp: DecidePeer_def denied_def Let_def topped_up_def split: if_splits)

lemma denied_tracks:
  assumes tr: "tracks (of_int cap) (of_int cap / Seconds w) (peer_key digest i p) now r s" and now: "0 \<le> now" "now \<le> max_int64"
    and d: "DecidePeer digest i p cost cap w now r = (d, r1)" "\<not> Allowed d" "\<not> TooLarge d" and w: "w + second \<le> max_int64"
  obtains a where "tracks (of_int cap) (of_int cap / Seconds w) (peer_key digest i p) now r1 (a, now)" "0 < cap" "0 < w"
    "\<And>t. now + RetryAfter d \<le> t \<Longrightarrow> of_int (if cost \<le> 0 then 1 else cost) \<le> gained (of_int cap) (of_int cap / Seconds w) (a, now) t"
proof -
  let ?k = "peer_key digest i p" and ?cap = "of_int cap :: rat" and ?rate = "of_int cap / Seconds w"
  obtain b c where c: "c = (if cost \<le> 0 then 1 else cost)" "0 < cap" "0 < w" "0 < c" "c \<le> cap" "tokens b < of_int c"
    "buckets r1 ?k = Some b" "lastFill b = now" "RetryAfter d = retry_wait (of_int c) b" "b = topped_up ?k ?cap ?rate now (sweep now r)"
    using decide_denied[OF d] by metis
  have rate: "0 \<le> ?rate" "0 \<le> ?cap" using c(2,3) Seconds_pos[of w] by simp_all
  have "bucket_ok ?cap ?rate now (buckets (sweep now r) ?k)" using sweep_bucket[OF _ now(2) rate(1)] tr by (auto simp: tracks_def)
  from topped_up_ok[OF this now rate] have b: "bucket_ok ?cap ?rate now (Some b)" by (simp add: c(10))
  have tb: "tracks ?cap ?rate ?k now r1 (tokens b, now)"
    using b refill_again[OF b now(2) c(8)] by (simp add: tracks_def c(7) level_def gained_def Seconds_simps bucket_ok_def)
  have "of_int c \<le> gained ?cap ?rate (tokens b, now) t" if "now + RetryAfter d \<le> t" for t
  proof -
    have "perSec b * Seconds (retry_wait (of_int c) b) \<le> perSec b * Seconds (t - now)"
      using that b rate(1) by (intro mult_left_mono) (simp_all add: c(9) bucket_ok_def Seconds_def divide_right_mono)
    then show ?thesis using retry_wait_exact[OF b c(2,3) w c(4-6)] c(5) b by (simp add: gained_def bucket_ok_def)
  qed
  then show ?thesis by (intro that[OF tb c(2,3)]) (simp only: c(1))
qed

lemma clock_split:
  assumes "clocked (map fst past @ now # map fst evs @ [t])"
  shows "clocked (hd (map fst past @ [now]) # map fst past)" "last (hd (map fst past @ [now]) # map fst past) \<le> now"
    "0 \<le> now" "now \<le> max_int64" "clocked (now # map fst evs)" "clocked (now # map fst evs @ [t])"
proof -
  show "clocked (hd (map fst past @ [now]) # map fst past)" using assms by (cases past) (auto simp: clocked_def sorted_append)
  show "last (hd (map fst past @ [now]) # map fst past) \<le> now" using assms by (cases past rule: rev_cases) (auto simp: clocked_def sorted_append)
qed (use assms in \<open>auto simp: clocked_def sorted_append\<close>)


section \<open>A sample run\<close>

definition demo_id :: identity where "demo_id = \<lparr>Subject = ''tg:7'', GitHubLogin = [], id_UserID = 7\<rparr>"

definition demo_key :: string where "demo_key = peer_key id demo_id ''user:9''"

definition demo_calls :: "(instant \<times> limit_op) list" where
  "demo_calls = [(second, Request (Some demo_id)), (2 * second, Peer demo_id ''user:9'' 150 PeerSendCap PeerWindow),
     (3 * second, Peer demo_id ''user:9'' 60 PeerSendCap PeerWindow), (4 * second, Hold 7 PeerFloodHold)]"

lemma demo_key_simps [simp]: "peer_key id demo_id ''user:9'' = demo_key" "request_key (Some demo_id) \<noteq> demo_key"
  by (simp_all add: demo_key_def peer_key_def request_key_def demo_id_def identityKey_def)

lemma demo_hyps:
  "clocked (0 # map fst demo_calls)" "clocked (map fst ([] @ demo_calls))" "demo_calls \<noteq> []"
  "agreed id 30 demo_key 200 (1 / 18) demo_calls" "calls_on id 30 demo_key demo_calls = [(2 * second, 150), (3 * second, 60)]"
  by (simp_all add: demo_calls_def clocked_def max_int64_def agreed_def calls_on_def call_of_def PeerSendCap_def PeerWindow_def PeerFloodHold_def Seconds_def)


theorem limiter_bound_witness:
  "given (verdicts_on demo_key (snd (limit_run id (fst (limit_run id (NewRateLimiter 30) [])) demo_calls))) (calls_on id 30 demo_key demo_calls)
     \<le> 200 + 1 / 18 * 3"
  using limiter_bound[OF demo_hyps(2,3), of "1 / 18" 200 id 30 demo_key] demo_hyps(4) by (simp add: demo_calls_def Seconds_def)

definition demo_refused :: "PeerDecision \<times> rate_limiter" where
  "demo_refused = DecidePeer id demo_id ''user:9'' 60 PeerSendCap PeerWindow (3 * second) (fst (limit_run id (NewRateLimiter 30) (take 2 demo_calls)))"

lemma demo_refusal: "fst demo_refused = \<lparr>Allowed = False, RetryAfter = 179 * second, TooLarge = False\<rparr>"
  by code_simp


end
