(* ===== verification/Redact.thy ===== *)
theory Redact
  imports Patterns
begin

text \<open>
  Redaction (\<open>internal/audit/redact.go\<close>): \<open>ScrubText\<close>, which masks Telegram identifiers in free text before it is stored or
  logged, and the log handler that hides the values of sensitive attributes. \<open>ReplaceAllString\<close> of Go's \<open>regexp\<close> works on
  bytes: what no match covers is copied as it is, so the text is cut into the bytes of each code point first.
\<close>

section \<open>Replacing matches\<close>

function chunks :: "string \<Rightarrow> string list" where
  "chunks s = (if s = [] then []
     else if rune_width s = 0 then [hd s] # chunks (tl s)
     else take (rune_width s) s # chunks (drop (rune_width s) s))"
  by pat_completeness auto
termination by (relation "measure length") auto

declare chunks.simps [simp del]

fun splice_matches :: "(string \<Rightarrow> string) \<Rightarrow> string list \<Rightarrow> (rune list \<times> rune list) list \<Rightarrow> string" where
  "splice_matches repl cs [] = concat cs"
| "splice_matches repl cs ((m, rest) # ms) =
     (let start = length cs - length rest - length m in
      concat (take start cs) @ repl (concat (take (length m) (drop start cs))) @ splice_matches repl (drop (length cs - length rest) cs) ms)"

definition ReplaceAllString :: "re \<Rightarrow> (string \<Rightarrow> string) \<Rightarrow> string \<Rightarrow> string" where
  "ReplaceAllString a repl s = splice_matches repl (chunks s) (FindAll a (runes s))"

section \<open>Scrubbing text\<close>

definition peerLike :: re where
  "peerLike = Alt (Seq (Rune (\<lambda>r. r = 64)) (at_least 4 (Rune word_rune)))
     (Seq (opt (Rune (\<lambda>r. r = 43))) (at_least 7 (Rune digit_rune)))"

definition quotedPeer :: re where
  "quotedPeer = in_order [WordB, one_of [exact ''peer'', exact ''resolve'', exact ''for'', exact ''format:''],
     many1 (Rune re_space_rune), Rune (\<lambda>r. r = 34),
     many (Alt (Rune (\<lambda>r. r \<noteq> 34 \<and> r \<noteq> 92)) (Seq (Rune (\<lambda>r. r = 92)) (Rune (\<lambda>r. r \<noteq> 10)))), Rune (\<lambda>r. r = 34)]"

definition redacted :: string where "redacted = ''[redacted]''"

text \<open>The template \<open>$1 "[redacted]"\<close>: the first group is the match up to its first white space.\<close>

definition quoted_template :: "string \<Rightarrow> string" where
  "quoted_template m = takeWhile (\<lambda>c. \<not> re_space_rune (byte c)) m @ '' '' @ [CHR 0x22] @ redacted @ [CHR 0x22]"

definition ScrubText :: "string \<Rightarrow> string" where
  "ScrubText s = ReplaceAllString peerLike (\<lambda>_. redacted) (ReplaceAllString quotedPeer quoted_template s)"

section \<open>Log attributes\<close>

definition sensitiveKeys :: "string list" where
  "sensitiveKeys =
     [''agent_openai_api_key'', ''agent_gateway_token'', ''cf-aig-authorization'', ''text'', ''body'', ''proposed_text'', ''payload'',
      ''password'', ''phone'', ''code'', ''approval_code_encrypted'', ''session_encrypted'', ''session'', ''tg_api_hash'',
      ''oauth_jwt_secret'', ''jwt_secret'', ''client_secret'', ''telegram_oidc_client_secret'', ''encryption_key'', ''authorization'',
      ''bearer'', ''question'', ''options'', ''answer'', ''value'', ''user_code'', ''device_code'', ''consent_token'', ''nonce'',
      ''signature'', ''device_registration_key'', ''worker_token'', ''bridge_token'', ''mctl_surface_telegram_token'', ''bot_token'',
      ''callback_data'', ''callback_payload'', ''update_json'', ''bot_start_bridge_token'', ''botstartbridgetoken'', ''file_base64'',
      ''file_path'', ''first_name'', ''last_name'', ''content'', ''campaign_content'', ''broadcast_text'']"

text \<open>An attribute of \<open>slog\<close>: a key with a group or another value, which is here the text it prints as. What a group prints
  as is the parameter \<open>shown\<close>.\<close>

datatype slog_attr = Plain string string | Group string "slog_attr list"

definition toLower :: "string \<Rightarrow> string" where
  "toLower s = map (\<lambda>c. if 65 \<le> byte c \<and> byte c \<le> 90 then char_of (byte c + 32) else c) s"

definition sensitive :: "string \<Rightarrow> bool" where
  "sensitive key \<longleftrightarrow> toLower key \<in> set sensitiveKeys"

definition hidden :: "string \<Rightarrow> string \<Rightarrow> slog_attr" where
  "hidden key shown_value = Plain key (''[redacted len='' @ FormatInt (int (length shown_value)) @ '']'')"

fun redactAttr :: "(slog_attr list \<Rightarrow> string) \<Rightarrow> slog_attr \<Rightarrow> slog_attr" where
  "redactAttr shown (Plain key v) = (if sensitive key then hidden key v else Plain key v)"
| "redactAttr shown (Group key xs) =
     (if sensitive key then hidden key (shown xs) else Group key (map (redactAttr shown) xs))"

definition Handle :: "(slog_attr list \<Rightarrow> string) \<Rightarrow> slog_attr list \<Rightarrow> slog_attr list" where
  "Handle shown attrs = map (redactAttr shown) attrs"

definition WithAttrs :: "(slog_attr list \<Rightarrow> string) \<Rightarrow> slog_attr list \<Rightarrow> slog_attr list" where
  "WithAttrs shown attrs = map (redactAttr shown) attrs"

text \<open>The values an attribute shows, each with the keys that lead to it.\<close>

fun leaves :: "slog_attr \<Rightarrow> (string list \<times> string) list" where
  "leaves (Plain key v) = [([key], v)]"
| "leaves (Group key xs) = map (\<lambda>(ks, v). (key # ks, v)) (concat (map leaves xs))"

lemma redacted_leaf:
  "(ks, v) \<in> set (leaves (redactAttr shown a)) \<Longrightarrow> k \<in> set ks \<Longrightarrow> sensitive k \<Longrightarrow>
    \<exists>n. v = ''[redacted len='' @ FormatInt n @ '']''"
proof (induction shown a arbitrary: ks rule: redactAttr.induct)
  case (2 shown key xs)
  show ?case
  proof (cases "sensitive key")
    case False
    then obtain x ks' where x: "x \<in> set xs" "(ks', v) \<in> set (leaves (redactAttr shown x))" "ks = key # ks'"
      using 2(2) by auto
    then show ?thesis using 2(1)[OF False x(1,2)] 2(3,4) False by auto
  qed (use 2(2) in \<open>auto simp: hidden_def\<close>)
qed (auto simp: hidden_def split: if_splits)

section \<open>What scrubbing leaves\<close>

lemma width_starts: "rune_width s \<noteq> 0 \<Longrightarrow> starts_rune s"
  by (cases s) (auto simp: rune_width_def starts_rune_def Let_def split: if_splits)

lemma chunks_cases:
  obtains "s = []" "chunks s = []" "runes s = []"
  | "s \<noteq> []" "rune_width s = 0" "chunks s = [hd s] # chunks (tl s)" "runes s = RuneError # runes (tl s)"
  | "s \<noteq> []" "rune_width s \<noteq> 0" "chunks s = take (rune_width s) s # chunks (drop (rune_width s) s)"
    "runes s = decode_rune (take (rune_width s) s) # runes (drop (rune_width s) s)"
  by (metis chunks.simps runes.simps)

lemma chunks_whole: "concat (chunks s) = s \<and> length (chunks s) = length (runes s)"
proof (induction s rule: chunks.induct)
  case (1 s)
  show ?case by (cases s rule: chunks_cases) (use 1 in auto)
qed

lemma chunks_drop: "k \<le> length (chunks s) \<Longrightarrow> \<exists>t. drop k (chunks s) = chunks t \<and> runes t = drop k (runes s)"
proof (induction s arbitrary: k rule: chunks.induct)
  case (1 s)
  show ?case
  proof (cases k)
    case (Suc j)
    show ?thesis by (cases s rule: chunks_cases) (use 1 Suc in auto)
  qed auto
qed

lemma Copies_class:
  "Copies (Rune P) n (q, rs) e \<longleftrightarrow> (\<exists>w r. rs = w @ r \<and> length w = n \<and> list_all P w \<and> e = (prev_rune q w, r))"
proof (induction n arbitrary: q rs)
  case 0
  then show ?case by (auto simp: prev_rune_def elim: CopiesE intro: Match_Copies.intros)
next
  case (Suc n)
  have "Copies (Rune P) (Suc n) (q, rs) e \<longleftrightarrow> (\<exists>x r. rs = x # r \<and> P x \<and> Copies (Rune P) n (Some x, r) e)"
    by (auto elim!: CopiesE(2) MatchE(1) intro: Match_Copies.intros)
  also have "\<dots> \<longleftrightarrow> (\<exists>w r. rs = w @ r \<and> length w = Suc n \<and> list_all P w \<and> e = (prev_rune q w, r))"
    unfolding Suc.IH by (fastforce simp: prev_rune_def length_Suc_conv)
  finally show ?case .
qed

text \<open>The texts \<open>peerLike\<close> stands for.\<close>

definition peer_text :: "rune list \<Rightarrow> bool" where
  "peer_text m \<longleftrightarrow> (\<exists>w. m = 64 # w \<and> 4 \<le> length w \<and> list_all word_rune w) \<or>
     (\<exists>d. (m = d \<or> m = 43 # d) \<and> 7 \<le> length d \<and> list_all digit_rune d)"

lemma Match_class: "Match (at_least n (Rune P)) (q, rs) e \<longleftrightarrow> (\<exists>w r. rs = w @ r \<and> n \<le> length w \<and> list_all P w \<and> e = (prev_rune q w, r))"
proof -
  have "Match (at_least n (Rune P)) (q, rs) e \<longleftrightarrow> (\<exists>m\<ge>n. Copies (Rune P) m (q, rs) e)"
    by (auto simp: at_least_def elim!: MatchE(8) intro: Match_Copies.intros)
  then show ?thesis unfolding Copies_class by blast
qed

lemma Match_opt: "Match (opt (Rune P)) (q, rs) e \<longleftrightarrow> e = (q, rs) \<or> (\<exists>x r. rs = x # r \<and> P x \<and> e = (Some x, r))"
proof -
  have "Match (opt (Rune P)) (q, rs) e \<longleftrightarrow> (\<exists>m\<le>1. Copies (Rune P) m (q, rs) e)"
    unfolding opt_def by (rule iffI) (auto elim!: MatchE(8) intro!: Match_Copies.intros(9))
  also have "\<dots> \<longleftrightarrow> Copies (Rune P) 0 (q, rs) e \<or> Copies (Rune P) 1 (q, rs) e"
    unfolding One_nat_def by (metis le_Suc_eq le_zero_eq order_refl)
  also have "Copies (Rune P) 0 (q, rs) e \<longleftrightarrow> e = (q, rs)" by (auto elim: CopiesE(1) intro: Match_Copies.intros(10))
  also have "Copies (Rune P) 1 (q, rs) e \<longleftrightarrow> (\<exists>x r. rs = x # r \<and> P x \<and> e = (Some x, r))"
    unfolding One_nat_def by (auto elim!: CopiesE MatchE(1) intro!: Match_Copies.intros(1,10,11))
  finally show ?thesis .
qed

lemma Match_peerLike: "(\<exists>e. Match peerLike (q, rs) e) \<longleftrightarrow> (\<exists>m. peer_text m \<and> prefix m rs)"
proof -
  have seq: "Match (Seq a b) p e \<longleftrightarrow> (\<exists>x. Match a p x \<and> Match b x e)" for a b p e by (auto elim!: MatchE(6) intro: Match_Copies.intros)
  have one: "Match (Rune P) (q, rs) e \<longleftrightarrow> (\<exists>x r. rs = x # r \<and> P x \<and> e = (Some x, r))" for P q rs e
    by (auto elim!: MatchE(1) intro: Match_Copies.intros)
  have handle: "(\<exists>e. Match (Seq (Rune (\<lambda>r. r = 64)) (at_least 4 (Rune word_rune))) (q, rs) e) \<longleftrightarrow>
      (\<exists>w r. rs = 64 # w @ r \<and> 4 \<le> length w \<and> list_all word_rune w)"
    unfolding seq one by (auto simp: Match_class)
  have phone: "(\<exists>e. Match (Seq (opt (Rune (\<lambda>r. r = 43))) (at_least 7 (Rune digit_rune))) (q, rs) e) \<longleftrightarrow>
      (\<exists>d r. (rs = d @ r \<or> rs = 43 # d @ r) \<and> 7 \<le> length d \<and> list_all digit_rune d)"
  proof -
    have "(\<exists>e. Match (Seq (opt (Rune (\<lambda>r. r = 43))) (at_least 7 (Rune digit_rune))) (q, rs) e) \<longleftrightarrow>
        (\<exists>e. Match (at_least 7 (Rune digit_rune)) (q, rs) e) \<or> (\<exists>r. rs = 43 # r \<and> (\<exists>e. Match (at_least 7 (Rune digit_rune)) (Some 43, r) e))"
      unfolding seq Match_opt by blast
    then show ?thesis unfolding Match_class by auto
  qed
  have "(\<exists>e. Match peerLike (q, rs) e) \<longleftrightarrow>
      (\<exists>e. Match (Seq (Rune (\<lambda>r. r = 64)) (at_least 4 (Rune word_rune))) (q, rs) e) \<or>
      (\<exists>e. Match (Seq (opt (Rune (\<lambda>r. r = 43))) (at_least 7 (Rune digit_rune))) (q, rs) e)"
    by (auto simp: peerLike_def elim!: MatchE(7) intro: Match_Copies.intros)
  then show ?thesis unfolding handle phone by (fastforce simp: peer_text_def prefix_def)
qed

lemma peerLike_regular: "regular peerLike"
  by (simp add: peerLike_def pattern_defs)

lemma ends_peerLike: "ends peerLike (q, rs) = [] \<longleftrightarrow> \<not> (\<exists>m. peer_text m \<and> prefix m rs)"
  using ends_Match[OF peerLike_regular, of _ "(q, rs)"] unfolding Match_peerLike[of q, symmetric]
  by (metis empty_iff empty_set last_in_set)

text \<open>A text without such a piece in it.\<close>

definition clean :: "rune list \<Rightarrow> bool" where "clean rs \<longleftrightarrow> (\<forall>m. peer_text m \<longrightarrow> \<not> sublist m rs)"

lemma peer_runes: "peer_text m \<Longrightarrow> m \<noteq> [] \<and> (\<forall>r\<in>set m. r = 64 \<or> r = 43 \<or> word_rune r) \<and> (hd m = 64 \<or> hd m = 43 \<or> digit_rune (hd m))"
  by (cases m) (auto simp: peer_text_def list_all_iff digit_rune_def word_rune_def)

lemma sublist_apart: "sublist m (x @ c # y) \<Longrightarrow> c \<notin> set m \<Longrightarrow> sublist m x \<or> sublist m y"
  by (fastforce simp: sublist_append sublist_Cons_right prefix_Cons)

lemma clean_MatchString: "MatchString peerLike rs \<longleftrightarrow> \<not> clean rs"
proof -
  have "MatchString peerLike rs \<longleftrightarrow> (\<exists>before rest m. rs = before @ rest \<and> peer_text m \<and> prefix m rest)"
    unfolding MatchString_iff[OF peerLike_regular] using Match_peerLike by metis
  then show ?thesis unfolding clean_def sublist_def prefix_def by metis
qed

lemma find_from_first:
  "find_from a prev rs = Some (st, e) \<Longrightarrow> \<exists>before. rs = before @ snd st \<and> e \<in> set (ends a st) \<and>
    (\<forall>b r. rs = b @ r \<and> length b < length before \<longrightarrow> (\<exists>q. ends a (q, r) = []))"
proof (induction rs arbitrary: prev)
  case Nil
  then show ?case by (auto split: list.splits)
next
  case (Cons x rs)
  show ?case
  proof (cases "ends a (prev, x # rs)")
    case Nil
    then obtain before where b: "rs = before @ snd st" "e \<in> set (ends a st)"
      "\<forall>b r. rs = b @ r \<and> length b < length before \<longrightarrow> (\<exists>q. ends a (q, r) = [])"
      using Cons.IH[of "Some x"] Cons.prems by auto
    have "\<exists>q. ends a (q, r) = []" if "x # rs = b @ r" "length b < length (x # before)" for b r
      using that b(3) Nil by (cases b) auto
    then show ?thesis using b(1,2) by (intro exI[of _ "x # before"]) simp
  qed (use Cons.prems in \<open>auto intro!: exI[of _ "[]"]\<close>)
qed

lemma Match_suffix: "Match a p q \<Longrightarrow> suffix (snd q) (snd p)" "Copies a n p q \<Longrightarrow> suffix (snd q) (snd p)"
proof (induction rule: Match_Copies.inducts)
  case (6 a p q b r)
  then show ?case by (meson suffix_order.trans)
next
  case (11 a p q n r)
  then show ?case by (meson suffix_order.trans)
qed (auto simp: suffix_def)

lemma peer_prefix_clean:
  assumes "\<forall>b r. rs = b @ r \<and> length b < n \<longrightarrow> (\<exists>q. ends peerLike (q, r) = [])" "n = length before" "rs = before @ rest"
  shows "clean before"
  unfolding clean_def
proof (intro allI impI notI)
  fix m assume m: "peer_text m" "sublist m before"
  then obtain p q where p: "before = p @ m @ q" by (auto simp: sublist_def)
  then have "length p < n" using peer_runes[OF m(1)] assms(2) by auto
  moreover have "rs = p @ (m @ q @ rest)" using p assms(3) by simp
  ultimately obtain c where "ends peerLike (c, m @ q @ rest) = []" using assms(1) by blast
  then show False using m(1) by (auto simp: ends_peerLike)
qed

lemma clean_joined:
  assumes "clean x" "clean y"
  shows "clean (x @ map byte redacted @ y)"
  unfolding clean_def
proof (intro allI impI notI)
  fix m assume m: "peer_text m" "sublist m (x @ map byte redacted @ y)"
  let ?w = "map byte ''redacted''"
  note r = peer_runes[OF m(1)]
  have out: "91 \<notin> set m" "93 \<notin> set m" using r by (auto simp: word_rune_def)
  have "sublist m (x @ 91 # ?w @ 93 # y)" using m(2) by (simp add: redacted_def)
  then have "sublist m x \<or> sublist m ?w \<or> sublist m y" using sublist_apart[OF _ out(1)] sublist_apart[OF _ out(2)] by blast
  moreover have "\<not> sublist m ?w"
  proof
    assume "sublist m ?w"
    then have "hd m \<in> set ?w" using set_mono_sublist[of m ?w] r hd_in_set[of m] by blast
    then show False using r by (auto simp: digit_rune_def)
  qed
  ultimately show False using assms m(1) by (auto simp: clean_def)
qed

lemma clean_found:
  assumes "find_from peerLike prev (runes u) = Some (st, e)"
  obtains g v where "concat (take (length (runes u) - length (snd st)) (chunks u)) = g" "clean (runes g)"
    "drop (length (runes u) - length (snd e)) (chunks u) = chunks v" "runes v = snd e" "length (snd e) < length (snd st)"
    "length (snd st) \<le> length (runes u)"
proof -
  obtain before where b: "runes u = before @ snd st" "e \<in> set (ends peerLike st)"
    "\<forall>b r. runes u = b @ r \<and> length b < length before \<longrightarrow> (\<exists>q. ends peerLike (q, r) = [])"
    using find_from_first[OF assms] by blast
  have match: "Match peerLike st e" using b(2) ends_Match[OF peerLike_regular] by simp
  have shorter: "length (snd e) < length (snd st)" using Match_length(1)[OF match] by (simp add: peerLike_def pattern_defs)
  have len: "length (chunks u) = length (runes u)" using chunks_whole[of u] by simp
  obtain t where t: "drop (length before) (chunks u) = chunks t" "runes t = snd st"
    using chunks_drop[of "length before" u] b(1) len by auto
  let ?g = "concat (take (length before) (chunks u))"
  have u: "u = ?g @ t" using chunks_whole[of u] chunks_whole[of t] t(1) by (metis append_take_drop_id concat_append)
  obtain m where "peer_text m" "prefix m (snd st)" using b(2) ends_peerLike[of "fst st" "snd st"] by force
  then have "runes t \<noteq> []" "hd (runes t) \<noteq> RuneError" using peer_runes[of m] t(2) by (auto simp: prefix_def RuneError_def digit_rune_def)
  then have "starts_rune t" by (cases t rule: chunks_cases) (auto intro: width_starts)
  then have "runes ?g = before" using runes_append[of t ?g] u t(2) b(1) by simp
  then have g: "clean (runes ?g)" using peer_prefix_clean[OF b(3) refl b(1)] by simp
  have "suffix (snd e) (runes u)" using Match_suffix(1)[OF match] b(1) by (metis suffix_appendI)
  then have "drop (length (runes u) - length (snd e)) (runes u) = snd e" by (auto simp: suffix_def)
  then obtain v where "drop (length (runes u) - length (snd e)) (chunks u) = chunks v" "runes v = snd e"
    using chunks_drop[of "length (runes u) - length (snd e)" u] len by auto
  then show ?thesis using that[of ?g v] g shorter b(1) by simp
qed

lemma splice_clean:
  "length (runes u) < n \<Longrightarrow> clean (runes (splice_matches (\<lambda>_. redacted) (chunks u) (find_all n peerLike (prev, runes u))))"
proof (induction n arbitrary: u prev)
  case (Suc n)
  show ?case
  proof (cases "find_from peerLike prev (runes u)")
    case None
    have "clean (runes u)" using peer_prefix_clean[of "runes u" "length (runes u)" "runes u" "[]"] None by (auto simp: find_from_None)
    then show ?thesis using None chunks_whole[of u] by simp
  next
    case (Some p)
    obtain st e where p: "p = (st, e)" by (cases p)
    obtain g v where g: "concat (take (length (runes u) - length (snd st)) (chunks u)) = g" "clean (runes g)"
      "drop (length (runes u) - length (snd e)) (chunks u) = chunks v" "runes v = snd e" "length (snd e) < length (snd st)"
      "length (snd st) \<le> length (runes u)"
      using clean_found Some p by metis
    have "length (runes v) < n" using g(4-6) Suc.prems by simp
    from Suc.IH[OF this, of "fst e"] have v: "clean (runes (splice_matches (\<lambda>_. redacted) (chunks v) (find_all n peerLike e)))" by (simp add: g(4))
    have start: "length (chunks u) - length (snd e) - length (take (length (snd st) - length (snd e)) (snd st)) = length (runes u) - length (snd st)"
      using g(5,6) chunks_whole[of u] by simp
    have asc: "runes (x @ redacted @ y) = runes x @ map byte redacted @ runes y" for x y
      by (subst runes_append) (simp_all add: redacted_def starts_rune_def runes_ascii_Cons)
    show ?thesis using clean_joined[OF g(2) v] start g(1,3) chunks_whole[of u] by (simp add: Some p Let_def asc)
  qed
qed simp


text \<open>Masking a run of digits can expose a quoted name: a second pass masks what the first one left.\<close>

lemma chunks_ascii_Cons: "byte c < 128 \<Longrightarrow> chunks (c # t) = [c] # chunks t"
  by (subst chunks.simps) (simp add: rune_width_def Let_def)

lemma chunks_Nil [simp]: "chunks [] = []"
  by (simp add: chunks.simps)

lemma copies_numeral: "copies g f (numeral k) n p = concat (map (copies g f (pred_numeral k) n) (f p))"
  by (simp add: numeral_eq_Suc)

lemmas scrub_eval = copies_numeral ScrubText_def ReplaceAllString_def FindAll_def runes_ascii_Cons chunks_ascii_Cons peerLike_def quotedPeer_def
  pattern_defs in_order_def exact_def ascii_runes_def word_boundary_def word_rune_def digit_rune_def re_space_rune_def
  quoted_template_def redacted_def Let_def

lemma scrub_twice:
  "ScrubText (''1234567for '' @ [CHR 0x22, CHR ''x'', CHR 0x22]) = ''[redacted]for '' @ [CHR 0x22, CHR ''x'', CHR 0x22]"
  "ScrubText (''[redacted]for '' @ [CHR 0x22, CHR ''x'', CHR 0x22]) = ''[redacted]for '' @ [CHR 0x22] @ redacted @ [CHR 0x22]"
  by (simp_all add: scrub_eval)

end
