(* ===== verification/AuditLog.thy ===== *)
theory AuditLog
  imports Redact Tables "HOL-Library.Word"
begin

text \<open>
  The audit log and its hash chain (\<open>internal/db/audit_chain.go\<close> and the audit part of \<open>internal/db/store.go\<close>). Each row of a user
  stores the hash of the user's row before it and its own, so that a later change of a row shows. SHA-256 is the
  parameter \<open>sha\<close>; what the column \<open>created_at\<close> keeps of a clock reading is the parameter \<open>kept\<close>, since PostgreSQL keeps
  microseconds and SQLite the full reading. A nullable column is an option.
\<close>

section \<open>Rows\<close>

record auditEdge =
  RequestID :: string
  Route :: string
  MCPMethod :: string
  MCPName :: string
  ProtocolVersion :: string

definition no_edge :: auditEdge where
  "no_edge = \<lparr>RequestID = [], Route = [], MCPMethod = [], MCPName = [], ProtocolVersion = []\<rparr>"

record audit_row =
  al_id :: int
  al_user :: int
  al_tool :: string
  al_peer :: "string option"
  al_status :: string
  al_error :: "string option"
  al_created :: instant
  al_prev :: "string option"
  al_entry :: "string option"
  al_call_path :: "string option"
  al_edge_id :: "string option"
  al_edge_route :: "string option"
  al_mcp_method :: "string option"
  al_mcp_name :: "string option"
  al_protocol :: "string option"
  al_reason :: "string option"

record audit_db =
  al_rows :: "audit_row list"
  al_seq :: int

record ToolCall =
  tc_UserID :: int
  Tool :: string
  PeerRedacted :: string
  Status :: string
  ErrMsg :: string
  CallPath :: string
  Reason :: string

section \<open>The hash of a row\<close>

fun be_bytes :: "nat \<Rightarrow> nat \<Rightarrow> string" where
  "be_bytes 0 v = []"
| "be_bytes (Suc n) v = char_of (v div 256 ^ n) # be_bytes n v"

definition writeBE64 :: "64 word \<Rightarrow> string" where "writeBE64 v = be_bytes 8 (unat v)"

definition writeLenPrefixed :: "string \<Rightarrow> string" where
  "writeLenPrefixed p = be_bytes 4 (unat (word_of_nat (length p) :: 32 word)) @ p"

definition auditEdgeMarker :: char where "auditEdgeMarker = CHR 0x01"

definition edge_empty :: "auditEdge \<Rightarrow> bool" where "edge_empty e \<longleftrightarrow> e = no_edge"

text \<open>What the hash is taken of.\<close>

definition audit_bytes ::
  "string \<Rightarrow> int \<Rightarrow> string \<Rightarrow> string \<Rightarrow> string \<Rightarrow> string \<Rightarrow> string option \<Rightarrow> instant \<Rightarrow> auditEdge \<Rightarrow> string" where
  "audit_bytes prev userID tool peer status err callPath createdAt edge =
     prev @ writeBE64 (word_of_int userID) @ writeLenPrefixed tool @ writeLenPrefixed peer @ writeLenPrefixed status @
     writeLenPrefixed err @ writeBE64 (word_of_int createdAt) @
     (case callPath of None \<Rightarrow> [] | Some p \<Rightarrow> writeLenPrefixed p) @
     (if edge_empty edge then []
      else auditEdgeMarker # writeLenPrefixed (RequestID edge) @ writeLenPrefixed (Route edge) @ writeLenPrefixed (MCPMethod edge) @
        writeLenPrefixed (MCPName edge) @ writeLenPrefixed (ProtocolVersion edge))"

definition hashAuditEntry ::
  "(string \<Rightarrow> string) \<Rightarrow> string \<Rightarrow> int \<Rightarrow> string \<Rightarrow> string \<Rightarrow> string \<Rightarrow> string \<Rightarrow> string option \<Rightarrow> instant \<Rightarrow> auditEdge \<Rightarrow> string" where
  "hashAuditEntry sha prev userID tool peer status err callPath createdAt edge =
     sha (audit_bytes prev userID tool peer status err callPath createdAt edge)"

section \<open>Writing\<close>

definition zero_hash :: string where "zero_hash = replicate 32 (CHR 0x00)"

definition nullable_text :: "string \<Rightarrow> string option" where "nullable_text s = (if s = [] then None else Some s)"
definition text_of :: "string option \<Rightarrow> string" where "text_of c = (case c of None \<Rightarrow> [] | Some s \<Rightarrow> s)"

definition rows_of :: "int \<Rightarrow> audit_db \<Rightarrow> audit_row list" where
  "rows_of userID db = sort_key al_id (filter (\<lambda>r. al_user r = userID) (al_rows db))"

definition previousAuditHash :: "int \<Rightarrow> audit_db \<Rightarrow> string" where
  "previousAuditHash userID db =
     (case List.find (\<lambda>r. al_entry r \<noteq> None) (rev (rows_of userID db)) of
        None \<Rightarrow> zero_hash
      | Some r \<Rightarrow> (case al_entry r of None \<Rightarrow> zero_hash | Some h \<Rightarrow> if h = [] then zero_hash else h))"

text \<open>The insert, with the previous hash the transaction read.\<close>

definition insert_audit ::
  "(string \<Rightarrow> string) \<Rightarrow> (instant \<Rightarrow> instant) \<Rightarrow> string \<Rightarrow> ToolCall \<Rightarrow> auditEdge \<Rightarrow> instant \<Rightarrow> audit_db \<Rightarrow> audit_db" where
  "insert_audit sha kept prev c edge now db =
     (let err = ScrubText (ErrMsg c);
          entry = hashAuditEntry sha prev (tc_UserID c) (Tool c) (PeerRedacted c) (Status c) err (Some (CallPath c)) now edge in
      \<lparr>al_rows = al_rows db @ [\<lparr>al_id = al_seq db + 1, al_user = tc_UserID c, al_tool = Tool c, al_peer = nullable_text (PeerRedacted c),
         al_status = Status c, al_error = nullable_text err, al_created = kept now, al_prev = Some prev, al_entry = Some entry,
         al_call_path = Some (CallPath c), al_edge_id = nullable_text (RequestID edge), al_edge_route = nullable_text (Route edge),
         al_mcp_method = nullable_text (MCPMethod edge), al_mcp_name = nullable_text (MCPName edge),
         al_protocol = nullable_text (ProtocolVersion edge), al_reason = nullable_text (Reason c)\<rparr>],
       al_seq = al_seq db + 1\<rparr>)"

text \<open>A failed write is logged and leaves nothing behind.\<close>

definition LogToolCall ::
  "(string \<Rightarrow> string) \<Rightarrow> (instant \<Rightarrow> instant) \<Rightarrow> bool \<Rightarrow> ToolCall \<Rightarrow> auditEdge \<Rightarrow> instant \<Rightarrow> audit_db \<Rightarrow> audit_db" where
  "LogToolCall sha kept fails c edge now db =
     (if fails then db else insert_audit sha kept (previousAuditHash (tc_UserID c) db) c edge now db)"

definition SweepAuditLog :: "duration \<Rightarrow> instant \<Rightarrow> audit_db \<Rightarrow> int \<times> audit_db" where
  "SweepAuditLog retention now db =
     (if retention \<le> 0 then (0, db)
      else let old = (\<lambda>r. al_created r < now - retention) in
        (count_where old (al_rows db), db\<lparr>al_rows := delete_where old (al_rows db)\<rparr>))"

section \<open>Reading\<close>

record AuditChainVerification =
  OK :: bool
  Verified :: nat
  FirstBadID :: int
  BadReason :: string

definition row_edge :: "audit_row \<Rightarrow> auditEdge" where
  "row_edge r = \<lparr>RequestID = text_of (al_edge_id r), Route = text_of (al_edge_route r), MCPMethod = text_of (al_mcp_method r),
     MCPName = text_of (al_mcp_name r), ProtocolVersion = text_of (al_protocol r)\<rparr>"

definition row_bytes :: "int \<Rightarrow> string \<Rightarrow> audit_row \<Rightarrow> string" where
  "row_bytes userID prev r = audit_bytes prev userID (al_tool r) (text_of (al_peer r)) (al_status r) (text_of (al_error r))
     (al_call_path r) (al_created r) (row_edge r)"

fun verify_rows :: "(string \<Rightarrow> string) \<Rightarrow> int \<Rightarrow> string option \<Rightarrow> nat \<Rightarrow> audit_row list \<Rightarrow> AuditChainVerification" where
  "verify_rows sha userID lastEntry verified [] = \<lparr>OK = True, Verified = verified, FirstBadID = 0, BadReason = []\<rparr>"
| "verify_rows sha userID lastEntry verified (r # rs) =
     (case (al_prev r, al_entry r) of
        (Some prevHash, Some entryHash) \<Rightarrow>
          if prevHash \<noteq> (case lastEntry of None \<Rightarrow> zero_hash | Some h \<Rightarrow> h)
          then \<lparr>OK = False, Verified = verified, FirstBadID = al_id r,
                BadReason = ''prev_hash does not chain to the previous entry's entry_hash''\<rparr>
          else if sha (row_bytes userID prevHash r) \<noteq> entryHash
          then \<lparr>OK = False, Verified = verified, FirstBadID = al_id r,
                BadReason = ''entry_hash does not match recomputed canonical hash''\<rparr>
          else verify_rows sha userID (Some entryHash) (verified + 1) rs
      | _ \<Rightarrow> verify_rows sha userID None verified rs)"

definition VerifyAuditChain :: "(string \<Rightarrow> string) \<Rightarrow> int \<Rightarrow> audit_db \<Rightarrow> AuditChainVerification" where
  "VerifyAuditChain sha userID db = verify_rows sha userID None 0 (rows_of userID db)"

record AuditEntry =
  Ts :: instant
  ToolName :: string
  ae_PeerRedacted :: string
  ae_Status :: string
  ErrorRedacted :: string
  ae_CallPath :: string
  ae_edge :: auditEdge

definition ListAuditFor :: "int \<Rightarrow> int \<Rightarrow> instant option \<Rightarrow> audit_db \<Rightarrow> AuditEntry list" where
  "ListAuditFor userID limit before db =
     (let lim = (if limit \<le> 0 then 50 else if limit > 500 then 500 else limit);
          rows = filter (\<lambda>r. case before of None \<Rightarrow> True | Some t \<Rightarrow> al_created r < t) (rev (rows_of userID db)) in
      map (\<lambda>r. \<lparr>Ts = al_created r, ToolName = al_tool r, ae_PeerRedacted = text_of (al_peer r), ae_Status = al_status r,
        ErrorRedacted = ScrubText (text_of (al_error r)), ae_CallPath = text_of (al_call_path r), ae_edge = row_edge r\<rparr>)
        (take (nat lim) rows))"

section \<open>The log in use\<close>

datatype audit_op = Log bool ToolCall auditEdge instant | Sweep duration instant

fun audit_step :: "(string \<Rightarrow> string) \<Rightarrow> (instant \<Rightarrow> instant) \<Rightarrow> audit_db \<Rightarrow> audit_op \<Rightarrow> audit_db \<times> int list" where
  "audit_step sha kept db (Log fails c edge now) = (LogToolCall sha kept fails c edge now db, [])"
| "audit_step sha kept db (Sweep retention now) = (snd (SweepAuditLog retention now db), [fst (SweepAuditLog retention now db)])"

fun audit_run :: "(string \<Rightarrow> string) \<Rightarrow> (instant \<Rightarrow> instant) \<Rightarrow> audit_db \<Rightarrow> audit_op list \<Rightarrow> audit_db \<times> int list" where
  "audit_run sha kept db [] = (db, [])"
| "audit_run sha kept db (x # xs) = (let (db1, o1) = audit_step sha kept db x; (db2, o2) = audit_run sha kept db1 xs in (db2, o1 @ o2))"

definition empty_log :: audit_db where "empty_log = \<lparr>al_rows = [], al_seq = 0\<rparr>"

section \<open>Order of the rows\<close>

definition audit_inv :: "audit_db \<Rightarrow> bool" where
  "audit_inv db \<longleftrightarrow> sorted_wrt (<) (map al_id (al_rows db)) \<and> (\<forall>r\<in>set (al_rows db). al_id r \<le> al_seq db)"

lemma rows_of_filter: "audit_inv db \<Longrightarrow> rows_of u db = filter (\<lambda>r. al_user r = u) (al_rows db)"
proof -
  assume "audit_inv db"
  then have "sorted (map al_id (al_rows db))" by (simp add: audit_inv_def strict_sorted_iff)
  then have "sorted (map al_id (filter (\<lambda>r. al_user r = u) (al_rows db)))" by (rule sorted_filter)
  then show ?thesis by (simp add: rows_of_def sort_key_id_if_sorted)
qed

lemma insert_audit_inv: "audit_inv db \<Longrightarrow> audit_inv (insert_audit sha kept prev c edge now db)"
  by (fastforce simp: audit_inv_def insert_audit_def Let_def sorted_wrt_append)

lemma sweep_audit_inv: "audit_inv db \<Longrightarrow> audit_inv (snd (SweepAuditLog retention now db))"
  by (auto simp: audit_inv_def SweepAuditLog_def Let_def delete_where_def sorted_wrt_map sorted_wrt_filter)

interpretation audit: machine "audit_step sha kept" "audit_run sha kept" audit_inv for sha kept
proof unfold_locales
  show "audit_inv s \<Longrightarrow> audit_inv (fst (audit_step sha kept s x))" for s x
    by (cases x) (simp_all add: LogToolCall_def insert_audit_inv sweep_audit_inv)
qed simp_all

section \<open>Chains\<close>

definition anchor :: "string option \<Rightarrow> string" where "anchor h = (case h of None \<Rightarrow> zero_hash | Some x \<Rightarrow> x)"

fun chained :: "(string \<Rightarrow> string) \<Rightarrow> int \<Rightarrow> string option \<Rightarrow> audit_row list \<Rightarrow> bool" where
  "chained sha u h [] = True"
| "chained sha u h (r # rs) \<longleftrightarrow> al_prev r = Some (anchor h) \<and> al_entry r = Some (sha (row_bytes u (anchor h) r)) \<and>
     chained sha u (Some (sha (row_bytes u (anchor h) r))) rs"

definition tip :: "string option \<Rightarrow> audit_row list \<Rightarrow> string option" where
  "tip h rs = (if rs = [] then h else al_entry (last rs))"

lemma tip_simps [simp]: "tip h [] = h" "tip h (rs @ [r]) = al_entry r" "al_entry r = Some e \<Longrightarrow> tip h (r # rs) = tip (Some e) rs"
  by (simp_all add: tip_def)

lemma verify_chained: "chained sha u h rs \<Longrightarrow> verify_rows sha u h n rs = \<lparr>OK = True, Verified = n + length rs, FirstBadID = 0, BadReason = []\<rparr>"
  by (induction sha u h rs arbitrary: n rule: chained.induct) (auto simp: anchor_def split: option.splits)

text \<open>Verification accepts exactly the chains, up to rows from before the chain.\<close>

lemma chained_verify:
  "OK (verify_rows sha u h n rs) \<Longrightarrow> list_all (\<lambda>r. al_prev r \<noteq> None \<and> al_entry r \<noteq> None) rs \<Longrightarrow> chained sha u h rs"
  by (induction sha u h n rs rule: verify_rows.induct) (auto simp: anchor_def split: option.splits if_splits)

lemma chained_snoc:
  "chained sha u h (rs @ [r]) \<longleftrightarrow> chained sha u h rs \<and> al_prev r = Some (anchor (tip h rs)) \<and>
     al_entry r = Some (sha (row_bytes u (anchor (tip h rs)) r))"
proof (induction rs arbitrary: h)
  case (Cons x rs)
  show ?case using Cons.IH[of "Some (sha (row_bytes u (anchor h) x))"] by auto
qed simp

lemma chained_tip: "chained sha u h rs \<Longrightarrow> rs \<noteq> [] \<Longrightarrow> \<exists>x. tip h rs = Some (sha x)"
  by (cases rs rule: rev_cases) (auto simp: chained_snoc)

lemma text_of_nullable [simp]: "text_of (nullable_text s) = s"
  by (simp add: text_of_def nullable_text_def)

lemma find_last: "rs \<noteq> [] \<Longrightarrow> al_entry (last rs) \<noteq> None \<Longrightarrow> List.find (\<lambda>r. al_entry r \<noteq> None) (rev rs) = Some (last rs)"
  by (cases rs rule: rev_cases) simp_all

lemma previous_tip:
  assumes "chained sha u None (rows_of u db)" "\<And>x. length (sha x) = 32"
  shows "previousAuditHash u db = anchor (tip None (rows_of u db))"
proof (cases "rows_of u db = []")
  case False
  then obtain x where x: "al_entry (last (rows_of u db)) = Some (sha x)" using chained_tip[OF assms(1)] by (auto simp: tip_def)
  have "sha x \<noteq> []" using assms(2)[of x] by auto
  then show ?thesis using find_last[OF False] x False by (simp add: previousAuditHash_def anchor_def tip_def)
qed (simp add: previousAuditHash_def anchor_def)

lemma rows_insert:
  assumes "audit_inv db"
  shows "rows_of u (insert_audit sha kept prev c edge now db) =
    rows_of u db @ (if tc_UserID c = u then [last (al_rows (insert_audit sha kept prev c edge now db))] else [])"
  using rows_of_filter[OF assms] rows_of_filter[OF insert_audit_inv[OF assms]] by (simp add: insert_audit_def Let_def)

lemma inserted_bytes:
  assumes "kept now = now"
  shows "row_bytes (tc_UserID c) prev (last (al_rows (insert_audit sha kept prev c edge now db))) =
      audit_bytes prev (tc_UserID c) (Tool c) (PeerRedacted c) (Status c) (ScrubText (ErrMsg c)) (Some (CallPath c)) now edge"
  by (cases edge) (simp add: row_bytes_def insert_audit_def Let_def row_edge_def assms)

lemma log_chained:
  assumes "audit_inv db" "chained sha u None (rows_of u db)" "\<And>x. length (sha x) = 32" "kept now = now"
  shows "chained sha u None (rows_of u (LogToolCall sha kept fails c edge now db))"
proof (cases "fails \<or> tc_UserID c \<noteq> u")
  case True
  then show ?thesis using assms(1,2) by (auto simp: LogToolCall_def rows_insert)
next
  case False
  let ?p = "previousAuditHash u db" and ?db = "insert_audit sha kept (previousAuditHash u db) c edge now db"
  have "al_prev (last (al_rows ?db)) = Some ?p" "al_entry (last (al_rows ?db)) = Some (sha (row_bytes u ?p (last (al_rows ?db))))"
    using inserted_bytes[where kept = kept and now = now, OF assms(4), of c ?p sha edge db] False by (simp_all add: insert_audit_def Let_def hashAuditEntry_def)
  then show ?thesis using False assms(2) previous_tip[OF assms(2,3)]
    by (simp add: LogToolCall_def rows_insert[OF assms(1)] chained_snoc)
qed

text \<open>Operations that only append: every reading of the clock is kept exactly, and the log is kept for ever.\<close>

definition appends :: "(instant \<Rightarrow> instant) \<Rightarrow> audit_op \<Rightarrow> bool" where
  "appends kept op = (case op of Log fails c edge now \<Rightarrow> kept now = now | Sweep retention now \<Rightarrow> retention \<le> 0)"

lemma run_chained:
  assumes "audit_inv db" "chained sha u None (rows_of u db)" "\<And>x. length (sha x) = 32" "list_all (appends kept) ops"
  shows "chained sha u None (rows_of u (fst (audit_run sha kept db ops)))"
  using assms(1,2,4)
proof (induction ops arbitrary: db)
  case (Cons op ops)
  have "chained sha u None (rows_of u (fst (audit_step sha kept db op)))"
    using Cons.prems log_chained[OF Cons.prems(1,2) assms(3)] by (cases op) (auto simp: appends_def SweepAuditLog_def)
  then show ?case using Cons.IH audit.step_inv[OF Cons.prems(1)] Cons.prems(3)
    by (simp add: audit.fst_run_Cons del: audit_run.simps)
qed simp

lemma empty_inv: "audit_inv empty_log" "rows_of u empty_log = []"
  by (simp_all add: audit_inv_def empty_log_def rows_of_def)

lemma run_verifies:
  assumes "\<And>x. length (sha x) = 32" "list_all (appends kept) ops"
  shows "VerifyAuditChain sha u (fst (audit_run sha kept empty_log ops)) =
    \<lparr>OK = True, Verified = length (rows_of u (fst (audit_run sha kept empty_log ops))), FirstBadID = 0, BadReason = []\<rparr>"
  using verify_chained[OF run_chained[where u = u, OF empty_inv(1) _ assms]] by (simp add: VerifyAuditChain_def empty_inv)


section \<open>The hashed bytes determine the row\<close>

lemma length_be_bytes [simp]: "length (be_bytes n v) = n"
  by (induction n) simp_all

lemma be_bytes_inject: "be_bytes n v = be_bytes n w \<Longrightarrow> v mod 256 ^ n = w mod 256 ^ n"
proof (induction n)
  case (Suc n)
  have "(v div 256 ^ n) mod 256 = (w div 256 ^ n) mod 256" using Suc.prems arg_cong[of _ _ "of_char :: char \<Rightarrow> nat"] by fastforce
  moreover have "v mod 256 ^ n = w mod 256 ^ n" using Suc by simp
  moreover have "x mod 256 ^ Suc n = 256 ^ n * ((x div 256 ^ n) mod 256) + x mod 256 ^ n" for x :: nat
    by (simp add: mod_mult2_eq mult.commute[of 256])
  ultimately show ?case by simp
qed simp

lemma writeBE64_inject: "writeBE64 v @ x = writeBE64 w @ y \<Longrightarrow> v = w \<and> x = y"
proof -
  assume h: "writeBE64 v @ x = writeBE64 w @ y"
  then have "be_bytes 8 (unat v) = be_bytes 8 (unat w)" "x = y" by (simp_all add: writeBE64_def)
  moreover have "unat z < 2 ^ 64" for z :: "64 word" using unsigned_less[of z] by simp
  ultimately have "unat v = unat w" using be_bytes_inject[of 8 "unat v" "unat w"] by simp
  then show ?thesis using \<open>x = y\<close> by (simp add: word_unat_eq_iff)
qed

lemma writeLenPrefixed_inject:
  assumes "writeLenPrefixed p @ x = writeLenPrefixed q @ y" "length p < 2 ^ 32" "length q < 2 ^ 32"
  shows "p = q \<and> x = y"
proof -
  have "be_bytes 4 (unat (word_of_nat (length p) :: 32 word)) = be_bytes 4 (unat (word_of_nat (length q) :: 32 word))" and pq: "p @ x = q @ y"
    using assms(1) by (simp_all add: writeLenPrefixed_def)
  then have "length p = length q" using be_bytes_inject assms(2,3) by (fastforce simp: unat_of_nat take_bit_eq_mod)
  then show ?thesis using pq by simp
qed

lemma prefixed_marker:
  assumes "length p < 2 ^ 24"
  shows "writeLenPrefixed p @ x \<noteq> auditEdgeMarker # y" "writeLenPrefixed p @ x \<noteq> []"
proof -
  have "unat (word_of_nat (length p) :: 32 word) = length p" using assms by (simp add: unat_of_nat take_bit_eq_mod)
  moreover have "be_bytes 4 v = char_of (v div 256 ^ 3) # be_bytes 3 v" for v using be_bytes.simps(2)[of 3 v] by simp
  ultimately have "hd (writeLenPrefixed p @ x) = CHR 0x00" using assms by (simp add: writeLenPrefixed_def char_of_def)
  then show "writeLenPrefixed p @ x \<noteq> auditEdgeMarker # y" by (auto simp: auditEdgeMarker_def)
  have "length (writeLenPrefixed p @ x) \<noteq> 0" unfolding writeLenPrefixed_def length_append length_be_bytes by simp
  then show "writeLenPrefixed p @ x \<noteq> []" by (metis list.size(3))
qed

text \<open>The columns the hash covers, and the sizes it can tell apart: a \<open>call_path\<close> of \<open>2 ^ 24\<close> bytes could be taken for the
  correlation block.\<close>

definition hashed :: "audit_row \<Rightarrow> string \<times> string \<times> string \<times> string \<times> string option \<times> instant \<times> auditEdge" where
  "hashed r = (al_tool r, text_of (al_peer r), al_status r, text_of (al_error r), al_call_path r, al_created r, row_edge r)"

definition sized :: "audit_row \<Rightarrow> bool" where
  "sized r \<longleftrightarrow> list_all (\<lambda>s. length s < 2 ^ 32) [al_tool r, text_of (al_peer r), al_status r, text_of (al_error r),
       RequestID (row_edge r), Route (row_edge r), MCPMethod (row_edge r), MCPName (row_edge r), ProtocolVersion (row_edge r)] \<and>
     (case al_call_path r of None \<Rightarrow> True | Some p \<Rightarrow> length p < 2 ^ 24) \<and> min_int64 \<le> al_created r \<and> al_created r \<le> max_int64"

definition edge_bytes :: "auditEdge \<Rightarrow> string" where
  "edge_bytes e = (if edge_empty e then []
     else auditEdgeMarker # writeLenPrefixed (RequestID e) @ writeLenPrefixed (Route e) @ writeLenPrefixed (MCPMethod e) @
       writeLenPrefixed (MCPName e) @ writeLenPrefixed (ProtocolVersion e))"

lemma edge_bytes_inject:
  assumes "edge_bytes e = edge_bytes f"
    "list_all (\<lambda>s. length s < 2 ^ 32) [RequestID e, Route e, MCPMethod e, MCPName e, ProtocolVersion e]"
    "list_all (\<lambda>s. length s < 2 ^ 32) [RequestID f, Route f, MCPMethod f, MCPName f, ProtocolVersion f]"
  shows "e = f"
proof (cases "edge_empty e \<or> edge_empty f")
  case True
  then show ?thesis using assms(1) by (auto simp: edge_bytes_def edge_empty_def split: if_splits)
next
  case False
  then have "writeLenPrefixed (RequestID e) @ writeLenPrefixed (Route e) @ writeLenPrefixed (MCPMethod e) @ writeLenPrefixed (MCPName e) @ writeLenPrefixed (ProtocolVersion e) @ []
      = writeLenPrefixed (RequestID f) @ writeLenPrefixed (Route f) @ writeLenPrefixed (MCPMethod f) @ writeLenPrefixed (MCPName f) @ writeLenPrefixed (ProtocolVersion f) @ []"
    using assms(1) by (simp add: edge_bytes_def)
  then have "RequestID e = RequestID f \<and> Route e = Route f \<and> MCPMethod e = MCPMethod f \<and> MCPName e = MCPName f \<and> ProtocolVersion e = ProtocolVersion f"
    using assms(2,3) writeLenPrefixed_inject[of "ProtocolVersion e" "[]" "ProtocolVersion f" "[]"] by (auto dest!: writeLenPrefixed_inject)
  then show ?thesis by (cases e; cases f) simp
qed

definition path_bytes :: "string option \<Rightarrow> string" where "path_bytes p = (case p of None \<Rightarrow> [] | Some s \<Rightarrow> writeLenPrefixed s)"

lemma path_bytes_inject:
  assumes "path_bytes p @ edge_bytes e = path_bytes q @ edge_bytes f"
    "case p of None \<Rightarrow> True | Some s \<Rightarrow> length s < 2 ^ 24" "case q of None \<Rightarrow> True | Some s \<Rightarrow> length s < 2 ^ 24"
  shows "p = q \<and> edge_bytes e = edge_bytes f"
proof (cases p; cases q)
  fix s t assume "p = Some s" "q = Some t"
  then show ?thesis using assms writeLenPrefixed_inject[of s "edge_bytes e" t "edge_bytes f"] by (simp add: path_bytes_def)
next
  fix s assume "p = Some s" "q = None"
  then show ?thesis using assms prefixed_marker[of s "edge_bytes e"] by (auto simp: path_bytes_def edge_bytes_def[of f] split: if_splits)
next
  fix s assume "p = None" "q = Some s"
  then show ?thesis using assms prefixed_marker[of s "edge_bytes f", symmetric] by (auto simp: path_bytes_def edge_bytes_def[of e] split: if_splits)
qed (use assms in \<open>simp add: path_bytes_def\<close>)

lemma created_inject:
  assumes "(word_of_int a :: 64 word) = word_of_int b" "min_int64 \<le> a" "a \<le> max_int64" "min_int64 \<le> b" "b \<le> max_int64"
  shows "a = b"
proof -
  have "(a - b) mod 2 ^ 64 = 0" using assms(1) by (simp add: word_of_int_eq_iff take_bit_eq_mod mod_diff_eq[symmetric, of a])
  then obtain k where "a - b = 2 ^ 64 * k" by (auto simp: mod_eq_0_iff_dvd dvd_def)
  moreover have "\<bar>a - b\<bar> < 2 ^ 64" using assms(2-5) by (simp add: min_int64_def max_int64_def)
  ultimately show ?thesis by (cases "k = 0") (auto simp: abs_mult)
qed

lemma row_bytes_inject:
  assumes eq: "row_bytes u p r = row_bytes u q s" and "length p = length q" "sized r" "sized s"
  shows "p = q \<and> hashed r = hashed s"
proof -
  have bytes: "row_bytes u p r = p @ writeBE64 (word_of_int u) @ writeLenPrefixed (al_tool r) @ writeLenPrefixed (text_of (al_peer r)) @
      writeLenPrefixed (al_status r) @ writeLenPrefixed (text_of (al_error r)) @ writeBE64 (word_of_int (al_created r)) @
      path_bytes (al_call_path r) @ edge_bytes (row_edge r)" for p r
    by (simp add: row_bytes_def audit_bytes_def path_bytes_def edge_bytes_def)
  have sizes: "length (al_tool x) < 2 ^ 32" "length (text_of (al_peer x)) < 2 ^ 32" "length (al_status x) < 2 ^ 32" "length (text_of (al_error x)) < 2 ^ 32"
    if "sized x" for x using that by (simp_all add: sized_def)
  have p: "p = q" using eq assms(2) by (simp add: bytes)
  have "word_of_int (al_created r) = (word_of_int (al_created s) :: 64 word)" and fields: "al_tool r = al_tool s" "text_of (al_peer r) = text_of (al_peer s)"
      "al_status r = al_status s" "text_of (al_error r) = text_of (al_error s)" and rest: "path_bytes (al_call_path r) @ edge_bytes (row_edge r) = path_bytes (al_call_path s) @ edge_bytes (row_edge s)"
    using eq sizes[OF assms(3)] sizes[OF assms(4)] unfolding bytes p by (auto dest!: writeLenPrefixed_inject writeBE64_inject)
  then have "al_created r = al_created s" using created_inject assms(3,4) by (simp add: sized_def)
  moreover have "al_call_path r = al_call_path s" "edge_bytes (row_edge r) = edge_bytes (row_edge s)"
    using path_bytes_inject[OF rest] assms(3,4) by (auto simp: sized_def)
  moreover have "row_edge r = row_edge s" using edge_bytes_inject[of "row_edge r" "row_edge s"] calculation(3) assms(3,4) by (simp add: sized_def)
  ultimately show ?thesis using p fields by (simp add: hashed_def)
qed

section \<open>Tampering\<close>

text \<open>The hash does not collide on the rows of two logs, and gives none of them the hash an empty log has.\<close>

definition hash_apart :: "(string \<Rightarrow> string) \<Rightarrow> int \<Rightarrow> audit_row list \<Rightarrow> audit_row list \<Rightarrow> bool" where
  "hash_apart sha u rs ss \<longleftrightarrow> (\<forall>x. length (sha x) = 32) \<and>
     list_all (\<lambda>r. sha (row_bytes u (text_of (al_prev r)) r) \<noteq> zero_hash) (rs @ ss) \<and>
     list_all (\<lambda>r. list_all (\<lambda>s. sha (row_bytes u (text_of (al_prev r)) r) = sha (row_bytes u (text_of (al_prev s)) s) \<longrightarrow>
       row_bytes u (text_of (al_prev r)) r = row_bytes u (text_of (al_prev s)) s) ss) rs"

definition chain_row :: "audit_row \<Rightarrow> bool" where
  "chain_row r \<longleftrightarrow> al_prev r \<noteq> None \<and> al_entry r \<noteq> None"

lemma length_anchor: "chained sha u None rs \<Longrightarrow> (\<And>x. length (sha x) = 32) \<Longrightarrow> length (anchor (tip None rs)) = 32"
  using chained_tip[of sha u None rs] by (cases "rs = []") (auto simp: anchor_def zero_hash_def)

lemma hash_apart_shrink: "hash_apart sha u (rs @ [r]) (ss @ [s]) \<Longrightarrow> hash_apart sha u rs ss"
  by (simp add: hash_apart_def list_all_iff)

lemma chained_rows: "chained sha u h rs \<Longrightarrow> r \<in> set rs \<Longrightarrow> chain_row r"
  by (induction sha u h rs rule: chained.induct) (auto simp: chain_row_def)

lemma chains_agree:
  assumes "chained sha u None rs" "chained sha u None ss" "hash_apart sha u rs ss" "list_all sized rs" "list_all sized ss"
    and "anchor (tip None rs) = anchor (tip None ss)"
  shows "map hashed rs = map hashed ss"
  using assms
proof (induction rs arbitrary: ss rule: rev_induct)
  case Nil
  show ?case
  proof (cases ss rule: rev_cases)
    case (snoc ss' s)
    then have "sha (row_bytes u (text_of (al_prev s)) s) = zero_hash" using Nil.prems(2,6) by (simp add: chained_snoc anchor_def text_of_def)
    then show ?thesis using Nil.prems(3) snoc by (simp add: hash_apart_def)
  qed simp
next
  case (snoc r rs)
  note r = snoc.prems(1)[unfolded chained_snoc]
  show ?case
  proof (cases ss rule: rev_cases)
    case Nil
    then have "sha (row_bytes u (text_of (al_prev r)) r) = zero_hash" using r snoc.prems(6) by (simp add: anchor_def text_of_def)
    then show ?thesis using snoc.prems(3) by (simp add: hash_apart_def)
  next
    case (snoc ss' s)
    note s = snoc.prems(2)[unfolded snoc chained_snoc]
    have len: "\<And>x. length (sha x) = 32" using snoc.prems(3) by (simp add: hash_apart_def)
    have "sha (row_bytes u (text_of (al_prev r)) r) = sha (row_bytes u (text_of (al_prev s)) s)"
      using r s snoc.prems(6) snoc by (simp add: anchor_def text_of_def)
    then have "row_bytes u (text_of (al_prev r)) r = row_bytes u (text_of (al_prev s)) s"
      using snoc.prems(3) snoc by (simp add: hash_apart_def)
    then have same: "anchor (tip None rs) = anchor (tip None ss') \<and> hashed r = hashed s"
      using row_bytes_inject[of u "anchor (tip None rs)" r "anchor (tip None ss')" s] r s len
        length_anchor[of sha u rs] length_anchor[of sha u ss'] snoc.prems(4,5) snoc
      by (simp add: text_of_def)
    moreover have "hash_apart sha u rs ss'" using snoc.prems(3) snoc by (simp add: hash_apart_shrink)
    ultimately have "map hashed rs = map hashed ss'" using snoc.IH[of ss'] r s snoc.prems(4,5) snoc by simp
    then show ?thesis using same snoc by simp
  qed
qed


section \<open>When an honest log fails\<close>

text \<open>A sweep that removes a user's oldest rows but not all of them leaves a chain that no longer verifies: its first row
  points at a row that is gone.\<close>

lemma chained_prev: "chained sha u h rs \<Longrightarrow> r \<in> set (tl rs) \<Longrightarrow> \<exists>s\<in>set rs. al_prev r = Some (sha (row_bytes u (text_of (al_prev s)) s))"
proof (induction sha u h rs rule: chained.induct)
  case (2 sha u h s rs)
  then have rest: "chained sha u (Some (sha (row_bytes u (anchor h) s))) rs" "al_prev s = Some (anchor h)" by simp_all
  show ?case
  proof (cases "r = hd rs")
    case True
    then have "al_prev r = Some (sha (row_bytes u (anchor h) s))" using rest(1) 2(3) by (cases rs) (auto simp: anchor_def)
    then show ?thesis using rest(2) by (auto simp: text_of_def)
  next
    case False
    then have "r \<in> set (tl rs)" using 2(3) by (cases rs) auto
    then show ?thesis using 2(1)[OF rest(1)] by auto
  qed
qed simp

theorem sweep_breaks_chain:
  assumes "audit_inv db" "chained sha u None (rows_of u db)"
    and "list_all (\<lambda>r. sha (row_bytes u (text_of (al_prev r)) r) \<noteq> zero_hash) (rows_of u db)"
    and "rows_of u db = first # rest" "al_created first < now - retention" "0 < retention"
    and "r # rs = filter (\<lambda>r. \<not> al_created r < now - retention) rest"
  shows "\<not> OK (VerifyAuditChain sha u (snd (SweepAuditLog retention now db))) \<and>
    FirstBadID (VerifyAuditChain sha u (snd (SweepAuditLog retention now db))) = al_id r"
proof -
  let ?db = "snd (SweepAuditLog retention now db)"
  have "rows_of u ?db = filter (\<lambda>r. \<not> al_created r < now - retention) (rows_of u db)"
    using assms(6) rows_of_filter[OF sweep_audit_inv[OF assms(1)], of u retention now] rows_of_filter[OF assms(1), of u]
    by (simp add: SweepAuditLog_def delete_where_def Let_def conj_commute)
  then have rows: "rows_of u ?db = r # rs" using assms(4,5,7) by simp
  have "r \<in> set (filter (\<lambda>r. \<not> al_created r < now - retention) rest)" unfolding assms(7)[symmetric] by simp
  then have "r \<in> set rest" by simp
  then obtain s where s: "s \<in> set (rows_of u db)" "al_prev r = Some (sha (row_bytes u (text_of (al_prev s)) s))"
    using chained_prev[OF assms(2), of r] assms(4) by auto
  then have "sha (row_bytes u (text_of (al_prev s)) s) \<noteq> zero_hash" using assms(3) by (auto simp: list_all_iff)
  moreover have "al_entry r \<noteq> None" using chained_rows[OF assms(2), of r] \<open>r \<in> set rest\<close> assms(4) by (simp add: chain_row_def)
  ultimately show ?thesis using s(2) by (auto simp: VerifyAuditChain_def rows)
qed

text \<open>Two transactions that read the same previous hash, which nothing in the read prevents, fork the chain.\<close>

theorem concurrent_writes_fork:
  assumes "audit_inv db" "chained sha u None (rows_of u db)" "\<And>x. length (sha x) = 32" "kept now = now" "tc_UserID c = u" "tc_UserID d = u"
    and "p = previousAuditHash u db" "db1 = insert_audit sha kept p c edge now db" "db2 = insert_audit sha kept p d edge' now' db1"
    and "previousAuditHash u db1 \<noteq> p"
  shows "\<not> OK (VerifyAuditChain sha u db2)"
proof
  assume ok: "OK (VerifyAuditChain sha u db2)"
  have inv1: "audit_inv db1" unfolding assms(8) by (rule insert_audit_inv[OF assms(1)])
  have c1: "chained sha u None (rows_of u db1)"
    using log_chained[where kept = kept and now = now, OF assms(1-4), of False c edge] assms(5,7) by (simp add: LogToolCall_def assms(8))
  let ?r = "last (al_rows db2)"
  have rows: "rows_of u db2 = rows_of u db1 @ [?r]" using rows_insert[OF inv1, of u sha kept p d edge' now'] assms(6) by (simp add: assms(9))
  have r: "al_prev ?r = Some p" "al_entry ?r \<noteq> None" by (simp_all add: assms(9) insert_audit_def Let_def)
  have "list_all (\<lambda>r. al_prev r \<noteq> None \<and> al_entry r \<noteq> None) (rows_of u db2)"
    using r chained_rows[OF c1] by (auto simp: rows list_all_iff chain_row_def)
  then have "chained sha u None (rows_of u db2)" using ok chained_verify by (auto simp: VerifyAuditChain_def)
  then have "p = anchor (tip None (rows_of u db1))" using r(1) by (simp add: rows chained_snoc)
  then show False using previous_tip[OF c1 assms(3)] assms(10) by simp
qed

text \<open>A column that keeps less of the clock reading than was hashed, such as microseconds, fails verification of the row.\<close>

theorem coarse_clock_fails:
  assumes "rows_of u db = []" "audit_inv db" "tc_UserID c = u" "kept now \<noteq> now" "db1 = LogToolCall sha kept False c edge now db"
    and "min_int64 \<le> now" "now \<le> max_int64" "min_int64 \<le> kept now" "kept now \<le> max_int64"
    and "\<And>t. sha (audit_bytes zero_hash u (Tool c) (PeerRedacted c) (Status c) (ScrubText (ErrMsg c)) (Some (CallPath c)) t edge) =
        sha (audit_bytes zero_hash u (Tool c) (PeerRedacted c) (Status c) (ScrubText (ErrMsg c)) (Some (CallPath c)) now edge) \<Longrightarrow>
      (word_of_int t :: 64 word) = word_of_int now"
  shows "\<not> OK (VerifyAuditChain sha u db1)"
proof -
  let ?r = "last (al_rows db1)"
  have p: "previousAuditHash u db = zero_hash" by (simp add: previousAuditHash_def assms(1))
  have rows: "rows_of u db1 = [?r]" using rows_insert[OF assms(2), of u sha kept zero_hash c edge now] assms(1,3) p
    by (simp add: assms(5) LogToolCall_def)
  have "row_edge ?r = edge" by (cases edge) (simp add: assms(5) LogToolCall_def insert_audit_def Let_def row_edge_def)
  then have "row_bytes u zero_hash ?r = audit_bytes zero_hash u (Tool c) (PeerRedacted c) (Status c) (ScrubText (ErrMsg c)) (Some (CallPath c)) (kept now) edge"
    using assms(3) by (simp add: row_bytes_def assms(5) LogToolCall_def insert_audit_def Let_def)
  moreover have "(word_of_int (kept now) :: 64 word) \<noteq> word_of_int now" using created_inject[of "kept now" now] assms(4,6-9) by blast
  ultimately have "sha (row_bytes u zero_hash ?r) \<noteq> hashAuditEntry sha zero_hash u (Tool c) (PeerRedacted c) (Status c) (ScrubText (ErrMsg c)) (Some (CallPath c)) now edge"
    using assms(10)[of "kept now"] unfolding hashAuditEntry_def by metis
  moreover have "al_entry ?r = Some (hashAuditEntry sha zero_hash u (Tool c) (PeerRedacted c) (Status c) (ScrubText (ErrMsg c)) (Some (CallPath c)) now edge)"
    using p assms(3) by (simp add: assms(5) LogToolCall_def insert_audit_def Let_def)
  moreover have "al_prev ?r = Some zero_hash" using p assms(3) by (simp add: assms(5) LogToolCall_def insert_audit_def Let_def)
  ultimately show ?thesis by (auto simp: VerifyAuditChain_def rows)
qed

section \<open>A sample log\<close>

text \<open>A hash that tells texts of different lengths apart.\<close>

definition demo_sha :: "string \<Rightarrow> string" where "demo_sha x = replicate 32 (char_of (length x))"

definition demo_call :: "string \<Rightarrow> string \<Rightarrow> ToolCall" where
  "demo_call tool reason = \<lparr>tc_UserID = 1, Tool = tool, PeerRedacted = [], Status = ''ok'', ErrMsg = [], CallPath = [], Reason = reason\<rparr>"

definition demo_ops :: "string \<Rightarrow> audit_op list" where
  "demo_ops reason = [Log False (demo_call ''get_dialogs'' reason) no_edge 5, Log True (demo_call ''get_me'' []) no_edge 6,
     Log False (demo_call ''send_message'' []) (no_edge\<lparr>Route := ''direct''\<rparr>) 7]"

definition demo_log :: "string \<Rightarrow> audit_db" where "demo_log reason = fst (audit_run demo_sha id empty_log (demo_ops reason))"

lemma no_edge_simps: "RequestID no_edge = []" "Route no_edge = []" "MCPMethod no_edge = []" "MCPName no_edge = []" "ProtocolVersion no_edge = []"
  by (simp_all add: no_edge_def)

lemma scrub_empty: "ScrubText [] = []"
  by (simp add: scrub_eval)

lemma length_demo_sha: "length (demo_sha x) = 32"
  by (simp add: demo_sha_def)

lemma demo_appends: "list_all (appends id) (demo_ops reason)"
  by (simp add: demo_ops_def appends_def)

lemma demo_rows: "length (rows_of 1 (demo_log reason)) = 2"
  by (simp add: demo_log_def demo_ops_def demo_call_def LogToolCall_def insert_audit_def Let_def rows_of_def empty_log_def)


definition demo_first :: "string \<Rightarrow> audit_row" where
  "demo_first reason = \<lparr>al_id = 1, al_user = 1, al_tool = ''get_dialogs'', al_peer = None, al_status = ''ok'', al_error = None, al_created = 5,
     al_prev = Some zero_hash, al_entry = Some (replicate 32 (CHR ''Q'')), al_call_path = Some [], al_edge_id = None, al_edge_route = None,
     al_mcp_method = None, al_mcp_name = None, al_protocol = None, al_reason = nullable_text reason\<rparr>"

definition demo_second :: audit_row where
  "demo_second = \<lparr>al_id = 2, al_user = 1, al_tool = ''send_message'', al_peer = None, al_status = ''ok'', al_error = None, al_created = 7,
     al_prev = Some (replicate 32 (CHR ''Q'')), al_entry = Some (replicate 32 (CHR ''m'')), al_call_path = Some [], al_edge_id = None,
     al_edge_route = Some ''direct'', al_mcp_method = None, al_mcp_name = None, al_protocol = None, al_reason = None\<rparr>"

lemma length_parts: "length (writeBE64 v) = 8" "length (writeLenPrefixed p) = 4 + length p"
  by (simp_all add: writeBE64_def writeLenPrefixed_def)

lemma demo_bytes:
  "demo_sha (audit_bytes zero_hash 1 ''get_dialogs'' [] ''ok'' [] (Some []) 5 no_edge) = replicate 32 (CHR ''Q'')"
  "demo_sha (audit_bytes (replicate 32 (CHR ''Q'')) 1 ''send_message'' [] ''ok'' [] (Some []) 7 (no_edge\<lparr>Route := ''direct''\<rparr>)) = replicate 32 (CHR ''m'')"
  by (simp_all add: demo_sha_def audit_bytes_def length_parts zero_hash_def edge_empty_def no_edge_def char_of_def bit_Suc_0_iff)

lemma demo_log_rows: "demo_log reason = \<lparr>al_rows = [demo_first reason, demo_second], al_seq = 2\<rparr>"
  by (simp add: demo_log_def demo_ops_def demo_call_def LogToolCall_def insert_audit_def Let_def empty_log_def rows_of_def previousAuditHash_def
      hashAuditEntry_def scrub_empty demo_bytes demo_first_def demo_second_def nullable_text_def no_edge_simps)

lemma demo_rows_of: "rows_of 1 (demo_log reason) = [demo_first reason, demo_second]"
  by (simp add: demo_log_rows rows_of_def demo_first_def demo_second_def)

lemma demo_row_bytes:
  "demo_sha (row_bytes 1 zero_hash (demo_first reason)) = replicate 32 (CHR ''Q'')" "text_of (al_prev (demo_first reason)) = zero_hash"
  "demo_sha (row_bytes 1 (replicate 32 (CHR ''Q'')) demo_second) = replicate 32 (CHR ''m'')" "text_of (al_prev demo_second) = replicate 32 (CHR ''Q'')"
  "row_bytes 1 zero_hash (demo_first reason) = row_bytes 1 zero_hash (demo_first reason')"
  using demo_bytes
  by (simp_all add: row_bytes_def demo_first_def demo_second_def text_of_def row_edge_def no_edge_def)


end
